(* ===== verification/Prelude.thy ===== *)
theory Prelude
  imports Main "HOL-Library.AList" "HOL-Library.Multiset" "HOL-Library.Sublist"
    "HOL-Library.Char_ord" "HOL-Library.List_Lexorder"
begin

text \<open>
  Shared ground of the development: the collections of facts the component theories add to,
  Go's maps as association lists with distinct keys, and generic facts on lists, sums of byte
  counts and stable sorting.
\<close>

named_theorems go_string_simps \<open>evaluation and algebra of the Go string operations\<close>
named_theorems inv_intros \<open>preservation of a component invariant by one of its operations\<close>
named_theorems conserve_simps \<open>conservation of physical records by an assembler operation\<close>

subsection \<open>Go maps\<close>

text \<open>
  A Go map is an association list whose keys are distinct; the list order stands for one
  iteration order of the runtime. Insertion is \<open>AList.update\<close>, \<open>delete\<close> is
  \<open>AList.delete\<close> and lookup is \<open>map_of\<close>. Where the source ranges over a map, the
  component proves that the outcome does not depend on the order.
\<close>

type_synonym ('k, 'v) gomap = "('k \<times> 'v) list"

definition gm_keys :: "('k, 'v) gomap \<Rightarrow> 'k list" where
  "gm_keys m = map fst m"

definition gm_wf :: "('k, 'v) gomap \<Rightarrow> bool" where
  "gm_wf m \<longleftrightarrow> distinct (map fst m)"

lemma gm_wf_Nil [simp]: "gm_wf []"
  by (simp add: gm_wf_def)

lemma gm_wf_Cons [simp]: "gm_wf ((k, v) # m) \<longleftrightarrow> k \<notin> fst ` set m \<and> gm_wf m"
  by (simp add: gm_wf_def)

lemma gm_wf_update [simp]: "gm_wf m \<Longrightarrow> gm_wf (AList.update k v m)"
  by (simp add: gm_wf_def distinct_update)

lemma gm_wf_delete [simp]: "gm_wf m \<Longrightarrow> gm_wf (AList.delete k m)"
  by (simp add: gm_wf_def distinct_delete)

lemma gm_wf_filter [simp]: "gm_wf m \<Longrightarrow> gm_wf (filter P m)"
  by (simp add: gm_wf_def distinct_map_filter)

lemma gm_wf_map_value [simp]: "gm_wf (map (\<lambda>(k, v). (k, f k v)) m) = gm_wf m"
  by (simp add: gm_wf_def comp_def split_def)

lemma map_of_None_notin: "map_of m k = None \<longleftrightarrow> k \<notin> fst ` set m"
  by (rule map_of_eq_None_iff)

lemma gm_wf_map_of: "gm_wf m \<Longrightarrow> (k, v) \<in> set m \<longleftrightarrow> map_of m k = Some v"
  by (auto simp: gm_wf_def map_of_is_SomeI dest: map_of_SomeD)

lemma update_fresh: "k \<notin> fst ` set m \<Longrightarrow> AList.update k v m = m @ [(k, v)]"
  by (induction m) auto

lemma update_append_fresh: "k \<notin> fst ` set m \<Longrightarrow> AList.update k v (m @ [(k, w)]) = m @ [(k, v)]"
  by (induction m) auto

lemma delete_notin: "k \<notin> fst ` set m \<Longrightarrow> AList.delete k m = m"
  by (simp add: delete_id)

lemma set_delete_wf: "gm_wf m \<Longrightarrow> set (AList.delete k m) = {e \<in> set m. fst e \<noteq> k}"
  by (auto simp: AList.delete_eq)

lemma set_update_wf:
  "gm_wf m \<Longrightarrow> set (AList.update k v m) = insert (k, v) {e \<in> set m. fst e \<noteq> k}"
  by (induction m) force+

lemma mset_split_key:
  assumes "gm_wf m" and "map_of m k = Some v"
  shows "mset m = add_mset (k, v) (mset (AList.delete k m))"
  using assms
proof (induction m)
  case Nil
  then show ?case by simp
next
  case (Cons e m)
  then show ?case
    by (cases e) (auto simp: delete_notin gm_wf_def split: if_splits)
qed

lemma mset_update_key:
  assumes "gm_wf m"
  shows "mset (AList.update k v m) = add_mset (k, v) (mset (AList.delete k m))"
  using assms
proof (induction m)
  case Nil
  then show ?case by simp
next
  case (Cons e m)
  then show ?case
    by (cases e) (auto simp: delete_notin)
qed

lemma length_delete_key:
  assumes "gm_wf m" and "map_of m k = Some v"
  shows "length m = Suc (length (AList.delete k m))"
  using mset_split_key [OF assms] by (metis size_mset size_add_mset)

lemma length_update_fresh:
  "map_of m k = None \<Longrightarrow> length (AList.update k v m) = Suc (length m)"
  by (simp add: update_fresh map_of_None_notin)

lemma length_update_present:
  assumes "map_of m k \<noteq> None"
  shows "length (AList.update k v m) = length m"
  using assms by (induction m) auto

lemma map_fst_update_present:
  "k \<in> fst ` set m \<Longrightarrow> map fst (AList.update k v m) = map fst m"
  by (induction m) auto

subsection \<open>Sums over a list\<close>

lemma sum_list_mset_cong:
  fixes f :: "'a \<Rightarrow> int"
  shows "mset xs = mset ys \<Longrightarrow> sum_list (map f xs) = sum_list (map f ys)"
  by (metis mset_map sum_mset_sum_list)

lemma sum_list_nonneg_ge:
  fixes f :: "'a \<Rightarrow> int"
  assumes "\<And>x. x \<in> set xs \<Longrightarrow> 0 \<le> f x" and "y \<in> set xs"
  shows "f y \<le> sum_list (map f xs)"
  using assms
proof (induction xs)
  case Nil
  then show ?case by simp
next
  case (Cons x xs)
  have nn: "0 \<le> sum_list (map f xs)"
    using Cons.prems(1) by (intro sum_list_nonneg) auto
  show ?case
  proof (cases "y = x")
    case True
    with nn show ?thesis by simp
  next
    case False
    with Cons have "f y \<le> sum_list (map f xs)" by simp
    moreover have "0 \<le> f x" using Cons.prems(1) by simp
    ultimately show ?thesis by simp
  qed
qed

subsection \<open>Stable sorting\<close>

text \<open>
  \<open>sort.SliceStable\<close> with a strict comparison of keys is \<open>sort_key\<close>, the stable
  insertion sort of the library.
\<close>

lemma sort_key_unique:
  assumes "mset xs = mset ys" and "inj_on f (set xs)"
  shows "sort_key f xs = sort_key f ys"
proof (rule sort_key_inj_key_eq)
  show "mset xs = mset (sort_key f ys)" using assms(1) by simp
qed (use assms in auto)

end
