(* ===== verification/GoStrings.thy ===== *)
theory GoStrings
  imports Prelude
begin

text \<open>
  The part of Go's string, byte, decimal, hexadecimal and UTF-8 library the program uses. A Go
  string is a byte sequence, so it is a \<open>string\<close> of 8-bit characters; \<open>byte\<close> reads one.
  Case folding is exact wherever the result is compared with an ASCII constant, which is how
  the program uses it: besides the ASCII letters it maps the only non-ASCII runes whose image
  is ASCII (KELVIN SIGN and, for \<open>ToLower\<close>, DOTTED CAPITAL I, for \<open>EqualFold\<close>, LONG S).
\<close>

subsection \<open>Bytes and substrings\<close>

definition byte :: "char \<Rightarrow> nat" where
  "byte c = of_char c"

definition isDigit :: "char \<Rightarrow> bool" where
  "isDigit c \<longleftrightarrow> 48 \<le> byte c \<and> byte c \<le> 57"

lemma byte_less [simp]: "byte c < 256"
  by (metis byte_def of_char_mod_256 mod_less_divisor zero_less_numeral)

lemma byte_inj [simp]: "byte c = byte d \<longleftrightarrow> c = d"
  by (simp add: byte_def)

text \<open>\<open>strings.Index\<close>, \<open>strings.IndexByte\<close>, \<open>strings.LastIndexByte\<close>: None stands for -1.\<close>

fun indexOf :: "string \<Rightarrow> string \<Rightarrow> nat option" where
  "indexOf pat [] = (if pat = [] then Some 0 else None)"
| "indexOf pat (c # cs) =
     (if prefix pat (c # cs) then Some 0 else map_option Suc (indexOf pat cs))"

fun indexByte :: "char \<Rightarrow> string \<Rightarrow> nat option" where
  "indexByte b [] = None"
| "indexByte b (c # cs) = (if c = b then Some 0 else map_option Suc (indexByte b cs))"

fun lastIndexByte :: "char \<Rightarrow> string \<Rightarrow> nat option" where
  "lastIndexByte b [] = None"
| "lastIndexByte b (c # cs) =
     (case lastIndexByte b cs of
        Some i \<Rightarrow> Some (Suc i)
      | None \<Rightarrow> if c = b then Some 0 else None)"

definition hasPrefix :: "string \<Rightarrow> string \<Rightarrow> bool" where
  "hasPrefix s p \<longleftrightarrow> prefix p s"

definition hasSuffix :: "string \<Rightarrow> string \<Rightarrow> bool" where
  "hasSuffix s p \<longleftrightarrow> suffix p s"

definition trimPrefix :: "string \<Rightarrow> string \<Rightarrow> string" where
  "trimPrefix s p = (if prefix p s then drop (length p) s else s)"

text \<open>\<open>strings.Split\<close> on a one-byte separator: always at least one part.\<close>

fun splitByte :: "char \<Rightarrow> string \<Rightarrow> string list" where
  "splitByte b [] = [[]]"
| "splitByte b (c # cs) =
     (if c = b then [] # splitByte b cs
      else case splitByte b cs of
             [] \<Rightarrow> [[c]]
           | p # ps \<Rightarrow> (c # p) # ps)"

lemma indexByte_None [go_string_simps]: "indexByte b s = None \<longleftrightarrow> b \<notin> set s"
  by (induction s) auto

lemma indexByte_Some:
  "indexByte b s = Some i \<longleftrightarrow> i < length s \<and> s ! i = b \<and> b \<notin> set (take i s)"
proof (induction s arbitrary: i)
  case Nil
  then show ?case by simp
next
  case (Cons c s)
  then show ?case by (cases i) (auto simp: nth_Cons')
qed

lemma indexByte_append:
  "b \<notin> set xs \<Longrightarrow> indexByte b (xs @ b # ys) = Some (length xs)"
  by (induction xs) auto

lemma indexOf_Some:
  "indexOf pat s = Some i \<Longrightarrow> i \<le> length s \<and> take (length pat) (drop i s) = pat"
proof (induction s arbitrary: i)
  case Nil
  then show ?case by (auto split: if_splits)
next
  case (Cons c s)
  then show ?case by (auto split: if_splits simp: prefix_def)
qed

lemma indexOf_Some_length: "indexOf pat s = Some i \<Longrightarrow> i + length pat \<le> length s"
proof (induction s arbitrary: i)
  case Nil
  then show ?case by (auto split: if_splits)
next
  case (Cons c s)
  then show ?case by (auto split: if_splits dest: prefix_length_le)
qed

lemma lastIndexByte_Some:
  "lastIndexByte b s = Some i \<Longrightarrow> i < length s \<and> s ! i = b \<and> b \<notin> set (drop (Suc i) s)"
proof (induction s arbitrary: i)
  case Nil
  then show ?case by simp
next
  case (Cons c s)
  show ?case
  proof (cases "lastIndexByte b s")
    case None
    have "b \<notin> set s"
      using None by (induction s) (auto split: option.splits if_splits)
    with None Cons.prems show ?thesis by (auto split: if_splits)
  next
    case (Some j)
    with Cons show ?thesis by auto
  qed
qed

lemma splitByte_notNil [simp]: "splitByte b s \<noteq> []"
  by (induction s) (auto split: list.splits)

fun joinByte :: "char \<Rightarrow> string list \<Rightarrow> string" where
  "joinByte b [] = []"
| "joinByte b [p] = p"
| "joinByte b (p # q # ps) = p @ b # joinByte b (q # ps)"

lemma join_split: "joinByte b (splitByte b s) = s"
proof (induction s)
  case Nil
  then show ?case by simp
next
  case (Cons c s)
  obtain p ps where sp: "splitByte b s = p # ps"
    by (cases "splitByte b s") auto
  with Cons show ?case
    by (cases ps) auto
qed

lemma splitByte_parts: "p \<in> set (splitByte b s) \<Longrightarrow> b \<notin> set p"
proof (induction s arbitrary: p)
  case Nil
  then show ?case by simp
next
  case (Cons c s)
  obtain q qs where sp: "splitByte b s = q # qs"
    by (cases "splitByte b s") auto
  with Cons show ?case by (auto split: if_splits)
qed

lemma splitByte_sep: "b \<notin> set p \<Longrightarrow> splitByte b (p @ b # s) = p # splitByte b s"
  by (induction p) auto

lemma splitByte_single: "b \<notin> set p \<Longrightarrow> splitByte b p = [p]"
  by (induction p) auto

subsection \<open>White space and case\<close>

text \<open>The UTF-8 encodings of the runes \<open>unicode.IsSpace\<close> accepts.\<close>

definition spaceEncodings :: "string list" where
  "spaceEncodings =
     [[CHR 0x09], [CHR 0x0A], [CHR 0x0B], [CHR 0x0C], [CHR 0x0D], [CHR 0x20],
      [CHR 0xC2, CHR 0x85], [CHR 0xC2, CHR 0xA0], [CHR 0xE1, CHR 0x9A, CHR 0x80],
      [CHR 0xE2, CHR 0x80, CHR 0x80], [CHR 0xE2, CHR 0x80, CHR 0x81],
      [CHR 0xE2, CHR 0x80, CHR 0x82], [CHR 0xE2, CHR 0x80, CHR 0x83],
      [CHR 0xE2, CHR 0x80, CHR 0x84], [CHR 0xE2, CHR 0x80, CHR 0x85],
      [CHR 0xE2, CHR 0x80, CHR 0x86], [CHR 0xE2, CHR 0x80, CHR 0x87],
      [CHR 0xE2, CHR 0x80, CHR 0x88], [CHR 0xE2, CHR 0x80, CHR 0x89],
      [CHR 0xE2, CHR 0x80, CHR 0x8A], [CHR 0xE2, CHR 0x80, CHR 0xA8],
      [CHR 0xE2, CHR 0x80, CHR 0xA9], [CHR 0xE2, CHR 0x80, CHR 0xAF],
      [CHR 0xE2, CHR 0x81, CHR 0x9F], [CHR 0xE3, CHR 0x80, CHR 0x80]]"

definition spaceLen :: "string \<Rightarrow> nat" where
  "spaceLen s = (case find (\<lambda>w. prefix w s) spaceEncodings of None \<Rightarrow> 0 | Some w \<Rightarrow> length w)"

definition revSpaceLen :: "string \<Rightarrow> nat" where
  "revSpaceLen s =
     (case find (\<lambda>w. prefix (rev w) s) spaceEncodings of None \<Rightarrow> 0 | Some w \<Rightarrow> length w)"

lemma find_Some_prefix_length:
  "find (\<lambda>w. prefix (f w) s) ws = Some w \<Longrightarrow> prefix (f w) s"
  by (metis (mono_tags, lifting) find_Some_iff2)

function trimLeftSpace :: "string \<Rightarrow> string" where
  "trimLeftSpace s =
     (if 0 < spaceLen s \<and> s \<noteq> [] then trimLeftSpace (drop (spaceLen s) s) else s)"
  by pat_completeness auto
termination
  by (relation "measure length") auto

function trimRevSpace :: "string \<Rightarrow> string" where
  "trimRevSpace s =
     (if 0 < revSpaceLen s \<and> s \<noteq> [] then trimRevSpace (drop (revSpaceLen s) s) else s)"
  by pat_completeness auto
termination
  by (relation "measure length") auto

declare trimLeftSpace.simps [simp del]
declare trimRevSpace.simps [simp del]

definition trimSpace :: "string \<Rightarrow> string" where
  "trimSpace s = rev (trimRevSpace (rev (trimLeftSpace s)))"

text \<open>ASCII lower case, and the two folding functions.\<close>

definition lowerByte :: "char \<Rightarrow> char" where
  "lowerByte c = (if 65 \<le> byte c \<and> byte c \<le> 90 then char_of (byte c + 32) else c)"

fun toLower :: "string \<Rightarrow> string" where
  "toLower [] = []"
| "toLower (c # cs) =
     (if c = CHR 0xC4 \<and> prefix [CHR 0xB0] cs then CHR ''i'' # toLower (drop 1 cs)
      else if c = CHR 0xE2 \<and> prefix [CHR 0x84, CHR 0xAA] cs then CHR ''k'' # toLower (drop 2 cs)
      else lowerByte c # toLower cs)"

fun foldCase :: "string \<Rightarrow> string" where
  "foldCase [] = []"
| "foldCase (c # cs) =
     (if c = CHR 0xC5 \<and> prefix [CHR 0xBF] cs then CHR ''s'' # foldCase (drop 1 cs)
      else if c = CHR 0xE2 \<and> prefix [CHR 0x84, CHR 0xAA] cs then CHR ''k'' # foldCase (drop 2 cs)
      else lowerByte c # foldCase cs)"

text \<open>\<open>strings.EqualFold\<close> against an ASCII constant.\<close>

definition equalFold :: "string \<Rightarrow> string \<Rightarrow> bool" where
  "equalFold s t \<longleftrightarrow> foldCase s = foldCase t"

subsection \<open>Decimal and hexadecimal numbers\<close>

definition isDecimal :: "string \<Rightarrow> bool" where
  "isDecimal s \<longleftrightarrow> s \<noteq> [] \<and> list_all isDigit s"

definition decimalValue :: "string \<Rightarrow> int" where
  "decimalValue s = foldl (\<lambda>n c. 10 * n + (int (byte c) - 48)) 0 s"

text \<open>\<open>strconv.ParseUint(s, 10, bits)\<close>: empty, non-digit and out-of-range inputs fail.\<close>

definition parseUint10 :: "nat \<Rightarrow> string \<Rightarrow> int option" where
  "parseUint10 bits s =
     (if isDecimal s \<and> decimalValue s < 2 ^ bits then Some (decimalValue s) else None)"

text \<open>\<open>strconv.ParseInt(s, 10, 64)\<close> and \<open>strconv.Atoi\<close> on a 64-bit platform.\<close>

definition parseInt10 :: "string \<Rightarrow> int option" where
  "parseInt10 s =
     (case s of
        [] \<Rightarrow> None
      | c # cs \<Rightarrow>
          if c = CHR ''-'' then
            (if isDecimal cs \<and> decimalValue cs \<le> 2 ^ 63 then Some (- decimalValue cs) else None)
          else
            let ds = (if c = CHR ''+'' then cs else s)
            in if isDecimal ds \<and> decimalValue ds < 2 ^ 63 then Some (decimalValue ds) else None)"

abbreviation atoi :: "string \<Rightarrow> int option" where
  "atoi \<equiv> parseInt10"

definition hexDigitValue :: "char \<Rightarrow> nat option" where
  "hexDigitValue c =
     (let b = byte c in
      if 48 \<le> b \<and> b \<le> 57 then Some (b - 48)
      else if 97 \<le> b \<and> b \<le> 102 then Some (b - 87)
      else if 65 \<le> b \<and> b \<le> 70 then Some (b - 55)
      else None)"

definition hexDigit :: "nat \<Rightarrow> char" where
  "hexDigit n = (if n < 10 then char_of (48 + n) else char_of (87 + n))"

text \<open>\<open>hex.EncodeToString\<close> and \<open>hex.DecodeString\<close>.\<close>

fun hexEncode :: "string \<Rightarrow> string" where
  "hexEncode [] = []"
| "hexEncode (c # cs) = hexDigit (byte c div 16) # hexDigit (byte c mod 16) # hexEncode cs"

fun hexDecode :: "string \<Rightarrow> string option" where
  "hexDecode [] = Some []"
| "hexDecode [c] = None"
| "hexDecode (c # d # cs) =
     (case (hexDigitValue c, hexDigitValue d) of
        (Some x, Some y) \<Rightarrow> map_option (\<lambda>r. char_of (16 * x + y) # r) (hexDecode cs)
      | _ \<Rightarrow> None)"

text \<open>\<open>strconv.ParseUint(s, 16, bits)\<close>.\<close>

fun hexValue :: "int \<Rightarrow> string \<Rightarrow> int option" where
  "hexValue n [] = Some n"
| "hexValue n (c # cs) =
     (case hexDigitValue c of None \<Rightarrow> None | Some d \<Rightarrow> hexValue (16 * n + int d) cs)"

definition parseUint16 :: "nat \<Rightarrow> string \<Rightarrow> int option" where
  "parseUint16 bits s =
     (if s = [] then None
      else case hexValue 0 s of
             None \<Rightarrow> None
           | Some n \<Rightarrow> if n < 2 ^ bits then Some n else None)"

text \<open>\<open>strconv.Itoa\<close> of a non-negative number.\<close>

function natDigits :: "nat \<Rightarrow> string" where
  "natDigits n =
     (if n < 10 then [char_of (48 + n)] else natDigits (n div 10) @ [char_of (48 + n mod 10)])"
  by pat_completeness auto
termination
  by (relation "measure id") auto

declare natDigits.simps [simp del]

definition itoa :: "int \<Rightarrow> string" where
  "itoa i = (if i < 0 then CHR ''-'' # natDigits (nat (- i)) else natDigits (nat i))"

lemma byte_char_of: "n < 256 \<Longrightarrow> byte (char_of n) = n"
  by (simp add: byte_def)

lemma hexDigitValue_hexDigit [go_string_simps]: "n < 16 \<Longrightarrow> hexDigitValue (hexDigit n) = Some n"
  by (auto simp: hexDigitValue_def hexDigit_def byte_char_of Let_def)

lemma hexDecode_hexEncode [go_string_simps]: "hexDecode (hexEncode s) = Some s"
proof (induction s)
  case Nil
  then show ?case by simp
next
  case (Cons c s)
  have "byte c div 16 < 16" using byte_less [of c] by (simp add: div_less_iff_less_mult)
  moreover have "char_of (16 * (byte c div 16) + byte c mod 16) = c"
    by (simp add: byte_def)
  ultimately show ?case
    using Cons by (simp add: hexDigitValue_hexDigit)
qed

lemma length_hexEncode [simp]: "length (hexEncode s) = 2 * length s"
  by (induction s) auto

lemma hexEncode_inj: "hexEncode s = hexEncode t \<Longrightarrow> s = t"
  by (metis hexDecode_hexEncode option.inject)

lemma hexDecode_length: "hexDecode s = Some t \<Longrightarrow> length s = 2 * length t"
  by (induction s arbitrary: t rule: hexDecode.induct) (auto split: option.splits)

lemma isDigit_digit: "(n::nat) < 10 \<Longrightarrow> isDigit (char_of (48 + n))"
  by (simp add: isDigit_def byte_char_of)

lemma natDigits_isDecimal: "isDecimal (natDigits n)"
proof (induction n rule: natDigits.induct)
  case (1 n)
  show ?case
    using "1" isDigit_digit [of n] isDigit_digit [of "n mod 10"]
    by (cases "n < 10") (auto simp: isDecimal_def natDigits.simps [of n])
qed

lemma decimalValue_snoc: "decimalValue (s @ [c]) = 10 * decimalValue s + (int (byte c) - 48)"
  by (simp add: decimalValue_def)

lemma decimalValue_natDigits: "decimalValue (natDigits n) = int n"
proof (induction n rule: natDigits.induct)
  case (1 n)
  show ?case
  proof (cases "n < 10")
    case True
    then show ?thesis
      by (simp add: natDigits.simps [of n] decimalValue_def byte_char_of)
  next
    case False
    then show ?thesis
      using "1" by (simp add: natDigits.simps [of n] decimalValue_snoc byte_char_of zdiv_int zmod_int)
  qed
qed

lemma parseUint10_natDigits [go_string_simps]:
  "int n < 2 ^ bits \<Longrightarrow> parseUint10 bits (natDigits n) = Some (int n)"
  by (simp add: parseUint10_def natDigits_isDecimal decimalValue_natDigits)

lemma decimalValue_nonneg: "list_all isDigit s \<Longrightarrow> 0 \<le> decimalValue s"
  by (induction s rule: rev_induct)
     (auto simp: decimalValue_snoc isDigit_def list_all_append decimalValue_def [of "[]"])

lemma parseUint10_bound: "parseUint10 bits s = Some n \<Longrightarrow> 0 \<le> n \<and> n < 2 ^ bits"
  by (auto simp: parseUint10_def isDecimal_def intro: decimalValue_nonneg split: if_splits)

subsection \<open>UTF-8\<close>

definition contByte :: "char \<Rightarrow> bool" where
  "contByte c \<longleftrightarrow> 128 \<le> byte c \<and> byte c \<le> 191"

text \<open>
  \<open>utf8.DecodeRuneInString\<close>: the rune and its width, or None where Go returns
  \<open>RuneError\<close> with width one.
\<close>

definition decodeRune :: "string \<Rightarrow> (nat \<times> nat) option" where
  "decodeRune s =
     (case s of
        [] \<Rightarrow> None
      | c # cs \<Rightarrow>
        let b = byte c in
        if b < 128 then Some (b, 1)
        else if 194 \<le> b \<and> b \<le> 223 then
          (case cs of
             c1 # _ \<Rightarrow> if contByte c1 then Some ((b - 192) * 64 + (byte c1 - 128), 2) else None
           | _ \<Rightarrow> None)
        else if 224 \<le> b \<and> b \<le> 239 then
          (case cs of
             c1 # c2 # _ \<Rightarrow>
               if contByte c1 \<and> contByte c2
                  \<and> (b = 224 \<longrightarrow> 160 \<le> byte c1) \<and> (b = 237 \<longrightarrow> byte c1 \<le> 159)
               then Some ((b - 224) * 4096 + (byte c1 - 128) * 64 + (byte c2 - 128), 3) else None
           | _ \<Rightarrow> None)
        else if 240 \<le> b \<and> b \<le> 244 then
          (case cs of
             c1 # c2 # c3 # _ \<Rightarrow>
               if contByte c1 \<and> contByte c2 \<and> contByte c3
                  \<and> (b = 240 \<longrightarrow> 144 \<le> byte c1) \<and> (b = 244 \<longrightarrow> byte c1 \<le> 143)
               then Some ((b - 240) * 262144 + (byte c1 - 128) * 4096
                          + (byte c2 - 128) * 64 + (byte c3 - 128), 4) else None
           | _ \<Rightarrow> None)
        else None)"

lemma decodeRune_width: "decodeRune s = Some (r, w) \<Longrightarrow> 0 < w \<and> w \<le> length s"
  by (auto simp: decodeRune_def Let_def split: list.splits if_splits)

function utf8Valid :: "string \<Rightarrow> bool" where
  "utf8Valid s =
     (if s = [] then True
      else case decodeRune s of
             None \<Rightarrow> False
           | Some (r, w) \<Rightarrow> utf8Valid (drop w s))"
  by pat_completeness auto
termination
  by (relation "measure length") (auto dest: decodeRune_width)

declare utf8Valid.simps [simp del]

lemma utf8Valid_Nil [simp]: "utf8Valid []"
  by (simp add: utf8Valid.simps)

lemma utf8Valid_ascii_Cons: "byte c < 128 \<Longrightarrow> utf8Valid (c # s) = utf8Valid s"
  by (subst utf8Valid.simps) (simp add: decodeRune_def Let_def)

lemma utf8Valid_ascii [go_string_simps]: "list_all (\<lambda>c. byte c < 128) s \<Longrightarrow> utf8Valid s"
  by (induction s) (auto simp: utf8Valid_ascii_Cons)

subsection \<open>Quoting\<close>

text \<open>
  \<open>strconv.Quote\<close>. Which runes beyond ASCII are printable is a table of the Go release's
  Unicode version, so it is the argument \<open>pr\<close>; the ASCII part is exact.
\<close>

definition printableRune :: "(nat \<Rightarrow> bool) \<Rightarrow> nat \<Rightarrow> bool" where
  "printableRune pr r = (if r < 128 then 32 \<le> r \<and> r \<le> 126 else pr r)"

definition escapeRune :: "(nat \<Rightarrow> bool) \<Rightarrow> nat \<Rightarrow> string \<Rightarrow> string" where
  "escapeRune pr r enc =
     (if r = 34 \<or> r = 92 then CHR 0x5C # enc
      else if printableRune pr r then enc
      else if r = 7 then [CHR 0x5C, CHR ''a'']
      else if r = 8 then [CHR 0x5C, CHR ''b'']
      else if r = 12 then [CHR 0x5C, CHR ''f'']
      else if r = 10 then [CHR 0x5C, CHR ''n'']
      else if r = 13 then [CHR 0x5C, CHR ''r'']
      else if r = 9 then [CHR 0x5C, CHR ''t'']
      else if r = 11 then [CHR 0x5C, CHR ''v'']
      else if r < 32 \<or> r = 127 then
        [CHR 0x5C, CHR ''x'', hexDigit (r div 16), hexDigit (r mod 16)]
      else if r < 65536 then
        [CHR 0x5C, CHR ''u'', hexDigit (r div 4096), hexDigit (r div 256 mod 16),
         hexDigit (r div 16 mod 16), hexDigit (r mod 16)]
      else
        [CHR 0x5C, CHR ''U'', CHR ''0'', CHR ''0'', hexDigit (r div 1048576),
         hexDigit (r div 65536 mod 16), hexDigit (r div 4096 mod 16), hexDigit (r div 256 mod 16),
         hexDigit (r div 16 mod 16), hexDigit (r mod 16)])"

function quoteBody :: "(nat \<Rightarrow> bool) \<Rightarrow> string \<Rightarrow> string" where
  "quoteBody pr s =
     (if s = [] then []
      else case decodeRune s of
             None \<Rightarrow> [CHR 0x5C, CHR ''x'', hexDigit (byte (hd s) div 16), hexDigit (byte (hd s) mod 16)]
                     @ quoteBody pr (tl s)
           | Some (r, w) \<Rightarrow> escapeRune pr r (take w s) @ quoteBody pr (drop w s))"
  by pat_completeness auto
termination
  by (relation "measure (\<lambda>(pr, s). length s)") (auto dest: decodeRune_width)

declare quoteBody.simps [simp del]

definition goQuote :: "(nat \<Rightarrow> bool) \<Rightarrow> string \<Rightarrow> string" where
  "goQuote pr s = CHR 0x22 # quoteBody pr s @ [CHR 0x22]"

text \<open>A printable ASCII string without quotes and backslashes is quoted as it stands.\<close>

definition plainByte :: "char \<Rightarrow> bool" where
  "plainByte c \<longleftrightarrow> 32 \<le> byte c \<and> byte c \<le> 126 \<and> byte c \<noteq> 34 \<and> byte c \<noteq> 92"

lemma quoteBody_plain: "list_all plainByte s \<Longrightarrow> quoteBody pr s = s"
proof (induction s)
  case Nil
  then show ?case by (simp add: quoteBody.simps)
next
  case (Cons c s)
  then have p: "plainByte c" by simp
  then have "decodeRune (c # s) = Some (byte c, 1)"
    by (simp add: decodeRune_def plainByte_def)
  with p Cons show ?case
    by (subst quoteBody.simps) (simp add: escapeRune_def printableRune_def plainByte_def)
qed

end
