(* ===== verification/AuditTypes.thy ===== *)
theory AuditTypes
  imports GoStrings
begin

text \<open>
  The data shared by the record parser, the assembler and the normaliser
  (internal/audit/parser.go, assembler.go): parsed fields, physical records, source positions,
  correlation keys and assembled events. Field names carry a short prefix of their struct,
  because record selectors are global constants here.
\<close>

text \<open>\<open>type Field struct\<close>.\<close>

record field =
  fKey :: string
  fValue :: string
  fQuoted :: bool
  fInterpreted :: bool

text \<open>\<open>type SourcePosition struct\<close> of internal/audit.\<close>

record sourcePosition =
  spAnchor :: string
  spDevice :: nat
  spInode :: nat
  spGeneration :: nat
  spStart :: int
  spEnd :: int
  spBytes :: int
  spValid :: bool

definition noPosition :: sourcePosition where
  "noPosition = \<lparr>spAnchor = [], spDevice = 0, spInode = 0, spGeneration = 0, spStart = 0,
     spEnd = 0, spBytes = 0, spValid = False\<rparr>"

text \<open>
  \<open>type Record struct\<close>. A Go map that may be nil and is tested against nil is an option;
  \<open>Conflicts\<close> only ever maps keys to true, so it is the list of those keys.
\<close>

record auditRecord =
  rRaw :: string
  rConflicts :: "string list"
  rNode :: string
  rNodePresent :: bool
  rType :: string
  rID :: string
  rFields :: "(string, string) gomap"
  rValues :: "(string, string list) gomap option"
  rAllFields :: "field list"
  rEmbeddedAllFields :: "field list"
  rEmbeddedFields :: "(string, string) gomap"
  rEmbeddedValues :: "(string, string list) gomap option"
  rEmbeddedParseError :: string
  rEmbeddedFailures :: "field list"
  rSourceBytes :: int
  rSource :: sourcePosition

definition emptyRecord :: auditRecord where
  "emptyRecord = \<lparr>rRaw = [], rConflicts = [], rNode = [], rNodePresent = False, rType = [],
     rID = [], rFields = [], rValues = None, rAllFields = [], rEmbeddedAllFields = [],
     rEmbeddedFields = [], rEmbeddedValues = None, rEmbeddedParseError = [],
     rEmbeddedFailures = [], rSourceBytes = 0, rSource = noPosition\<rparr>"

text \<open>\<open>type correlationKey struct\<close>.\<close>

record correlationKey =
  ckID :: string
  ckNode :: string
  ckNodePresent :: bool

definition recordKey :: "auditRecord \<Rightarrow> correlationKey" where
  "recordKey r = \<lparr>ckID = rID r, ckNode = rNode r, ckNodePresent = rNodePresent r\<rparr>"

text \<open>\<open>type Completion string\<close> and its constants.\<close>

datatype completion =
  CompletionEOE
| CompletionProctitle
| CompletionSingleRecord
| CompletionWatermark
| CompletionTimeout
| CompletionEOF
| CompletionAssemblyLimit
| CompletionLineLimit
| CompletionShutdown
| CompletionSourceGap

fun completionText :: "completion \<Rightarrow> string" where
  "completionText CompletionEOE = ''eoe''"
| "completionText CompletionProctitle = ''proctitle''"
| "completionText CompletionSingleRecord = ''single_record''"
| "completionText CompletionWatermark = ''watermark''"
| "completionText CompletionTimeout = ''timeout''"
| "completionText CompletionEOF = ''eof''"
| "completionText CompletionAssemblyLimit = ''assembly_limit''"
| "completionText CompletionLineLimit = ''line_limit''"
| "completionText CompletionShutdown = ''shutdown''"
| "completionText CompletionSourceGap = ''source_gap''"

lemma completionText_inj: "completionText c = completionText d \<longleftrightarrow> c = d"
  by (cases c; cases d) auto

text \<open>\<open>type AssembledEvent struct\<close>.\<close>

record assembledEvent =
  aeSequence :: nat
  aeExceptional :: bool
  aeMixedNode :: bool
  aeID :: string
  aeRecords :: "auditRecord list"
  aeComplete :: bool
  aeCompletion :: completion

text \<open>
  Field lookups of parser.go: the first non-empty of a list of values, a record's value for a
  key (nothing for a conflicting key), and the value with the embedded message as fallback.
\<close>

definition gmList :: "(string, string list) gomap \<Rightarrow> string \<Rightarrow> string list" where
  "gmList m k = (case map_of m k of None \<Rightarrow> [] | Some vs \<Rightarrow> vs)"

definition gmString :: "(string, string) gomap \<Rightarrow> string \<Rightarrow> string" where
  "gmString m k = (case map_of m k of None \<Rightarrow> [] | Some v \<Rightarrow> v)"

fun firstNonempty :: "string list \<Rightarrow> string" where
  "firstNonempty [] = []"
| "firstNonempty (v # vs) = (if v \<noteq> [] then v else firstNonempty vs)"

definition firstValue :: "(string, string list) gomap \<Rightarrow> string \<Rightarrow> string" where
  "firstValue values key = firstNonempty (gmList values key)"

definition recordValue :: "auditRecord \<Rightarrow> string \<Rightarrow> string" where
  "recordValue r key =
     (if key \<in> set (rConflicts r) then []
      else case rValues r of
             Some values \<Rightarrow> firstValue values key
           | None \<Rightarrow> gmString (rFields r) key)"

definition semanticRecordValue :: "auditRecord \<Rightarrow> string \<Rightarrow> string" where
  "semanticRecordValue r key =
     (if key \<in> set (rConflicts r) then []
      else if recordValue r key \<noteq> [] then recordValue r key
      else case rEmbeddedValues r of
             Some values \<Rightarrow> firstValue values key
           | None \<Rightarrow> gmString (rEmbeddedFields r) key)"

lemma firstNonempty_in: "firstNonempty vs \<noteq> [] \<Longrightarrow> firstNonempty vs \<in> set vs"
  by (induction vs) auto

lemma firstNonempty_Nil: "firstNonempty vs = [] \<longleftrightarrow> (\<forall>v \<in> set vs. v = [])"
  by (induction vs) auto

lemma recordValue_conflict [simp]: "key \<in> set (rConflicts r) \<Longrightarrow> recordValue r key = []"
  by (simp add: recordValue_def)

lemma semanticRecordValue_conflict [simp]:
  "key \<in> set (rConflicts r) \<Longrightarrow> semanticRecordValue r key = []"
  by (simp add: semanticRecordValue_def)

end
