(* ===== verification/FamilyTables.thy ===== *)
theory FamilyTables
  imports AuditTypes
begin

text \<open>
  The embedded mapping data (data/security_event_families.json, data/cis_audit_families.json,
  data/capabilities.json, loaded by internal/audit/classify.go and canonical.go) and the lookups
  on it. A JSON object is an association list in file order; the CIS rules and the capability
  names are ordered in the source.
\<close>

section \<open>Security event families\<close>

record securityEventFamily =
  sfCategory :: string
  sfAction :: string

abbreviation family :: "string \<Rightarrow> string \<Rightarrow> securityEventFamily" where
  "family c a \<equiv> \<lparr>sfCategory = c, sfAction = a\<rparr>"

definition recordTypes :: "(string \<times> securityEventFamily) list" where
  "recordTypes =
     [(''LOGIN'', family ''session'' ''set_audit_attribution''),
      (''USER_CMD'', family ''process'' ''user_command''),
      (''USER_AUTH'', family ''authentication'' ''authenticate''),
      (''USER_ACCT'', family ''authentication'' ''check_account''),
      (''USER_LOGIN'', family ''authentication'' ''login''),
      (''USER_LOGOUT'', family ''authentication'' ''logout''),
      (''USER_START'', family ''session'' ''start_session''),
      (''USER_END'', family ''session'' ''end_session''),
      (''CRED_ACQ'', family ''authentication'' ''acquire_credentials''),
      (''CRED_DISP'', family ''authentication'' ''dispose_credentials''),
      (''CRED_REFR'', family ''authentication'' ''refresh_credentials''),
      (''USER_CHAUTHTOK'', family ''identity'' ''change_credentials''),
      (''GRP_CHAUTHTOK'', family ''identity'' ''change_group_credentials''),
      (''USER_MGMT'', family ''identity'' ''modify_user''),
      (''GRP_MGMT'', family ''identity'' ''modify_group''),
      (''ADD_USER'', family ''identity'' ''create_user''),
      (''DEL_USER'', family ''identity'' ''delete_user''),
      (''ADD_GROUP'', family ''identity'' ''create_group''),
      (''DEL_GROUP'', family ''identity'' ''delete_group''),
      (''ACCT_LOCK'', family ''identity'' ''lock_account''),
      (''ACCT_UNLOCK'', family ''identity'' ''unlock_account''),
      (''USER_ERR'', family ''authentication'' ''authentication_error''),
      (''SYSTEM_BOOT'', family ''system'' ''boot''),
      (''SYSTEM_SHUTDOWN'', family ''system'' ''shutdown''),
      (''SYSTEM_RUNLEVEL'', family ''system'' ''change_runlevel''),
      (''SERVICE_START'', family ''service'' ''start_service''),
      (''SERVICE_STOP'', family ''service'' ''stop_service''),
      (''SOFTWARE_UPDATE'', family ''package'' ''update_software''),
      (''DAEMON_START'', family ''audit'' ''start_audit_daemon''),
      (''DAEMON_END'', family ''audit'' ''stop_audit_daemon''),
      (''DAEMON_ABORT'', family ''audit'' ''abort_audit_daemon''),
      (''DAEMON_ERR'', family ''audit'' ''audit_daemon_error''),
      (''DAEMON_CONFIG'', family ''audit'' ''configure_audit_daemon''),
      (''DAEMON_ROTATE'', family ''audit'' ''rotate_audit_log''),
      (''DAEMON_RESUME'', family ''audit'' ''resume_audit_logging''),
      (''CONFIG_CHANGE'', family ''audit'' ''change_audit_configuration''),
      (''FEATURE_CHANGE'', family ''audit'' ''change_audit_feature''),
      (''AVC'', family ''access_control'' ''enforce_access_control''),
      (''USER_AVC'', family ''access_control'' ''enforce_access_control''),
      (''SELINUX_ERR'', family ''access_control'' ''policy_error''),
      (''USER_SELINUX_ERR'', family ''access_control'' ''policy_error''),
      (''APPARMOR_DENIED'', family ''access_control'' ''enforce_access_control''),
      (''APPARMOR_ALLOWED'', family ''access_control'' ''enforce_access_control''),
      (''APPARMOR_KILL'', family ''access_control'' ''terminate_by_policy''),
      (''APPARMOR_ERROR'', family ''access_control'' ''policy_error''),
      (''APPARMOR_STATUS'', family ''access_control'' ''change_policy_status''),
      (''MAC_STATUS'', family ''access_control'' ''change_policy_status''),
      (''MAC_POLICY_LOAD'', family ''access_control'' ''load_mac_policy''),
      (''SECCOMP'', family ''access_control'' ''filter_syscall''),
      (''BPF'', family ''kernel'' ''bpf_operation''),
      (''CAPSET'', family ''process'' ''change_capabilities''),
      (''BPRM_FCAPS'', family ''process'' ''apply_file_capabilities''),
      (''KERN_MODULE'', family ''kernel'' ''kernel_module_operation'')]"

definition recordPrefixes :: "(string \<times> securityEventFamily) list" where
  "recordPrefixes =
     [(''ANOM_'', family ''security'' ''detect_anomaly''),
      (''INTEGRITY_'', family ''integrity'' ''check_integrity'')]"

record seccompAction =
  saAction :: string
  saEventAction :: string

definition seccompActions :: "(string \<times> seccompAction) list" where
  "seccompActions =
     [(''00000000'', \<lparr>saAction = ''kill_thread'', saEventAction = ''terminate_by_seccomp''\<rparr>),
      (''80000000'', \<lparr>saAction = ''kill_process'', saEventAction = ''terminate_by_seccomp''\<rparr>),
      (''00030000'', \<lparr>saAction = ''trap'', saEventAction = ''trap_syscall''\<rparr>),
      (''00050000'', \<lparr>saAction = ''errno'', saEventAction = ''block_syscall''\<rparr>),
      (''7fc00000'', \<lparr>saAction = ''user_notif'', saEventAction = ''notify_syscall''\<rparr>),
      (''7ff00000'', \<lparr>saAction = ''trace'', saEventAction = ''trace_syscall''\<rparr>),
      (''7ffc0000'', \<lparr>saAction = ''log'', saEventAction = ''log_syscall''\<rparr>),
      (''7fff0000'', \<lparr>saAction = ''allow'', saEventAction = ''allow_syscall''\<rparr>)]"

definition singleRecordTypes :: "string list" where
  "singleRecordTypes =
     [''USER_CMD'', ''USER_AUTH'', ''USER_ACCT'', ''USER_LOGIN'', ''USER_LOGOUT'',
      ''USER_START'', ''USER_END'', ''CRED_ACQ'', ''CRED_DISP'', ''CRED_REFR'',
      ''USER_CHAUTHTOK'', ''GRP_CHAUTHTOK'', ''USER_MGMT'', ''GRP_MGMT'', ''ADD_USER'',
      ''DEL_USER'', ''ADD_GROUP'', ''DEL_GROUP'', ''ACCT_LOCK'', ''ACCT_UNLOCK'', ''USER_ERR'',
      ''SYSTEM_BOOT'', ''SYSTEM_SHUTDOWN'', ''SYSTEM_RUNLEVEL'', ''SERVICE_START'',
      ''SERVICE_STOP'', ''SOFTWARE_UPDATE'', ''DAEMON_START'', ''DAEMON_END'', ''DAEMON_ABORT'',
      ''DAEMON_ERR'', ''DAEMON_CONFIG'', ''DAEMON_ROTATE'', ''DAEMON_RESUME'', ''USER_AVC'']"

section \<open>CIS classification rules\<close>

record classificationRule =
  crCategory :: string
  crAction :: string
  crKeys :: "string list"
  crSyscalls :: "string list"
  crPaths :: "string list"
  crPathPrefixes :: "string list"
  crRequireFailure :: bool

definition cisRules :: "classificationRule list" where
  "cisRules =
     [\<lparr>crCategory = ''system'', crAction = ''load_kernel_module'',
        crKeys = [],
        crSyscalls = [''init_module'', ''finit_module''],
        crPaths = [],
        crPathPrefixes = [],
        crRequireFailure = False\<rparr>,
      \<lparr>crCategory = ''system'', crAction = ''unload_kernel_module'',
        crKeys = [],
        crSyscalls = [''delete_module''],
        crPaths = [],
        crPathPrefixes = [],
        crRequireFailure = False\<rparr>,
      \<lparr>crCategory = ''system'', crAction = ''query_kernel_module'',
        crKeys = [],
        crSyscalls = [''create_module'', ''query_module''],
        crPaths = [],
        crPathPrefixes = [],
        crRequireFailure = False\<rparr>,
      \<lparr>crCategory = ''system'', crAction = ''change_time'',
        crKeys = [''time_change''],
        crSyscalls = [''adjtimex'', ''clock_adjtime'', ''clock_settime'', ''settimeofday'', ''stime''],
        crPaths = [''/etc/localtime''],
        crPathPrefixes = [],
        crRequireFailure = False\<rparr>,
      \<lparr>crCategory = ''file'', crAction = ''change_permissions'',
        crKeys = [''perm_mod''],
        crSyscalls = [''chmod'', ''fchmod'', ''fchmodat'', ''fchmodat2'', ''chown'', ''fchown'',
            ''fchownat'', ''lchown'', ''setxattr'', ''lsetxattr'', ''fsetxattr'',
            ''removexattr'', ''lremovexattr'', ''fremovexattr''],
        crPaths = [],
        crPathPrefixes = [],
        crRequireFailure = False\<rparr>,
      \<lparr>crCategory = ''system'', crAction = ''mount_filesystem'',
        crKeys = [''mounts''],
        crSyscalls = [''mount''],
        crPaths = [],
        crPathPrefixes = [],
        crRequireFailure = False\<rparr>,
      \<lparr>crCategory = ''file'', crAction = ''rename'',
        crKeys = [],
        crSyscalls = [''rename'', ''renameat'', ''renameat2''],
        crPaths = [],
        crPathPrefixes = [],
        crRequireFailure = False\<rparr>,
      \<lparr>crCategory = ''file'', crAction = ''delete'',
        crKeys = [],
        crSyscalls = [''unlink'', ''unlinkat''],
        crPaths = [],
        crPathPrefixes = [],
        crRequireFailure = False\<rparr>,
      \<lparr>crCategory = ''file'', crAction = ''delete'',
        crKeys = [''delete''],
        crSyscalls = [],
        crPaths = [],
        crPathPrefixes = [],
        crRequireFailure = False\<rparr>,
      \<lparr>crCategory = ''file'', crAction = ''access'',
        crKeys = [''access''],
        crSyscalls = [''creat'', ''ftruncate'', ''open'', ''openat'', ''openat2'', ''truncate''],
        crPaths = [],
        crPathPrefixes = [],
        crRequireFailure = True\<rparr>,
      \<lparr>crCategory = ''configuration'', crAction = ''change_privilege_scope'',
        crKeys = [''scope''],
        crSyscalls = [],
        crPaths = [''/etc/sudoers'', ''/etc/sudoers.d''],
        crPathPrefixes = [''/etc/sudoers.d/''],
        crRequireFailure = False\<rparr>,
      \<lparr>crCategory = ''file'', crAction = ''write_sudo_log'',
        crKeys = [''sudo_log_file'', ''sudo_log''],
        crSyscalls = [],
        crPaths = [],
        crPathPrefixes = [],
        crRequireFailure = False\<rparr>,
      \<lparr>crCategory = ''configuration'', crAction = ''change_network_configuration'',
        crKeys = [''system_locale'', ''system_network''],
        crSyscalls = [''sethostname'', ''setdomainname''],
        crPaths = [''/etc/hostname'', ''/etc/hosts'', ''/etc/issue'', ''/etc/issue.net'',
            ''/etc/network'', ''/etc/networks'', ''/etc/netplan'', ''/etc/sysconfig/network'',
            ''/etc/NetworkManager''],
        crPathPrefixes = [''/etc/network/'', ''/etc/netplan/'', ''/etc/sysconfig/network-scripts/'',
            ''/etc/NetworkManager/''],
        crRequireFailure = False\<rparr>,
      \<lparr>crCategory = ''configuration'', crAction = ''change_identity_configuration'',
        crKeys = [''identity''],
        crSyscalls = [],
        crPaths = [''/etc/group'', ''/etc/gshadow'', ''/etc/nsswitch.conf'', ''/etc/pam.conf'',
            ''/etc/passwd'', ''/etc/security/opasswd'', ''/etc/shadow'', ''/etc/pam.d''],
        crPathPrefixes = [''/etc/pam.d/''],
        crRequireFailure = False\<rparr>,
      \<lparr>crCategory = ''session'', crAction = ''update_session_record'',
        crKeys = [''session''],
        crSyscalls = [],
        crPaths = [''/run/utmp'', ''/var/run/utmp'', ''/var/log/btmp'', ''/var/log/wtmp''],
        crPathPrefixes = [],
        crRequireFailure = False\<rparr>,
      \<lparr>crCategory = ''authentication'', crAction = ''update_login_record'',
        crKeys = [''logins''],
        crSyscalls = [],
        crPaths = [''/var/log/faillog'', ''/var/log/lastlog'', ''/var/run/faillock'', ''/run/faillock''],
        crPathPrefixes = [''/var/run/faillock/'', ''/run/faillock/''],
        crRequireFailure = False\<rparr>,
      \<lparr>crCategory = ''configuration'', crAction = ''change_mac_policy'',
        crKeys = [''mac_policy''],
        crSyscalls = [],
        crPaths = [''/etc/apparmor'', ''/etc/apparmor.d'', ''/etc/selinux'', ''/usr/share/selinux''],
        crPathPrefixes = [''/etc/apparmor/'', ''/etc/apparmor.d/'', ''/etc/selinux/'', ''/usr/share/selinux/''],
        crRequireFailure = False\<rparr>,
      \<lparr>crCategory = ''configuration'', crAction = ''change_audit_configuration'',
        crKeys = [''audit_config''],
        crSyscalls = [],
        crPaths = [''/etc/audit'', ''/etc/audit/audit.rules'', ''/etc/audit/rules.d''],
        crPathPrefixes = [''/etc/audit/'', ''/etc/audit/rules.d/''],
        crRequireFailure = False\<rparr>]"

section \<open>Capability names\<close>

definition linuxCapabilityNames :: "string list" where
  "linuxCapabilityNames =
     [''CAP_CHOWN'', ''CAP_DAC_OVERRIDE'', ''CAP_DAC_READ_SEARCH'', ''CAP_FOWNER'',
      ''CAP_FSETID'', ''CAP_KILL'', ''CAP_SETGID'', ''CAP_SETUID'', ''CAP_SETPCAP'',
      ''CAP_LINUX_IMMUTABLE'', ''CAP_NET_BIND_SERVICE'', ''CAP_NET_BROADCAST'',
      ''CAP_NET_ADMIN'', ''CAP_NET_RAW'', ''CAP_IPC_LOCK'', ''CAP_IPC_OWNER'',
      ''CAP_SYS_MODULE'', ''CAP_SYS_RAWIO'', ''CAP_SYS_CHROOT'', ''CAP_SYS_PTRACE'',
      ''CAP_SYS_PACCT'', ''CAP_SYS_ADMIN'', ''CAP_SYS_BOOT'', ''CAP_SYS_NICE'',
      ''CAP_SYS_RESOURCE'', ''CAP_SYS_TIME'', ''CAP_SYS_TTY_CONFIG'', ''CAP_MKNOD'',
      ''CAP_LEASE'', ''CAP_AUDIT_WRITE'', ''CAP_AUDIT_CONTROL'', ''CAP_SETFCAP'',
      ''CAP_MAC_OVERRIDE'', ''CAP_MAC_ADMIN'', ''CAP_SYSLOG'', ''CAP_WAKE_ALARM'',
      ''CAP_BLOCK_SUSPEND'', ''CAP_AUDIT_READ'', ''CAP_PERFMON'', ''CAP_BPF'',
      ''CAP_CHECKPOINT_RESTORE'']"

section \<open>Lookups\<close>

text \<open>\<open>securityEventFamilyForType\<close>: the exact type first, then the first matching prefix.\<close>

definition securityEventFamilyForType :: "string \<Rightarrow> securityEventFamily option" where
  "securityEventFamilyForType recordType =
     (case map_of recordTypes recordType of
        Some f \<Rightarrow> Some f
      | None \<Rightarrow> map_option snd (find (\<lambda>(p, f). hasPrefix recordType p) recordPrefixes))"

definition isKnownSingleRecordType :: "string \<Rightarrow> bool" where
  "isKnownSingleRecordType recordType \<longleftrightarrow> recordType \<in> set singleRecordTypes"

definition securityRecordRank :: "string \<Rightarrow> nat" where
  "securityRecordRank recordType =
     (let category = (case securityEventFamilyForType recordType of
                        None \<Rightarrow> [] | Some f \<Rightarrow> sfCategory f)
      in if category = ''access_control'' then 0
         else if category = ''security'' \<or> category = ''integrity'' then 1
         else 2)"

text \<open>\<open>preferredSecurityRecordType\<close>: the loop keeps the best type by rank, then by name.\<close>

definition preferType :: "string \<Rightarrow> string \<Rightarrow> string" where
  "preferType selected t =
     (if securityEventFamilyForType t = None then selected
      else if selected = [] \<or> securityRecordRank t < securityRecordRank selected
              \<or> securityRecordRank t = securityRecordRank selected \<and> t < selected
      then t else selected)"

definition preferredSecurityRecordType :: "auditRecord list \<Rightarrow> string" where
  "preferredSecurityRecordType records = foldl (\<lambda>s r. preferType s (rType r)) [] records"

definition isTerminalRecord :: "string \<Rightarrow> bool" where
  "isTerminalRecord recordType \<longleftrightarrow>
     recordType = ''EOE'' \<or> recordType = ''KERNEL'' \<or> isKnownSingleRecordType recordType"

definition terminalCompletion :: "string \<Rightarrow> completion" where
  "terminalCompletion recordType =
     (if recordType = ''EOE'' then CompletionEOE else CompletionSingleRecord)"

end
