(* ===== verification/Startup.thy ===== *)
theory Startup
  imports FamilyTables
begin

text \<open>
  The checks of the embedded tables when the program starts (internal/audit/classify.go,
  canonical.go). A document is what \<open>json.Unmarshal\<close> makes of the embedded file, None if it fails;
  the result None is a panic.
\<close>

record classificationDocument =
  cdVersion :: string
  cdRules :: "classificationRule list"

record familyDocument =
  fdVersion :: string
  fdRecordTypes :: "(string \<times> securityEventFamily) list"
  fdRecordPrefixes :: "(string \<times> securityEventFamily) list"
  fdSeccompActions :: "(string \<times> seccompAction) list"
  fdSingleRecordTypes :: "string list"

definition mustCISAuditClassification :: "classificationDocument option \<Rightarrow> classificationDocument option" where
  "mustCISAuditClassification parsed =
     (case parsed of
        None \<Rightarrow> None
      | Some d \<Rightarrow>
          if cdVersion d = [] \<or> cdRules d = [] then None
          else if list_ex (\<lambda>r. crCategory r = [] \<or> crAction r = []) (cdRules d) then None
          else Some d)"

text \<open>An entry of either table of families: its type or prefix, and the family.\<close>

definition incompleteFamily :: "string \<times> securityEventFamily \<Rightarrow> bool" where
  "incompleteFamily x = (case x of (name, f) \<Rightarrow> name = [] \<or> sfCategory f = [] \<or> sfAction f = [])"

definition mustSecurityEventFamilies :: "familyDocument option \<Rightarrow> familyDocument option" where
  "mustSecurityEventFamilies parsed =
     (case parsed of
        None \<Rightarrow> None
      | Some d \<Rightarrow>
          if fdVersion d = [] \<or> fdRecordTypes d = [] then None
          else if list_ex incompleteFamily (fdRecordTypes d) then None
          else if list_ex incompleteFamily (fdRecordPrefixes d) then None
          else Some d)"

definition mustLinuxCapabilityNames :: "string list option \<Rightarrow> string list option" where
  "mustLinuxCapabilityNames parsed =
     (case parsed of
        None \<Rightarrow> None
      | Some names \<Rightarrow> if names = [] \<or> 64 < length names then None else Some names)"

section \<open>The embedded documents\<close>

definition cisAuditFamilies :: classificationDocument where
  "cisAuditFamilies = \<lparr>cdVersion = ''1'', cdRules = cisRules\<rparr>"

definition securityEventFamilies :: familyDocument where
  "securityEventFamilies =
     \<lparr>fdVersion = ''1'', fdRecordTypes = recordTypes, fdRecordPrefixes = recordPrefixes,
      fdSeccompActions = seccompActions, fdSingleRecordTypes = singleRecordTypes\<rparr>"

text \<open>With the files of this repository no check panics.\<close>

lemma classification_starts: "mustCISAuditClassification (Some cisAuditFamilies) = Some cisAuditFamilies"
proof -
  have "\<not> list_ex (\<lambda>r. crCategory r = [] \<or> crAction r = []) cisRules" "cisRules \<noteq> []"
    by (simp_all add: cisRules_def)
  then show ?thesis by (simp add: mustCISAuditClassification_def cisAuditFamilies_def)
qed

lemma families_start: "mustSecurityEventFamilies (Some securityEventFamilies) = Some securityEventFamilies"
proof -
  have "\<not> list_ex incompleteFamily recordTypes" "recordTypes \<noteq> []"
    by (simp_all add: recordTypes_def incompleteFamily_def)
  moreover have "\<not> list_ex incompleteFamily recordPrefixes"
    by (simp add: recordPrefixes_def incompleteFamily_def)
  ultimately show ?thesis by (simp add: mustSecurityEventFamilies_def securityEventFamilies_def)
qed

lemma capabilities_start: "mustLinuxCapabilityNames (Some linuxCapabilityNames) = Some linuxCapabilityNames"
proof -
  have "length linuxCapabilityNames \<le> 64" "linuxCapabilityNames \<noteq> []"
    by (simp_all add: linuxCapabilityNames_def)
  then show ?thesis by (simp add: mustLinuxCapabilityNames_def)
qed

text \<open>
  Keys of the tables are distinct, so that a map built from them, in whatever order, answers every
  lookup alike; and every action of a seccomp code stands for one event action.
\<close>

lemma tables_are_maps:
  "distinct (map fst recordTypes)" "distinct (map fst seccompActions)" "distinct singleRecordTypes"
  by code_simp+

lemma seccomp_event_action_unique:
  "list_all (\<lambda>(c, a). list_all (\<lambda>(d, b). saAction a = saAction b \<longrightarrow> saEventAction a = saEventAction b) seccompActions) seccompActions"
  by code_simp

end
