(* ===== verification/RecordParser.thy ===== *)
theory RecordParser
  imports AuditTypes
begin

text \<open>
  The record lexer and parser of internal/audit/parser.go. The index loops over \<open>line[i]\<close> are
  recursions on the suffix of the line that is still unread; the byte position is carried for
  the error values. The loop's three results (ordered fields, first value of a key, all values
  of a key) are the record \<open>parsedFields\<close>.
\<close>

section \<open>The field lexer\<close>

datatype parseError =
  EmptyFieldName nat
| MalformedField string nat
| UnterminatedQuote string
| MissingBoundary string
| ConflictingIDs
| ConflictingTypes
| InvalidNode
| ConflictingNodes
| IDNotFound
| TypeNotFound string
| InvalidEnvelopeUTF8

text \<open>The text of an error (\<open>err.Error()\<close>), with \<open>%q\<close> as quoting and \<open>%d\<close> as decimal.\<close>

fun parseErrorText :: "(nat \<Rightarrow> bool) \<Rightarrow> parseError \<Rightarrow> string" where
  "parseErrorText pr (EmptyFieldName i) = ''empty field name at byte '' @ natDigits i"
| "parseErrorText pr (MalformedField t i) =
     ''malformed field '' @ goQuote pr t @ '' at byte '' @ natDigits i"
| "parseErrorText pr (UnterminatedQuote k) =
     ''unterminated quoted value for field '' @ goQuote pr k"
| "parseErrorText pr (MissingBoundary k) =
     ''missing boundary after quoted field '' @ goQuote pr k"
| "parseErrorText pr ConflictingIDs = ''conflicting Audit IDs''"
| "parseErrorText pr ConflictingTypes = ''conflicting Audit types''"
| "parseErrorText pr InvalidNode = ''invalid Audit node''"
| "parseErrorText pr ConflictingNodes = ''conflicting Audit nodes''"
| "parseErrorText pr IDNotFound = ''audit id not found''"
| "parseErrorText pr (TypeNotFound i) = ''record type not found for audit id '' @ i"
| "parseErrorText pr InvalidEnvelopeUTF8 = ''invalid UTF-8 in Audit envelope''"

record parsedFields =
  pfAll :: "field list"
  pfFirst :: "(string, string) gomap"
  pfValues :: "(string, string list) gomap"

definition noFields :: parsedFields where
  "noFields = \<lparr>pfAll = [], pfFirst = [], pfValues = []\<rparr>"

definition fieldBoundary :: "char \<Rightarrow> bool" where
  "fieldBoundary b \<longleftrightarrow> b = CHR 0x20 \<or> b = CHR 0x1D"

abbreviation keyByte :: "char \<Rightarrow> bool" where
  "keyByte b \<equiv> b \<noteq> CHR ''='' \<and> \<not> fieldBoundary b"

abbreviation valueByte :: "char \<Rightarrow> bool" where
  "valueByte b \<equiv> \<not> fieldBoundary b"

abbreviation dquote :: char where
  "dquote \<equiv> CHR 0x22"

abbreviation squote :: char where
  "squote \<equiv> CHR 0x27"

text \<open>
  The quoted-value loop: \<open>nestedDouble\<close> toggles at each double quote inside an apostrophe
  quoted value, and the closing quote counts only outside such a nested string.
\<close>

fun scanQuoted :: "char \<Rightarrow> bool \<Rightarrow> string \<Rightarrow> (string \<times> string) option" where
  "scanQuoted q nested [] = None"
| "scanQuoted q nested (c # cs) =
     (let nested' = (if q = squote \<and> c = dquote then \<not> nested else nested)
      in if c = q \<and> \<not> nested' then Some ([], cs)
         else map_option (\<lambda>(v, rest). (c # v, rest)) (scanQuoted q nested' cs))"

definition parseValue :: "string \<Rightarrow> string \<Rightarrow> parseError + (string \<times> bool \<times> string)" where
  "parseValue key s =
     (if s \<noteq> [] \<and> (hd s = dquote \<or> hd s = squote) then
        (case scanQuoted (hd s) False (tl s) of
           None \<Rightarrow> Inl (UnterminatedQuote key)
         | Some (v, rest) \<Rightarrow>
             if rest \<noteq> [] \<and> \<not> fieldBoundary (hd rest) then Inl (MissingBoundary key)
             else Inr (v, True, rest))
      else Inr (takeWhile valueByte s, False, dropWhile valueByte s))"

definition addField :: "field \<Rightarrow> parsedFields \<Rightarrow> parsedFields" where
  "addField f acc =
     acc\<lparr>pfAll := pfAll acc @ [f],
         pfValues := AList.update (fKey f) (gmList (pfValues acc) (fKey f) @ [fValue f]) (pfValues acc),
         pfFirst := (if map_of (pfFirst acc) (fKey f) = None
                     then AList.update (fKey f) (fValue f) (pfFirst acc) else pfFirst acc)\<rparr>"

lemma scanQuoted_length: "scanQuoted q n s = Some (v, rest) \<Longrightarrow> length rest < length s"
  by (induction q n s arbitrary: v rest rule: scanQuoted.induct)
     (fastforce simp: Let_def split: if_splits)+

lemma parseValue_length: "parseValue key s = Inr (v, q, rest) \<Longrightarrow> length rest \<le> length s"
  by (cases s)
     (auto simp: parseValue_def split: if_splits option.splits
           intro: le_SucI length_dropWhile_le dest: scanQuoted_length)

lemma dropWhile_length_less: "dropWhile P xs = y # ys \<Longrightarrow> length ys < length xs"
  by (metis Suc_le_lessD length_Cons length_dropWhile_le)

function parseFieldsLoop ::
    "nat \<Rightarrow> bool \<Rightarrow> parsedFields \<Rightarrow> string \<Rightarrow> parseError + parsedFields" where
  "parseFieldsLoop i interpreted acc line =
     (let rest = dropWhile fieldBoundary line;
          interpreted' = (interpreted \<or> CHR 0x1D \<in> set (takeWhile fieldBoundary line));
          keyStart = i + length (takeWhile fieldBoundary line);
          key = takeWhile keyByte rest
      in if rest = [] then Inr acc
         else if key = [] then Inl (EmptyFieldName keyStart)
         else case dropWhile keyByte rest of
                [] \<Rightarrow> Inl (MalformedField (takeWhile valueByte rest) keyStart)
              | e # afterKey \<Rightarrow>
                  if e \<noteq> CHR ''='' then Inl (MalformedField (takeWhile valueByte rest) keyStart)
                  else (case parseValue key afterKey of
                          Inl err \<Rightarrow> Inl err
                        | Inr (value, quoted, remaining) \<Rightarrow>
                            parseFieldsLoop (i + (length line - length remaining)) interpreted'
                              (addField \<lparr>fKey = key, fValue = value, fQuoted = quoted,
                                         fInterpreted = interpreted'\<rparr> acc)
                              remaining))"
  by pat_completeness auto
termination
proof (relation "measure (\<lambda>(i, interpreted, acc, line). length line)", goal_cases)
  case 1
  then show ?case by simp
next
  case (2 i interpreted acc line rest interpreted' keyStart key e afterKey p v q quoted remaining)
  have "length remaining \<le> length afterKey"
    using 2 by (auto dest: parseValue_length)
  also have "length afterKey < length rest"
    using 2 by (auto dest: dropWhile_length_less)
  also have "length rest \<le> length line"
    using 2 by (simp add: length_dropWhile_le)
  finally show ?case by simp
qed

declare parseFieldsLoop.simps [simp del]

definition parseFields :: "string \<Rightarrow> parseError + parsedFields" where
  "parseFields line = parseFieldsLoop 0 False noFields line"

subsection \<open>What the lexer returns\<close>

text \<open>
  A field the lexer can return: a non-empty key without separators and equal signs, and a value
  that its quoting style can spell.
\<close>

fun squotable :: "bool \<Rightarrow> string \<Rightarrow> bool" where
  "squotable nested [] = (\<not> nested)"
| "squotable nested (c # cs) =
     (let nested' = (if c = dquote then \<not> nested else nested)
      in (c = squote \<longrightarrow> nested') \<and> squotable nested' cs)"

definition wfField :: "field \<Rightarrow> bool" where
  "wfField f \<longleftrightarrow> fKey f \<noteq> [] \<and> list_all keyByte (fKey f) \<and>
     (if fQuoted f then dquote \<notin> set (fValue f) \<or> squotable False (fValue f)
      else list_all valueByte (fValue f) \<and>
           (fValue f = [] \<or> hd (fValue f) \<noteq> dquote \<and> hd (fValue f) \<noteq> squote))"

text \<open>The group separator switches the rest of the line to interpreted fields.\<close>

fun interpOrdered :: "bool \<Rightarrow> field list \<Rightarrow> bool" where
  "interpOrdered n [] = True"
| "interpOrdered n (f # fs) = ((n \<longrightarrow> fInterpreted f) \<and> interpOrdered (fInterpreted f) fs)"

abbreviation addFields :: "parsedFields \<Rightarrow> field list \<Rightarrow> parsedFields" where
  "addFields acc fs \<equiv> foldl (\<lambda>a f. addField f a) acc fs"

lemma scanQuoted_dquote: "dquote \<notin> set v \<Longrightarrow> scanQuoted dquote False (v @ dquote # rest) = Some (v, rest)"
  by (induction v) auto

lemma scanQuoted_squote: "squotable n v \<Longrightarrow> scanQuoted squote n (v @ squote # rest) = Some (v, rest)"
  by (induction n v rule: squotable.induct) (auto simp: Let_def split: if_splits)

lemma scanQuoted_dquote_result:
  "scanQuoted dquote n s = Some (v, rest) \<Longrightarrow> \<not> n \<Longrightarrow> dquote \<notin> set v"
  by (induction dquote n s arbitrary: v rest rule: scanQuoted.induct)
     (auto simp: Let_def split: if_splits)

lemma scanQuoted_squote_result:
  "scanQuoted squote n s = Some (v, rest) \<Longrightarrow> squotable n v"
  by (induction squote n s arbitrary: v rest rule: scanQuoted.induct)
     (auto simp: Let_def split: if_splits)

lemma takeWhile_hd_not:
  "s = [] \<or> \<not> P (hd s) \<Longrightarrow> takeWhile Q s = [] \<or> \<not> P (hd (takeWhile Q s))"
  by (cases s) auto

lemma parseValue_wf:
  assumes "parseValue key s = Inr (v, q, rest)"
    and "key \<noteq> []" and "list_all keyByte key"
  shows "wfField \<lparr>fKey = key, fValue = v, fQuoted = q, fInterpreted = n\<rparr>"
proof (cases "s \<noteq> [] \<and> (hd s = dquote \<or> hd s = squote)")
  case True
  with assms(1) have "scanQuoted (hd s) False (tl s) = Some (v, rest)" and "q"
    by (auto simp: parseValue_def split: option.splits if_splits)
  with True assms(2,3) show ?thesis
    by (auto simp: wfField_def dest: scanQuoted_dquote_result scanQuoted_squote_result)
next
  case False
  with assms(1) have "v = takeWhile valueByte s" and "\<not> q"
    by (auto simp: parseValue_def split: if_splits)
  moreover have "takeWhile valueByte s = [] \<or>
      hd (takeWhile valueByte s) \<noteq> dquote \<and> hd (takeWhile valueByte s) \<noteq> squote"
    using False by (cases s) auto
  ultimately show ?thesis
    using assms(2,3) by (auto simp: wfField_def list_all_iff dest: set_takeWhileD)
qed

lemma parseFieldsLoop_result:
  "parseFieldsLoop i n acc line = Inr pf \<Longrightarrow>
     \<exists>fs. pf = addFields acc fs \<and> list_all wfField fs \<and> interpOrdered n fs"
proof (induction i n acc line arbitrary: pf rule: parseFieldsLoop.induct)
  case (1 i n acc line)
  let ?rest = "dropWhile fieldBoundary line"
  let ?n' = "n \<or> CHR 0x1D \<in> set (takeWhile fieldBoundary line)"
  let ?key = "takeWhile keyByte ?rest"
  show ?case
  proof (cases "?rest = []")
    case True
    with "1.prems" have "pf = acc" by (subst (asm) parseFieldsLoop.simps) simp
    then show ?thesis by (intro exI [of _ "[]"]) simp
  next
    case False
    with "1.prems" obtain e afterKey v q remaining where
      key: "?key \<noteq> []" and aft: "dropWhile keyByte ?rest = e # afterKey" and e: "e = CHR ''=''"
      and val: "parseValue ?key afterKey = Inr (v, q, remaining)"
      and rec: "parseFieldsLoop (i + (length line - length remaining)) ?n'
          (addField \<lparr>fKey = ?key, fValue = v, fQuoted = q, fInterpreted = ?n'\<rparr> acc) remaining = Inr pf"
      by (subst (asm) parseFieldsLoop.simps)
         (auto simp: Let_def split: list.splits if_splits sum.splits prod.splits)
    let ?f = "\<lparr>fKey = ?key, fValue = v, fQuoted = q, fInterpreted = ?n'\<rparr>"
    from "1.IH" [OF refl refl refl refl False key aft _ val refl refl rec] e
    obtain fs where fs: "pf = addFields (addField ?f acc) fs" "list_all wfField fs" "interpOrdered ?n' fs"
      by auto
    have "list_all keyByte ?key" by (auto simp: list_all_iff dest: set_takeWhileD)
    with val key have "wfField ?f" by (blast intro: parseValue_wf)
    with fs show ?thesis by (intro exI [of _ "?f # fs"]) auto
  qed
qed

lemma pfAll_addFields: "pfAll (addFields acc fs) = pfAll acc @ fs"
  by (induction fs arbitrary: acc) (auto simp: addField_def)

lemma gmList_addField:
  "gmList (pfValues (addField f acc)) k =
     gmList (pfValues acc) k @ (if fKey f = k then [fValue f] else [])"
  by (auto simp: addField_def gmList_def update_conv split: option.splits)

lemma gmList_addFields:
  "gmList (pfValues (addFields acc fs)) k =
     gmList (pfValues acc) k @ map fValue (filter (\<lambda>f. fKey f = k) fs)"
  by (induction fs arbitrary: acc) (auto simp: gmList_addField)

lemma pfFirst_addField:
  "map_of (pfFirst (addField f acc)) k =
     (case map_of (pfFirst acc) k of
        Some v \<Rightarrow> Some v
      | None \<Rightarrow> if fKey f = k then Some (fValue f) else None)"
  by (auto simp: addField_def update_conv split: option.splits)

lemma pfFirst_addFields:
  "map_of (pfFirst (addFields acc fs)) k =
     (case map_of (pfFirst acc) k of
        Some v \<Rightarrow> Some v
      | None \<Rightarrow> map_option fValue (find (\<lambda>f. fKey f = k) fs))"
  by (induction fs arbitrary: acc) (auto simp: pfFirst_addField split: option.splits)

lemma parseFields_result:
  assumes "parseFields line = Inr pf"
  shows "pf = addFields noFields (pfAll pf)" and "list_all wfField (pfAll pf)"
    and "interpOrdered False (pfAll pf)"
  using parseFieldsLoop_result [OF assms [unfolded parseFields_def]]
  by (auto simp: pfAll_addFields noFields_def)

text \<open>
  The two lookup tables the lexer returns agree with its ordered field list: a key's values
  are the values of its occurrences in line order, and its first value is the first of them.
\<close>

lemma parseFields_tables:
  assumes "parseFields line = Inr pf"
  shows "gmList (pfValues pf) k = map fValue (filter (\<lambda>f. fKey f = k) (pfAll pf))
       \<and> map_of (pfFirst pf) k = map_option fValue (find (\<lambda>f. fKey f = k) (pfAll pf))"
proof -
  have pf: "pf = addFields noFields (pfAll pf)"
    using assms by (rule parseFields_result)
  have "gmList (pfValues (addFields noFields (pfAll pf))) k =
        map fValue (filter (\<lambda>f. fKey f = k) (pfAll pf))"
    by (simp only: gmList_addFields) (simp add: noFields_def gmList_def)
  moreover have "map_of (pfFirst (addFields noFields (pfAll pf))) k =
        map_option fValue (find (\<lambda>f. fKey f = k) (pfAll pf))"
    by (simp only: pfFirst_addFields) (simp add: noFields_def)
  ultimately show ?thesis using pf by simp
qed

subsection \<open>Round trip\<close>

definition printValue :: "field \<Rightarrow> string" where
  "printValue f =
     (if \<not> fQuoted f then fValue f
      else if dquote \<notin> set (fValue f) then dquote # fValue f @ [dquote]
      else squote # fValue f @ [squote])"

definition printField :: "field \<Rightarrow> string" where
  "printField f =
     (if fInterpreted f then CHR 0x1D else CHR 0x20) # fKey f @ CHR ''='' # printValue f"

definition printFields :: "field list \<Rightarrow> string" where
  "printFields fs = concat (map printField fs)"

lemma printFields_boundary: "printFields fs = [] \<or> fieldBoundary (hd (printFields fs))"
  by (cases fs) (auto simp: printFields_def printField_def fieldBoundary_def)

lemma takeWhile_append_boundary:
  "list_all P xs \<Longrightarrow> ys = [] \<or> \<not> P (hd ys) \<Longrightarrow> takeWhile P (xs @ ys) = xs \<and> dropWhile P (xs @ ys) = ys"
  by (induction xs) (cases ys; auto)+

lemma hd_append_nonempty: "v \<noteq> [] \<Longrightarrow> hd (v @ r) = hd v"
  by simp

lemma parseValue_printValue:
  assumes wf: "wfField f" and b: "rest = [] \<or> fieldBoundary (hd rest)"
  shows "parseValue k (printValue f @ rest) = Inr (fValue f, fQuoted f, rest)"
proof (cases "fQuoted f")
  case True
  then show ?thesis
    using wf b
    by (cases "dquote \<in> set (fValue f)")
       (auto simp: printValue_def parseValue_def wfField_def scanQuoted_dquote scanQuoted_squote)
next
  case False
  then have v: "list_all valueByte (fValue f)"
    and h: "fValue f = [] \<or> hd (fValue f) \<noteq> dquote \<and> hd (fValue f) \<noteq> squote"
    using wf by (auto simp: wfField_def)
  have "\<not> (fValue f @ rest \<noteq> [] \<and> (hd (fValue f @ rest) = dquote \<or> hd (fValue f @ rest) = squote))"
    using h b by (cases "fValue f"; cases rest) (auto simp: fieldBoundary_def)
  then have "parseValue k (fValue f @ rest) =
      Inr (takeWhile valueByte (fValue f @ rest), False, dropWhile valueByte (fValue f @ rest))"
    unfolding parseValue_def by (rule if_not_P)
  moreover have "takeWhile valueByte (fValue f @ rest) = fValue f \<and>
      dropWhile valueByte (fValue f @ rest) = rest"
    using v b by (intro takeWhile_append_boundary) auto
  ultimately show ?thesis
    using False by (simp add: printValue_def)
qed

lemma parseFieldsLoop_step:
  assumes "dropWhile fieldBoundary line = rest" and "rest \<noteq> []"
    and "takeWhile keyByte rest = key" and "key \<noteq> []"
    and "dropWhile keyByte rest = CHR ''='' # tail"
    and "parseValue key tail = Inr (v, q, remaining)"
    and "(n \<or> CHR 0x1D \<in> set (takeWhile fieldBoundary line)) = n'"
  shows "parseFieldsLoop i n acc line =
      parseFieldsLoop (i + (length line - length remaining)) n'
        (addField \<lparr>fKey = key, fValue = v, fQuoted = q, fInterpreted = n'\<rparr> acc) remaining"
  by (subst parseFieldsLoop.simps) (simp only: Let_def assms if_False list.case sum.case prod.case simp_thms)

lemma parseFieldsLoop_printFields:
  assumes "list_all wfField fs" and "interpOrdered n fs"
  shows "parseFieldsLoop i n acc (printFields fs) = Inr (addFields acc fs)"
  using assms
proof (induction fs arbitrary: i n acc)
  case Nil
  then show ?case by (simp add: printFields_def parseFieldsLoop.simps)
next
  case (Cons f fs)
  let ?sep = "if fInterpreted f then CHR 0x1D else CHR 0x20"
  let ?tail = "printValue f @ printFields fs"
  let ?line = "?sep # fKey f @ CHR ''='' # ?tail"
  have line: "printFields (f # fs) = ?line"
    by (simp add: printFields_def printField_def)
  have wf: "wfField f" and fs: "list_all wfField fs" and io: "interpOrdered (fInterpreted f) fs"
    and ni: "n \<Longrightarrow> fInterpreted f"
    using Cons.prems by auto
  have key: "fKey f \<noteq> []" and kb: "list_all keyByte (fKey f)"
    using wf by (auto simp: wfField_def)
  have nb: "\<not> fieldBoundary (hd (fKey f))"
    using key kb by (cases "fKey f") auto
  have sep: "fieldBoundary ?sep" by (simp add: fieldBoundary_def)
  have tw: "takeWhile fieldBoundary ?line = [?sep]" and dw: "dropWhile fieldBoundary ?line = fKey f @ CHR ''='' # ?tail"
    using sep key nb by (cases "fKey f"; simp)+
  have ktw: "takeWhile keyByte (fKey f @ CHR ''='' # ?tail) = fKey f"
    and kdw: "dropWhile keyByte (fKey f @ CHR ''='' # ?tail) = CHR ''='' # ?tail"
    using takeWhile_append_boundary [OF kb, of "CHR ''='' # ?tail"] by auto
  have pv: "parseValue (fKey f) ?tail = Inr (fValue f, fQuoted f, printFields fs)"
    using wf printFields_boundary by (rule parseValue_printValue)
  have n': "(n \<or> CHR 0x1D \<in> set (takeWhile fieldBoundary ?line)) = fInterpreted f"
    unfolding tw using ni by auto
  have "parseFieldsLoop i n acc ?line =
        parseFieldsLoop (i + (length ?line - length (printFields fs))) (fInterpreted f)
          (addField \<lparr>fKey = fKey f, fValue = fValue f, fQuoted = fQuoted f,
                     fInterpreted = fInterpreted f\<rparr> acc) (printFields fs)"
    by (rule parseFieldsLoop_step [OF dw _ ktw key kdw pv n']) simp
  also have "\<dots> = parseFieldsLoop (i + (length ?line - length (printFields fs))) (fInterpreted f)
          (addField f acc) (printFields fs)"
    by (cases f) simp
  also have "\<dots> = Inr (addFields (addField f acc) fs)"
    using fs io by (rule Cons.IH)
  finally show ?case by (simp add: line)
qed

text \<open>
  Lexing is a left inverse of printing: a list of representable fields, written with the
  source's separators and quotes, is read back exactly, order, quoting and section included.
\<close>

lemma parseFields_printFields:
  assumes "list_all wfField fs" and "interpOrdered False fs"
  shows "\<exists>pf. parseFields (printFields fs) = Inr pf \<and> pfAll pf = fs"
  using parseFieldsLoop_printFields [OF assms, of 0 noFields]
  by (simp add: parseFields_def pfAll_addFields noFields_def)

text \<open>
  Every line the lexer accepts has the normal form \<open>printFields\<close> of its fields: only
  representable fields come out, and re-lexing the normal form gives the same result, so
  nothing but the amount of white space and the choice of quote is lost.
\<close>

lemma parseFields_normal_form:
  assumes "parseFields line = Inr pf"
  shows "list_all wfField (pfAll pf) \<and> parseFields (printFields (pfAll pf)) = Inr pf"
proof -
  have wf: "list_all wfField (pfAll pf)" and io: "interpOrdered False (pfAll pf)"
    and pf: "pf = addFields noFields (pfAll pf)"
    using assms by (rule parseFields_result)+
  have "parseFields (printFields (pfAll pf)) = Inr (addFields noFields (pfAll pf))"
    unfolding parseFields_def using wf io by (rule parseFieldsLoop_printFields)
  with wf pf show ?thesis by simp
qed

end
