(* ===== verification/RecordEnvelope.thy ===== *)
theory RecordEnvelope
  imports RecordParser
begin

text \<open>
  The record envelope of internal/audit/parser.go on top of the lexer: normalisation of the
  known Audit prose, the audit identifier, node and type checks of \<open>ParseRecord\<close>, embedded
  messages, EXECVE argument keys and the choice of a primary record type. The argument \<open>pr\<close>
  is the printable-rune table of \<open>strconv.Quote\<close>.
\<close>

section \<open>Definitions\<close>

function normalizeAuditPayload :: "(nat \<Rightarrow> bool) \<Rightarrow> string \<Rightarrow> string" where
  "normalizeAuditPayload pr payload =
     (if hasPrefix payload ''user '' then normalizeAuditPayload pr (drop 5 payload)
      else if \<not> hasPrefix payload ''avc:'' then payload
      else let remainder = trimSpace (trimPrefix payload ''avc:'')
        in case indexByte CHR '' '' remainder of
             None \<Rightarrow> payload
           | Some decisionEnd \<Rightarrow>
             if decisionEnd = 0 then payload
             else let decision = take decisionEnd remainder;
                      remainder2 = trimSpace (drop (decisionEnd + 1) remainder)
               in if \<not> hasPrefix remainder2 ''{'' then payload
                  else case indexByte CHR ''}'' remainder2 of
                         None \<Rightarrow> payload
                       | Some permissionsEnd \<Rightarrow>
                         let permissions = trimSpace (take (permissionsEnd - 1) (drop 1 remainder2));
                             remainder3 = trimSpace (drop (permissionsEnd + 1) remainder2);
                             remainder4 = trimSpace (trimPrefix remainder3 ''for'')
                         in ''decision='' @ goQuote pr decision @ '' permissions=''
                            @ goQuote pr permissions @ '' '' @ remainder4)"
  by pat_completeness auto
termination
  by (relation "measure (\<lambda>(pr, s). length s)") (auto simp: hasPrefix_def prefix_def)

declare normalizeAuditPayload.simps [simp del]

definition normalizeKnownRecordSyntax :: "(nat \<Rightarrow> bool) \<Rightarrow> string \<Rightarrow> string" where
  "normalizeKnownRecordSyntax pr line =
     (case indexOf ''): '' line of
        None \<Rightarrow> line
      | Some boundary \<Rightarrow>
          take (boundary + 3) line @ normalizeAuditPayload pr (drop (boundary + 3) line))"

definition auditIDFromMessage :: "string \<Rightarrow> string" where
  "auditIDFromMessage msg =
     (if \<not> hasPrefix msg ''audit('' \<or> \<not> hasSuffix msg ''):'' then []
      else case indexByte CHR '')'' (drop 6 msg) of
             None \<Rightarrow> []
           | Some e \<Rightarrow> if 6 + e \<noteq> length msg - 2 then [] else take e (drop 6 msg))"

text \<open>A field that may carry the record's envelope, and the identifier it carries.\<close>

definition envelopeID :: "field \<Rightarrow> string" where
  "envelopeID f =
     (if fKey f = ''msg'' \<and> \<not> fQuoted f \<and> \<not> fInterpreted f
      then auditIDFromMessage (fValue f) else [])"

fun findEnvelope ::
    "nat \<Rightarrow> (nat \<times> string) option \<Rightarrow> field list \<Rightarrow> parseError + (nat \<times> string) option" where
  "findEnvelope i env [] = Inr env"
| "findEnvelope i env (f # fs) =
     (let audit_id = envelopeID f
      in if audit_id = [] then findEnvelope (Suc i) env fs
         else case env of
                Some (e, found) \<Rightarrow>
                  if found \<noteq> audit_id then Inl ConflictingIDs else findEnvelope (Suc i) env fs
              | None \<Rightarrow> findEnvelope (Suc i) (Some (i, audit_id)) fs)"

fun checkTypeNode :: "string \<Rightarrow> string option \<Rightarrow> field list \<Rightarrow> parseError + string option" where
  "checkTypeNode type node [] = Inr node"
| "checkTypeNode type node (f # fs) =
     (if fKey f = ''type'' \<and> fValue f \<noteq> type then Inl ConflictingTypes
      else if fKey f \<noteq> ''node'' \<or> fInterpreted f then checkTypeNode type node fs
      else if fValue f = [] \<or> \<not> utf8Valid (fValue f) then Inl InvalidNode
      else case node of
             Some n \<Rightarrow> if n \<noteq> fValue f then Inl ConflictingNodes
                       else checkTypeNode type node fs
           | None \<Rightarrow> checkTypeNode type (Some (fValue f)) fs)"

record embedded =
  emAll :: "field list"
  emFirst :: "(string, string) gomap"
  emValues :: "(string, string list) gomap"
  emFailures :: "field list"
  emError :: string

definition noEmbedded :: embedded where
  "noEmbedded = \<lparr>emAll = [], emFirst = [], emValues = [], emFailures = [], emError = []\<rparr>"

definition mergeFirst :: "(string, string) gomap \<Rightarrow> (string, string) gomap \<Rightarrow> (string, string) gomap" where
  "mergeFirst acc m =
     fold (\<lambda>(k, v) a. if map_of a k = None then AList.update k v a else a) m acc"

definition mergeValues ::
    "(string, string list) gomap \<Rightarrow> (string, string list) gomap \<Rightarrow> (string, string list) gomap" where
  "mergeValues acc m = fold (\<lambda>(k, vs) a. AList.update k (gmList a k @ vs) a) m acc"

fun parseEmbeddedMessages :: "(nat \<Rightarrow> bool) \<Rightarrow> embedded \<Rightarrow> field list \<Rightarrow> embedded" where
  "parseEmbeddedMessages pr acc [] = acc"
| "parseEmbeddedMessages pr acc (f # fs) =
     (case parseFields (normalizeAuditPayload pr (fValue f)) of
        Inl err \<Rightarrow>
          parseEmbeddedMessages pr
            (acc\<lparr>emFailures := emFailures acc @ [f],
                 emError := (if emError acc = [] then parseErrorText pr err else emError acc)\<rparr>) fs
      | Inr pf \<Rightarrow>
          parseEmbeddedMessages pr
            (acc\<lparr>emAll := emAll acc @ pfAll pf,
                 emFirst := mergeFirst (emFirst acc) (pfFirst pf),
                 emValues := mergeValues (emValues acc) (pfValues pf)\<rparr>) fs)"

definition otherMessages :: "nat \<Rightarrow> field list \<Rightarrow> field list" where
  "otherMessages envelope fs =
     map snd (filter (\<lambda>(i, f). fKey f = ''msg'' \<and> i \<noteq> envelope) (enumerate 0 fs))"

definition ParseRecord :: "(nat \<Rightarrow> bool) \<Rightarrow> string \<Rightarrow> parseError + auditRecord" where
  "ParseRecord pr line =
     (case parseFields (normalizeKnownRecordSyntax pr line) of
        Inl err \<Rightarrow> Inl err
      | Inr pf \<Rightarrow>
        let type = firstValue (pfValues pf) ''type''
        in case findEnvelope 0 None (pfAll pf) of
             Inl err \<Rightarrow> Inl err
           | Inr env \<Rightarrow>
             (case checkTypeNode type None (pfAll pf) of
                Inl err \<Rightarrow> Inl err
              | Inr node \<Rightarrow>
                (case env of
                   None \<Rightarrow> Inl IDNotFound
                 | Some (envelope, audit_id) \<Rightarrow>
                   if type = [] then Inl (TypeNotFound audit_id)
                   else if \<not> utf8Valid type \<or> \<not> utf8Valid audit_id then Inl InvalidEnvelopeUTF8
                   else let em = parseEmbeddedMessages pr noEmbedded (otherMessages envelope (pfAll pf))
                     in Inr (emptyRecord
                          \<lparr>rRaw := line, rFields := pfFirst pf, rValues := Some (pfValues pf),
                           rAllFields := pfAll pf, rType := type, rID := audit_id,
                           rNode := (case node of None \<Rightarrow> [] | Some n \<Rightarrow> n),
                           rNodePresent := (node \<noteq> None), rSourceBytes := int (length line),
                           rEmbeddedAllFields := emAll em, rEmbeddedFields := emFirst em,
                           rEmbeddedValues := Some (emValues em),
                           rEmbeddedFailures := emFailures em,
                           rEmbeddedParseError := emError em\<rparr>))))"

text \<open>
  \<open>auditIDFromLinePrefix\<close>: only a structurally parsed envelope prefix of a malformed line.
\<close>

definition auditIDFromLinePrefix :: "string \<Rightarrow> string" where
  "auditIDFromLinePrefix line =
     (case indexOf ''):'' line of
        None \<Rightarrow> []
      | Some e \<Rightarrow>
          (case parseFields (take (e + 2) line) of
             Inl err \<Rightarrow> []
           | Inr pf \<Rightarrow> firstNonempty (map envelopeID (pfAll pf))))"

datatype execArgKind = ExecArgWhole | ExecArgLength | ExecArgFragment

text \<open>
  \<open>parseExecArgKey\<close>: the argument index is decimal digits, the fragment index goes through
  \<open>strconv.Atoi\<close> and may be signed.
\<close>

definition parseExecArgKey :: "string \<Rightarrow> (int \<times> int \<times> execArgKind) option" where
  "parseExecArgKey key =
     (case key of
        a # d # _ \<Rightarrow>
          if a \<noteq> CHR ''a'' \<or> \<not> isDigit d then None
          else let digits = takeWhile isDigit (tl key); rest = dropWhile isDigit (tl key)
            in (case atoi digits of
                  None \<Rightarrow> None
                | Some argIndex \<Rightarrow>
                  if rest = [] then Some (argIndex, 0, ExecArgWhole)
                  else if rest = ''_len'' then Some (argIndex, 0, ExecArgLength)
                  else if hd rest \<noteq> CHR ''['' \<or> last key \<noteq> CHR '']''
                          \<or> length rest < 2 then None
                  else (case atoi (butlast (tl rest)) of
                          None \<Rightarrow> None
                        | Some partIndex \<Rightarrow> Some (argIndex, partIndex, ExecArgFragment)))
      | _ \<Rightarrow> None)"

definition contextTypes :: "string list" where
  "contextTypes = [''CWD'', ''EXECVE'', ''PATH'', ''PROCTITLE'', ''SOCKADDR'']"

text \<open>\<open>primaryRecordType\<close>: \<open>sort.Strings\<close> is the bytewise lexicographic order.\<close>

definition primaryRecordType :: "auditRecord list \<Rightarrow> string" where
  "primaryRecordType records =
     (let seen = filter (\<lambda>t. t \<noteq> [] \<and> t \<noteq> ''EOE'') (map rType records)
      in if ''SYSCALL'' \<in> set seen then ''SYSCALL''
         else case sort (filter (\<lambda>t. t \<notin> set contextTypes) seen) of
                t # _ \<Rightarrow> t
              | [] \<Rightarrow> (case sort seen of t # _ \<Rightarrow> t | [] \<Rightarrow> []))"

section \<open>Properties\<close>

lemma indexByte_first: "b \<notin> set xs \<Longrightarrow> indexByte b (xs @ b # ys) = Some (length xs)"
  by (rule indexByte_append)

text \<open>The identifier inside an envelope message is read back exactly.\<close>

lemma auditIDFromMessage_roundtrip:
  "auditIDFromMessage (''audit('' @ audit_id @ ''):'') =
     (if CHR '')'' \<in> set audit_id then [] else audit_id)"
proof -
  let ?msg = "''audit('' @ audit_id @ ''):''"
  have pre: "hasPrefix ?msg ''audit(''" and suf: "hasSuffix ?msg ''):''"
    by (auto simp: hasPrefix_def hasSuffix_def suffix_def prefix_def)
  have dr: "drop 6 ?msg = audit_id @ CHR '')'' # '':''" by simp
  show ?thesis
  proof (cases "CHR '')'' \<in> set audit_id")
    case True
    then obtain i where i: "indexByte CHR '')'' (audit_id @ CHR '')'' # '':'') = Some i" "i < length audit_id"
    proof -
      have "indexByte CHR '')'' (audit_id @ CHR '')'' # '':'') \<noteq> None"
        by (simp add: indexByte_None)
      then obtain i where i: "indexByte CHR '')'' (audit_id @ CHR '')'' # '':'') = Some i" by auto
      then have "CHR '')'' \<notin> set (take i (audit_id @ CHR '')'' # '':''))"
        by (simp add: indexByte_Some)
      then have "i < length audit_id" using True
        by (cases "i < length audit_id") auto
      with i that show thesis by blast
    qed
    then show ?thesis
      using True pre suf dr unfolding auditIDFromMessage_def by simp
  next
    case False
    then have "indexByte CHR '')'' (drop 6 ?msg) = Some (length audit_id)"
      unfolding dr by (rule indexByte_append)
    then show ?thesis
      using False pre suf unfolding auditIDFromMessage_def by simp
  qed
qed

lemma auditIDFromMessage_Some:
  assumes "auditIDFromMessage msg \<noteq> []"
  shows "msg = ''audit('' @ auditIDFromMessage msg @ ''):'' \<and> CHR '')'' \<notin> set (auditIDFromMessage msg)"
proof -
  from assms have pre: "hasPrefix msg ''audit(''" and suf: "hasSuffix msg ''):''"
    by (auto simp: auditIDFromMessage_def split: if_splits)
  from assms pre suf obtain e where e: "indexByte CHR '')'' (drop 6 msg) = Some e"
    and len: "6 + e = length msg - 2" and res: "auditIDFromMessage msg = take e (drop 6 msg)"
    by (auto simp: auditIDFromMessage_def split: option.splits if_splits)
  obtain m where m: "msg = ''audit('' @ m" using pre by (auto simp: hasPrefix_def prefix_def)
  then have dm: "drop 6 msg = m" by simp
  have lm: "length m = e + 2"
    using len e m by (auto simp: indexByte_Some)
  obtain n where n: "msg = n @ ''):''" using suf by (auto simp: hasSuffix_def suffix_def)
  then have "drop (length msg - 2) msg = ''):''" by simp
  then have "drop e m = ''):''" using m lm by simp
  then have "m = take e m @ ''):''" by (metis append_take_drop_id)
  moreover have "CHR '')'' \<notin> set (take e m)" using e unfolding dm by (simp add: indexByte_Some)
  ultimately show ?thesis using m res dm by simp
qed

lemma findEnvelope_keeps:
  "findEnvelope i (Some x) fs = Inr env' \<longleftrightarrow>
     env' = Some x \<and> (\<forall>f \<in> set fs. envelopeID f \<noteq> [] \<longrightarrow> envelopeID f = snd x)"
  by (induction fs arbitrary: i) (cases x; auto simp: Let_def split: if_splits)+

lemma findEnvelope_none:
  "findEnvelope i None fs = Inr env' \<Longrightarrow>
     (\<forall>f \<in> set fs. envelopeID f \<noteq> [] \<longrightarrow> map_option snd env' = Some (envelopeID f)) \<and>
     (env' \<noteq> None \<longrightarrow> (\<exists>f \<in> set fs. envelopeID f \<noteq> []))"
  by (induction fs arbitrary: i) (auto simp: Let_def findEnvelope_keeps split: if_splits)

lemma findEnvelope_complete:
  assumes "\<forall>f \<in> set fs. envelopeID f \<noteq> [] \<longrightarrow> envelopeID f = v"
  shows "\<exists>env'. findEnvelope i None fs = Inr env'"
  using assms
  by (induction fs arbitrary: i) (auto simp: Let_def findEnvelope_keeps)

definition nodeField :: "field \<Rightarrow> bool" where
  "nodeField f \<longleftrightarrow> fKey f = ''node'' \<and> \<not> fInterpreted f"

definition typeField :: "field \<Rightarrow> bool" where
  "typeField f \<longleftrightarrow> fKey f = ''type''"

lemma checkTypeNode_Cons:
  "checkTypeNode type node (f # fs) =
     (if typeField f \<and> fValue f \<noteq> type then Inl ConflictingTypes
      else if \<not> nodeField f then checkTypeNode type node fs
      else if fValue f = [] \<or> \<not> utf8Valid (fValue f) then Inl InvalidNode
      else case node of
             Some n \<Rightarrow> if n \<noteq> fValue f then Inl ConflictingNodes
                       else checkTypeNode type node fs
           | None \<Rightarrow> checkTypeNode type (Some (fValue f)) fs)"
  by (simp add: nodeField_def typeField_def)

lemma checkTypeNode_keeps:
  "checkTypeNode type (Some n) fs = Inr node' \<longleftrightarrow>
     node' = Some n \<and> (\<forall>f \<in> set fs. typeField f \<longrightarrow> fValue f = type) \<and>
     (\<forall>f \<in> set fs. nodeField f \<longrightarrow> fValue f \<noteq> [] \<and> utf8Valid (fValue f) \<and> fValue f = n)"
  by (induction fs) (auto simp: checkTypeNode_Cons simp del: checkTypeNode.simps(2))

lemma checkTypeNode_none_Cons:
  "checkTypeNode type None (f # fs) = Inr node' \<longleftrightarrow>
     (typeField f \<longrightarrow> fValue f = type) \<and>
     (if nodeField f then fValue f \<noteq> [] \<and> utf8Valid (fValue f) \<and>
        checkTypeNode type (Some (fValue f)) fs = Inr node'
      else checkTypeNode type None fs = Inr node')"
  unfolding checkTypeNode_Cons by (simp del: checkTypeNode.simps)

lemma checkTypeNode_none:
  "checkTypeNode type None fs = Inr node' \<Longrightarrow>
     (\<forall>f \<in> set fs. typeField f \<longrightarrow> fValue f = type) \<and>
     (\<forall>f \<in> set fs. nodeField f \<longrightarrow> fValue f \<noteq> [] \<and> utf8Valid (fValue f) \<and> node' = Some (fValue f)) \<and>
     (node' \<noteq> None \<longrightarrow> (\<exists>f \<in> set fs. nodeField f))"
proof (induction fs)
  case Nil
  then show ?case by simp
next
  case (Cons f fs)
  show ?case
  proof (cases "nodeField f")
    case True
    with Cons.prems have t: "typeField f \<longrightarrow> fValue f = type" and v: "fValue f \<noteq> []"
      and u: "utf8Valid (fValue f)" and "checkTypeNode type (Some (fValue f)) fs = Inr node'"
      unfolding checkTypeNode_none_Cons by simp_all
    then have "node' = Some (fValue f)" and "\<forall>g \<in> set fs. typeField g \<longrightarrow> fValue g = type"
      and "\<forall>g \<in> set fs. nodeField g \<longrightarrow> fValue g \<noteq> [] \<and> utf8Valid (fValue g) \<and> fValue g = fValue f"
      unfolding checkTypeNode_keeps by simp_all
    with True t v u show ?thesis by auto
  next
    case False
    with Cons.prems have "typeField f \<longrightarrow> fValue f = type"
      and "checkTypeNode type None fs = Inr node'"
      unfolding checkTypeNode_none_Cons by simp_all
    with False Cons.IH show ?thesis by auto
  qed
qed

lemma checkTypeNode_complete:
  assumes "\<forall>f \<in> set fs. typeField f \<longrightarrow> fValue f = type"
    and "\<forall>f \<in> set fs. nodeField f \<longrightarrow> fValue f = n \<and> n \<noteq> [] \<and> utf8Valid n"
  shows "\<exists>node'. checkTypeNode type None fs = Inr node'"
  using assms
proof (induction fs)
  case Nil
  then show ?case by simp
next
  case (Cons f fs)
  show ?case
  proof (cases "nodeField f")
    case True
    with Cons.prems have "checkTypeNode type (Some (fValue f)) fs = Inr (Some (fValue f))"
      unfolding checkTypeNode_keeps by simp
    with True Cons.prems show ?thesis
      unfolding checkTypeNode_none_Cons by auto
  next
    case False
    moreover from Cons have "\<exists>node'. checkTypeNode type None fs = Inr node'" by auto
    ultimately show ?thesis
      using Cons.prems unfolding checkTypeNode_none_Cons by simp
  qed
qed

text \<open>
  The consistency of an envelope: one audit identifier, one type and one node value, all valid.
\<close>

definition envelopeConsistent :: "field list \<Rightarrow> string \<Rightarrow> string \<Rightarrow> string option \<Rightarrow> bool" where
  "envelopeConsistent fs type audit_id node \<longleftrightarrow>
     audit_id \<noteq> [] \<and> type \<noteq> [] \<and> utf8Valid audit_id \<and> utf8Valid type \<and>
     (\<exists>f \<in> set fs. envelopeID f \<noteq> []) \<and>
     (\<forall>f \<in> set fs. envelopeID f \<noteq> [] \<longrightarrow> envelopeID f = audit_id) \<and>
     (\<forall>f \<in> set fs. typeField f \<longrightarrow> fValue f = type) \<and>
     (\<forall>f \<in> set fs. nodeField f \<longrightarrow> fValue f \<noteq> [] \<and> utf8Valid (fValue f) \<and> node = Some (fValue f)) \<and>
     (node \<noteq> None \<longrightarrow> (\<exists>f \<in> set fs. nodeField f))"

definition recordNode :: "auditRecord \<Rightarrow> string option" where
  "recordNode r = (if rNodePresent r then Some (rNode r) else None)"

lemma ParseRecord_cases:
  assumes "ParseRecord pr line = Inr r"
  obtains pf envelope node where
    "parseFields (normalizeKnownRecordSyntax pr line) = Inr pf"
    "findEnvelope 0 None (pfAll pf) = Inr (Some (envelope, rID r))"
    "checkTypeNode (rType r) None (pfAll pf) = Inr node"
    "rType r = firstValue (pfValues pf) ''type''" "rType r \<noteq> []"
    "utf8Valid (rType r)" "utf8Valid (rID r)"
    "rAllFields r = pfAll pf" "rFields r = pfFirst pf" "rValues r = Some (pfValues pf)"
    "recordNode r = node" "rRaw r = line" "rSourceBytes r = int (length line)" "rConflicts r = []"
    "rSource r = noPosition"
  using assms
  unfolding ParseRecord_def recordNode_def
  by (auto simp: Let_def emptyRecord_def split: sum.splits option.splits prod.splits if_splits)

text \<open>
  An accepted record has exactly one audit identifier, type and node among its fields, all
  non-empty valid UTF-8, and keeps the line and its byte count.
\<close>

lemma ParseRecord_envelope:
  assumes "ParseRecord pr line = Inr r"
  shows "envelopeConsistent (rAllFields r) (rType r) (rID r) (recordNode r)
       \<and> rRaw r = line \<and> rSourceBytes r = int (length line)"
proof (rule ParseRecord_cases [OF assms])
  fix pf envelope node
  assume env: "findEnvelope 0 None (pfAll pf) = Inr (Some (envelope, rID r))" and
    node: "checkTypeNode (rType r) None (pfAll pf) = Inr node" and
    t: "rType r \<noteq> []" "utf8Valid (rType r)" "utf8Valid (rID r)" and
    af: "rAllFields r = pfAll pf" and n: "recordNode r = node" and
    raw: "rRaw r = line" "rSourceBytes r = int (length line)"
  from findEnvelope_none [OF env]
  have ids: "\<forall>f \<in> set (pfAll pf). envelopeID f \<noteq> [] \<longrightarrow> envelopeID f = rID r"
    and ex: "\<exists>f \<in> set (pfAll pf). envelopeID f \<noteq> []"
    by auto
  then have "rID r \<noteq> []" by auto
  with ids ex t checkTypeNode_none [OF node]
  have "envelopeConsistent (pfAll pf) (rType r) (rID r) node"
    unfolding envelopeConsistent_def by (intro conjI) (assumption | blast)+
  with raw af n show ?thesis by simp
qed

text \<open>\<open>ParseRecord\<close> accepts exactly the lexable lines whose envelope is consistent.\<close>

lemma ParseRecord_accepts:
  "(\<exists>r. ParseRecord pr line = Inr r) \<longleftrightarrow>
     (\<exists>pf audit_id node. parseFields (normalizeKnownRecordSyntax pr line) = Inr pf \<and>
        envelopeConsistent (pfAll pf) (firstValue (pfValues pf) ''type'') audit_id node)"
proof
  assume "\<exists>r. ParseRecord pr line = Inr r"
  then obtain r where r: "ParseRecord pr line = Inr r" ..
  then obtain pf where "parseFields (normalizeKnownRecordSyntax pr line) = Inr pf"
    "rType r = firstValue (pfValues pf) ''type''" "rAllFields r = pfAll pf"
    by (elim ParseRecord_cases) metis
  with ParseRecord_envelope [OF r]
  show "\<exists>pf audit_id node. parseFields (normalizeKnownRecordSyntax pr line) = Inr pf \<and>
        envelopeConsistent (pfAll pf) (firstValue (pfValues pf) ''type'') audit_id node"
    by metis
next
  assume "\<exists>pf audit_id node. parseFields (normalizeKnownRecordSyntax pr line) = Inr pf \<and>
        envelopeConsistent (pfAll pf) (firstValue (pfValues pf) ''type'') audit_id node"
  then obtain pf audit_id node where pf: "parseFields (normalizeKnownRecordSyntax pr line) = Inr pf"
    and ok: "envelopeConsistent (pfAll pf) (firstValue (pfValues pf) ''type'') audit_id node"
    by blast
  let ?type = "firstValue (pfValues pf) ''type''"
  from ok have ids: "\<forall>f \<in> set (pfAll pf). envelopeID f \<noteq> [] \<longrightarrow> envelopeID f = audit_id"
    and ex: "\<exists>f \<in> set (pfAll pf). envelopeID f \<noteq> []"
    and types: "\<forall>f \<in> set (pfAll pf). typeField f \<longrightarrow> fValue f = ?type"
    and t: "?type \<noteq> []" "utf8Valid ?type" "utf8Valid audit_id"
    unfolding envelopeConsistent_def by auto
  from findEnvelope_complete [OF ids] obtain env where env: "findEnvelope 0 None (pfAll pf) = Inr env" ..
  with findEnvelope_none [OF env] ex ids obtain e where e: "env = Some (e, audit_id)"
    by (cases env) auto
  have "\<exists>n. \<forall>f \<in> set (pfAll pf). nodeField f \<longrightarrow> fValue f = n \<and> n \<noteq> [] \<and> utf8Valid n"
  proof
    show "\<forall>f \<in> set (pfAll pf). nodeField f \<longrightarrow>
        fValue f = the node \<and> the node \<noteq> [] \<and> utf8Valid (the node)"
      using ok unfolding envelopeConsistent_def by auto
  qed
  with types obtain node' where "checkTypeNode ?type None (pfAll pf) = Inr node'"
    using checkTypeNode_complete by blast
  with pf env e t show "\<exists>r. ParseRecord pr line = Inr r"
    by (simp add: ParseRecord_def Let_def)
qed

end
