(* ===== verification/RecordTheorems.thy ===== *)
theory RecordTheorems
  imports RecordEnvelope
begin

text \<open>
  The properties of the record parser (internal/audit/parser.go), each with a witness on a
  concrete line.
\<close>

definition sampleLine :: string where
  "sampleLine = ''type=CWD msg=audit(1.5:7): cwd=\"/\"''"

definition sampleFields :: "field list" where
  "sampleFields =
     [\<lparr>fKey = ''type'', fValue = ''CWD'', fQuoted = False, fInterpreted = False\<rparr>,
      \<lparr>fKey = ''msg'', fValue = ''audit(1.5:7):'', fQuoted = False, fInterpreted = False\<rparr>,
      \<lparr>fKey = ''cwd'', fValue = ''/'', fQuoted = True, fInterpreted = False\<rparr>]"

lemma sample_parses: "parseFields sampleLine = Inr (addFields noFields sampleFields)"
  by code_simp

lemma sample_record: "\<exists>r. ParseRecord (\<lambda>_. False) sampleLine = Inr r"
proof -
  have "case ParseRecord (\<lambda>_. False) sampleLine of Inr r \<Rightarrow> True | Inl e \<Rightarrow> False"
    by code_simp
  then show ?thesis by (cases "ParseRecord (\<lambda>_. False) sampleLine") auto
qed

text \<open>
  The two lookup tables the lexer returns agree with its ordered field list: a key's values
  are the values of its occurrences in line order, and its first value is the first of them.
\<close>

theorem lexer_tables_agree:
  assumes "parseFields line = Inr pf"
  shows "gmList (pfValues pf) k = map fValue (filter (\<lambda>f. fKey f = k) (pfAll pf))
       \<and> map_of (pfFirst pf) k = map_option fValue (find (\<lambda>f. fKey f = k) (pfAll pf))"
  using assms by (rule parseFields_tables)

theorem lexer_tables_agree_witness:
  "gmList (pfValues (addFields noFields sampleFields)) ''cwd'' =
     map fValue (filter (\<lambda>f. fKey f = ''cwd'') (pfAll (addFields noFields sampleFields)))"
  using lexer_tables_agree [OF sample_parses, of "''cwd''"] by blast

text \<open>
  Lexing is a left inverse of printing: a list of representable fields, written with the
  source's separators and quotes, is read back exactly, order, quoting and section included.
\<close>

theorem lexer_reads_back:
  assumes "list_all wfField fs" and "interpOrdered False fs"
  shows "\<exists>pf. parseFields (printFields fs) = Inr pf \<and> pfAll pf = fs"
  using assms by (rule parseFields_printFields)

theorem lexer_reads_back_witness:
  "\<exists>pf. parseFields (printFields sampleFields) = Inr pf \<and> pfAll pf = sampleFields"
proof (rule lexer_reads_back)
  show "list_all wfField sampleFields" by code_simp
  show "interpOrdered False sampleFields" by code_simp
qed

text \<open>
  C22: every line the lexer accepts has the normal form \<open>printFields\<close> of its fields: only
  representable fields come out, and re-lexing the normal form gives the same result, so
  nothing but the amount of white space and the choice of quote is lost.
\<close>

theorem lexer_normal_form:
  assumes "parseFields line = Inr pf"
  shows "list_all wfField (pfAll pf) \<and> parseFields (printFields (pfAll pf)) = Inr pf"
  using assms by (rule parseFields_normal_form)

theorem lexer_normal_form_witness:
  "parseFields (printFields (pfAll (addFields noFields sampleFields))) = Inr (addFields noFields sampleFields)"
  using lexer_normal_form [OF sample_parses] by blast

text \<open>
  C21: an accepted record has exactly one audit identifier, type and node among its fields, all
  non-empty valid UTF-8, and keeps the line and its byte count.
\<close>

theorem record_envelope_consistent:
  assumes "ParseRecord pr line = Inr r"
  shows "envelopeConsistent (rAllFields r) (rType r) (rID r) (recordNode r)
       \<and> rRaw r = line \<and> rSourceBytes r = int (length line)"
  using assms by (rule ParseRecord_envelope)

theorem record_envelope_consistent_witness:
  "\<exists>r. rRaw r = sampleLine \<and> envelopeConsistent (rAllFields r) (rType r) (rID r) (recordNode r)"
proof -
  obtain r where r: "ParseRecord (\<lambda>_. False) sampleLine = Inr r" using sample_record by blast
  show ?thesis using record_envelope_consistent [OF r] by blast
qed

text \<open>C20: \<open>ParseRecord\<close> accepts exactly the lexable lines whose envelope is consistent.\<close>

theorem record_acceptance:
  "(\<exists>r. ParseRecord pr line = Inr r) \<longleftrightarrow>
     (\<exists>pf audit_id node. parseFields (normalizeKnownRecordSyntax pr line) = Inr pf \<and>
        envelopeConsistent (pfAll pf) (firstValue (pfValues pf) ''type'') audit_id node)"
  by (rule ParseRecord_accepts)

end
