(* ===== verification/GoTime.thy ===== *)
theory GoTime
  imports GoStrings
begin

text \<open>
  Go's \<open>time.Time\<close> and \<open>time.Duration\<close> as the program uses them. A time is its number of
  nanoseconds since 1 January of year 1, UTC, so that the zero value (\<open>IsZero\<close>) is 0; a
  duration is its number of nanoseconds. \<open>Sub\<close> saturates at the 64-bit duration range.
  Observation times come from one process clock and are compared with each other only.
\<close>

type_synonym gotime = int
type_synonym duration = int

definition maxDuration :: duration where
  "maxDuration = 2 ^ 63 - 1"

definition minDuration :: duration where
  "minDuration = - (2 ^ 63)"

definition second :: duration where
  "second = 1000000000"

definition minute :: duration where
  "minute = 60 * second"

definition timeSub :: "gotime \<Rightarrow> gotime \<Rightarrow> duration" where
  "timeSub t u = max minDuration (min maxDuration (t - u))"

text \<open>Seconds from year 1 to the Unix epoch, and \<open>time.Unix\<close>.\<close>

definition unixToInternal :: int where
  "unixToInternal = 62135596800"

definition unixTime :: "int \<Rightarrow> int \<Rightarrow> gotime" where
  "unixTime seconds nanoseconds = (seconds + unixToInternal) * second + nanoseconds"

text \<open>
  The proleptic Gregorian date of a day number counted from the Unix epoch: (year, month, day).
\<close>

definition civilFromDays :: "int \<Rightarrow> int \<times> int \<times> int" where
  "civilFromDays days =
     (let z = days + 719468;
          era = z div 146097;
          doe = z mod 146097;
          yoe = (doe - doe div 1460 + doe div 36524 - doe div 146096) div 365;
          doy = doe - (365 * yoe + yoe div 4 - yoe div 100);
          mp = (5 * doy + 2) div 153;
          d = doy - (153 * mp + 2) div 5 + 1;
          m = (if mp < 10 then mp + 3 else mp - 9);
          y = yoe + era * 400
      in (if m \<le> 2 then y + 1 else y, m, d))"

definition timeYear :: "gotime \<Rightarrow> int" where
  "timeYear t = fst (civilFromDays ((t div second - unixToInternal) div 86400))"

definition pad2 :: "int \<Rightarrow> string" where
  "pad2 n = (if n < 10 then CHR ''0'' # itoa n else itoa n)"

definition pad4 :: "int \<Rightarrow> string" where
  "pad4 n = (if n < 10 then ''000'' else if n < 100 then ''00'' else if n < 1000 then ''0'' else [])
            @ itoa n"

definition padNano :: "int \<Rightarrow> string" where
  "padNano n = (let ds = itoa n in replicate (9 - length ds) CHR ''0'' @ ds)"

text \<open>\<open>Format(time.RFC3339Nano)\<close> of a UTC time: trailing zeros of the fraction are dropped.\<close>

definition formatRFC3339Nano :: "gotime \<Rightarrow> string" where
  "formatRFC3339Nano t =
     (let unix = t div second - unixToInternal;
          nano = t mod second;
          sod = unix mod 86400
      in case civilFromDays (unix div 86400) of
           (y, m, d) \<Rightarrow>
             pad4 y @ ''-'' @ pad2 m @ ''-'' @ pad2 d @ ''T''
             @ pad2 (sod div 3600) @ '':'' @ pad2 (sod div 60 mod 60) @ '':'' @ pad2 (sod mod 60)
             @ (if nano = 0 then []
                else CHR ''.'' # rev (dropWhile (\<lambda>c. c = CHR ''0'') (rev (padNano nano))))
             @ ''Z'')"

text \<open>
  \<open>auditTimeFromID\<close> of internal/audit/assembler.go: seconds, an optional fraction and a serial
  number, all decimal; the year must have four digits.
\<close>

definition padFraction :: "string \<Rightarrow> string" where
  "padFraction fractionText =
     (let short = take 9 fractionText in short @ replicate (9 - length short) CHR ''0'')"

definition auditTimeFromID :: "string \<Rightarrow> gotime option" where
  "auditTimeFromID audit_id =
     (case lastIndexByte CHR '':'' audit_id of
        None \<Rightarrow> None
      | Some colon \<Rightarrow>
        if colon = 0 \<or> colon = length audit_id - 1 then None
        else let serial = drop (colon + 1) audit_id; timestamp = take colon audit_id;
                 dot = indexByte CHR ''.'' timestamp;
                 secondsText = (case dot of None \<Rightarrow> timestamp | Some d \<Rightarrow> take d timestamp);
                 fractionText = (case dot of None \<Rightarrow> [] | Some d \<Rightarrow> drop (d + 1) timestamp)
          in if \<not> list_all isDigit serial \<or> parseUint10 64 serial = None then None
             else if secondsText = [] \<or> dot \<noteq> None \<and> fractionText = [] then None
             else if \<not> list_all isDigit secondsText \<or> \<not> list_all isDigit fractionText then None
             else (case parseInt10 secondsText of
                     None \<Rightarrow> None
                   | Some seconds \<Rightarrow>
                     (case parseInt10 (padFraction fractionText) of
                        None \<Rightarrow> None
                      | Some nanoseconds \<Rightarrow>
                        let t = unixTime seconds nanoseconds
                        in if timeYear t < 0 \<or> 9999 < timeYear t then None else Some t)))"

lemma padFraction_digits: "list_all isDigit s \<Longrightarrow> list_all isDigit (padFraction s)"
  by (auto simp: padFraction_def Let_def list_all_iff isDigit_def byte_def dest: in_set_takeD)

lemma timeSub_exact: "minDuration \<le> t - u \<Longrightarrow> t - u \<le> maxDuration \<Longrightarrow> timeSub t u = t - u"
  by (simp add: timeSub_def)

lemma auditTimeFromID_year:
  "auditTimeFromID audit_id = Some t \<Longrightarrow> 0 \<le> timeYear t \<and> timeYear t \<le> 9999"
  by (auto simp: auditTimeFromID_def Let_def split: option.splits if_splits)

lemma parseInt10_digits_nonneg:
  assumes "parseInt10 s = Some n" and "list_all isDigit s"
  shows "0 \<le> n"
proof (cases s)
  case Nil
  with assms show ?thesis by (simp add: parseInt10_def)
next
  case (Cons c cs)
  with assms(2) have "c \<noteq> CHR ''-''" and "c \<noteq> CHR ''+''" by (auto simp: isDigit_def byte_def)
  with assms Cons have "n = decimalValue s"
    by (simp add: parseInt10_def Let_def split: if_splits)
  with assms(2) show ?thesis by (simp add: decimalValue_nonneg)
qed

text \<open>An Audit time is never the zero time: it lies at or after the Unix epoch.\<close>

lemma auditTimeFromID_pos:
  assumes "auditTimeFromID audit_id = Some t"
  shows "0 < t"
proof -
  have pos: "0 < unixTime secs nanos"
    if "parseInt10 st = Some secs" "list_all isDigit st"
      "parseInt10 (padFraction ft) = Some nanos" "list_all isDigit ft" for secs nanos st ft
  proof -
    have "0 \<le> secs" and "0 \<le> nanos"
      using that by (auto intro: parseInt10_digits_nonneg padFraction_digits)
    then show ?thesis by (simp add: unixTime_def unixToInternal_def second_def)
  qed
  from assms show ?thesis
    unfolding auditTimeFromID_def Let_def
    by (auto split: option.splits if_splits intro: pos)
qed

end
