(* ===== verification/Assembler.thy ===== *)
theory Assembler
  imports FamilyTables GoTime
begin

text \<open>
  The event assembler of internal/audit/assembler.go. Its state is the record \<open>assembler\<close>;
  each method takes the state and returns it updated. The pending and rejected maps are
  \<open>gomap\<close>s, so a range over one visits the entries in list order; \<open>AssemblerProperties\<close>
  shows that the outcome is independent of that order. The sequence counter is a natural
  number: the 64-bit counter of the source would wrap after \<open>2 ^ 64\<close> events.
\<close>

section \<open>State\<close>

record pendingEvent =
  peMixedNode :: bool
  peRecords :: "auditRecord list"
  peSequence :: nat
  peLastSeen :: gotime
  peAuditTime :: gotime
  peHasAuditTS :: bool

record rejectedEvent =
  rjSource :: sourcePosition
  rjLastSeen :: gotime
  rjKeyBytes :: int

record assemblerLimits =
  maxPendingEvents :: int
  maxRecordsPerEvent :: int
  maxPendingBytes :: int

record limitError =
  leLimit :: string
  leValue :: int
  leAuditID :: string
  leNode :: string
  leNodePresent :: bool
  leObservedRecords :: int
  leCountComplete :: bool

record assembler =
  asRejected :: "(correlationKey, rejectedEvent) gomap"
  asRejectionBytes :: int
  asSpillSince :: gotime
  asSpillSource :: sourcePosition
  asTimeout :: duration
  asLimits :: assemblerLimits
  asPending :: "(correlationKey, pendingEvent) gomap"
  asPendingBytes :: int
  asNextSequence :: nat
  asLatestAuditTime :: gotime
  asLatestAuditNode :: string
  asLatestNodePresent :: bool

type_synonym readyEvent = "nat \<times> assembledEvent"

definition NewAssembler :: "duration \<Rightarrow> assembler" where
  "NewAssembler timeout =
     \<lparr>asRejected = [], asRejectionBytes = 0, asSpillSince = 0, asSpillSource = noPosition,
      asTimeout = timeout,
      asLimits = \<lparr>maxPendingEvents = 0, maxRecordsPerEvent = 0, maxPendingBytes = 0\<rparr>,
      asPending = [], asPendingBytes = 0, asNextSequence = 0, asLatestAuditTime = 0,
      asLatestAuditNode = [], asLatestNodePresent = False\<rparr>"

text \<open>\<open>NewBoundedAssembler\<close>: None stands for the error \<open>assembler limits must be positive\<close>.\<close>

definition NewBoundedAssembler :: "duration \<Rightarrow> assemblerLimits \<Rightarrow> assembler option" where
  "NewBoundedAssembler timeout limits =
     (if maxPendingEvents limits \<le> 0 \<or> maxRecordsPerEvent limits \<le> 0 \<or> maxPendingBytes limits \<le> 0
      then None else Some ((NewAssembler timeout)\<lparr>asLimits := limits\<rparr>))"

section \<open>Operations\<close>

definition checkLimits ::
    "auditRecord \<Rightarrow> pendingEvent option \<Rightarrow> assembler \<Rightarrow> limitError option" where
  "checkLimits r pending a =
     (let limits = asLimits a;
          exceeded = (\<lambda>limit v. Some \<lparr>leLimit = limit, leValue = v, leAuditID = [], leNode = [],
             leNodePresent = False, leObservedRecords = 0, leCountComplete = False\<rparr>)
      in if maxPendingEvents limits = 0 then None
         else if pending = None \<and> int (length (asPending a)) \<ge> maxPendingEvents limits
           then exceeded ''pending events'' (maxPendingEvents limits)
         else if (case pending of None \<Rightarrow> False
                  | Some p \<Rightarrow> int (length (peRecords p)) \<ge> maxRecordsPerEvent limits)
           then exceeded ''records per event'' (maxRecordsPerEvent limits)
         else if rSourceBytes r > maxPendingBytes limits - asPendingBytes a
           then exceeded ''pending bytes'' (maxPendingBytes limits)
         else None)"

text \<open>
  \<open>finish\<close> on the entry \<open>p\<close> of key \<open>k\<close>, which every caller has just read from the map.
\<close>

definition finish ::
    "correlationKey \<Rightarrow> pendingEvent \<Rightarrow> completion \<Rightarrow> bool \<Rightarrow> assembler \<Rightarrow> assembler \<times> readyEvent" where
  "finish k p completion complete a =
     (a\<lparr>asPending := AList.delete k (asPending a),
        asPendingBytes := asPendingBytes a - sum_list (map rSourceBytes (peRecords p))\<rparr>,
      (peSequence p,
       \<lparr>aeSequence = 0, aeExceptional = False, aeMixedNode = peMixedNode p, aeID = ckID k,
        aeRecords = peRecords p, aeComplete = complete, aeCompletion = completion\<rparr>))"

definition clearAuditTimes :: "assembler \<Rightarrow> assembler" where
  "clearAuditTimes a =
     a\<lparr>asPending := map (\<lambda>(k, p). (k, p\<lparr>peHasAuditTS := False\<rparr>)) (asPending a)\<rparr>"

definition forwardWindow :: "duration \<Rightarrow> duration" where
  "forwardWindow timeout =
     (if timeout > minute div 2
      then (if timeout \<le> maxDuration div 2 then timeout * 2 else timeout)
      else minute)"

definition observeAuditTime :: "gotime \<Rightarrow> correlationKey \<Rightarrow> assembler \<Rightarrow> assembler" where
  "observeAuditTime timestamp key a0 =
     (let a1 = (if asLatestAuditTime a0 \<noteq> 0 \<and>
                   (ckNode key \<noteq> asLatestAuditNode a0 \<or> ckNodePresent key \<noteq> asLatestNodePresent a0)
                then (clearAuditTimes a0)\<lparr>asLatestAuditTime := 0\<rparr> else a0);
          a2 = a1\<lparr>asLatestAuditNode := ckNode key, asLatestNodePresent := ckNodePresent key\<rparr>;
          delta = timeSub timestamp (asLatestAuditTime a2)
      in if asLatestAuditTime a2 \<noteq> 0 \<and> asTimeout a2 > 0 \<and>
            (delta > forwardWindow (asTimeout a2) \<or> delta \<le> - asTimeout a2)
         then (clearAuditTimes a2)\<lparr>asLatestAuditTime := timestamp\<rparr>
         else if timestamp > asLatestAuditTime a2
         then a2\<lparr>asLatestAuditTime := timestamp\<rparr>
         else a2)"

definition wallExpired :: "gotime \<Rightarrow> assembler \<Rightarrow> pendingEvent \<Rightarrow> bool" where
  "wallExpired now a p \<longleftrightarrow> peLastSeen p \<noteq> 0 \<and> \<not> now < peLastSeen p + asTimeout a"

definition watermarkExpired :: "assembler \<Rightarrow> pendingEvent \<Rightarrow> bool" where
  "watermarkExpired a p \<longleftrightarrow>
     peHasAuditTS p \<and> \<not> asLatestAuditTime a < peAuditTime p + asTimeout a"

text \<open>The loop over the expired identifiers: each is finished as a watermark or a timeout.\<close>

fun finishExpired ::
    "(correlationKey \<times> pendingEvent) list \<Rightarrow> assembler \<Rightarrow> assembler \<times> readyEvent list" where
  "finishExpired [] a = (a, [])"
| "finishExpired ((k, p) # es) a =
     (let completion = (if watermarkExpired a p then CompletionWatermark else CompletionTimeout);
          (a', e) = finish k p completion (completion = CompletionWatermark) a;
          (a'', ready) = finishExpired es a'
      in (a'', e # ready))"

definition expiredEntries :: "gotime \<Rightarrow> assembler \<Rightarrow> (correlationKey \<times> pendingEvent) list" where
  "expiredEntries now a =
     sort_key (\<lambda>(k, p). peSequence p)
       (filter (\<lambda>(k, p). wallExpired now a p \<or> watermarkExpired a p) (asPending a))"

definition expired :: "gotime \<Rightarrow> assembler \<Rightarrow> assembler \<times> readyEvent list" where
  "expired now a = (if asTimeout a \<le> 0 then (a, []) else finishExpired (expiredEntries now a) a)"

definition orderedEvents :: "readyEvent list \<Rightarrow> assembledEvent list" where
  "orderedEvents ready = map (\<lambda>(s, e). e\<lparr>aeSequence := s\<rparr>) (sort_key fst ready)"

text \<open>The loop that marks groups of the same identifier whose node presence differs.\<close>

definition markMixed ::
    "correlationKey \<Rightarrow> (correlationKey, pendingEvent) gomap \<Rightarrow> (correlationKey, pendingEvent) gomap" where
  "markMixed key pending =
     map (\<lambda>(k, p). (k, if ckID k = ckID key \<and> ckNodePresent k \<noteq> ckNodePresent key
                       then p\<lparr>peMixedNode := True\<rparr> else p)) pending"

definition isMixed :: "correlationKey \<Rightarrow> (correlationKey, pendingEvent) gomap \<Rightarrow> bool" where
  "isMixed key pending \<longleftrightarrow>
     list_ex (\<lambda>(k, p). ckID k = ckID key \<and> ckNodePresent k \<noteq> ckNodePresent key) pending"

definition newPending :: "bool \<Rightarrow> auditRecord \<Rightarrow> assembler \<Rightarrow> assembler \<times> pendingEvent" where
  "newPending mixed r a =
     (let key = recordKey r;
          p = \<lparr>peMixedNode = mixed, peRecords = [], peSequence = asNextSequence a, peLastSeen = 0,
               peAuditTime = 0, peHasAuditTS = False\<rparr>;
          a1 = a\<lparr>asNextSequence := asNextSequence a + 1\<rparr>;
          (a2, p2) = (case auditTimeFromID (rID r) of
                        Some auditTime \<Rightarrow>
                          (observeAuditTime auditTime key a1,
                           p\<lparr>peAuditTime := auditTime, peHasAuditTS := True\<rparr>)
                      | None \<Rightarrow> (a1, p))
      in (a2\<lparr>asPending := AList.update key p2 (asPending a2)\<rparr>, p2))"

definition appendRecord ::
    "auditRecord \<Rightarrow> gotime \<Rightarrow> pendingEvent \<Rightarrow> assembler \<Rightarrow> assembler \<times> pendingEvent" where
  "appendRecord r observedAt p a =
     (let p' = p\<lparr>peRecords := peRecords p @ [r], peLastSeen := observedAt\<rparr>
      in (a\<lparr>asPending := AList.update (recordKey r) p' (asPending a),
            asPendingBytes := asPendingBytes a + rSourceBytes r\<rparr>, p'))"

text \<open>
  What \<open>addAt\<close> does with an admitted record: create the group if needed, append, and close the
  group on a terminal record.
\<close>

definition admitRecord ::
    "auditRecord \<Rightarrow> gotime \<Rightarrow> bool \<Rightarrow> assembler \<Rightarrow> assembler \<times> readyEvent list" where
  "admitRecord r observedAt mixed a =
     (let key = recordKey r;
          existing = map_of (asPending a) key;
          (a1, p1) = (case existing of
                        Some p \<Rightarrow> (a, p)
                      | None \<Rightarrow> newPending mixed r a);
          (a2, p2) = appendRecord r observedAt p1 a1
      in if rType r = ''PROCTITLE'' \<and> existing \<noteq> None
         then (case finish key p2 CompletionProctitle True a2 of (a3, e) \<Rightarrow> (a3, [e]))
         else if isTerminalRecord (rType r)
         then (case finish key p2 (terminalCompletion (rType r)) True a2 of (a3, e) \<Rightarrow> (a3, [e]))
         else (a2, []))"

definition addAt ::
    "auditRecord \<Rightarrow> gotime \<Rightarrow> assembler \<Rightarrow> assembler \<times> (limitError + assembledEvent list)" where
  "addAt r observedAt a0 =
     (let key = recordKey r;
          mixed = isMixed key (asPending a0);
          a = a0\<lparr>asPending := markMixed key (asPending a0)\<rparr>;
          existing = map_of (asPending a) key
      in if rType r \<noteq> ''EOE'' \<or> existing \<noteq> None
         then (case checkLimits r existing a of
                 Some limit \<Rightarrow>
                   (a, Inl (limit\<lparr>leAuditID := rID r, leNode := rNode r, leNodePresent := rNodePresent r,
                       leObservedRecords := 1 + (case existing of None \<Rightarrow> 0
                                                 | Some p \<Rightarrow> int (length (peRecords p))),
                       leCountComplete := False\<rparr>))
               | None \<Rightarrow>
                 (case admitRecord r observedAt mixed a of
                    (a', ready) \<Rightarrow>
                      (case expired observedAt a' of
                         (a'', late) \<Rightarrow> (a'', Inr (orderedEvents (ready @ late))))))
         else (case expired observedAt a of
                 (a'', late) \<Rightarrow> (a'', Inr (orderedEvents late))))"

text \<open>\<open>AddAt\<close> drops the error, \<open>AddCheckedAt\<close> keeps it.\<close>

definition AddCheckedAt ::
    "auditRecord \<Rightarrow> gotime \<Rightarrow> assembler \<Rightarrow> assembler \<times> (limitError + assembledEvent list)" where
  "AddCheckedAt r observedAt a = addAt r observedAt a"

definition AddAt :: "auditRecord \<Rightarrow> gotime \<Rightarrow> assembler \<Rightarrow> assembler \<times> assembledEvent list" where
  "AddAt r observedAt a =
     (case addAt r observedAt a of
        (a', Inl err) \<Rightarrow> (a', [])
      | (a', Inr events) \<Rightarrow> (a', events))"

fun finishAll ::
    "completion \<Rightarrow> (correlationKey \<times> pendingEvent) list \<Rightarrow> assembler \<Rightarrow> assembler \<times> readyEvent list" where
  "finishAll completion [] a = (a, [])"
| "finishAll completion ((k, p) # es) a =
     (let (a', e) = finish k p completion False a;
          (a'', ready) = finishAll completion es a'
      in (a'', e # ready))"

definition FlushAllWith :: "completion \<Rightarrow> assembler \<Rightarrow> assembler \<times> assembledEvent list" where
  "FlushAllWith completion a0 =
     (let a = a0\<lparr>asRejected := [], asRejectionBytes := 0, asSpillSince := 0, asSpillSource := noPosition\<rparr>;
          (a', ready) = finishAll completion (asPending a) a
      in (a', orderedEvents ready))"

definition FlushAll :: "assembler \<Rightarrow> assembler \<times> assembledEvent list" where
  "FlushAll a = FlushAllWith CompletionEOF a"

definition Pending :: "assembler \<Rightarrow> nat" where
  "Pending a = length (asPending a)"

definition PendingBytes :: "assembler \<Rightarrow> int" where
  "PendingBytes a = asPendingBytes a"

text \<open>\<open>sourcePositionBefore\<close> of assembler.go: generation first, then the start offset.\<close>

definition sourcePositionBefore :: "sourcePosition \<Rightarrow> sourcePosition \<Rightarrow> bool" where
  "sourcePositionBefore l r \<longleftrightarrow>
     (if spGeneration l \<noteq> spGeneration r then spGeneration l < spGeneration r
      else spStart l < spStart r)"

definition considerPosition :: "sourcePosition \<Rightarrow> sourcePosition \<Rightarrow> sourcePosition" where
  "considerPosition candidate safe =
     (if \<not> spValid candidate then safe
      else let c = candidate\<lparr>spEnd := spStart candidate\<rparr>
        in if \<not> spValid safe \<or> sourcePositionBefore c safe then c else safe)"

definition SafeSourcePosition :: "sourcePosition \<Rightarrow> assembler \<Rightarrow> sourcePosition" where
  "SafeSourcePosition fallback a =
     (let s1 = fold (\<lambda>(k, p) safe. fold (\<lambda>r. considerPosition (rSource r)) (peRecords p) safe)
                 (asPending a) fallback;
          s2 = fold (\<lambda>(k, rj). considerPosition (rjSource rj)) (asRejected a) s1
      in considerPosition (asSpillSource a) s2)"

end
