(* ===== verification/Isolation.thy ===== *)
theory Isolation
  imports Assembler RecordEnvelope
begin

text \<open>
  Bounded isolation of exceptional input, internal/audit/isolation.go: rejection of an oversized
  physical line, tracking of rejected keys, the conservative fence (\<open>spill\<close>) and the recovering
  admission \<open>AddRecovering\<close> that the collector uses.
\<close>

definition startSpill :: "gotime \<Rightarrow> sourcePosition \<Rightarrow> assembler \<Rightarrow> assembler" where
  "startSpill now source a =
     (let a1 = (if asSpillSince a = 0 \<or>
                   spValid source \<and> (\<not> spValid (asSpillSource a) \<or>
                     sourcePositionBefore source (asSpillSource a))
                then a\<lparr>asSpillSource := source\<rparr> else a)
      in a1\<lparr>asSpillSince := now\<rparr>)"

text \<open>The bytes a rejected key is charged, and the test that the rejection budget has room.\<close>

definition keySize :: "correlationKey \<Rightarrow> int" where
  "keySize k = int (length (ckID k)) + int (length (ckNode k))"

definition rejectionRoom :: "correlationKey \<Rightarrow> assembler \<Rightarrow> bool" where
  "rejectionRoom k a \<longleftrightarrow>
     int (length (asRejected a)) < maxPendingEvents (asLimits a) \<and>
     keySize k \<le> maxPendingBytes (asLimits a) - asRejectionBytes a"

definition trackRejected ::
    "correlationKey \<Rightarrow> sourcePosition \<Rightarrow> gotime \<Rightarrow> assembler \<Rightarrow> assembler" where
  "trackRejected k source now a =
     a\<lparr>asRejected := AList.update k
          \<lparr>rjSource = source, rjLastSeen = now, rjKeyBytes = keySize k\<rparr> (asRejected a),
       asRejectionBytes := asRejectionBytes a + keySize k\<rparr>"

definition dropRejected :: "correlationKey \<Rightarrow> rejectedEvent \<Rightarrow> assembler \<Rightarrow> assembler" where
  "dropRejected k rj a =
     a\<lparr>asRejected := AList.delete k (asRejected a),
       asRejectionBytes := asRejectionBytes a - rjKeyBytes rj\<rparr>"

definition touchRejected :: "correlationKey \<Rightarrow> rejectedEvent \<Rightarrow> gotime \<Rightarrow> assembler \<Rightarrow> assembler" where
  "touchRejected k rj now a =
     a\<lparr>asRejected := AList.update k (rj\<lparr>rjLastSeen := now\<rparr>) (asRejected a)\<rparr>"

definition rejectedExpired :: "gotime \<Rightarrow> assembler \<Rightarrow> rejectedEvent \<Rightarrow> bool" where
  "rejectedExpired now a rj \<longleftrightarrow> asTimeout a > 0 \<and> \<not> now < rjLastSeen rj + asTimeout a"

fun dropAll :: "(correlationKey \<times> rejectedEvent) list \<Rightarrow> assembler \<Rightarrow> assembler" where
  "dropAll [] a = a"
| "dropAll ((k, rj) # es) a = dropAll es (dropRejected k rj a)"

definition expireRejected :: "gotime \<Rightarrow> assembler \<Rightarrow> assembler" where
  "expireRejected now a0 =
     (let a = dropAll (filter (\<lambda>(k, rj). rejectedExpired now a0 rj) (asRejected a0)) a0
      in if asSpillSince a \<noteq> 0 \<and> asTimeout a > 0 \<and> \<not> now < asSpillSince a + asTimeout a
         then a\<lparr>asSpillSince := 0, asSpillSource := noPosition\<rparr>
         else a)"

text \<open>\<open>FlushExpired\<close> of assembler.go, which also expires the rejected keys.\<close>

definition FlushExpired :: "gotime \<Rightarrow> assembler \<Rightarrow> assembler \<times> assembledEvent list" where
  "FlushExpired now a =
     (case expired now (expireRejected now a) of (a', ready) \<Rightarrow> (a', orderedEvents ready))"

text \<open>
  \<open>RejectPhysicalLine\<close>: correlate the oversized line by its envelope prefix if that parses, else
  fence everything.
\<close>

definition rejectKey :: "(nat \<Rightarrow> bool) \<Rightarrow> string \<Rightarrow> correlationKey option" where
  "rejectKey pr pre =
     (case indexOf ''):'' pre of
        None \<Rightarrow> None
      | Some e \<Rightarrow>
          (case ParseRecord pr (take (e + 2) pre) of
             Inl err \<Rightarrow> None
           | Inr r \<Rightarrow> if rID r = [] then None else Some (recordKey r)))"

text \<open>The group of the line's key, if pending, is closed and lends its first record's position.\<close>

definition closeForLine ::
    "correlationKey \<Rightarrow> sourcePosition \<Rightarrow> assembler \<Rightarrow> assembler \<times> assembledEvent list \<times> sourcePosition" where
  "closeForLine key source a =
     (case map_of (asPending a) key of
        Some p \<Rightarrow>
          (case finish key p CompletionLineLimit False a of
             (a', s, event) \<Rightarrow>
               (a', [event\<lparr>aeExceptional := True\<rparr>],
                (case aeRecords event of [] \<Rightarrow> source | r # rs \<Rightarrow> rSource r)))
      | None \<Rightarrow> (a, [], source))"

definition fenceKey :: "correlationKey \<Rightarrow> sourcePosition \<Rightarrow> gotime \<Rightarrow> assembler \<Rightarrow> assembler" where
  "fenceKey key source now a =
     (case map_of (asRejected a) key of
        Some rj \<Rightarrow> touchRejected key rj now a
      | None \<Rightarrow>
          if rejectionRoom key a then trackRejected key source now a else startSpill now source a)"

definition RejectPhysicalLine ::
    "(nat \<Rightarrow> bool) \<Rightarrow> string \<Rightarrow> sourcePosition \<Rightarrow> gotime \<Rightarrow> assembler \<Rightarrow> assembler \<times> assembledEvent list" where
  "RejectPhysicalLine pr pre source now a =
     (case rejectKey pr pre of
        None \<Rightarrow>
          (case FlushAllWith CompletionLineLimit a of
             (a', events) \<Rightarrow>
               (startSpill now source a', map (\<lambda>e. e\<lparr>aeExceptional := True\<rparr>) events))
      | Some key \<Rightarrow>
          (case closeForLine key source a of
             (a1, events, source1) \<Rightarrow> (fenceKey key source1 now a1, events)))"

text \<open>
  \<open>AddRecovering\<close>. The closure \<open>exceptional\<close> of the source is \<open>exceptionalEvent\<close>: it uses the
  group's sequence if the key was pending on entry, else a fresh one.
\<close>

definition exceptionalEvent ::
    "auditRecord \<Rightarrow> pendingEvent option \<Rightarrow> auditRecord list \<Rightarrow> assembler \<Rightarrow> assembler \<times> assembledEvent" where
  "exceptionalEvent r pending records a =
     (let sequence = (case pending of Some p \<Rightarrow> peSequence p | None \<Rightarrow> asNextSequence a);
          a' = (case pending of Some p \<Rightarrow> a
                | None \<Rightarrow> a\<lparr>asNextSequence := asNextSequence a + 1\<rparr>)
      in (a', \<lparr>aeSequence = sequence, aeExceptional = True, aeMixedNode = False, aeID = rID r,
               aeRecords = records, aeComplete = False, aeCompletion = CompletionAssemblyLimit\<rparr>))"

text \<open>A nonterminal tail: track its key individually while there is room, else fence.\<close>

definition isolateKey ::
    "correlationKey \<Rightarrow> sourcePosition \<Rightarrow> sourcePosition \<Rightarrow> gotime \<Rightarrow> assembler \<Rightarrow> assembler" where
  "isolateKey key trackSource spillSource now a =
     (if rejectionRoom key a then trackRejected key trackSource now a
      else startSpill now spillSource a)"

definition terminalFor :: "auditRecord \<Rightarrow> bool" where
  "terminalFor r \<longleftrightarrow> isTerminalRecord (rType r) \<or> rType r = ''PROCTITLE''"

text \<open>The body after both expiries, before the deferred merge of the expired events.\<close>

definition admitRecovering ::
    "auditRecord \<Rightarrow> gotime \<Rightarrow> assembler \<Rightarrow> assembler \<times> assembledEvent list \<times> limitError option" where
  "admitRecovering r now a =
     (let key = recordKey r;
          terminal = terminalFor r;
          pending = map_of (asPending a) key
      in case map_of (asRejected a) key of
           Some rj \<Rightarrow>
             (let a1 = (if terminal then dropRejected key rj a else touchRejected key rj now a);
                  (a2, e) = exceptionalEvent r pending [r] a1
              in (a2, [e], None))
         | None \<Rightarrow>
           (case pending of
              Some p \<Rightarrow>
                if rType r = ''EOE'' \<and> maxRecordsPerEvent (asLimits a) > 0 \<and>
                   (int (length (peRecords p)) \<ge> maxRecordsPerEvent (asLimits a) \<or>
                    rSourceBytes r > maxPendingBytes (asLimits a) - asPendingBytes a)
                then (case finish key p CompletionEOE True a of
                        (a1, e) \<Rightarrow> (a1, orderedEvents [e], None))
                else (case AddCheckedAt r now a of
                        (a1, Inr events) \<Rightarrow> (a1, events, None)
                      | (a1, Inl limit) \<Rightarrow>
                        (case finish key p CompletionAssemblyLimit False a1 of
                           (a2, s, event) \<Rightarrow>
                             (let records = aeRecords event @ [r];
                                  source = rSource (hd records);
                                  a3 = (if terminal then a2 else isolateKey key source source now a2);
                                  (a4, e) = exceptionalEvent r pending records a3
                              in (a4, [e], Some limit))))
            | None \<Rightarrow>
                if asSpillSince a \<noteq> 0
                then (let a1 = (if terminal then a
                                else isolateKey key (asSpillSource a) (rSource r) now a);
                          (a2, e) = exceptionalEvent r pending [r] a1
                      in (a2, [e], None))
                else (case AddCheckedAt r now a of
                        (a1, Inr events) \<Rightarrow> (a1, events, None)
                      | (a1, Inl limit) \<Rightarrow>
                        (let a3 = (if terminal then a1
                                   else isolateKey key (rSource r) (rSource r) now a1);
                             (a4, e) = exceptionalEvent r pending [r] a3
                         in (a4, [e], Some limit)))))"

text \<open>The deferred merge: expired evidence and the new events in first-observed order.\<close>

definition mergeExpired :: "readyEvent list \<Rightarrow> assembledEvent list \<Rightarrow> assembledEvent list" where
  "mergeExpired ready events =
     (if ready = [] then events else orderedEvents (ready @ map (\<lambda>e. (aeSequence e, e)) events))"

definition AddRecovering ::
    "auditRecord \<Rightarrow> gotime \<Rightarrow> assembler \<Rightarrow> assembler \<times> assembledEvent list \<times> limitError option" where
  "AddRecovering r now a0 =
     (case expired now a0 of
        (a1, ready) \<Rightarrow>
          (case admitRecovering r now (expireRejected now a1) of
             (a2, events, diagnostic) \<Rightarrow> (a2, mergeExpired ready events, diagnostic)))"

definition RejectionTracking :: "assembler \<Rightarrow> nat \<times> int \<times> bool" where
  "RejectionTracking a = (length (asRejected a), asRejectionBytes a, asSpillSince a \<noteq> 0)"

end
