(* ===== verification/AssemblerInvariant.thy ===== *)
theory AssemblerInvariant
  imports Isolation
begin

text \<open>
  The invariant of the assembler and its preservation: closed forms of the expiry and flush
  loops, the pending-map invariant with the byte count and the sequence numbers, the bounds of
  the configured limits, and the bookkeeping of rejected keys.
\<close>

section \<open>Closed forms of the loops\<close>

definition entryBytes :: "(correlationKey \<times> pendingEvent) list \<Rightarrow> int" where
  "entryBytes es = sum_list (map (\<lambda>e. sum_list (map rSourceBytes (peRecords (snd e)))) es)"

definition entryRecords :: "(correlationKey \<times> pendingEvent) list \<Rightarrow> auditRecord list" where
  "entryRecords es = concat (map (\<lambda>e. peRecords (snd e)) es)"

definition closedEvent :: "correlationKey \<times> pendingEvent \<Rightarrow> completion \<Rightarrow> bool \<Rightarrow> readyEvent" where
  "closedEvent e completion complete =
     (case e of (k, p) \<Rightarrow>
       (peSequence p,
        \<lparr>aeSequence = 0, aeExceptional = False, aeMixedNode = peMixedNode p, aeID = ckID k,
         aeRecords = peRecords p, aeComplete = complete, aeCompletion = completion\<rparr>))"

definition withoutKeys :: "correlationKey set \<Rightarrow> int \<Rightarrow> assembler \<Rightarrow> assembler" where
  "withoutKeys K n a =
     a\<lparr>asPending := filter (\<lambda>e. fst e \<notin> K) (asPending a), asPendingBytes := asPendingBytes a - n\<rparr>"

lemma entryBytes_simps [simp]:
  "entryBytes [] = 0"
  "entryBytes ((k, p) # es) = sum_list (map rSourceBytes (peRecords p)) + entryBytes es"
  "entryBytes (es @ fs) = entryBytes es + entryBytes fs"
  by (simp_all add: entryBytes_def)

lemma entryRecords_simps [simp]:
  "entryRecords [] = []"
  "entryRecords ((k, p) # es) = peRecords p @ entryRecords es"
  "entryRecords (es @ fs) = entryRecords es @ entryRecords fs"
  by (simp_all add: entryRecords_def)

lemma finish_closed:
  "finish k p completion complete a =
     (withoutKeys {k} (sum_list (map rSourceBytes (peRecords p))) a, closedEvent (k, p) completion complete)"
  by (simp add: finish_def withoutKeys_def closedEvent_def AList.delete_eq split_def eq_commute)

lemma withoutKeys_withoutKeys [simp]:
  "withoutKeys K m (withoutKeys L n a) = withoutKeys (K \<union> L) (n + m) a"
  by (simp add: withoutKeys_def filter_filter conj_commute diff_diff_eq)

lemma withoutKeys_none: "withoutKeys {} 0 a = a"
  by (simp add: withoutKeys_def)

lemma watermarkExpired_withoutKeys [simp]:
  "watermarkExpired (withoutKeys K n a) p = watermarkExpired a p"
  by (simp add: watermarkExpired_def withoutKeys_def)

lemma withoutKeys_frame [simp]:
  "asRejected (withoutKeys K n a) = asRejected a"
  "asRejectionBytes (withoutKeys K n a) = asRejectionBytes a"
  "asSpillSince (withoutKeys K n a) = asSpillSince a"
  "asSpillSource (withoutKeys K n a) = asSpillSource a"
  "asTimeout (withoutKeys K n a) = asTimeout a"
  "asLimits (withoutKeys K n a) = asLimits a"
  "asNextSequence (withoutKeys K n a) = asNextSequence a"
  "asLatestAuditTime (withoutKeys K n a) = asLatestAuditTime a"
  "asPending (withoutKeys K n a) = filter (\<lambda>e. fst e \<notin> K) (asPending a)"
  "asPendingBytes (withoutKeys K n a) = asPendingBytes a - n"
  by (simp_all add: withoutKeys_def)

definition expiryCompletion :: "assembler \<Rightarrow> pendingEvent \<Rightarrow> completion" where
  "expiryCompletion a p = (if watermarkExpired a p then CompletionWatermark else CompletionTimeout)"

definition expiryEvent :: "assembler \<Rightarrow> correlationKey \<times> pendingEvent \<Rightarrow> readyEvent" where
  "expiryEvent a e =
     closedEvent e (expiryCompletion a (snd e)) (expiryCompletion a (snd e) = CompletionWatermark)"

lemma finishExpired_closed:
  "finishExpired es a = (withoutKeys (fst ` set es) (entryBytes es) a, map (expiryEvent a) es)"
proof (induction es arbitrary: a)
  case Nil
  show ?case by (simp add: withoutKeys_none)
next
  case (Cons e es)
  obtain k p where e: "e = (k, p)" by (cases e)
  show ?case
    by (simp add: e Let_def finish_closed Cons.IH expiryEvent_def expiryCompletion_def
        insert_commute Un_commute cong: map_cong)
qed

lemma finishAll_closed:
  "finishAll completion es a =
     (withoutKeys (fst ` set es) (entryBytes es) a, map (\<lambda>e. closedEvent e completion False) es)"
proof (induction es arbitrary: a)
  case Nil
  show ?case by (simp add: withoutKeys_none)
next
  case (Cons e es)
  obtain k p where e: "e = (k, p)" by (cases e)
  show ?case
    by (simp add: e Let_def finish_closed Cons.IH Un_commute)
qed

definition isExpired :: "gotime \<Rightarrow> assembler \<Rightarrow> correlationKey \<times> pendingEvent \<Rightarrow> bool" where
  "isExpired now a e \<longleftrightarrow> asTimeout a > 0 \<and> (wallExpired now a (snd e) \<or> watermarkExpired a (snd e))"

lemma entryBytes_mset: "mset es = mset fs \<Longrightarrow> entryBytes es = entryBytes fs"
  unfolding entryBytes_def by (rule sum_list_mset_cong)

lemma mset_concat_map_mset:
  "mset es = mset fs \<Longrightarrow> mset (concat (map f es)) = mset (concat (map f fs))"
  by (simp add: mset_concat) (metis mset_map sum_mset_sum_list)

lemma entryRecords_mset: "mset es = mset fs \<Longrightarrow> mset (entryRecords es) = mset (entryRecords fs)"
  unfolding entryRecords_def by (rule mset_concat_map_mset)

lemma gm_wf_filter_keys:
  assumes "gm_wf m"
  shows "filter (\<lambda>e. fst e \<notin> fst ` {e \<in> set m. P e}) m = filter (\<lambda>e. \<not> P e) m"
proof (rule filter_cong [OF refl])
  fix e assume e: "e \<in> set m"
  show "fst e \<notin> fst ` {e \<in> set m. P e} \<longleftrightarrow> \<not> P e"
  proof (cases "P e")
    case True
    with e show ?thesis by blast
  next
    case False
    have "e' = e" if "e' \<in> set m" "fst e' = fst e" for e'
      using assms e that by (metis gm_wf_def eq_key_imp_eq_value prod.collapse)
    with False show ?thesis by (metis (mono_tags, lifting) imageE mem_Collect_eq)
  qed
qed

definition expiredEvents :: "gotime \<Rightarrow> assembler \<Rightarrow> readyEvent list" where
  "expiredEvents now a =
     map (expiryEvent a) (sort_key (\<lambda>(k, p). peSequence p) (filter (isExpired now a) (asPending a)))"

lemma expired_closed:
  assumes "gm_wf (asPending a)"
  shows "expired now a =
    (a\<lparr>asPending := filter (\<lambda>e. \<not> isExpired now a e) (asPending a),
       asPendingBytes := asPendingBytes a - entryBytes (filter (isExpired now a) (asPending a))\<rparr>,
     expiredEvents now a)"
proof (cases "asTimeout a \<le> 0")
  case True
  then have "\<not> isExpired now a e" for e by (simp add: isExpired_def)
  with True show ?thesis by (simp add: expired_def expiredEvents_def)
next
  case False
  then have es: "expiredEntries now a = sort_key (\<lambda>(k, p). peSequence p) (filter (isExpired now a) (asPending a))"
    by (simp add: expiredEntries_def isExpired_def [abs_def] split_def)
  have "entryBytes (expiredEntries now a) = entryBytes (filter (isExpired now a) (asPending a))"
    unfolding es by (rule entryBytes_mset) simp
  with False show ?thesis
    using gm_wf_filter_keys [OF assms, of "isExpired now a"]
    by (simp add: expired_def finishExpired_closed es expiredEvents_def withoutKeys_def)
qed

lemma sum_list_filter_split:
  fixes f :: "'a \<Rightarrow> int"
  shows "sum_list (map f (filter P xs)) + sum_list (map f (filter (\<lambda>x. \<not> P x) xs)) = sum_list (map f xs)"
  by (induction xs) auto

lemma entryBytes_filter: "entryBytes (filter (\<lambda>e. \<not> P e) es) = entryBytes es - entryBytes (filter P es)"
  using sum_list_filter_split [of "\<lambda>e. sum_list (map rSourceBytes (peRecords (snd e)))" P es]
  by (simp add: entryBytes_def)

lemma mset_entryRecords_filter:
  "mset (entryRecords es) = mset (entryRecords (filter P es)) + mset (entryRecords (filter (\<lambda>e. \<not> P e) es))"
  by (induction es) (auto simp: entryRecords_def split: prod.splits)

section \<open>The invariant\<close>

text \<open>
  The part of an entry the invariant speaks of. Marking a mixed node or clearing an Audit time
  does not touch it.
\<close>

definition entryCore :: "correlationKey \<times> pendingEvent \<Rightarrow> correlationKey \<times> auditRecord list \<times> nat" where
  "entryCore e = (fst e, peRecords (snd e), peSequence (snd e))"

definition core :: "assembler \<Rightarrow> (correlationKey \<times> auditRecord list \<times> nat) list" where
  "core a = map entryCore (asPending a)"

definition coreOk :: "nat \<Rightarrow> correlationKey \<times> auditRecord list \<times> nat \<Rightarrow> bool" where
  "coreOk n c =
     (case c of (k, rs, s) \<Rightarrow>
       rs \<noteq> [] \<and> (\<forall>r \<in> set rs. recordKey r = k \<and> 0 \<le> rSourceBytes r) \<and> s < n)"

definition coreBytes :: "(correlationKey \<times> auditRecord list \<times> nat) list \<Rightarrow> int" where
  "coreBytes cs = sum_list (map (\<lambda>(k, rs, s). sum_list (map rSourceBytes rs)) cs)"

definition pendingInv :: "assembler \<Rightarrow> bool" where
  "pendingInv a \<longleftrightarrow>
     distinct (map fst (core a)) \<and> list_all (coreOk (asNextSequence a)) (core a) \<and>
     distinct (map (\<lambda>(k, rs, s). s) (core a)) \<and> asPendingBytes a = coreBytes (core a)"

definition positiveLimits :: "assemblerLimits \<Rightarrow> bool" where
  "positiveLimits l \<longleftrightarrow> 0 < maxPendingEvents l \<and> 0 < maxRecordsPerEvent l \<and> 0 < maxPendingBytes l"

definition boundedInv :: "assembler \<Rightarrow> bool" where
  "boundedInv a \<longleftrightarrow>
     positiveLimits (asLimits a) \<and>
     int (length (core a)) \<le> maxPendingEvents (asLimits a) \<and>
     list_all (\<lambda>(k, rs, s). int (length rs) \<le> maxRecordsPerEvent (asLimits a)) (core a) \<and>
     asPendingBytes a \<le> maxPendingBytes (asLimits a)"

definition rejectedInv :: "assembler \<Rightarrow> bool" where
  "rejectedInv a \<longleftrightarrow>
     gm_wf (asRejected a) \<and> list_all (\<lambda>(k, rj). rjKeyBytes rj = keySize k) (asRejected a) \<and>
     asRejectionBytes a = sum_list (map (\<lambda>(k, rj). keySize k) (asRejected a)) \<and>
     int (length (asRejected a)) \<le> maxPendingEvents (asLimits a) \<and>
     asRejectionBytes a \<le> maxPendingBytes (asLimits a)"

definition disjointInv :: "assembler \<Rightarrow> bool" where
  "disjointInv a \<longleftrightarrow> fst ` set (asPending a) \<inter> fst ` set (asRejected a) = {}"

definition asmInv :: "assembler \<Rightarrow> bool" where
  "asmInv a \<longleftrightarrow> pendingInv a \<and> boundedInv a \<and> rejectedInv a \<and> disjointInv a"

lemma asmInvI: "pendingInv a \<Longrightarrow> boundedInv a \<Longrightarrow> rejectedInv a \<Longrightarrow> disjointInv a \<Longrightarrow> asmInv a"
  by (simp add: asmInv_def)

lemma asmInvD:
  "asmInv a \<Longrightarrow> pendingInv a" "asmInv a \<Longrightarrow> boundedInv a"
  "asmInv a \<Longrightarrow> rejectedInv a" "asmInv a \<Longrightarrow> disjointInv a"
  by (simp_all add: asmInv_def)

lemma map_fst_core: "map fst (core a) = map fst (asPending a)"
  by (simp add: core_def entryCore_def comp_def)

lemma length_core: "length (core a) = length (asPending a)"
  by (simp add: core_def)

lemma set_fst_core: "fst ` set (core a) = fst ` set (asPending a)"
  using map_fst_core [of a] by (metis set_map)

lemma coreBytes_core: "coreBytes (core a) = entryBytes (asPending a)"
  by (simp add: coreBytes_def core_def entryBytes_def entryCore_def comp_def)

lemma coreBytes_simps [simp]:
  "coreBytes [] = 0"
  "coreBytes ((k, rs, s) # cs) = sum_list (map rSourceBytes rs) + coreBytes cs"
  "coreBytes (cs @ ds) = coreBytes cs + coreBytes ds"
  by (simp_all add: coreBytes_def)

lemma pendingInv_wf: "pendingInv a \<Longrightarrow> gm_wf (asPending a)"
  by (simp add: pendingInv_def gm_wf_def map_fst_core)

lemma pendingInv_bytes: "pendingInv a \<Longrightarrow> asPendingBytes a = entryBytes (asPending a)"
  by (simp add: pendingInv_def coreBytes_core)

lemma pendingInv_entry:
  assumes "pendingInv a" and "(k, p) \<in> set (asPending a)"
  shows "peRecords p \<noteq> []" and "\<forall>r \<in> set (peRecords p). recordKey r = k \<and> 0 \<le> rSourceBytes r"
    and "peSequence p < asNextSequence a"
proof -
  have "entryCore (k, p) \<in> set (core a)" using assms(2) by (simp add: core_def)
  with assms(1) have "coreOk (asNextSequence a) (entryCore (k, p))"
    by (simp add: pendingInv_def list_all_iff)
  then show "peRecords p \<noteq> []" "\<forall>r \<in> set (peRecords p). recordKey r = k \<and> 0 \<le> rSourceBytes r"
    "peSequence p < asNextSequence a"
    by (auto simp: coreOk_def entryCore_def)
qed

lemma pendingInv_seq_inj: "pendingInv a \<Longrightarrow> distinct (map (\<lambda>e. peSequence (snd e)) (asPending a))"
  by (simp add: pendingInv_def core_def entryCore_def comp_def)

lemma invs_cong:
  assumes "core b = core a" and "asPendingBytes b = asPendingBytes a" and "asLimits b = asLimits a"
  shows "asNextSequence a \<le> asNextSequence b \<Longrightarrow> pendingInv a \<Longrightarrow> pendingInv b"
    and "boundedInv a \<Longrightarrow> boundedInv b"
  using assms
  by (auto simp: pendingInv_def boundedInv_def list_all_iff coreOk_def split: prod.splits)

lemma rejectedInv_cong:
  assumes "asRejected b = asRejected a" and "asRejectionBytes b = asRejectionBytes a"
    and "asLimits b = asLimits a"
  shows "rejectedInv a \<Longrightarrow> rejectedInv b"
  using assms by (simp add: rejectedInv_def)

lemma disjointInv_cong:
  assumes "fst ` set (asPending b) \<subseteq> fst ` set (asPending a)"
    and "fst ` set (asRejected b) \<subseteq> fst ` set (asRejected a)"
  shows "disjointInv a \<Longrightarrow> disjointInv b"
  using assms unfolding disjointInv_def by blast

subsection \<open>Removing entries\<close>

definition dropEntries :: "(correlationKey \<times> pendingEvent \<Rightarrow> bool) \<Rightarrow> assembler \<Rightarrow> assembler" where
  "dropEntries P a =
     a\<lparr>asPending := filter (\<lambda>e. \<not> P e) (asPending a),
       asPendingBytes := asPendingBytes a - entryBytes (filter P (asPending a))\<rparr>"

lemma dropEntries_frame [simp]:
  "asRejected (dropEntries P a) = asRejected a"
  "asRejectionBytes (dropEntries P a) = asRejectionBytes a"
  "asSpillSince (dropEntries P a) = asSpillSince a"
  "asSpillSource (dropEntries P a) = asSpillSource a"
  "asTimeout (dropEntries P a) = asTimeout a"
  "asLimits (dropEntries P a) = asLimits a"
  "asNextSequence (dropEntries P a) = asNextSequence a"
  "asLatestAuditTime (dropEntries P a) = asLatestAuditTime a"
  "asPending (dropEntries P a) = filter (\<lambda>e. \<not> P e) (asPending a)"
  by (simp_all add: dropEntries_def)

lemma entryBytes_nonneg:
  assumes "\<And>k p r. (k, p) \<in> set es \<Longrightarrow> r \<in> set (peRecords p) \<Longrightarrow> 0 \<le> rSourceBytes r"
  shows "0 \<le> entryBytes es"
  unfolding entryBytes_def
  by (intro sum_list_nonneg) (use assms in \<open>auto intro!: sum_list_nonneg\<close>)

lemma dropEntries_inv [inv_intros]:
  assumes "asmInv a"
  shows "asmInv (dropEntries P a)"
proof (rule asmInvI)
  note inv = asmInvD [OF assms]
  have c: "core (dropEntries P a) = map entryCore (filter (\<lambda>e. \<not> P e) (asPending a))"
    by (simp add: core_def)
  have bytes: "asPendingBytes (dropEntries P a) = coreBytes (core (dropEntries P a))"
    unfolding coreBytes_core
    using pendingInv_bytes [OF inv(1)] by (simp add: dropEntries_def entryBytes_filter)
  have nonneg: "0 \<le> entryBytes (filter P (asPending a))"
    using pendingInv_entry(2) [OF inv(1)] by (intro entryBytes_nonneg) auto
  have d1: "distinct (map (fst \<circ> entryCore) (asPending a))"
    and d2: "distinct (map ((\<lambda>(k, rs, s). s) \<circ> entryCore) (asPending a))"
    using inv(1) by (simp_all add: pendingInv_def core_def)
  show "pendingInv (dropEntries P a)"
    using inv(1) bytes d1 d2 unfolding pendingInv_def c
    by (auto simp: list_all_iff core_def intro: distinct_map_filter)
  have "int (length (filter (\<lambda>e. \<not> P e) (asPending a))) \<le> int (length (asPending a))"
    by simp
  also have "\<dots> \<le> maxPendingEvents (asLimits a)"
    using inv(2) by (simp add: boundedInv_def length_core)
  finally show "boundedInv (dropEntries P a)"
    using inv(2) nonneg unfolding boundedInv_def c
    by (auto simp: list_all_iff core_def dropEntries_def)
  show "rejectedInv (dropEntries P a)"
    using inv(3) by (rule rejectedInv_cong [rotated 3]) simp_all
  show "disjointInv (dropEntries P a)"
    using inv(4) by (rule disjointInv_cong [rotated 2]) auto
qed

lemma expired_drop:
  "gm_wf (asPending a) \<Longrightarrow> expired now a = (dropEntries (isExpired now a) a, expiredEvents now a)"
  by (simp add: expired_closed dropEntries_def)

lemma filter_key_single:
  assumes "gm_wf m" and "map_of m k = Some v"
  shows "filter (\<lambda>e. fst e = k) m = [(k, v)]"
  using assms
proof (induction m)
  case Nil
  then show ?case by simp
next
  case (Cons e m)
  show ?case
  proof (cases "fst e = k")
    case True
    then have "filter (\<lambda>e. fst e = k) m = []"
      using Cons.prems(1) by (cases e) (force simp: filter_empty_conv)
    with True Cons.prems(2) show ?thesis by (cases e) auto
  next
    case False
    with Cons show ?thesis by (cases e) auto
  qed
qed

lemma finish_drop:
  assumes "gm_wf (asPending a)" and "map_of (asPending a) k = Some p"
  shows "finish k p completion complete a =
     (dropEntries (\<lambda>e. fst e = k) a, closedEvent (k, p) completion complete)"
  by (simp add: finish_closed withoutKeys_def dropEntries_def filter_key_single [OF assms])

subsection \<open>Admitting a record\<close>

lemma core_markMixed: "map entryCore (markMixed key m) = map entryCore m"
  by (auto simp: markMixed_def entryCore_def)

lemma map_fst_markMixed: "map fst (markMixed key m) = map fst m"
  by (auto simp: markMixed_def)

lemma map_of_markMixed_self: "map_of (markMixed key m) key = map_of m key"
  by (induction m) (auto simp: markMixed_def)

lemma clearAuditTimes_frame [simp]:
  "core (clearAuditTimes a) = core a"
  "map fst (asPending (clearAuditTimes a)) = map fst (asPending a)"
  "asPendingBytes (clearAuditTimes a) = asPendingBytes a"
  "asRejected (clearAuditTimes a) = asRejected a"
  "asRejectionBytes (clearAuditTimes a) = asRejectionBytes a"
  "asSpillSince (clearAuditTimes a) = asSpillSince a"
  "asSpillSource (clearAuditTimes a) = asSpillSource a"
  "asTimeout (clearAuditTimes a) = asTimeout a"
  "asLimits (clearAuditTimes a) = asLimits a"
  "asNextSequence (clearAuditTimes a) = asNextSequence a"
  by (simp_all add: clearAuditTimes_def core_def entryCore_def split_def comp_def)

lemma core_field_updates [simp]:
  "core (a\<lparr>asLatestAuditTime := t\<rparr>) = core a"
  "core (a\<lparr>asLatestAuditNode := n\<rparr>) = core a"
  "core (a\<lparr>asLatestNodePresent := b\<rparr>) = core a"
  "core (a\<lparr>asNextSequence := s\<rparr>) = core a"
  "core (a\<lparr>asRejected := rj\<rparr>) = core a"
  "core (a\<lparr>asRejectionBytes := i\<rparr>) = core a"
  "core (a\<lparr>asSpillSince := t\<rparr>) = core a"
  "core (a\<lparr>asSpillSource := sp\<rparr>) = core a"
  "core (a\<lparr>asPendingBytes := i\<rparr>) = core a"
  by (simp_all add: core_def)

lemma observeAuditTime_frame [simp]:
  "core (observeAuditTime t k a) = core a"
  "map fst (asPending (observeAuditTime t k a)) = map fst (asPending a)"
  "asPendingBytes (observeAuditTime t k a) = asPendingBytes a"
  "asRejected (observeAuditTime t k a) = asRejected a"
  "asRejectionBytes (observeAuditTime t k a) = asRejectionBytes a"
  "asSpillSince (observeAuditTime t k a) = asSpillSince a"
  "asSpillSource (observeAuditTime t k a) = asSpillSource a"
  "asTimeout (observeAuditTime t k a) = asTimeout a"
  "asLimits (observeAuditTime t k a) = asLimits a"
  "asNextSequence (observeAuditTime t k a) = asNextSequence a"
  by (simp_all add: observeAuditTime_def Let_def)

lemma map_of_None_fst: "map_of m k = None \<longleftrightarrow> k \<notin> set (map fst m)"
  by (simp add: map_of_eq_None_iff)

text \<open>The state after the group of a new key got its first record, up to Audit-time marks.\<close>

lemma admit_new:
  assumes "map_of (asPending a) (recordKey r) = None"
    and "newPending mixed r a = (a1, p1)" and "appendRecord r now p1 a1 = (a2, p2)"
  shows "core a2 = core a @ [(recordKey r, [r], asNextSequence a)]"
    and "map_of (asPending a2) (recordKey r) = Some p2" and "peRecords p2 = [r]"
    and "peSequence p2 = asNextSequence a" and "asNextSequence a2 = asNextSequence a + 1"
    and "asPendingBytes a2 = asPendingBytes a + rSourceBytes r"
    and "asLimits a2 = asLimits a" and "asRejected a2 = asRejected a"
    and "asRejectionBytes a2 = asRejectionBytes a" and "asTimeout a2 = asTimeout a"
    and "asSpillSince a2 = asSpillSince a" and "asSpillSource a2 = asSpillSource a"
    and "peLastSeen p2 = now" and "peMixedNode p2 = mixed"
proof -
  let ?k = "recordKey r"
  let ?a1 = "a\<lparr>asNextSequence := asNextSequence a + 1\<rparr>"
  obtain b where b: "core b = core a" "map fst (asPending b) = map fst (asPending a)"
      "asPendingBytes b = asPendingBytes a" "asRejected b = asRejected a"
      "asRejectionBytes b = asRejectionBytes a" "asTimeout b = asTimeout a" "asLimits b = asLimits a"
      "asNextSequence b = asNextSequence a + 1" "asSpillSince b = asSpillSince a"
      "asSpillSource b = asSpillSource a"
    and a1: "a1 = b\<lparr>asPending := AList.update ?k p1 (asPending b)\<rparr>"
    and p1: "peRecords p1 = []" "peSequence p1 = asNextSequence a" "peMixedNode p1 = mixed"
  proof (cases "auditTimeFromID (rID r)")
    case None
    with assms(2) that [of ?a1] show thesis by (auto simp: newPending_def Let_def)
  next
    case (Some t)
    with assms(2) that [of "observeAuditTime t ?k ?a1"] show thesis
      by (auto simp: newPending_def Let_def)
  qed
  have fresh: "?k \<notin> fst ` set (asPending b)"
    using assms(1) b(2) by (metis map_of_None_notin set_map)
  let ?p2 = "p1\<lparr>peRecords := [r], peLastSeen := now\<rparr>"
  have upd: "AList.update ?k ?p2 (asPending b @ [(?k, p1)]) = asPending b @ [(?k, ?p2)]"
    using fresh by (rule update_append_fresh)
  have a2: "a2 = a1\<lparr>asPending := asPending b @ [(?k, ?p2)], asPendingBytes := asPendingBytes b + rSourceBytes r\<rparr>"
    and p2: "p2 = ?p2"
    using assms(3) upd p1 fresh by (auto simp: appendRecord_def Let_def a1 update_fresh)
  show "core a2 = core a @ [(?k, [r], asNextSequence a)]"
    using b(1) p1 by (simp add: a2 core_def entryCore_def)
  show "map_of (asPending a2) ?k = Some p2"
    using fresh by (simp add: a2 p2 map_add_def map_of_None_notin [symmetric])
  show "peRecords p2 = [r]" "peSequence p2 = asNextSequence a" "asNextSequence a2 = asNextSequence a + 1"
    "asPendingBytes a2 = asPendingBytes a + rSourceBytes r" "asLimits a2 = asLimits a"
    "asRejected a2 = asRejected a" "asRejectionBytes a2 = asRejectionBytes a"
    "asTimeout a2 = asTimeout a" "asSpillSince a2 = asSpillSince a"
    "asSpillSource a2 = asSpillSource a" "peLastSeen p2 = now" "peMixedNode p2 = mixed"
    using b p1 by (simp_all add: a2 p2 a1)
qed

lemma map_entryCore_update:
  assumes "gm_wf m" and "map_of m k = Some p"
  shows "map entryCore (AList.update k q m) =
     map (\<lambda>c. if fst c = k then (k, peRecords q, peSequence q) else c) (map entryCore m)"
  using assms
proof (induction m)
  case Nil
  then show ?case by simp
next
  case (Cons e m)
  show ?case
  proof (cases "fst e = k")
    case True
    have ne: "fst e' \<noteq> k" if "e' \<in> set m" for e'
      using that True Cons.prems(1) by (cases e) (force simp: gm_wf_def)
    with True show ?thesis by (cases e) (auto simp: entryCore_def)
  next
    case False
    with Cons show ?thesis by (cases e) (simp add: entryCore_def)
  qed
qed

definition coreRecords :: "(correlationKey \<times> auditRecord list \<times> nat) list \<Rightarrow> auditRecord multiset" where
  "coreRecords cs = mset (concat (map (\<lambda>(k, rs, s). rs) cs))"

lemma coreRecords_simps [simp]:
  "coreRecords [] = {#}"
  "coreRecords ((k, rs, s) # cs) = mset rs + coreRecords cs"
  "coreRecords (cs @ ds) = coreRecords cs + coreRecords ds"
  by (simp_all add: coreRecords_def)

definition replaceCore ::
    "correlationKey \<Rightarrow> auditRecord list \<Rightarrow> nat \<Rightarrow>
     (correlationKey \<times> auditRecord list \<times> nat) list \<Rightarrow> (correlationKey \<times> auditRecord list \<times> nat) list" where
  "replaceCore k rs s cs = map (\<lambda>c. if fst c = k then (k, rs, s) else c) cs"

lemma replaceCore_absent: "k \<notin> fst ` set cs \<Longrightarrow> replaceCore k rs s cs = cs"
  unfolding replaceCore_def by (rule map_idI) force

lemma replaceCore_append:
  assumes "distinct (map fst cs)" and "(k, rs, s) \<in> set cs"
  shows "coreBytes (replaceCore k (rs @ [r]) s cs) = coreBytes cs + rSourceBytes r"
    and "coreRecords (replaceCore k (rs @ [r]) s cs) = add_mset r (coreRecords cs)"
    and "map (\<lambda>(k, rs, s). s) (replaceCore k (rs @ [r]) s cs) = map (\<lambda>(k, rs, s). s) cs"
    and "map fst (replaceCore k (rs @ [r]) s cs) = map fst cs"
proof -
  have "coreBytes (replaceCore k (rs @ [r]) s cs) = coreBytes cs + rSourceBytes r \<and>
        coreRecords (replaceCore k (rs @ [r]) s cs) = add_mset r (coreRecords cs) \<and>
        map (\<lambda>(k, rs, s). s) (replaceCore k (rs @ [r]) s cs) = map (\<lambda>(k, rs, s). s) cs \<and>
        map fst (replaceCore k (rs @ [r]) s cs) = map fst cs"
    using assms
  proof (induction cs)
    case Nil
    then show ?case by simp
  next
    case (Cons c cs)
    show ?case
    proof (cases "fst c = k")
      case True
      then have "k \<notin> fst ` set cs" using Cons.prems(1) by auto
      moreover from this have "(k, rs, s) \<notin> set cs" by force
      with Cons.prems(2) have "c = (k, rs, s)" by simp
      moreover have "replaceCore k (rs @ [r]) s cs = cs"
        using \<open>k \<notin> fst ` set cs\<close> by (rule replaceCore_absent)
      ultimately show ?thesis by (simp add: replaceCore_def)
    next
      case False
      with Cons show ?thesis by (cases c) (auto simp: replaceCore_def)
    qed
  qed
  then show "coreBytes (replaceCore k (rs @ [r]) s cs) = coreBytes cs + rSourceBytes r"
    and "coreRecords (replaceCore k (rs @ [r]) s cs) = add_mset r (coreRecords cs)"
    and "map (\<lambda>(k, rs, s). s) (replaceCore k (rs @ [r]) s cs) = map (\<lambda>(k, rs, s). s) cs"
    and "map fst (replaceCore k (rs @ [r]) s cs) = map fst cs"
    by blast+
qed

lemma admit_existing:
  assumes wf: "gm_wf (asPending a)" and p: "map_of (asPending a) (recordKey r) = Some p"
    and ap: "appendRecord r now p a = (a2, p2)"
  shows "core a2 = replaceCore (recordKey r) (peRecords p @ [r]) (peSequence p) (core a)"
    and "map_of (asPending a2) (recordKey r) = Some p2" and "peRecords p2 = peRecords p @ [r]"
    and "peSequence p2 = peSequence p" and "asNextSequence a2 = asNextSequence a"
    and "asPendingBytes a2 = asPendingBytes a + rSourceBytes r"
    and "asLimits a2 = asLimits a" and "asRejected a2 = asRejected a"
    and "asRejectionBytes a2 = asRejectionBytes a" and "asTimeout a2 = asTimeout a"
    and "asSpillSince a2 = asSpillSince a" and "asSpillSource a2 = asSpillSource a"
    and "peLastSeen p2 = now" and "peMixedNode p2 = peMixedNode p"
  using ap map_entryCore_update [OF wf p, of "p\<lparr>peRecords := peRecords p @ [r], peLastSeen := now\<rparr>"]
  by (auto simp: appendRecord_def Let_def core_def update_conv replaceCore_def)

text \<open>What one admission does to the core, whichever way the group existed.\<close>

definition grownCore ::
    "auditRecord \<Rightarrow> pendingEvent option \<Rightarrow> nat \<Rightarrow>
     (correlationKey \<times> auditRecord list \<times> nat) list \<Rightarrow> (correlationKey \<times> auditRecord list \<times> nat) list" where
  "grownCore r existing n cs =
     (case existing of
        None \<Rightarrow> cs @ [(recordKey r, [r], n)]
      | Some p \<Rightarrow> replaceCore (recordKey r) (peRecords p @ [r]) (peSequence p) cs)"

definition growth ::
    "auditRecord \<Rightarrow> gotime \<Rightarrow> assembler \<Rightarrow> assembler \<Rightarrow> pendingEvent \<Rightarrow> bool" where
  "growth r now a a2 p2 \<longleftrightarrow>
     (let existing = map_of (asPending a) (recordKey r) in
      core a2 = grownCore r existing (asNextSequence a) (core a) \<and>
      map_of (asPending a2) (recordKey r) = Some p2 \<and>
      peRecords p2 = (case existing of None \<Rightarrow> [] | Some p \<Rightarrow> peRecords p) @ [r] \<and>
      peSequence p2 = (case existing of None \<Rightarrow> asNextSequence a | Some p \<Rightarrow> peSequence p) \<and>
      peLastSeen p2 = now \<and>
      asNextSequence a2 = (case existing of None \<Rightarrow> asNextSequence a + 1 | Some p \<Rightarrow> asNextSequence a) \<and>
      asPendingBytes a2 = asPendingBytes a + rSourceBytes r \<and>
      asLimits a2 = asLimits a \<and> asRejected a2 = asRejected a \<and>
      asRejectionBytes a2 = asRejectionBytes a \<and> asTimeout a2 = asTimeout a \<and>
      asSpillSince a2 = asSpillSince a \<and> asSpillSource a2 = asSpillSource a)"

text \<open>\<open>admitRecord\<close> is a growth step, followed by a \<open>finish\<close> of the group it grew.\<close>

definition terminalOutcome :: "auditRecord \<Rightarrow> bool \<Rightarrow> completion option" where
  "terminalOutcome r existed =
     (if rType r = ''PROCTITLE'' \<and> existed then Some CompletionProctitle
      else if isTerminalRecord (rType r) then Some (terminalCompletion (rType r))
      else None)"

lemma admitRecord_growth:
  assumes wf: "gm_wf (asPending a)"
  obtains a2 p2 where "growth r now a a2 p2"
    and "admitRecord r now mixed a =
      (case terminalOutcome r (map_of (asPending a) (recordKey r) \<noteq> None) of
         Some c \<Rightarrow> (case finish (recordKey r) p2 c True a2 of (a3, e) \<Rightarrow> (a3, [e]))
       | None \<Rightarrow> (a2, []))"
proof (cases "map_of (asPending a) (recordKey r)")
  case None
  obtain a1 p1 where np: "newPending mixed r a = (a1, p1)" by (cases "newPending mixed r a")
  obtain a2 p2 where ap: "appendRecord r now p1 a1 = (a2, p2)" by (cases "appendRecord r now p1 a1")
  have "growth r now a a2 p2"
    using admit_new [OF None np ap] None by (simp add: growth_def grownCore_def)
  moreover have "admitRecord r now mixed a =
      (case terminalOutcome r (map_of (asPending a) (recordKey r) \<noteq> None) of
         Some c \<Rightarrow> (case finish (recordKey r) p2 c True a2 of (a3, e) \<Rightarrow> (a3, [e]))
       | None \<Rightarrow> (a2, []))"
    using None np ap by (simp add: admitRecord_def terminalOutcome_def)
  ultimately show thesis by (rule that)
next
  case (Some p)
  obtain a2 p2 where ap: "appendRecord r now p a = (a2, p2)" by (cases "appendRecord r now p a")
  have "growth r now a a2 p2"
    using admit_existing [OF wf Some ap] Some by (simp add: growth_def grownCore_def)
  moreover have "admitRecord r now mixed a =
      (case terminalOutcome r (map_of (asPending a) (recordKey r) \<noteq> None) of
         Some c \<Rightarrow> (case finish (recordKey r) p2 c True a2 of (a3, e) \<Rightarrow> (a3, [e]))
       | None \<Rightarrow> (a2, []))"
    using Some ap by (simp add: admitRecord_def terminalOutcome_def)
  ultimately show thesis by (rule that)
qed

lemma growth_frame:
  assumes "growth r now a a2 p2"
  shows "asRejected a2 = asRejected a" and "asRejectionBytes a2 = asRejectionBytes a"
    and "asLimits a2 = asLimits a" and "asTimeout a2 = asTimeout a"
    and "asSpillSince a2 = asSpillSince a" and "asSpillSource a2 = asSpillSource a"
    and "map_of (asPending a2) (recordKey r) = Some p2"
    and "core a2 = grownCore r (map_of (asPending a) (recordKey r)) (asNextSequence a) (core a)"
    and "asPendingBytes a2 = asPendingBytes a + rSourceBytes r" and "peLastSeen p2 = now"
  using assms by (simp_all add: growth_def Let_def)

lemma core_entry:
  assumes "map_of (asPending a) k = Some p"
  shows "(k, peRecords p, peSequence p) \<in> set (core a)"
  using map_of_SomeD [OF assms] by (force simp: core_def entryCore_def)

lemma grown_pendingInv:
  assumes inv: "pendingInv a" and g: "growth r now a a2 p2" and nn: "0 \<le> rSourceBytes r"
  shows "pendingInv a2"
proof (cases "map_of (asPending a) (recordKey r)")
  case None
  then have fresh: "recordKey r \<notin> fst ` set (core a)"
    by (simp add: set_fst_core map_of_None_notin)
  have c2: "core a2 = core a @ [(recordKey r, [r], asNextSequence a)]"
    and n2: "asNextSequence a2 = asNextSequence a + 1"
    and b2: "asPendingBytes a2 = asPendingBytes a + rSourceBytes r"
    using g None by (simp_all add: growth_def grownCore_def)
  have old: "\<forall>c \<in> set (core a). coreOk (asNextSequence a) c"
    using inv by (simp add: pendingInv_def list_all_iff)
  then have "\<forall>c \<in> set (core a). coreOk (asNextSequence a + 1) c"
    by (auto simp: coreOk_def split: prod.splits)
  moreover have "asNextSequence a \<notin> (\<lambda>(k, rs, s). s) ` set (core a)"
    using old by (auto simp: coreOk_def)
  ultimately show ?thesis
    using inv fresh nn unfolding pendingInv_def c2 n2 b2
    by (auto simp: list_all_iff coreOk_def)
next
  case (Some p)
  let ?k = "recordKey r"
  have c2: "core a2 = replaceCore ?k (peRecords p @ [r]) (peSequence p) (core a)"
    and n2: "asNextSequence a2 = asNextSequence a"
    and b2: "asPendingBytes a2 = asPendingBytes a + rSourceBytes r"
    using g Some by (simp_all add: growth_def grownCore_def)
  have d: "distinct (map fst (core a))" using inv by (simp add: pendingInv_def)
  note entry = core_entry [OF Some]
  have old: "\<forall>c \<in> set (core a). coreOk (asNextSequence a) c"
    using inv by (simp add: pendingInv_def list_all_iff)
  with entry have "coreOk (asNextSequence a) (?k, peRecords p, peSequence p)" by blast
  with nn have "coreOk (asNextSequence a) (?k, peRecords p @ [r], peSequence p)"
    by (auto simp: coreOk_def)
  with old have "list_all (coreOk (asNextSequence a)) (core a2)"
    by (auto simp: c2 list_all_iff replaceCore_def)
  then show ?thesis
    using inv unfolding pendingInv_def c2 n2 b2
    by (simp add: replaceCore_append [OF d entry])
qed

lemma checkLimits_None:
  assumes "checkLimits r existing a = None" and "positiveLimits (asLimits a)"
  shows "existing = None \<Longrightarrow> int (length (asPending a)) < maxPendingEvents (asLimits a)"
    and "existing = Some p \<Longrightarrow> int (length (peRecords p)) < maxRecordsPerEvent (asLimits a)"
    and "asPendingBytes a + rSourceBytes r \<le> maxPendingBytes (asLimits a)"
  using assms by (auto simp: checkLimits_def Let_def positiveLimits_def split: if_splits)

lemma grown_boundedInv:
  assumes inv: "boundedInv a" and g: "growth r now a a2 p2"
    and ok: "checkLimits r (map_of (asPending a) (recordKey r)) a = None"
  shows "boundedInv a2"
proof -
  have pos: "positiveLimits (asLimits a)" using inv by (simp add: boundedInv_def)
  note lim = checkLimits_None [OF ok pos]
  show ?thesis
  proof (cases "map_of (asPending a) (recordKey r)")
    case None
    then show ?thesis
      using inv lim(1,3) g pos
      by (auto simp: boundedInv_def growth_def grownCore_def length_core positiveLimits_def)
  next
    case (Some p)
    then show ?thesis
      using inv lim(2,3) g
      by (auto simp: boundedInv_def growth_def grownCore_def replaceCore_def list_all_iff)
  qed
qed

lemma grown_keys:
  assumes "growth r now a a2 p2"
  shows "fst ` set (asPending a2) = insert (recordKey r) (fst ` set (asPending a))"
proof (cases "map_of (asPending a) (recordKey r)")
  case None
  with assms have "core a2 = core a @ [(recordKey r, [r], asNextSequence a)]"
    by (simp add: growth_def grownCore_def)
  then have "fst ` set (core a2) = insert (recordKey r) (fst ` set (core a))" by simp
  then show ?thesis by (simp add: set_fst_core)
next
  case (Some p)
  with assms have c2: "core a2 = replaceCore (recordKey r) (peRecords p @ [r]) (peSequence p) (core a)"
    by (simp add: growth_def grownCore_def)
  have "map fst (core a2) = map fst (core a)"
    unfolding c2 replaceCore_def by (induction "core a") auto
  then have "fst ` set (asPending a2) = fst ` set (asPending a)"
    by (metis map_fst_core set_map)
  moreover have "recordKey r \<in> fst ` set (asPending a)"
    using map_of_SomeD [OF Some] by force
  ultimately show ?thesis by auto
qed

lemma grown_inv:
  assumes inv: "asmInv a" and g: "growth r now a a2 p2" and nn: "0 \<le> rSourceBytes r"
    and ok: "checkLimits r (map_of (asPending a) (recordKey r)) a = None"
    and rej: "map_of (asRejected a) (recordKey r) = None"
  shows "asmInv a2"
proof (rule asmInvI)
  show "pendingInv a2" using asmInvD(1) [OF inv] g nn by (rule grown_pendingInv)
  show "boundedInv a2" using asmInvD(2) [OF inv] g ok by (rule grown_boundedInv)
  show "rejectedInv a2"
    using asmInvD(3) [OF inv] growth_frame [OF g] by (intro rejectedInv_cong [of a2 a])
  have "asRejected a2 = asRejected a" using growth_frame [OF g] by simp
  then show "disjointInv a2"
    using asmInvD(4) [OF inv] rej grown_keys [OF g]
    by (simp add: disjointInv_def map_of_None_notin)
qed

lemma markMixed_inv [inv_intros]:
  assumes "asmInv a"
  shows "asmInv (a\<lparr>asPending := markMixed key (asPending a)\<rparr>)"
proof -
  let ?b = "a\<lparr>asPending := markMixed key (asPending a)\<rparr>"
  have c: "core ?b = core a" by (simp add: core_def core_markMixed)
  have k: "fst ` set (asPending ?b) = fst ` set (asPending a)"
    using map_fst_markMixed [of key "asPending a"] by (metis assembler.select_convs(7) assembler.surjective assembler.update_convs(7) set_map)
  show ?thesis
    using assms asmInvD [OF assms] c k
    by (intro asmInvI invs_cong [of ?b a] rejectedInv_cong [of ?b a] disjointInv_cong [of ?b a]) auto
qed

lemma expired_inv [inv_intros]:
  assumes "asmInv a" and "expired now a = (b, ready)"
  shows "asmInv b"
  using assms expired_drop [OF pendingInv_wf [OF asmInvD(1) [OF assms(1)]], of now]
  by (auto intro: dropEntries_inv)

lemma finish_inv [inv_intros]:
  assumes "asmInv a" and "map_of (asPending a) k = Some p" and "finish k p c b a = (a', e)"
  shows "asmInv a'"
  using assms finish_drop [OF pendingInv_wf [OF asmInvD(1) [OF assms(1)]] assms(2), of c b]
  by (auto intro: dropEntries_inv)

lemma admitRecord_inv [inv_intros]:
  assumes inv: "asmInv a" and nn: "0 \<le> rSourceBytes r"
    and ok: "checkLimits r (map_of (asPending a) (recordKey r)) a = None"
    and rej: "map_of (asRejected a) (recordKey r) = None"
    and res: "admitRecord r now mixed a = (a', ready)"
  shows "asmInv a'"
proof -
  obtain a2 p2 where g: "growth r now a a2 p2"
    and adm: "admitRecord r now mixed a =
      (case terminalOutcome r (map_of (asPending a) (recordKey r) \<noteq> None) of
         Some c \<Rightarrow> (case finish (recordKey r) p2 c True a2 of (a3, e) \<Rightarrow> (a3, [e]))
       | None \<Rightarrow> (a2, []))"
    using pendingInv_wf [OF asmInvD(1) [OF inv]] by (rule admitRecord_growth)
  have inv2: "asmInv a2" using inv g nn ok rej by (rule grown_inv)
  have p2: "map_of (asPending a2) (recordKey r) = Some p2"
    using g by (simp add: growth_def Let_def)
  from adm res inv2 show ?thesis
    by (auto split: option.splits prod.splits intro: finish_inv [OF inv2 p2])
qed

lemma addAt_inv [inv_intros]:
  assumes inv: "asmInv a" and nn: "0 \<le> rSourceBytes r"
    and rej: "map_of (asRejected a) (recordKey r) = None"
    and res: "addAt r now a = (a', out)"
  shows "asmInv a'"
proof -
  let ?b = "a\<lparr>asPending := markMixed (recordKey r) (asPending a)\<rparr>"
  have invb: "asmInv ?b" using inv by (rule markMixed_inv)
  have rejb: "map_of (asRejected ?b) (recordKey r) = None" using rej by simp
  have step: "asmInv a''"
    if "checkLimits r (map_of (asPending ?b) (recordKey r)) ?b = None"
      "admitRecord r now m ?b = (a1, ready)" "expired now a1 = (a'', late)" for m a1 ready a'' late
    using admitRecord_inv [OF invb nn that(1) rejb that(2)] that(3) by (rule expired_inv)
  show ?thesis
  proof (cases "rType r \<noteq> ''EOE'' \<or> map_of (asPending ?b) (recordKey r) \<noteq> None")
    case True
    with res invb step show ?thesis
      unfolding addAt_def Let_def
      by (cases "checkLimits r (map_of (asPending ?b) (recordKey r)) ?b") (auto split: prod.splits)
  next
    case False
    with res show ?thesis
      unfolding addAt_def Let_def by (auto split: prod.splits intro: expired_inv [OF invb])
  qed
qed

end
