(* ===== verification/IsolationInvariant.thy ===== *)
theory IsolationInvariant
  imports AssemblerInvariant
begin

text \<open>
  The operations of internal/audit/isolation.go keep the assembler's invariant, and with it the
  configured bounds on pending state and on rejection metadata, in every reachable state.
\<close>

section \<open>Rejected keys\<close>

lemma asmInv_rejected_cong:
  assumes "asmInv a" and "asPending b = asPending a" and "asPendingBytes b = asPendingBytes a"
    and "asLimits b = asLimits a" and "asNextSequence a \<le> asNextSequence b"
    and "rejectedInv b" and "fst ` set (asRejected b) \<subseteq> fst ` set (asRejected a)"
  shows "asmInv b"
proof -
  have "core b = core a" using assms(2) by (simp add: core_def)
  then show ?thesis
    using assms asmInvD [OF assms(1)]
    by (intro asmInvI invs_cong [of b a] disjointInv_cong [of b a]) auto
qed

lemma startSpill_frame [simp]:
  "asPending (startSpill now sp a) = asPending a"
  "asPendingBytes (startSpill now sp a) = asPendingBytes a"
  "asLimits (startSpill now sp a) = asLimits a"
  "asNextSequence (startSpill now sp a) = asNextSequence a"
  "asRejected (startSpill now sp a) = asRejected a"
  "asRejectionBytes (startSpill now sp a) = asRejectionBytes a"
  "asTimeout (startSpill now sp a) = asTimeout a"
  "asLatestAuditTime (startSpill now sp a) = asLatestAuditTime a"
  "asSpillSince (startSpill now sp a) = now"
  by (simp_all add: startSpill_def Let_def)

lemma startSpill_inv [inv_intros]: "asmInv a \<Longrightarrow> asmInv (startSpill now sp a)"
  by (rule asmInv_rejected_cong)
     (auto intro: rejectedInv_cong [of "startSpill now sp a" a] asmInvD(3))

lemma keySize_nonneg: "0 \<le> keySize k"
  by (simp add: keySize_def)

lemma trackRejected_inv [inv_intros]:
  assumes inv: "asmInv a" and room: "rejectionRoom k a"
    and fresh: "map_of (asRejected a) k = None" and idle: "map_of (asPending a) k = None"
  shows "asmInv (trackRejected k sp now a)"
proof (rule asmInvI)
  let ?b = "trackRejected k sp now a"
  have c: "core ?b = core a" by (simp add: core_def trackRejected_def)
  show "pendingInv ?b"
    using asmInvD(1) [OF inv] c by (intro invs_cong(1) [of ?b a]) (auto simp: trackRejected_def)
  show "boundedInv ?b"
    using asmInvD(2) [OF inv] c by (intro invs_cong(2) [of ?b a]) (auto simp: trackRejected_def)
  have upd: "AList.update k v (asRejected a) = asRejected a @ [(k, v)]" for v
    using fresh by (simp add: update_fresh map_of_None_notin)
  show "rejectedInv ?b"
    using asmInvD(3) [OF inv] room fresh
    by (auto simp: rejectedInv_def trackRejected_def upd rejectionRoom_def gm_wf_def map_of_None_notin)
  show "disjointInv ?b"
    using asmInvD(4) [OF inv] idle
    by (auto simp: disjointInv_def trackRejected_def upd map_of_None_notin)
qed

lemma isolateKey_inv [inv_intros]:
  assumes "asmInv a" and "map_of (asRejected a) k = None" and "map_of (asPending a) k = None"
  shows "asmInv (isolateKey k sp sp' now a)"
  using assms by (auto simp: isolateKey_def intro: trackRejected_inv startSpill_inv)

lemma sum_list_map_delete:
  assumes "gm_wf m" and "map_of m k = Some v"
  shows "sum_list (map (f :: _ \<Rightarrow> int) (AList.delete k m)) = sum_list (map f m) - f (k, v)"
proof -
  have "sum_list (map f m) = f (k, v) + sum_list (map f (AList.delete k m))"
    using sum_list_mset_cong [of m "(k, v) # AList.delete k m" f] mset_split_key [OF assms] by simp
  then show ?thesis by simp
qed

lemma dropRejected_inv [inv_intros]:
  assumes inv: "asmInv a" and rj: "map_of (asRejected a) k = Some rj"
  shows "asmInv (dropRejected k rj a)"
proof (rule asmInv_rejected_cong [OF inv])
  let ?b = "dropRejected k rj a"
  have ri: "rejectedInv a" using inv by (rule asmInvD)
  have size: "rjKeyBytes rj = keySize k"
    using ri map_of_SomeD [OF rj] by (auto simp: rejectedInv_def list_all_iff)
  have wf: "gm_wf (asRejected a)" using ri by (simp add: rejectedInv_def)
  have "length (AList.delete k (asRejected a)) \<le> length (asRejected a)"
    by (simp add: AList.delete_eq)
  then show "rejectedInv ?b"
    using ri wf size keySize_nonneg [of k]
      sum_list_map_delete [OF wf rj, of "\<lambda>(k, rj). keySize k"]
    by (auto simp: rejectedInv_def dropRejected_def set_delete_wf list_all_iff)
  show "fst ` set (asRejected ?b) \<subseteq> fst ` set (asRejected a)"
    using wf by (auto simp: dropRejected_def set_delete_wf)
qed (simp_all add: dropRejected_def)

lemma touchRejected_inv [inv_intros]:
  assumes inv: "asmInv a" and rj: "map_of (asRejected a) k = Some rj"
  shows "asmInv (touchRejected k rj now a)"
proof (rule asmInv_rejected_cong [OF inv])
  let ?b = "touchRejected k rj now a"
  have ri: "rejectedInv a" using inv by (rule asmInvD)
  have inkeys: "k \<in> fst ` set (asRejected a)" using map_of_SomeD [OF rj] by force
  then have keys: "map fst (asRejected ?b) = map fst (asRejected a)"
    by (simp add: touchRejected_def map_fst_update_present)
  have wf: "gm_wf (asRejected a)" using ri by (simp add: rejectedInv_def)
  have size: "rjKeyBytes rj = keySize k"
    using ri map_of_SomeD [OF rj] by (auto simp: rejectedInv_def list_all_iff)
  have len: "length (asRejected ?b) = length (asRejected a)" using keys by (metis length_map)
  have "map (\<lambda>(k, rj). keySize k) m = map keySize (map fst m)" for m :: "(correlationKey \<times> rejectedEvent) list"
    by (simp add: split_def)
  then have sums: "map (\<lambda>(k, rj). keySize k) (asRejected ?b) = map (\<lambda>(k, rj). keySize k) (asRejected a)"
    using keys by metis
  have entries: "list_all (\<lambda>(k, rj). rjKeyBytes rj = keySize k) (asRejected ?b)"
    using ri wf size by (auto simp: touchRejected_def rejectedInv_def list_all_iff set_update_wf)
  show "rejectedInv ?b"
    using ri sums entries len keys
    unfolding rejectedInv_def gm_wf_def by (simp add: touchRejected_def)
  show "fst ` set (asRejected ?b) \<subseteq> fst ` set (asRejected a)"
    using keys by (metis equalityE set_map)
qed (simp_all add: touchRejected_def)

lemma dropAll_inv:
  assumes "asmInv a" and "\<forall>(k, rj) \<in> set es. map_of (asRejected a) k = Some rj"
    and "distinct (map fst es)"
  shows "asmInv (dropAll es a)"
  using assms
proof (induction es arbitrary: a)
  case Nil
  then show ?case by simp
next
  case (Cons e es)
  obtain k rj where e: "e = (k, rj)" by (cases e)
  have "\<forall>(k', rj') \<in> set es. map_of (asRejected (dropRejected k rj a)) k' = Some rj'"
    using Cons.prems e by (force simp: dropRejected_def delete_conv')
  with Cons e show ?case by (auto intro: dropRejected_inv)
qed

lemma clearSpill_inv: "asmInv a \<Longrightarrow> asmInv (a\<lparr>asSpillSince := 0, asSpillSource := noPosition\<rparr>)"
  by (rule asmInv_rejected_cong) (auto intro: rejectedInv_cong [of _ a] asmInvD(3))

lemma expireRejected_inv [inv_intros]:
  assumes "asmInv a"
  shows "asmInv (expireRejected now a)"
proof -
  let ?es = "filter (\<lambda>(k, rj). rejectedExpired now a rj) (asRejected a)"
  have wf: "gm_wf (asRejected a)" using asmInvD(3) [OF assms] by (simp add: rejectedInv_def)
  have "\<forall>(k, rj) \<in> set ?es. map_of (asRejected a) k = Some rj"
    using gm_wf_map_of [OF wf] by auto
  moreover have "distinct (map fst ?es)" using wf by (simp add: gm_wf_def distinct_map_filter)
  ultimately have "asmInv (dropAll ?es a)" using assms by (rule dropAll_inv [rotated])
  then show ?thesis by (simp add: expireRejected_def Let_def clearSpill_inv)
qed

lemma exceptionalEvent_inv [inv_intros]:
  assumes "asmInv a" and "exceptionalEvent r pending rs a = (b, e)"
  shows "asmInv b"
proof -
  have "asmInv (a\<lparr>asNextSequence := asNextSequence a + 1\<rparr>)"
    using assms(1) by (rule asmInv_rejected_cong) (use asmInvD(3) [OF assms(1)] in \<open>auto simp: rejectedInv_def\<close>)
  with assms show ?thesis
    by (auto simp: exceptionalEvent_def Let_def split: option.splits)
qed

section \<open>The operations\<close>

lemma addAt_limit_pending:
  assumes "addAt r now a = (a', Inl limit)"
  shows "a' = a\<lparr>asPending := markMixed (recordKey r) (asPending a)\<rparr>"
    and "map_of (asPending a') (recordKey r) = map_of (asPending a) (recordKey r)"
proof -
  show "a' = a\<lparr>asPending := markMixed (recordKey r) (asPending a)\<rparr>"
    using assms unfolding addAt_def Let_def
    by (auto split: if_splits option.splits prod.splits)
  then show "map_of (asPending a') (recordKey r) = map_of (asPending a) (recordKey r)"
    by (simp add: map_of_markMixed_self)
qed

lemma dropped_pending: "map_of (asPending (dropEntries (\<lambda>e. fst e = k) a)) k = None"
  by (auto simp: map_of_eq_None_iff)

lemma AddRecovering_core_inv:
  assumes inv: "asmInv a" and nn: "0 \<le> rSourceBytes r"
    and res: "admitRecovering r now a = (a', events, diagnostic)"
  shows "asmInv a'"
proof (cases "map_of (asRejected a) (recordKey r)")
  case (Some rj)
  then have "asmInv (if terminalFor r then dropRejected (recordKey r) rj a
                     else touchRejected (recordKey r) rj now a)"
    using inv by (auto intro: inv_intros)
  with res Some show ?thesis
    by (auto simp: admitRecovering_def Let_def split: prod.splits intro: exceptionalEvent_inv)
next
  case rej: None
  have iso: "asmInv (if terminalFor r then b else isolateKey (recordKey r) sp sp' now b)"
    if "asmInv b" "asRejected b = asRejected a" "map_of (asPending b) (recordKey r) = None" for b sp sp'
    using that rej by (auto intro: isolateKey_inv)
  show ?thesis
  proof (cases "map_of (asPending a) (recordKey r)")
    case None
    show ?thesis
    proof (cases "asSpillSince a \<noteq> 0")
      case True
      with res rej None inv show ?thesis
        by (auto simp: admitRecovering_def Let_def split: prod.splits
            intro: exceptionalEvent_inv iso isolateKey_inv)
    next
      case False
      obtain b out where ad: "addAt r now a = (b, out)" by (cases "addAt r now a")
      have invb: "asmInv b" using inv nn rej ad by (rule addAt_inv)
      show ?thesis
      proof (cases out)
        case (Inl limit)
        with ad have b: "map_of (asPending b) (recordKey r) = None" "asRejected b = asRejected a"
          using addAt_limit_pending [of r now a b limit] None by auto
        from res rej None False ad Inl iso [OF invb b(2,1), of "rSource r" "rSource r"]
        show ?thesis
          by (auto simp: admitRecovering_def AddCheckedAt_def Let_def
              split: prod.splits intro: exceptionalEvent_inv)
      next
        case (Inr evs)
        with res rej None False ad invb show ?thesis
          by (auto simp: admitRecovering_def AddCheckedAt_def)
      qed
    qed
  next
    case (Some p)
    note wf = pendingInv_wf [OF asmInvD(1) [OF inv]]
    show ?thesis
    proof (cases "rType r = ''EOE'' \<and> maxRecordsPerEvent (asLimits a) > 0 \<and>
                   (int (length (peRecords p)) \<ge> maxRecordsPerEvent (asLimits a) \<or>
                    rSourceBytes r > maxPendingBytes (asLimits a) - asPendingBytes a)")
      case True
      with res rej Some show ?thesis
        by (auto simp: admitRecovering_def split: prod.splits intro: finish_inv [OF inv Some])
    next
      case False
      obtain b out where ad: "addAt r now a = (b, out)" by (cases "addAt r now a")
      have invb: "asmInv b" using inv nn rej ad by (rule addAt_inv)
      show ?thesis
      proof (cases out)
        case (Inl limit)
        have pb: "map_of (asPending b) (recordKey r) = Some p" and rb: "asRejected b = asRejected a"
          using ad Inl addAt_limit_pending [of r now a b limit] Some by auto
        let ?d = "dropEntries (\<lambda>e. fst e = recordKey r) b"
        let ?src = "rSource (hd (peRecords p @ [r]))"
        have fin: "finish (recordKey r) p CompletionAssemblyLimit False b =
            (?d, closedEvent (recordKey r, p) CompletionAssemblyLimit False)"
          using pendingInv_wf [OF asmInvD(1) [OF invb]] pb by (rule finish_drop)
        have "asmInv (if terminalFor r then ?d else isolateKey (recordKey r) ?src ?src now ?d)"
          using dropEntries_inv [OF invb] rb dropped_pending by (intro iso) simp_all
        with res rej Some False ad Inl fin show ?thesis
          by (cases "terminalFor r")
             (auto simp: admitRecovering_def AddCheckedAt_def Let_def closedEvent_def
              split: prod.splits intro: exceptionalEvent_inv)
      next
        case (Inr evs)
        with res rej Some False ad invb show ?thesis
          by (auto simp: admitRecovering_def AddCheckedAt_def)
      qed
    qed
  qed
qed

lemma AddRecovering_inv [inv_intros]:
  assumes "asmInv a" and "0 \<le> rSourceBytes r" and "AddRecovering r now a = (a', events, diagnostic)"
  shows "asmInv a'"
  using assms unfolding AddRecovering_def
  by (auto split: prod.splits intro: AddRecovering_core_inv expireRejected_inv expired_inv)

lemma FlushExpired_inv [inv_intros]:
  assumes "asmInv a" and "FlushExpired now a = (a', events)"
  shows "asmInv a'"
  using assms unfolding FlushExpired_def
  by (auto split: prod.splits intro: expired_inv expireRejected_inv)

lemma clearRejected_inv:
  assumes "asmInv a"
  shows "asmInv (a\<lparr>asRejected := [], asRejectionBytes := 0, asSpillSince := 0, asSpillSource := noPosition\<rparr>)"
  using assms
  by (rule asmInv_rejected_cong)
     (use asmInvD(2) [OF assms] in \<open>auto simp: rejectedInv_def boundedInv_def positiveLimits_def\<close>)

lemma finishAll_everything:
  "finishAll completion (asPending a) a =
     (a\<lparr>asPending := [], asPendingBytes := asPendingBytes a - entryBytes (asPending a)\<rparr>,
      map (\<lambda>e. closedEvent e completion False) (asPending a))"
  by (simp add: finishAll_closed withoutKeys_def filter_empty_conv)

lemma FlushAllWith_closed:
  "FlushAllWith completion a =
     (a\<lparr>asRejected := [], asRejectionBytes := 0, asSpillSince := 0, asSpillSource := noPosition,
        asPending := [], asPendingBytes := asPendingBytes a - entryBytes (asPending a)\<rparr>,
      orderedEvents (map (\<lambda>e. closedEvent e completion False) (asPending a)))"
proof -
  let ?b = "a\<lparr>asRejected := [], asRejectionBytes := 0, asSpillSince := 0, asSpillSource := noPosition\<rparr>"
  have "finishAll completion (asPending a) ?b = finishAll completion (asPending ?b) ?b" by simp
  then show ?thesis by (simp add: FlushAllWith_def Let_def finishAll_everything)
qed

lemma FlushAllWith_inv [inv_intros]:
  assumes "asmInv a" and "FlushAllWith completion a = (a', events)"
  shows "asmInv a'"
proof -
  let ?b = "a\<lparr>asRejected := [], asRejectionBytes := 0, asSpillSince := 0, asSpillSource := noPosition\<rparr>"
  have "asmInv (dropEntries (\<lambda>e. True) ?b)"
    by (rule dropEntries_inv [OF clearRejected_inv [OF assms(1)]])
  moreover have "a' = dropEntries (\<lambda>e. True) ?b"
    using assms(2) by (auto simp: FlushAllWith_closed dropEntries_def)
  ultimately show ?thesis by simp
qed

lemma closeForLine_inv:
  assumes inv: "asmInv a" and res: "closeForLine key source a = (b, events, sp)"
  shows "asmInv b" and "map_of (asPending b) key = None"
proof -
  have "asmInv b \<and> map_of (asPending b) key = None"
  proof (cases "map_of (asPending a) key")
    case None
    with res inv show ?thesis by (simp add: closeForLine_def)
  next
    case (Some p)
    have "finish key p CompletionLineLimit False a =
        (dropEntries (\<lambda>e. fst e = key) a, closedEvent (key, p) CompletionLineLimit False)"
      using pendingInv_wf [OF asmInvD(1) [OF inv]] Some by (rule finish_drop)
    with res Some have "b = dropEntries (\<lambda>e. fst e = key) a"
      by (simp add: closeForLine_def split: prod.splits)
    then show ?thesis using dropEntries_inv [OF inv] dropped_pending [of key a] by simp
  qed
  then show "asmInv b" and "map_of (asPending b) key = None" by blast+
qed

lemma fenceKey_inv:
  assumes inv: "asmInv a" and idle: "map_of (asPending a) key = None"
  shows "asmInv (fenceKey key sp now a)"
proof (cases "map_of (asRejected a) key")
  case None
  show ?thesis
  proof (cases "rejectionRoom key a")
    case True
    with inv idle None show ?thesis by (simp add: fenceKey_def trackRejected_inv)
  next
    case False
    with inv None show ?thesis by (simp add: fenceKey_def startSpill_inv)
  qed
next
  case (Some rj)
  with inv show ?thesis by (simp add: fenceKey_def touchRejected_inv)
qed

lemma RejectPhysicalLine_inv [inv_intros]:
  assumes inv: "asmInv a" and res: "RejectPhysicalLine pr pre source now a = (a', events)"
  shows "asmInv a'"
proof (cases "rejectKey pr pre")
  case None
  obtain b evs where f: "FlushAllWith CompletionLineLimit a = (b, evs)"
    by (cases "FlushAllWith CompletionLineLimit a")
  have "asmInv b" using inv f by (rule FlushAllWith_inv)
  with res None f show ?thesis by (auto simp: RejectPhysicalLine_def intro: startSpill_inv)
next
  case (Some key)
  obtain b evs sp where c: "closeForLine key source a = (b, evs, sp)"
    by (cases "closeForLine key source a")
  with res Some have "a' = fenceKey key sp now b" by (simp add: RejectPhysicalLine_def)
  then show ?thesis using fenceKey_inv [OF closeForLine_inv [OF inv c]] by simp
qed

section \<open>Reachable assemblers\<close>

lemma NewBoundedAssembler_inv:
  assumes "NewBoundedAssembler timeout limits = Some a"
  shows "asmInv a" and "asLimits a = limits" and "asTimeout a = timeout"
  using assms
  by (auto simp: NewBoundedAssembler_def NewAssembler_def asmInv_def pendingInv_def boundedInv_def
      rejectedInv_def disjointInv_def core_def positiveLimits_def split: if_splits)

text \<open>
  The steps of the running program: it feeds parsed records through \<open>AddRecovering\<close>, rejects
  oversized lines, and flushes. A record's byte count is the length of its source line.
\<close>

inductive asmStep :: "assembler \<Rightarrow> assembledEvent list \<Rightarrow> assembler \<Rightarrow> bool" where
  step_add: "0 \<le> rSourceBytes r \<Longrightarrow> AddRecovering r now a = (a', events, diagnostic) \<Longrightarrow> asmStep a events a'"
| step_reject: "RejectPhysicalLine pr pre source now a = (a', events) \<Longrightarrow> asmStep a events a'"
| step_expire: "FlushExpired now a = (a', events) \<Longrightarrow> asmStep a events a'"
| step_flush: "FlushAllWith completion a = (a', events) \<Longrightarrow> asmStep a events a'"

inductive asmReachable :: "duration \<Rightarrow> assemblerLimits \<Rightarrow> assembler \<Rightarrow> bool"
  for timeout limits where
  reach_new: "NewBoundedAssembler timeout limits = Some a \<Longrightarrow> asmReachable timeout limits a"
| reach_step: "asmReachable timeout limits a \<Longrightarrow> asmStep a events a' \<Longrightarrow> asmReachable timeout limits a'"

inductive_cases asmStepE: "asmStep a events a'"

lemma asmStep_inv [inv_intros]: "asmStep a events a' \<Longrightarrow> asmInv a \<Longrightarrow> asmInv a'"
  by (erule asmStepE) (blast intro: inv_intros)+

lemma asmReachable_inv: "asmReachable timeout limits a \<Longrightarrow> asmInv a"
  by (induction rule: asmReachable.induct) (blast intro: NewBoundedAssembler_inv asmStep_inv)+

end
