(* ===== verification/AssemblerCases.thy ===== *)
theory AssemblerCases
  imports IsolationInvariant
begin

text \<open>
  The outcomes of \<open>addAt\<close> and \<open>AddRecovering\<close> as case rules: under the invariant every call
  takes exactly one of the listed branches, each with its resulting state and events in closed
  form. The properties of the assembler are proved branch by branch over these rules.
\<close>

section \<open>Outcomes of addAt\<close>

definition marked :: "auditRecord \<Rightarrow> assembler \<Rightarrow> assembler" where
  "marked r a = a\<lparr>asPending := markMixed (recordKey r) (asPending a)\<rparr>"

lemma marked_frame [simp]:
  "core (marked r a) = core a"
  "map_of (asPending (marked r a)) (recordKey r) = map_of (asPending a) (recordKey r)"
  "asRejected (marked r a) = asRejected a"
  "asRejectionBytes (marked r a) = asRejectionBytes a"
  "asSpillSince (marked r a) = asSpillSince a"
  "asSpillSource (marked r a) = asSpillSource a"
  "asTimeout (marked r a) = asTimeout a"
  "asLimits (marked r a) = asLimits a"
  "asPendingBytes (marked r a) = asPendingBytes a"
  "asNextSequence (marked r a) = asNextSequence a"
  by (simp_all add: marked_def core_def core_markMixed map_of_markMixed_self)

lemma marked_inv [inv_intros]: "asmInv a \<Longrightarrow> asmInv (marked r a)"
  unfolding marked_def by (rule markMixed_inv)

definition closedBy :: "correlationKey \<Rightarrow> pendingEvent \<Rightarrow> completion option \<Rightarrow> assembler \<Rightarrow> assembler \<times> readyEvent list" where
  "closedBy k p c a =
     (case c of
        None \<Rightarrow> (a, [])
      | Some c \<Rightarrow> (dropEntries (\<lambda>e. fst e = k) a, [closedEvent (k, p) c True]))"

lemma addAt_cases [consumes 3, case_names limit ignored added]:
  assumes inv: "asmInv a" and nn: "0 \<le> rSourceBytes r" and res: "addAt r now a = (a', out)"
  obtains l where "out = Inl l" "a' = marked r a" "rType r \<noteq> ''EOE'' \<or> map_of (asPending a) (recordKey r) \<noteq> None"
      "checkLimits r (map_of (asPending a) (recordKey r)) (marked r a) \<noteq> None"
    | "rType r = ''EOE''" "map_of (asPending a) (recordKey r) = None"
      "a' = dropEntries (isExpired now (marked r a)) (marked r a)"
      "out = Inr (orderedEvents (expiredEvents now (marked r a)))"
    | a2 p2 a3 ready where "growth r now (marked r a) a2 p2"
      "rType r \<noteq> ''EOE'' \<or> map_of (asPending a) (recordKey r) \<noteq> None"
      "checkLimits r (map_of (asPending a) (recordKey r)) (marked r a) = None"
      "closedBy (recordKey r) p2 (terminalOutcome r (map_of (asPending a) (recordKey r) \<noteq> None)) a2 = (a3, ready)"
      "gm_wf (asPending a3)"
      "a' = dropEntries (isExpired now a3) a3"
      "out = Inr (orderedEvents (ready @ expiredEvents now a3))"
proof -
  let ?b = "marked r a"
  have invb: "asmInv ?b" using inv by (rule marked_inv)
  note wfb = pendingInv_wf [OF asmInvD(1) [OF invb]]
  let ?ex = "map_of (asPending a) (recordKey r)"
  have ex: "map_of (markMixed (recordKey r) (asPending a)) (recordKey r) = ?ex"
    by (rule map_of_markMixed_self)
  show thesis
  proof (cases "rType r \<noteq> ''EOE'' \<or> ?ex \<noteq> None")
    case False
    with res have "expired now ?b = (a', case out of Inr es \<Rightarrow> expiredEvents now ?b)"
        "out = Inr (orderedEvents (expiredEvents now ?b))"
      by (auto simp: addAt_def Let_def ex marked_def [symmetric] expired_drop [OF wfb] split: prod.splits)
    with False show thesis by (intro that(2)) (auto simp: expired_drop [OF wfb])
  next
    case True
    show thesis
    proof (cases "checkLimits r ?ex ?b")
      case (Some l)
      with res True show thesis
        by (intro that(1) [of "case out of Inl l \<Rightarrow> l"])
           (auto simp: addAt_def Let_def ex marked_def [symmetric])
    next
      case None
      obtain a2 p2 where g: "growth r now ?b a2 p2"
        and adm: "admitRecord r now (isMixed (recordKey r) (asPending a)) ?b =
          (case terminalOutcome r (map_of (asPending ?b) (recordKey r) \<noteq> None) of
             Some c \<Rightarrow> (case finish (recordKey r) p2 c True a2 of (a3, e) \<Rightarrow> (a3, [e]))
           | None \<Rightarrow> (a2, []))"
        using wfb by (rule admitRecord_growth)
      have pinv: "pendingInv a2" using asmInvD(1) [OF invb] g nn by (rule grown_pendingInv)
      note wf2 = pendingInv_wf [OF pinv]
      note p2 = growth_frame(7) [OF g]
      obtain a3 ready where cl: "closedBy (recordKey r) p2 (terminalOutcome r (?ex \<noteq> None)) a2 = (a3, ready)"
        by (cases "closedBy (recordKey r) p2 (terminalOutcome r (?ex \<noteq> None)) a2")
      have adm': "admitRecord r now (isMixed (recordKey r) (asPending a)) ?b = (a3, ready)"
        using adm cl finish_drop [OF wf2 p2]
        by (cases "terminalOutcome r (?ex \<noteq> None)") (simp_all add: closedBy_def)
      have wf3: "gm_wf (asPending a3)"
        using cl wf2 by (cases "terminalOutcome r (?ex \<noteq> None)") (auto simp: closedBy_def)
      have "addAt r now a = (dropEntries (isExpired now a3) a3,
             Inr (orderedEvents (ready @ expiredEvents now a3)))"
        using True None adm' expired_drop [OF wf3, of now]
        unfolding addAt_def Let_def ex marked_def [symmetric] by simp
      with res g True None cl wf3 show thesis by (intro that(3) [of a2 p2 a3 ready]) auto
    qed
  qed
qed

section \<open>Outcomes of AddRecovering\<close>

definition exceptionOf :: "auditRecord \<Rightarrow> nat \<Rightarrow> auditRecord list \<Rightarrow> assembledEvent" where
  "exceptionOf r s rs =
     \<lparr>aeSequence = s, aeExceptional = True, aeMixedNode = False, aeID = rID r, aeRecords = rs,
      aeComplete = False, aeCompletion = CompletionAssemblyLimit\<rparr>"

definition fenced :: "auditRecord \<Rightarrow> sourcePosition \<Rightarrow> sourcePosition \<Rightarrow> gotime \<Rightarrow> assembler \<Rightarrow> assembler" where
  "fenced r s1 s2 now a = (if terminalFor r then a else isolateKey (recordKey r) s1 s2 now a)"

definition bumped :: "assembler \<Rightarrow> assembler" where
  "bumped a = a\<lparr>asNextSequence := asNextSequence a + 1\<rparr>"

lemma exceptionalEvent_closed [simp]:
  "exceptionalEvent r (Some p) rs a = (a, exceptionOf r (peSequence p) rs)"
  "exceptionalEvent r None rs a = (bumped a, exceptionOf r (asNextSequence a) rs)"
  by (simp_all add: exceptionalEvent_def exceptionOf_def bumped_def Let_def)

lemma bumped_frame [simp]:
  "core (bumped a) = core a" "asPending (bumped a) = asPending a"
  "asRejected (bumped a) = asRejected a" "asRejectionBytes (bumped a) = asRejectionBytes a"
  "asSpillSince (bumped a) = asSpillSince a" "asSpillSource (bumped a) = asSpillSource a"
  "asTimeout (bumped a) = asTimeout a" "asLimits (bumped a) = asLimits a"
  "asPendingBytes (bumped a) = asPendingBytes a" "asNextSequence (bumped a) = asNextSequence a + 1"
  "asLatestAuditTime (bumped a) = asLatestAuditTime a"
  by (simp_all add: bumped_def)

lemma isolateKey_frame [simp]:
  "core (isolateKey k s1 s2 now a) = core a"
  "asPending (isolateKey k s1 s2 now a) = asPending a"
  "asTimeout (isolateKey k s1 s2 now a) = asTimeout a"
  "asLimits (isolateKey k s1 s2 now a) = asLimits a"
  "asPendingBytes (isolateKey k s1 s2 now a) = asPendingBytes a"
  "asNextSequence (isolateKey k s1 s2 now a) = asNextSequence a"
  "asLatestAuditTime (isolateKey k s1 s2 now a) = asLatestAuditTime a"
  by (simp_all add: isolateKey_def trackRejected_def startSpill_def Let_def core_def)

lemma fenced_frame [simp]:
  "core (fenced r s1 s2 now a) = core a"
  "asPending (fenced r s1 s2 now a) = asPending a"
  "asTimeout (fenced r s1 s2 now a) = asTimeout a"
  "asLimits (fenced r s1 s2 now a) = asLimits a"
  "asPendingBytes (fenced r s1 s2 now a) = asPendingBytes a"
  "asNextSequence (fenced r s1 s2 now a) = asNextSequence a"
  "asLatestAuditTime (fenced r s1 s2 now a) = asLatestAuditTime a"
  by (simp_all add: fenced_def)

definition settled :: "auditRecord \<Rightarrow> rejectedEvent \<Rightarrow> gotime \<Rightarrow> assembler \<Rightarrow> assembler" where
  "settled r rj now a =
     (if terminalFor r then dropRejected (recordKey r) rj a else touchRejected (recordKey r) rj now a)"

lemma settled_frame [simp]:
  "core (settled r rj now a) = core a"
  "asPending (settled r rj now a) = asPending a"
  "asSpillSince (settled r rj now a) = asSpillSince a"
  "asSpillSource (settled r rj now a) = asSpillSource a"
  "asTimeout (settled r rj now a) = asTimeout a"
  "asLimits (settled r rj now a) = asLimits a"
  "asPendingBytes (settled r rj now a) = asPendingBytes a"
  "asNextSequence (settled r rj now a) = asNextSequence a"
  "asLatestAuditTime (settled r rj now a) = asLatestAuditTime a"
  by (simp_all add: settled_def dropRejected_def touchRejected_def core_def)

lemma disjointInv_pending:
  assumes "asmInv a" and "map_of (asRejected a) k = Some rj"
  shows "map_of (asPending a) k = None"
proof -
  have "k \<in> fst ` set (asRejected a)" using map_of_SomeD [OF assms(2)] by force
  then show ?thesis
    using asmInvD(4) [OF assms(1)] by (auto simp: disjointInv_def map_of_None_notin)
qed

definition dropKey :: "correlationKey \<Rightarrow> assembler \<Rightarrow> assembler" where
  "dropKey k a = dropEntries (\<lambda>e. fst e = k) a"

definition eoeAtLimit :: "auditRecord \<Rightarrow> pendingEvent \<Rightarrow> assembler \<Rightarrow> bool" where
  "eoeAtLimit r p a \<longleftrightarrow>
     rType r = ''EOE'' \<and> maxRecordsPerEvent (asLimits a) > 0 \<and>
     (int (length (peRecords p)) \<ge> maxRecordsPerEvent (asLimits a) \<or>
      rSourceBytes r > maxPendingBytes (asLimits a) - asPendingBytes a)"

lemma admitRecovering_cases [consumes 2, case_names rejected closed admitted group_limit new_limit spill]:
  assumes inv: "asmInv a" and res: "admitRecovering r now a = (a', events, d)"
  obtains rj where "map_of (asRejected a) (recordKey r) = Some rj" "map_of (asPending a) (recordKey r) = None"
      "a' = bumped (settled r rj now a)" "events = [exceptionOf r (asNextSequence a) [r]]" "d = None"
    | p where "map_of (asRejected a) (recordKey r) = None" "map_of (asPending a) (recordKey r) = Some p"
      "eoeAtLimit r p a" "a' = dropKey (recordKey r) a"
      "events = orderedEvents [closedEvent (recordKey r, p) CompletionEOE True]" "d = None"
    | "map_of (asRejected a) (recordKey r) = None" "addAt r now a = (a', Inr events)" "d = None"
      "map_of (asPending a) (recordKey r) \<noteq> None \<or> asSpillSince a = 0"
    | p l src where "map_of (asRejected a) (recordKey r) = None" "map_of (asPending a) (recordKey r) = Some p"
      "addAt r now a = (marked r a, Inl l)" "src = rSource (hd (peRecords p @ [r]))"
      "a' = fenced r src src now (dropKey (recordKey r) (marked r a))"
      "events = [exceptionOf r (peSequence p) (peRecords p @ [r])]" "d = Some l"
    | l where "map_of (asRejected a) (recordKey r) = None" "map_of (asPending a) (recordKey r) = None"
      "asSpillSince a = 0" "addAt r now a = (marked r a, Inl l)"
      "a' = bumped (fenced r (rSource r) (rSource r) now (marked r a))"
      "events = [exceptionOf r (asNextSequence a) [r]]" "d = Some l"
    | "map_of (asRejected a) (recordKey r) = None" "map_of (asPending a) (recordKey r) = None"
      "asSpillSince a \<noteq> 0" "a' = bumped (fenced r (asSpillSource a) (rSource r) now a)"
      "events = [exceptionOf r (asNextSequence a) [r]]" "d = None"
proof (cases "map_of (asRejected a) (recordKey r)")
  case (Some rj)
  with res disjointInv_pending [OF inv Some] show thesis
    by (intro that(1) [of rj]) (simp_all add: admitRecovering_def Let_def settled_def [symmetric])
next
  case rej: None
  obtain b out where ad: "addAt r now a = (b, out)" by (cases "addAt r now a")
  show thesis
  proof (cases "map_of (asPending a) (recordKey r)")
    case None
    note idle = this
    show thesis
    proof (cases "asSpillSince a = 0")
      case False
      with res rej None show thesis
        by (intro that(6)) (simp_all add: admitRecovering_def Let_def fenced_def [symmetric])
    next
      case True
      show thesis
      proof (cases out)
        case (Inl l)
        then have "b = marked r a"
          using addAt_limit_pending(1) [of r now a b l] ad by (simp add: marked_def)
        with res rej None True Inl ad show thesis
          by (intro that(5) [of l])
             (simp_all add: admitRecovering_def AddCheckedAt_def Let_def fenced_def [symmetric])
      next
        case (Inr evs)
        with res rej None True ad show thesis
          by (intro that(3)) (simp_all add: admitRecovering_def AddCheckedAt_def)
      qed
    qed
  next
    case (Some p)
    note wf = pendingInv_wf [OF asmInvD(1) [OF inv]]
    show thesis
    proof (cases "eoeAtLimit r p a")
      case True
      with res rej Some show thesis
        by (intro that(2) [of p])
           (simp_all add: admitRecovering_def eoeAtLimit_def finish_drop [OF wf Some] dropKey_def)
    next
      case False
      show thesis
      proof (cases out)
        case (Inl l)
        then have b: "b = marked r a"
          using addAt_limit_pending(1) [of r now a b l] ad by (simp add: marked_def)
        have pb: "map_of (asPending (marked r a)) (recordKey r) = Some p" using Some by simp
        note fin = finish_drop [OF pendingInv_wf [OF asmInvD(1) [OF marked_inv [OF inv]]] pb]
        from False have c: "(rType r = ''EOE'' \<and> maxRecordsPerEvent (asLimits a) > 0 \<and>
                   (int (length (peRecords p)) \<ge> maxRecordsPerEvent (asLimits a) \<or>
                    rSourceBytes r > maxPendingBytes (asLimits a) - asPendingBytes a)) = False"
          by (auto simp: eoeAtLimit_def)
        from res rej Some Inl ad b show thesis
          by (intro that(4) [of p l "rSource (hd (peRecords p @ [r]))"])
             (simp_all only: admitRecovering_def AddCheckedAt_def Let_def option.case c if_False
                prod.case sum.case fin closedEvent_def fenced_def dropKey_def
                exceptionalEvent_closed assembledEvent.simps prod.inject simp_thms)
      next
        case (Inr evs)
        from False have c: "(rType r = ''EOE'' \<and> maxRecordsPerEvent (asLimits a) > 0 \<and>
                   (int (length (peRecords p)) \<ge> maxRecordsPerEvent (asLimits a) \<or>
                    rSourceBytes r > maxPendingBytes (asLimits a) - asPendingBytes a)) = False"
          by (auto simp: eoeAtLimit_def)
        from res rej Some Inr ad show thesis
          by (intro that(3))
             (simp_all only: admitRecovering_def AddCheckedAt_def Let_def option.case c if_False
                prod.case sum.case prod.inject simp_thms option.distinct not_None_eq)
      qed
    qed
  qed
qed

end
