(* ===== verification/AssemblerRecords.thy ===== *)
theory AssemblerRecords
  imports AssemblerCases
begin

text \<open>
  Conservation of physical records, the shape and the order of the events the assembler emits.
\<close>

section \<open>Conservation of records\<close>

definition eventRecords :: "assembledEvent list \<Rightarrow> auditRecord multiset" where
  "eventRecords es = mset (concat (map aeRecords es))"

definition readyRecords :: "readyEvent list \<Rightarrow> auditRecord multiset" where
  "readyRecords es = mset (concat (map (\<lambda>e. aeRecords (snd e)) es))"

definition pendingRecords :: "assembler \<Rightarrow> auditRecord multiset" where
  "pendingRecords a = mset (entryRecords (asPending a))"

lemma pendingRecords_core: "pendingRecords a = coreRecords (core a)"
  by (simp add: pendingRecords_def coreRecords_def core_def entryRecords_def entryCore_def comp_def)

lemma eventRecords_simps [conserve_simps]:
  "eventRecords [] = {#}" "eventRecords (e # es) = mset (aeRecords e) + eventRecords es"
  "eventRecords (es @ fs) = eventRecords es + eventRecords fs"
  by (simp_all add: eventRecords_def)

lemma readyRecords_simps [conserve_simps]:
  "readyRecords [] = {#}" "readyRecords (e # es) = mset (aeRecords (snd e)) + readyRecords es"
  "readyRecords (es @ fs) = readyRecords es + readyRecords fs"
  by (simp_all add: readyRecords_def)

lemma readyRecords_mset: "mset es = mset fs \<Longrightarrow> readyRecords es = readyRecords fs"
  unfolding readyRecords_def by (rule mset_concat_map_mset)

lemma eventRecords_orderedEvents [conserve_simps]: "eventRecords (orderedEvents es) = readyRecords es"
proof -
  have "eventRecords (orderedEvents es) = readyRecords (sort_key fst es)"
    by (simp add: eventRecords_def orderedEvents_def readyRecords_def split_def comp_def)
  also have "\<dots> = readyRecords es" by (rule readyRecords_mset) simp
  finally show ?thesis .
qed

lemma readyRecords_stamped [conserve_simps]:
  "readyRecords (map (\<lambda>e. (aeSequence e, e)) es) = eventRecords es"
  by (simp add: readyRecords_def eventRecords_def comp_def)

lemma closedEvent_records [simp]: "aeRecords (snd (closedEvent e c b)) = peRecords (snd e)"
  by (simp add: closedEvent_def split: prod.splits)

lemma readyRecords_closed:
  "readyRecords (map (\<lambda>e. closedEvent e (c e) (b e)) es) = mset (entryRecords es)"
  by (simp add: readyRecords_def entryRecords_def comp_def)

lemma readyRecords_expired [conserve_simps]:
  "readyRecords (expiredEvents now a) = mset (entryRecords (filter (isExpired now a) (asPending a)))"
proof -
  have "readyRecords (expiredEvents now a) =
      mset (entryRecords (sort_key (\<lambda>(k, p). peSequence p) (filter (isExpired now a) (asPending a))))"
    unfolding expiredEvents_def expiryEvent_def by (rule readyRecords_closed)
  also have "\<dots> = mset (entryRecords (filter (isExpired now a) (asPending a)))"
    by (rule entryRecords_mset) simp
  finally show ?thesis .
qed

lemma pendingRecords_drop [conserve_simps]:
  "mset (entryRecords (filter P (asPending a))) + pendingRecords (dropEntries P a) = pendingRecords a"
  using mset_entryRecords_filter [of "asPending a" P] by (simp add: pendingRecords_def)

lemma pendingRecords_dropKey:
  assumes "gm_wf (asPending a)" and "map_of (asPending a) k = Some p"
  shows "mset (peRecords p) + pendingRecords (dropEntries (\<lambda>e. fst e = k) a) = pendingRecords a"
  using pendingRecords_drop [of "\<lambda>e. fst e = k" a] by (simp add: filter_key_single [OF assms])

lemma pendingRecords_frame [simp]:
  "pendingRecords (marked r a) = pendingRecords a" "pendingRecords (bumped a) = pendingRecords a"
  "pendingRecords (fenced r s1 s2 now a) = pendingRecords a"
  "pendingRecords (settled r rj now a) = pendingRecords a"
  by (simp_all add: pendingRecords_core)

lemma pendingRecords_growth:
  assumes "pendingInv a" and "growth r now a a2 p2"
  shows "pendingRecords a2 = add_mset r (pendingRecords a)"
proof (cases "map_of (asPending a) (recordKey r)")
  case None
  with assms(2) show ?thesis
    by (simp add: pendingRecords_core growth_def grownCore_def)
next
  case (Some p)
  have "distinct (map fst (core a))" using assms(1) by (simp add: pendingInv_def)
  with Some assms(2) core_entry [OF Some] show ?thesis
    by (simp add: pendingRecords_core growth_def grownCore_def replaceCore_append)
qed

lemma pendingRecords_closedBy:
  assumes "gm_wf (asPending a)" and "map_of (asPending a) k = Some p"
    and "closedBy k p c a = (b, ready)"
  shows "readyRecords ready + pendingRecords b = pendingRecords a"
  using assms(3) pendingRecords_dropKey [OF assms(1,2)]
  by (cases c) (auto simp: closedBy_def conserve_simps)

lemma grown_wf:
  assumes "asmInv a" and "growth r now (marked r a) a2 p2" and "0 \<le> rSourceBytes r"
  shows "pendingInv a2" and "gm_wf (asPending a2)"
proof -
  show "pendingInv a2"
    using asmInvD(1) [OF marked_inv [OF assms(1)]] assms(2,3) by (rule grown_pendingInv)
  then show "gm_wf (asPending a2)" by (rule pendingInv_wf)
qed

text \<open>\<open>addAt\<close> either files the record, or drops an end-of-event marker that ends nothing.\<close>

lemma addAt_records:
  assumes inv: "asmInv a" and nn: "0 \<le> rSourceBytes r" and res: "addAt r now a = (a', Inr events)"
  shows "eventRecords events + pendingRecords a' =
     pendingRecords a + (if rType r = ''EOE'' \<and> map_of (asPending a) (recordKey r) = None then {#} else {#r#})"
  using inv nn res
proof (cases rule: addAt_cases)
  case limit
  then show ?thesis by simp
next
  case ignored
  then show ?thesis
    using pendingRecords_drop [of "isExpired now (marked r a)" "marked r a"]
    by (simp add: conserve_simps)
next
  case (added a2 p2 a3 ready)
  have two: "pendingRecords a2 = add_mset r (pendingRecords a)"
    using pendingRecords_growth [OF asmInvD(1) [OF marked_inv [OF inv]] added(1)] by simp
  have three: "readyRecords ready + pendingRecords a3 = pendingRecords a2"
    using grown_wf(2) [OF inv added(1) nn] growth_frame(7) [OF added(1)] added(4)
    by (rule pendingRecords_closedBy)
  have four: "readyRecords (expiredEvents now a3) + pendingRecords a' = pendingRecords a3"
    using pendingRecords_drop [of "isExpired now a3" a3] added(6) by (simp add: conserve_simps)
  have "eventRecords events + pendingRecords a' = add_mset r (pendingRecords a)"
    using added(7) two three four by (simp add: conserve_simps add.assoc)
  with added(2) show ?thesis by auto
qed

lemma dropKey_records:
  assumes "asmInv a" and "map_of (asPending a) k = Some p"
  shows "mset (peRecords p) + pendingRecords (dropKey k a) = pendingRecords a"
  using pendingRecords_dropKey [OF pendingInv_wf [OF asmInvD(1) [OF assms(1)]] assms(2)]
  by (simp add: dropKey_def)

lemma admitRecovering_records:
  assumes inv: "asmInv a" and nn: "0 \<le> rSourceBytes r"
    and res: "admitRecovering r now a = (a', events, d)"
  shows "\<exists>lost. eventRecords events + pendingRecords a' + lost = add_mset r (pendingRecords a) \<and>
     (lost = {#} \<or> lost = {#r#} \<and> rType r = ''EOE'')"
  using inv res
proof (cases rule: admitRecovering_cases)
  case (rejected rj)
  then show ?thesis by (auto simp: conserve_simps exceptionOf_def)
next
  case (closed p)
  have "mset (peRecords p) + pendingRecords (dropKey (recordKey r) a) = pendingRecords a"
    using inv closed(2) by (rule dropKey_records)
  then show ?thesis
    using closed(3,4,5) by (intro exI [of _ "{#r#}"]) (simp add: conserve_simps eoeAtLimit_def)
next
  case admitted
  note rec = addAt_records [OF inv nn admitted(2)]
  show ?thesis
  proof (cases "rType r = ''EOE'' \<and> map_of (asPending a) (recordKey r) = None")
    case True
    with rec show ?thesis by (intro exI [of _ "{#r#}"]) simp
  next
    case False
    with rec show ?thesis by (intro exI [of _ "{#}"]) (simp add: if_not_P)
  qed
next
  case (group_limit p l src)
  have "map_of (asPending (marked r a)) (recordKey r) = Some p" using group_limit(2) by simp
  from dropKey_records [OF marked_inv [OF inv] this] show ?thesis
    using group_limit(5,6) by (intro exI [of _ "{#}"]) (simp add: conserve_simps exceptionOf_def)
next
  case (new_limit l)
  then show ?thesis by (auto simp: conserve_simps exceptionOf_def)
next
  case spill
  then show ?thesis by (auto simp: conserve_simps exceptionOf_def)
qed

lemma dropAll_pending [simp]: "asPending (dropAll es a) = asPending a"
  by (induction es arbitrary: a) (auto simp: dropRejected_def)

lemma dropAll_frame [simp]:
  "asPendingBytes (dropAll es a) = asPendingBytes a" "asNextSequence (dropAll es a) = asNextSequence a"
  "asLimits (dropAll es a) = asLimits a" "asTimeout (dropAll es a) = asTimeout a"
  "asLatestAuditTime (dropAll es a) = asLatestAuditTime a"
  by (induction es arbitrary: a) (auto simp: dropRejected_def)

lemma expireRejected_frame [simp]:
  "asPending (expireRejected now a) = asPending a"
  "asPendingBytes (expireRejected now a) = asPendingBytes a"
  "asNextSequence (expireRejected now a) = asNextSequence a"
  "asLimits (expireRejected now a) = asLimits a"
  "asTimeout (expireRejected now a) = asTimeout a"
  "asLatestAuditTime (expireRejected now a) = asLatestAuditTime a"
  by (simp_all add: expireRejected_def Let_def)

lemma expireRejected_records [simp]: "pendingRecords (expireRejected now a) = pendingRecords a"
  by (simp add: pendingRecords_def)

lemma mergeExpired_records [conserve_simps]:
  "eventRecords (mergeExpired ready events) = readyRecords ready + eventRecords events"
  by (simp add: mergeExpired_def conserve_simps)

text \<open>The phases of \<open>AddRecovering\<close>, with the invariant of the intermediate state.\<close>

lemma AddRecovering_phases:
  assumes inv: "asmInv a" and res: "AddRecovering r now a = (a', events, d)"
  obtains es where "asmInv (expireRejected now (dropEntries (isExpired now a) a))"
    and "admitRecovering r now (expireRejected now (dropEntries (isExpired now a) a)) = (a', es, d)"
    and "events = mergeExpired (expiredEvents now a) es"
proof -
  have ex: "expired now a = (dropEntries (isExpired now a) a, expiredEvents now a)"
    using pendingInv_wf [OF asmInvD(1) [OF inv]] by (rule expired_drop)
  obtain b es d' where ad: "admitRecovering r now (expireRejected now (dropEntries (isExpired now a) a)) = (b, es, d')"
    using prod_cases3 by blast
  show thesis
  proof (rule that [of es])
    show "asmInv (expireRejected now (dropEntries (isExpired now a) a))"
      using inv by (intro expireRejected_inv dropEntries_inv)
    show "admitRecovering r now (expireRejected now (dropEntries (isExpired now a) a)) = (a', es, d)"
      and "events = mergeExpired (expiredEvents now a) es"
      using res ad ex by (simp_all add: AddRecovering_def)
  qed
qed

lemma AddRecovering_records:
  assumes inv: "asmInv a" and nn: "0 \<le> rSourceBytes r" and res: "AddRecovering r now a = (a', events, d)"
  shows "\<exists>lost. eventRecords events + pendingRecords a' + lost = add_mset r (pendingRecords a) \<and>
     (lost = {#} \<or> lost = {#r#} \<and> rType r = ''EOE'')"
proof -
  let ?b = "dropEntries (isExpired now a) a"
  obtain es where i2: "asmInv (expireRejected now ?b)"
    and ad: "admitRecovering r now (expireRejected now ?b) = (a', es, d)"
    and ev: "events = mergeExpired (expiredEvents now a) es"
    using inv res by (rule AddRecovering_phases)
  obtain lost where l: "eventRecords es + pendingRecords a' + lost = add_mset r (pendingRecords ?b)"
    and k: "lost = {#} \<or> lost = {#r#} \<and> rType r = ''EOE''"
    using admitRecovering_records [OF i2 nn ad] by auto
  have "readyRecords (expiredEvents now a) + pendingRecords ?b = pendingRecords a"
    using pendingRecords_drop [of "isExpired now a" a] by (simp add: conserve_simps)
  then have drop: "pendingRecords a = readyRecords (expiredEvents now a) + pendingRecords ?b" by simp
  have "eventRecords events + pendingRecords a' + lost =
      readyRecords (expiredEvents now a) + (eventRecords es + pendingRecords a' + lost)"
    unfolding ev mergeExpired_records by (simp only: add.assoc)
  also have "\<dots> = add_mset r (pendingRecords a)" unfolding l drop by simp
  finally have "eventRecords events + pendingRecords a' + lost = add_mset r (pendingRecords a)" .
  with k show ?thesis by blast
qed

lemma FlushAllWith_records:
  "FlushAllWith c a = (a', events) \<Longrightarrow> eventRecords events = pendingRecords a \<and> asPending a' = []"
  using readyRecords_closed [of "\<lambda>_. c" "\<lambda>_. False" "asPending a"]
  by (auto simp: FlushAllWith_closed conserve_simps pendingRecords_def)

lemma FlushExpired_closed:
  assumes "asmInv a"
  shows "FlushExpired now a =
     (dropEntries (isExpired now a) (expireRejected now a), orderedEvents (expiredEvents now a))"
proof -
  have i: "asmInv (expireRejected now a)" using assms by (rule expireRejected_inv)
  have x: "isExpired now (expireRejected now a) = isExpired now a"
    by (simp add: isExpired_def [abs_def] wallExpired_def watermarkExpired_def)
  have y: "expiredEvents now (expireRejected now a) = expiredEvents now a"
    by (simp add: expiredEvents_def x expiryEvent_def [abs_def] expiryCompletion_def watermarkExpired_def)
  show ?thesis
    unfolding FlushExpired_def expired_drop [OF pendingInv_wf [OF asmInvD(1) [OF i]]] x y by simp
qed

lemma FlushExpired_records:
  assumes "asmInv a" and "FlushExpired now a = (a', events)"
  shows "eventRecords events + pendingRecords a' = pendingRecords a"
  using assms(2) pendingRecords_drop [of "isExpired now a" "expireRejected now a"]
  by (auto simp: FlushExpired_closed [OF assms(1)] conserve_simps)

lemma eventRecords_exceptional [conserve_simps]:
  "eventRecords (map (\<lambda>e. e\<lparr>aeExceptional := True\<rparr>) es) = eventRecords es"
  by (simp add: eventRecords_def comp_def)

lemma closeForLine_records:
  assumes "asmInv a" and "closeForLine key source a = (b, events, sp)"
  shows "eventRecords events + pendingRecords b = pendingRecords a"
proof (cases "map_of (asPending a) key")
  case None
  with assms(2) show ?thesis by (simp add: closeForLine_def conserve_simps)
next
  case (Some p)
  have "finish key p CompletionLineLimit False a =
      (dropKey key a, closedEvent (key, p) CompletionLineLimit False)"
    unfolding dropKey_def using pendingInv_wf [OF asmInvD(1) [OF assms(1)]] Some by (rule finish_drop)
  with assms Some dropKey_records [OF assms(1) Some] show ?thesis
    by (auto simp: closeForLine_def closedEvent_def conserve_simps)
qed

lemma fenceKey_pending [simp]: "asPending (fenceKey k sp now a) = asPending a"
  by (simp add: fenceKey_def trackRejected_def touchRejected_def split: option.splits)

lemma RejectPhysicalLine_records:
  assumes inv: "asmInv a" and res: "RejectPhysicalLine pr pre source now a = (a', events)"
  shows "eventRecords events + pendingRecords a' = pendingRecords a"
proof (cases "rejectKey pr pre")
  case None
  obtain b evs where f: "FlushAllWith CompletionLineLimit a = (b, evs)"
    by (cases "FlushAllWith CompletionLineLimit a")
  from FlushAllWith_records [OF f] res None f show ?thesis
    by (auto simp: RejectPhysicalLine_def conserve_simps pendingRecords_def)
next
  case (Some key)
  obtain b evs sp where c: "closeForLine key source a = (b, evs, sp)"
    by (cases "closeForLine key source a")
  with res Some have "a' = fenceKey key sp now b" "events = evs" by (simp_all add: RejectPhysicalLine_def)
  then show ?thesis using closeForLine_records [OF inv c] by (simp add: pendingRecords_def)
qed

end
