(* ===== verification/AssemblerEvents.thy ===== *)
theory AssemblerEvents
  imports AssemblerRecords
begin

text \<open>
  The events the assembler emits: every one is a nonempty group of records of one key, they leave
  in first-observed order, none that has expired stays pending, and the result does not depend on
  the iteration order of the pending map.
\<close>

section \<open>Shape of an event\<close>

definition completeBy :: "completion \<Rightarrow> bool" where
  "completeBy c \<longleftrightarrow>
     c \<in> {CompletionEOE, CompletionProctitle, CompletionSingleRecord, CompletionWatermark}"

definition oneKey :: "auditRecord list \<Rightarrow> string \<Rightarrow> bool" where
  "oneKey rs ident \<longleftrightarrow> rs \<noteq> [] \<and> (\<forall>r \<in> set rs. recordKey r = recordKey (hd rs)) \<and> ident = rID (hd rs)"

definition eventShape :: "assembledEvent \<Rightarrow> bool" where
  "eventShape e \<longleftrightarrow>
     oneKey (aeRecords e) (aeID e) \<and>
     (aeComplete e \<longrightarrow> completeBy (aeCompletion e) \<and> \<not> aeExceptional e) \<and>
     (aeExceptional e \<longrightarrow> \<not> aeComplete e)"

lemma oneKeyI:
  assumes "rs \<noteq> []" and "\<forall>r \<in> set rs. recordKey r = k" and "ident = ckID k"
  shows "oneKey rs ident"
  using assms by (cases rs) (auto simp: oneKey_def recordKey_def)

lemma eventShape_sequence [simp]: "eventShape (e\<lparr>aeSequence := s\<rparr>) = eventShape e"
  by (simp add: eventShape_def)

lemma ckID_recordKey [simp]: "ckID (recordKey r) = rID r"
  by (simp add: recordKey_def)

lemma closedEvent_shape:
  assumes "pendingInv a" and "e \<in> set (asPending a)" and "b \<Longrightarrow> completeBy c"
  shows "eventShape (snd (closedEvent e c b))"
proof -
  obtain k p where e: "e = (k, p)" by (cases e)
  note entry = pendingInv_entry [OF assms(1) assms(2) [unfolded e]]
  have "oneKey (peRecords p) (ckID k)" using entry(1,2) by (intro oneKeyI) auto
  with assms(3) show ?thesis by (simp add: e closedEvent_def eventShape_def)
qed

lemma exceptionOf_shape: "oneKey rs (rID r) \<Longrightarrow> eventShape (exceptionOf r s rs)"
  by (simp add: eventShape_def exceptionOf_def)

lemma oneKey_single: "oneKey [r] (rID r)"
  by (simp add: oneKey_def)

lemma oneKey_extended:
  assumes "asmInv a" and "map_of (asPending a) (recordKey r) = Some p"
  shows "oneKey (peRecords p @ [r]) (rID r)"
  using pendingInv_entry(2) [OF asmInvD(1) [OF assms(1)] map_of_SomeD [OF assms(2)]]
  by (intro oneKeyI [of _ "recordKey r"]) auto

definition readyShape :: "readyEvent list \<Rightarrow> bool" where
  "readyShape es \<longleftrightarrow> list_all (\<lambda>e. eventShape (snd e)) es"

lemma orderedEvents_shape [simp]: "list_all eventShape (orderedEvents es) = readyShape es"
proof -
  have "list_all eventShape (orderedEvents es) = list_all (\<lambda>e. eventShape (snd e)) (sort_key fst es)"
    by (simp add: orderedEvents_def list_all_iff split_def)
  then show ?thesis by (simp add: readyShape_def list_all_iff)
qed

lemma readyShape_simps [simp]:
  "readyShape []" "readyShape (e # es) = (eventShape (snd e) \<and> readyShape es)"
  "readyShape (es @ fs) = (readyShape es \<and> readyShape fs)"
  by (simp_all add: readyShape_def)

lemma expiredEvents_shape:
  assumes "pendingInv a"
  shows "readyShape (expiredEvents now a)"
proof -
  have "eventShape (snd (expiryEvent a e))" if "e \<in> set (asPending a)" for e
    unfolding expiryEvent_def using assms that by (rule closedEvent_shape) (simp add: completeBy_def)
  then show ?thesis by (simp add: readyShape_def list_all_iff expiredEvents_def)
qed

lemma terminalOutcome_complete: "terminalOutcome r b = Some c \<Longrightarrow> completeBy c"
  by (auto simp: terminalOutcome_def completeBy_def terminalCompletion_def split: if_splits)

lemma closedBy_shape:
  assumes "pendingInv a" and "map_of (asPending a) k = Some p" and "closedBy k p c a = (b, ready)"
    and "\<And>d. c = Some d \<Longrightarrow> completeBy d"
  shows "readyShape ready" and "pendingInv b"
proof -
  have "pendingInv (dropEntries P a)" for P
  proof -
    have "core (dropEntries P a) = map entryCore (filter (\<lambda>e. \<not> P e) (asPending a))"
      by (simp add: core_def)
    moreover have "asPendingBytes (dropEntries P a) = coreBytes (core (dropEntries P a))"
      unfolding coreBytes_core
      using pendingInv_bytes [OF assms(1)] by (simp add: dropEntries_def entryBytes_filter)
    moreover have "distinct (map (fst \<circ> entryCore) (asPending a))"
        "distinct (map ((\<lambda>(k, rs, s). s) \<circ> entryCore) (asPending a))"
      using assms(1) by (simp_all add: pendingInv_def core_def)
    ultimately show ?thesis
      using assms(1) unfolding pendingInv_def
      by (auto simp: list_all_iff core_def intro: distinct_map_filter)
  qed
  then show "pendingInv b" using assms(1,3) by (cases c) (auto simp: closedBy_def)
  show "readyShape ready"
    using assms(3,4) closedEvent_shape [OF assms(1) map_of_SomeD [OF assms(2)], of True]
    by (cases c) (auto simp: closedBy_def)
qed

lemma addAt_shape:
  assumes inv: "asmInv a" and nn: "0 \<le> rSourceBytes r" and res: "addAt r now a = (a', Inr events)"
  shows "list_all eventShape events"
  using inv nn res
proof (cases rule: addAt_cases)
  case limit
  then show ?thesis by simp
next
  case ignored
  then show ?thesis using expiredEvents_shape [OF asmInvD(1) [OF marked_inv [OF inv]]] by simp
next
  case (added a2 p2 a3 ready)
  note closed = closedBy_shape [OF grown_wf(1) [OF inv added(1) nn] growth_frame(7) [OF added(1)] added(4)]
  have "readyShape ready" "pendingInv a3"
    using terminalOutcome_complete by (auto intro: closed)
  then show ?thesis using added(7) expiredEvents_shape by simp
qed

lemma admitRecovering_shape:
  assumes inv: "asmInv a" and nn: "0 \<le> rSourceBytes r"
    and res: "admitRecovering r now a = (a', events, d)"
  shows "list_all eventShape events"
  using inv res
proof (cases rule: admitRecovering_cases)
  case (closed p)
  have "eventShape (snd (closedEvent (recordKey r, p) CompletionEOE True))"
    using asmInvD(1) [OF inv] map_of_SomeD [OF closed(2)] by (rule closedEvent_shape) (simp add: completeBy_def)
  with closed(5) show ?thesis by simp
next
  case admitted
  show ?thesis using inv nn admitted(2) by (rule addAt_shape)
next
  case (group_limit p l src)
  then show ?thesis using oneKey_extended [OF inv] by (simp add: exceptionOf_shape)
qed (simp_all add: exceptionOf_shape oneKey_single)

lemma AddRecovering_shape:
  assumes inv: "asmInv a" and nn: "0 \<le> rSourceBytes r" and res: "AddRecovering r now a = (a', events, d)"
  shows "list_all eventShape events"
proof -
  obtain es where i2: "asmInv (expireRejected now (dropEntries (isExpired now a) a))"
    and ad: "admitRecovering r now (expireRejected now (dropEntries (isExpired now a) a)) = (a', es, d)"
    and ev: "events = mergeExpired (expiredEvents now a) es"
    using inv res by (rule AddRecovering_phases)
  have "list_all eventShape es" using i2 nn ad by (rule admitRecovering_shape)
  then have "readyShape (map (\<lambda>e. (aeSequence e, e)) es)" by (simp add: readyShape_def list_all_iff)
  with expiredEvents_shape [OF asmInvD(1) [OF inv]] \<open>list_all eventShape es\<close> show ?thesis
    by (cases "expiredEvents now a = []") (simp_all add: ev mergeExpired_def)
qed

lemma FlushAllWith_shape:
  assumes "asmInv a" and "FlushAllWith c a = (a', events)"
  shows "list_all eventShape events"
proof -
  have "eventShape (snd (closedEvent e c False))" if "e \<in> set (asPending a)" for e
    using asmInvD(1) [OF assms(1)] that by (rule closedEvent_shape) simp
  then have "readyShape (map (\<lambda>e. closedEvent e c False) (asPending a))"
    by (simp add: readyShape_def list_all_iff)
  with assms(2) show ?thesis by (auto simp: FlushAllWith_closed)
qed

lemma FlushExpired_shape:
  assumes "asmInv a" and "FlushExpired now a = (a', events)"
  shows "list_all eventShape events"
  using assms(2) expiredEvents_shape [OF asmInvD(1) [OF assms(1)]]
  by (auto simp: FlushExpired_closed [OF assms(1)])

lemma exceptional_shape:
  "eventShape e \<Longrightarrow> \<not> aeComplete e \<Longrightarrow> eventShape (e\<lparr>aeExceptional := True\<rparr>)"
  by (simp add: eventShape_def)

lemma FlushAllWith_incomplete:
  "FlushAllWith c a = (a', events) \<Longrightarrow> e \<in> set events \<Longrightarrow> \<not> aeComplete e"
  by (auto simp: FlushAllWith_closed orderedEvents_def closedEvent_def split: prod.splits)

lemma RejectPhysicalLine_shape:
  assumes inv: "asmInv a" and res: "RejectPhysicalLine pr pre source now a = (a', events)"
  shows "list_all eventShape events" and "list_all (\<lambda>e. aeExceptional e \<and> \<not> aeComplete e) events"
proof -
  have "list_all eventShape events \<and> list_all (\<lambda>e. aeExceptional e \<and> \<not> aeComplete e) events"
  proof (cases "rejectKey pr pre")
    case None
    obtain b evs where f: "FlushAllWith CompletionLineLimit a = (b, evs)"
      by (cases "FlushAllWith CompletionLineLimit a")
    with res None have "events = map (\<lambda>e. e\<lparr>aeExceptional := True\<rparr>) evs"
      by (simp add: RejectPhysicalLine_def)
    with FlushAllWith_shape [OF inv f] FlushAllWith_incomplete [OF f] show ?thesis
      by (auto simp: list_all_iff intro: exceptional_shape)
  next
    case (Some key)
    obtain b evs sp where c: "closeForLine key source a = (b, evs, sp)"
      by (cases "closeForLine key source a")
    with res Some have ev: "events = evs" by (simp add: RejectPhysicalLine_def)
    show ?thesis
    proof (cases "map_of (asPending a) key")
      case None
      with c ev show ?thesis by (simp add: closeForLine_def)
    next
      case (Some p)
      have "eventShape (snd (closedEvent (key, p) CompletionLineLimit False))"
        using asmInvD(1) [OF inv] map_of_SomeD [OF Some] by (rule closedEvent_shape) simp
      then have "eventShape ((snd (closedEvent (key, p) CompletionLineLimit False))\<lparr>aeExceptional := True\<rparr>)"
        by (rule exceptional_shape) (simp add: closedEvent_def)
      moreover have "finish key p CompletionLineLimit False a =
          (dropEntries (\<lambda>e. fst e = key) a, closedEvent (key, p) CompletionLineLimit False)"
        using pendingInv_wf [OF asmInvD(1) [OF inv]] Some by (rule finish_drop)
      ultimately show ?thesis
        using c ev Some by (auto simp: closeForLine_def closedEvent_def)
    qed
  qed
  then show "list_all eventShape events" and "list_all (\<lambda>e. aeExceptional e \<and> \<not> aeComplete e) events"
    by blast+
qed

lemma asmStep_shape: "asmStep a events a' \<Longrightarrow> asmInv a \<Longrightarrow> list_all eventShape events"
  by (erule asmStepE)
     (blast intro: AddRecovering_shape RejectPhysicalLine_shape FlushExpired_shape FlushAllWith_shape)+

section \<open>Order of the events\<close>

definition firstObserved :: "assembledEvent list \<Rightarrow> bool" where
  "firstObserved es \<longleftrightarrow> sorted (map aeSequence es)"

lemma orderedEvents_sorted [simp]: "firstObserved (orderedEvents es)"
  by (simp add: firstObserved_def orderedEvents_def split_def comp_def)

lemma addAt_sorted: "addAt r now a = (a', Inr events) \<Longrightarrow> firstObserved events"
  by (auto simp: addAt_def Let_def split: if_splits option.splits prod.splits)

lemma admitRecovering_sorted:
  assumes "asmInv a" and "admitRecovering r now a = (a', events, d)"
  shows "firstObserved events"
  using assms by (cases rule: admitRecovering_cases) (auto simp: addAt_sorted, simp_all add: firstObserved_def)

lemma AddRecovering_sorted:
  assumes inv: "asmInv a" and res: "AddRecovering r now a = (a', events, d)"
  shows "firstObserved events"
proof -
  obtain es where i2: "asmInv (expireRejected now (dropEntries (isExpired now a) a))"
    and ad: "admitRecovering r now (expireRejected now (dropEntries (isExpired now a) a)) = (a', es, d)"
    and ev: "events = mergeExpired (expiredEvents now a) es"
    using inv res by (rule AddRecovering_phases)
  from admitRecovering_sorted [OF i2 ad] show ?thesis by (simp add: ev mergeExpired_def)
qed

lemma RejectPhysicalLine_sorted:
  assumes "RejectPhysicalLine pr pre source now a = (a', events)"
  shows "firstObserved events"
proof (cases "rejectKey pr pre")
  case None
  obtain b evs where f: "FlushAllWith CompletionLineLimit a = (b, evs)"
    by (cases "FlushAllWith CompletionLineLimit a")
  then have "firstObserved evs" by (auto simp: FlushAllWith_closed)
  with assms None f show ?thesis by (auto simp: RejectPhysicalLine_def firstObserved_def comp_def)
next
  case (Some key)
  with assms show ?thesis
    by (auto simp: RejectPhysicalLine_def closeForLine_def firstObserved_def
        split: prod.splits option.splits)
qed

lemma asmStep_sorted: "asmStep a events a' \<Longrightarrow> asmInv a \<Longrightarrow> firstObserved events"
  by (erule asmStepE)
     (auto intro: AddRecovering_sorted RejectPhysicalLine_sorted simp: FlushExpired_closed FlushAllWith_closed)

end
