(* ===== verification/PositionOrder.thy ===== *)
theory PositionOrder
  imports Prelude
begin

text \<open>
  The interface of a position order: both the assembler and the command keep the earliest of a
  set of source positions, each with a comparison of its own. The locale states what the code
  relies on of such a comparison and proves once what the running minimum over a set delivers.
\<close>

definition earlierOf :: "('p \<Rightarrow> 'p \<Rightarrow> bool) \<Rightarrow> ('p \<Rightarrow> bool) \<Rightarrow> 'p \<Rightarrow> 'p \<Rightarrow> 'p" where
  "earlierOf before valid c safe =
     (if \<not> valid c then safe else if \<not> valid safe \<or> before c safe then c else safe)"

locale position_order =
  fixes before :: "'p \<Rightarrow> 'p \<Rightarrow> bool" and valid :: "'p \<Rightarrow> bool"
  assumes before_irrefl: "\<not> before p p"
    and before_trans: "before p q \<Longrightarrow> before q r \<Longrightarrow> before p r"
    and before_split: "before p q \<Longrightarrow> before p r \<or> before r q"
begin

lemma not_before_trans: "\<not> before q p \<Longrightarrow> \<not> before r q \<Longrightarrow> \<not> before r p"
  using before_split by blast

lemma before_asym: "before p q \<Longrightarrow> \<not> before q p"
  using before_trans before_irrefl by blast

lemma earlierOf_valid: "valid (earlierOf before valid c s) \<longleftrightarrow> valid c \<or> valid s"
  by (simp add: earlierOf_def)

lemma earlierOf_lower:
  shows "valid c \<Longrightarrow> \<not> before c (earlierOf before valid c s)"
    and "valid s \<Longrightarrow> \<not> before s (earlierOf before valid c s)"
  by (auto simp: earlierOf_def before_irrefl before_asym)

lemma earliest_valid: "valid (fold (earlierOf before valid) ps s) \<longleftrightarrow> valid s \<or> (\<exists>p \<in> set ps. valid p)"
  by (induction ps arbitrary: s) (auto simp: earlierOf_valid)

lemma earliest_start: "valid s \<Longrightarrow> \<not> before s (fold (earlierOf before valid) ps s)"
proof (induction ps arbitrary: s)
  case Nil
  then show ?case by (simp add: before_irrefl)
next
  case (Cons p ps)
  have "\<not> before (earlierOf before valid p s) (fold (earlierOf before valid) ps (earlierOf before valid p s))"
    using Cons by (simp add: earlierOf_valid)
  then show ?case using earlierOf_lower(2) [OF Cons.prems, of p] not_before_trans by simp
qed

lemma earliest_lower:
  "p \<in> set ps \<Longrightarrow> valid p \<Longrightarrow> \<not> before p (fold (earlierOf before valid) ps s)"
proof (induction ps arbitrary: s)
  case Nil
  then show ?case by simp
next
  case (Cons q ps)
  show ?case
  proof (cases "p = q")
    case True
    have "\<not> before (earlierOf before valid p s) (fold (earlierOf before valid) ps (earlierOf before valid p s))"
      using Cons.prems by (intro earliest_start) (simp add: earlierOf_valid)
    with True earlierOf_lower(1) [OF Cons.prems(2), of s] show ?thesis
      using not_before_trans by simp
  next
    case False
    with Cons show ?thesis by simp
  qed
qed

lemma earliest_member: "fold (earlierOf before valid) ps s \<in> insert s (set ps)"
  by (induction ps arbitrary: s) (auto simp: earlierOf_def split: if_splits)

lemma earliest_unaffected:
  assumes "\<And>p. p \<in> set ps \<Longrightarrow> valid p \<Longrightarrow> \<not> before p s" and "valid s"
  shows "fold (earlierOf before valid) ps s = s"
  using assms
proof (induction ps)
  case Nil
  then show ?case by simp
next
  case (Cons p ps)
  then have "earlierOf before valid p s = s" by (auto simp: earlierOf_def)
  with Cons show ?case by simp
qed

end

text \<open>A lexicographic pair of keys gives such an order, whatever else a position carries.\<close>

definition lexBefore :: "('p \<Rightarrow> nat) \<Rightarrow> ('p \<Rightarrow> int) \<Rightarrow> 'p \<Rightarrow> 'p \<Rightarrow> bool" where
  "lexBefore gen off p q \<longleftrightarrow> (if gen p \<noteq> gen q then gen p < gen q else off p < off q)"

lemma lexBefore_order: "position_order (lexBefore gen off)"
  by unfold_locales (auto simp: lexBefore_def split: if_splits)

end
