(* ===== verification/AssemblerProgress.thy ===== *)
theory AssemblerProgress
  imports AssemblerEvents PositionOrder
begin

text \<open>
  Progress and safety of the assembler: what has expired leaves, a terminal record closes its
  group, a rejected key stays isolated, the outcome does not depend on the iteration order of
  the pending map, and the safe source position never passes retained input.
\<close>

section \<open>Expiry\<close>

lemma isExpired_frame:
  assumes "asTimeout b = asTimeout a" and "asLatestAuditTime b = asLatestAuditTime a"
  shows "isExpired now b = isExpired now a"
  using assms by (simp add: isExpired_def [abs_def] wallExpired_def watermarkExpired_def)

definition settledAt :: "gotime \<Rightarrow> assembler \<Rightarrow> bool" where
  "settledAt now a \<longleftrightarrow> list_all (\<lambda>e. \<not> isExpired now a e) (asPending a)"

lemma settledAt_dropped: "settledAt now (dropEntries (isExpired now a) a)"
  by (simp add: settledAt_def list_all_iff isExpired_frame [of "dropEntries (isExpired now a) a" a])

lemma settledAt_drop: "settledAt now a \<Longrightarrow> settledAt now (dropEntries P a)"
  by (simp add: settledAt_def list_all_iff isExpired_frame [of "dropEntries P a" a])

lemma settledAt_cong:
  assumes "asPending b = asPending a" and "asTimeout b = asTimeout a"
    and "asLatestAuditTime b = asLatestAuditTime a"
  shows "settledAt now a \<Longrightarrow> settledAt now b"
  using assms by (simp add: settledAt_def isExpired_frame [OF assms(2,3)])

lemma marked_expired:
  assumes "settledAt now a"
  shows "settledAt now (marked r a)"
proof -
  have "\<not> isExpired now (marked r a) e" if "e \<in> set (asPending (marked r a))" for e
  proof -
    from that obtain k p where kp: "(k, p) \<in> set (asPending a)"
      and e: "e = (k, if ckID k = ckID (recordKey r) \<and> ckNodePresent k \<noteq> ckNodePresent (recordKey r)
                       then p\<lparr>peMixedNode := True\<rparr> else p)"
      by (auto simp: marked_def markMixed_def)
    have "\<not> isExpired now a (k, p)" using assms kp by (auto simp: settledAt_def list_all_iff)
    then show ?thesis
      by (simp add: e isExpired_def wallExpired_def watermarkExpired_def marked_def)
  qed
  then show ?thesis by (simp add: settledAt_def list_all_iff)
qed

lemma asLatest_frame [simp]:
  "asLatestAuditTime (marked r a) = asLatestAuditTime a"
  "asLatestAuditTime (fenced r s1 s2 now a) = asLatestAuditTime a"
  by (simp_all add: marked_def)

lemma addAt_settled:
  assumes inv: "asmInv a" and nn: "0 \<le> rSourceBytes r" and res: "addAt r now a = (a', Inr events)"
  shows "settledAt now a'"
  using inv nn res by (cases rule: addAt_cases) (simp_all add: settledAt_dropped)

lemma admitRecovering_settled:
  assumes inv: "asmInv a" and nn: "0 \<le> rSourceBytes r" and old: "settledAt now a"
    and res: "admitRecovering r now a = (a', events, d)"
  shows "settledAt now a'"
  using inv res
proof (cases rule: admitRecovering_cases)
  case (rejected rj)
  show ?thesis using old by (rule settledAt_cong [rotated 3]) (simp_all add: rejected)
next
  case (closed p)
  then show ?thesis using settledAt_drop [OF old] by (simp add: dropKey_def)
next
  case admitted
  show ?thesis using inv nn admitted(2) by (rule addAt_settled)
next
  case (group_limit p l src)
  have "settledAt now (dropKey (recordKey r) (marked r a))"
    unfolding dropKey_def by (intro settledAt_drop marked_expired old)
  then show ?thesis by (rule settledAt_cong [rotated 3]) (simp_all add: group_limit(5))
next
  case (new_limit l)
  show ?thesis using marked_expired [OF old, of r] by (rule settledAt_cong [rotated 3]) (simp_all add: new_limit)
next
  case spill
  show ?thesis using old by (rule settledAt_cong [rotated 3]) (simp_all add: spill)
qed

lemma AddRecovering_settled:
  assumes inv: "asmInv a" and nn: "0 \<le> rSourceBytes r" and res: "AddRecovering r now a = (a', events, d)"
  shows "settledAt now a'"
proof -
  let ?b = "expireRejected now (dropEntries (isExpired now a) a)"
  obtain es where i2: "asmInv ?b" and ad: "admitRecovering r now ?b = (a', es, d)"
    using inv res by (rule AddRecovering_phases)
  have "settledAt now ?b"
    using settledAt_dropped [of now a] by (rule settledAt_cong [rotated 3]) simp_all
  with i2 nn show ?thesis using ad by (rule admitRecovering_settled)
qed

lemma FlushExpired_settled:
  assumes "asmInv a" and "FlushExpired now a = (a', events)"
  shows "settledAt now a'"
proof -
  have "settledAt now (dropEntries (isExpired now a) (expireRejected now a))"
    using settledAt_dropped [of now a] by (rule settledAt_cong [rotated 3]) simp_all
  with assms show ?thesis by (simp add: FlushExpired_closed)
qed

section \<open>Closing a group\<close>

lemma closedEvent_in_ordered:
  "closedEvent e c b \<in> set es \<Longrightarrow> \<exists>f \<in> set (orderedEvents es).
      aeRecords f = peRecords (snd e) \<and> aeComplete f = b \<and> aeCompletion f = c \<and> aeID f = ckID (fst e) \<and>
      aeSequence f = peSequence (snd e)"
  by (force simp: orderedEvents_def closedEvent_def split: prod.splits)

lemma addAt_terminal:
  assumes inv: "asmInv a" and nn: "0 \<le> rSourceBytes r" and res: "addAt r now a = (a', Inr events)"
    and closes: "terminalOutcome r (map_of (asPending a) (recordKey r) \<noteq> None) = Some c"
    and some: "rType r \<noteq> ''EOE'' \<or> map_of (asPending a) (recordKey r) \<noteq> None"
  shows "\<exists>e \<in> set events. aeComplete e \<and> aeCompletion e = c \<and>
       aeRecords e = (case map_of (asPending a) (recordKey r) of None \<Rightarrow> [] | Some p \<Rightarrow> peRecords p) @ [r]"
    and "map_of (asPending a') (recordKey r) = None"
proof -
  have "(\<exists>e \<in> set events. aeComplete e \<and> aeCompletion e = c \<and>
       aeRecords e = (case map_of (asPending a) (recordKey r) of None \<Rightarrow> [] | Some p \<Rightarrow> peRecords p) @ [r]) \<and>
     map_of (asPending a') (recordKey r) = None"
    using inv nn res
  proof (cases rule: addAt_cases)
    case (added a2 p2 a3 ready)
    have p2: "peRecords p2 = (case map_of (asPending a) (recordKey r) of None \<Rightarrow> [] | Some p \<Rightarrow> peRecords p) @ [r]"
      using added(1) by (simp add: growth_def Let_def)
    have "closedEvent (recordKey r, p2) c True \<in> set (ready @ expiredEvents now a3)"
      and a3: "a3 = dropEntries (\<lambda>e. fst e = recordKey r) a2"
      using added(4) closes by (auto simp: closedBy_def)
    from closedEvent_in_ordered [OF this(1)] p2 added(7)
    have "\<exists>e \<in> set events. aeComplete e \<and> aeCompletion e = c \<and>
       aeRecords e = (case map_of (asPending a) (recordKey r) of None \<Rightarrow> [] | Some p \<Rightarrow> peRecords p) @ [r]"
      by auto
    moreover have "map_of (asPending a') (recordKey r) = None"
      using added(6) a3 by (auto simp: map_of_None_notin)
    ultimately show ?thesis by blast
  qed (use some in auto)
  then show "\<exists>e \<in> set events. aeComplete e \<and> aeCompletion e = c \<and>
       aeRecords e = (case map_of (asPending a) (recordKey r) of None \<Rightarrow> [] | Some p \<Rightarrow> peRecords p) @ [r]"
    and "map_of (asPending a') (recordKey r) = None"
    by blast+
qed

section \<open>Isolation of a rejected key\<close>

lemma dropAll_keeps:
  "k \<notin> fst ` set es \<Longrightarrow> map_of (asRejected (dropAll es a)) k = map_of (asRejected a) k"
  by (induction es arbitrary: a) (auto simp: dropRejected_def delete_conv')

lemma expireRejected_keeps:
  assumes inv: "asmInv a" and rj: "map_of (asRejected a) k = Some rj" and fresh: "\<not> rejectedExpired now a rj"
  shows "map_of (asRejected (expireRejected now a)) k = Some rj"
proof -
  have wf: "gm_wf (asRejected a)" using asmInvD(3) [OF inv] by (simp add: rejectedInv_def)
  have "k \<notin> fst ` set (filter (\<lambda>(k, rj). rejectedExpired now a rj) (asRejected a))"
    using gm_wf_map_of [OF wf] rj fresh by auto
  then have "map_of (asRejected (dropAll (filter (\<lambda>(k, rj). rejectedExpired now a rj) (asRejected a)) a)) k =
      map_of (asRejected a) k"
    by (rule dropAll_keeps)
  with rj show ?thesis by (simp add: expireRejected_def Let_def)
qed

lemma AddRecovering_rejected:
  assumes inv: "asmInv a" and rj: "map_of (asRejected a) (recordKey r) = Some rj"
    and fresh: "\<not> rejectedExpired now a rj" and res: "AddRecovering r now a = (a', events, d)"
  shows "map_of (asPending a') (recordKey r) = None"
    and "\<exists>s. exceptionOf r s [r] \<in> set events"
    and "map_of (asRejected a') (recordKey r) =
      (if terminalFor r then None else Some (rj\<lparr>rjLastSeen := now\<rparr>))"
proof -
  let ?d = "dropEntries (isExpired now a) a"
  let ?b = "expireRejected now ?d"
  obtain es where i2: "asmInv ?b" and ad: "admitRecovering r now ?b = (a', es, d)"
    and ev: "events = mergeExpired (expiredEvents now a) es"
    using inv res by (rule AddRecovering_phases)
  have rjb: "map_of (asRejected ?b) (recordKey r) = Some rj"
    using dropEntries_inv [OF inv] rj fresh
    by (intro expireRejected_keeps) (auto simp: rejectedExpired_def)
  have wf: "gm_wf (asRejected ?b)" using asmInvD(3) [OF i2] by (simp add: rejectedInv_def)
  from i2 ad have "map_of (asPending a') (recordKey r) = None \<and>
      es = [exceptionOf r (asNextSequence ?b) [r]] \<and>
      map_of (asRejected a') (recordKey r) = (if terminalFor r then None else Some (rj\<lparr>rjLastSeen := now\<rparr>))"
  proof (cases rule: admitRecovering_cases)
    case (rejected rj')
    then have "rj' = rj" using rjb by simp
    with rejected wf show ?thesis
      by (auto simp: settled_def dropRejected_def touchRejected_def update_conv' map_of_None_notin set_delete_wf)
  qed (use rjb in simp_all)
  moreover have "exceptionOf r (asNextSequence ?b) [r] \<in> set (mergeExpired ready [exceptionOf r (asNextSequence ?b) [r]])" for ready
    by (auto simp: mergeExpired_def orderedEvents_def exceptionOf_def image_iff)
  ultimately show "map_of (asPending a') (recordKey r) = None"
    and "\<exists>s. exceptionOf r s [r] \<in> set events"
    and "map_of (asRejected a') (recordKey r) =
      (if terminalFor r then None else Some (rj\<lparr>rjLastSeen := now\<rparr>))"
    using ev by auto
qed

section \<open>Independence of the map order\<close>

lemma orderedEvents_mset:
  assumes "mset es = mset fs" and "distinct (map fst es)"
  shows "orderedEvents es = orderedEvents fs"
proof -
  have "sort_key fst es = sort_key fst fs"
    using assms by (intro sort_key_unique) (simp_all add: distinct_map)
  then show ?thesis by (simp add: orderedEvents_def)
qed

lemma FlushAllWith_permuted:
  assumes inv: "asmInv a" and perm: "mset m = mset (asPending a)"
  shows "snd (FlushAllWith c (a\<lparr>asPending := m\<rparr>)) = snd (FlushAllWith c a)"
proof -
  have "distinct (map (\<lambda>e. peSequence (snd e)) (asPending a))"
    using asmInvD(1) [OF inv] by (rule pendingInv_seq_inj)
  moreover have "fst (closedEvent e c False) = peSequence (snd e)" for e :: "correlationKey \<times> pendingEvent"
    by (simp add: closedEvent_def split: prod.splits)
  ultimately have "distinct (map fst (map (\<lambda>e. closedEvent e c False) (asPending a)))"
    by (simp add: comp_def)
  moreover have "mset (map (\<lambda>e. closedEvent e c False) (asPending a)) = mset (map (\<lambda>e. closedEvent e c False) m)"
    using perm by simp
  ultimately have "orderedEvents (map (\<lambda>e. closedEvent e c False) (asPending a)) =
      orderedEvents (map (\<lambda>e. closedEvent e c False) m)"
    by (intro orderedEvents_mset)
  then show ?thesis by (simp add: FlushAllWith_closed)
qed

lemma expired_permuted:
  assumes inv: "asmInv a" and perm: "mset m = mset (asPending a)"
  shows "snd (expired now (a\<lparr>asPending := m\<rparr>)) = snd (expired now a)"
    and "mset (asPending (fst (expired now (a\<lparr>asPending := m\<rparr>)))) = mset (asPending (fst (expired now a)))"
    and "asPendingBytes (fst (expired now (a\<lparr>asPending := m\<rparr>))) = asPendingBytes (fst (expired now a))"
proof -
  let ?b = "a\<lparr>asPending := m\<rparr>"
  have wf: "gm_wf (asPending a)" using pendingInv_wf [OF asmInvD(1) [OF inv]] .
  moreover have "mset (map fst m) = mset (map fst (asPending a))" using perm by simp
  ultimately have wfm: "gm_wf (asPending ?b)"
    unfolding gm_wf_def by (metis assembler.select_convs(7) assembler.surjective assembler.update_convs(7) mset_eq_imp_distinct_iff)
  have x: "isExpired now ?b = isExpired now a" by (rule isExpired_frame) simp_all
  have y: "expiryEvent ?b = expiryEvent a"
    by (simp add: expiryEvent_def [abs_def] expiryCompletion_def watermarkExpired_def)
  let ?sq = "\<lambda>(k :: correlationKey, p). peSequence p"
  have fm: "mset (filter P m) = mset (filter P (asPending a))" for P
    by (simp add: perm)
  have "inj_on ?sq (set (filter (isExpired now a) m))"
  proof -
    have "distinct (map ?sq (asPending a))"
      using pendingInv_seq_inj [OF asmInvD(1) [OF inv]] by (simp add: split_def)
    then have "inj_on ?sq (set (asPending a))" by (simp add: distinct_map)
    moreover have "set (filter (isExpired now a) m) \<subseteq> set (asPending a)"
      using mset_eq_setD [OF perm] by auto
    ultimately show ?thesis by (rule inj_on_subset)
  qed
  then have "sort_key ?sq (filter (isExpired now a) m) = sort_key ?sq (filter (isExpired now a) (asPending a))"
    using fm by (intro sort_key_unique)
  then show "snd (expired now ?b) = snd (expired now a)"
    by (simp add: expired_drop [OF wf] expired_drop [OF wfm] expiredEvents_def x y)
  show "mset (asPending (fst (expired now ?b))) = mset (asPending (fst (expired now a)))"
    using fm by (simp add: expired_drop [OF wf] expired_drop [OF wfm] x)
  show "asPendingBytes (fst (expired now ?b)) = asPendingBytes (fst (expired now a))"
    using entryBytes_mset [OF fm] by (simp add: expired_drop [OF wf] expired_drop [OF wfm] x dropEntries_def)
qed

section \<open>The safe source position\<close>

interpretation startOrder: position_order sourcePositionBefore spValid
  by unfold_locales (auto simp: sourcePositionBefore_def split: if_splits)

definition atStart :: "sourcePosition \<Rightarrow> sourcePosition" where
  "atStart p = p\<lparr>spEnd := spStart p\<rparr>"

definition heldPositions :: "assembler \<Rightarrow> sourcePosition list" where
  "heldPositions a =
     map rSource (entryRecords (asPending a)) @ map (\<lambda>e. rjSource (snd e)) (asRejected a) @ [asSpillSource a]"

lemma considerPosition_earlier: "considerPosition p = earlierOf sourcePositionBefore spValid (atStart p)"
  by (rule ext) (simp add: considerPosition_def earlierOf_def atStart_def Let_def)

lemma SafeSourcePosition_fold:
  "SafeSourcePosition fallback a =
     fold (earlierOf sourcePositionBefore spValid) (map atStart (heldPositions a)) fallback"
proof -
  have records: "fold (\<lambda>(k, p) safe. fold (\<lambda>r. considerPosition (rSource r)) (peRecords p) safe) es s =
      fold considerPosition (map rSource (entryRecords es)) s" for es s
    by (induction es arbitrary: s) (auto simp: fold_map comp_def)
  have rejected: "fold (\<lambda>(k, rj). considerPosition (rjSource rj)) es s =
      fold considerPosition (map (\<lambda>e. rjSource (snd e)) es) s" for es :: "(correlationKey \<times> rejectedEvent) list" and s
    by (induction es arbitrary: s) auto
  have "SafeSourcePosition fallback a = fold considerPosition (heldPositions a) fallback"
    by (simp add: SafeSourcePosition_def heldPositions_def records rejected)
  moreover have "considerPosition = earlierOf sourcePositionBefore spValid \<circ> atStart"
    by (rule ext) (simp add: considerPosition_earlier)
  ultimately show ?thesis by (simp add: fold_map)
qed

lemma sourcePositionBefore_atStart [simp]:
  "sourcePositionBefore (atStart p) q = sourcePositionBefore p q" "spValid (atStart p) = spValid p"
  by (simp_all add: sourcePositionBefore_def atStart_def)

lemma SafeSourcePosition_lower:
  assumes "p \<in> set (heldPositions a)" and "spValid p"
  shows "\<not> sourcePositionBefore p (SafeSourcePosition fallback a)"
  using startOrder.earliest_lower [of "atStart p" "map atStart (heldPositions a)" fallback] assms
  by (simp add: SafeSourcePosition_fold)

end
