(* ===== verification/AssemblerTheorems.thy ===== *)
theory AssemblerTheorems
  imports AssemblerProgress
begin

text \<open>
  The properties of the assembler (internal/audit/assembler.go, isolation.go) over every state the
  program can reach, each with a witness on a small assembler.
\<close>

section \<open>Limits never change\<close>

lemma touchRejected_frame [simp]:
  "asLimits (touchRejected k rj now a) = asLimits a" "asLimits (trackRejected k sp now a) = asLimits a"
  by (simp_all add: touchRejected_def trackRejected_def)

lemma fenceKey_limits [simp]: "asLimits (fenceKey k sp now a) = asLimits a"
  by (simp add: fenceKey_def split: option.splits)

lemma closeForLine_limits: "closeForLine k sp a = (b, es, sp') \<Longrightarrow> asLimits b = asLimits a"
  by (auto simp: closeForLine_def finish_closed split: option.splits prod.splits)

lemma FlushAllWith_limits: "FlushAllWith c a = (b, es) \<Longrightarrow> asLimits b = asLimits a"
  by (auto simp: FlushAllWith_closed)

lemma RejectPhysicalLine_limits:
  assumes "RejectPhysicalLine pr pre source now a = (a', events)"
  shows "asLimits a' = asLimits a"
proof (cases "rejectKey pr pre")
  case None
  obtain b es where f: "FlushAllWith CompletionLineLimit a = (b, es)"
    by (cases "FlushAllWith CompletionLineLimit a")
  with assms None FlushAllWith_limits [OF f] show ?thesis by (auto simp: RejectPhysicalLine_def)
next
  case (Some key)
  obtain b es sp where c: "closeForLine key source a = (b, es, sp)"
    by (cases "closeForLine key source a")
  with assms Some closeForLine_limits [OF c] show ?thesis by (auto simp: RejectPhysicalLine_def)
qed

lemma closedBy_limits: "closedBy k p c a = (b, es) \<Longrightarrow> asLimits b = asLimits a"
  by (cases c) (auto simp: closedBy_def)

lemma addAt_limits:
  assumes "asmInv a" and "0 \<le> rSourceBytes r" and "addAt r now a = (a', out)"
  shows "asLimits a' = asLimits a"
  using assms
proof (cases rule: addAt_cases)
  case (added a2 p2 a3 ready)
  then show ?thesis using closedBy_limits growth_frame(3) [OF added(1)] by fastforce
qed simp_all

lemma admitRecovering_limits:
  assumes "asmInv a" and "0 \<le> rSourceBytes r" and "admitRecovering r now a = (a', events, d)"
  shows "asLimits a' = asLimits a"
  using assms(1,3)
proof (cases rule: admitRecovering_cases)
  case admitted
  then show ?thesis using addAt_limits [OF assms(1,2)] by blast
qed (simp_all add: dropKey_def)

lemma AddRecovering_limits:
  assumes "asmInv a" and "0 \<le> rSourceBytes r" and "AddRecovering r now a = (a', events, d)"
  shows "asLimits a' = asLimits a"
proof -
  obtain es where "asmInv (expireRejected now (dropEntries (isExpired now a) a))"
    and "admitRecovering r now (expireRejected now (dropEntries (isExpired now a) a)) = (a', es, d)"
    using assms(1,3) by (rule AddRecovering_phases)
  from admitRecovering_limits [OF this(1) assms(2) this(2)] show ?thesis by simp
qed

lemma asmStep_limits: "asmStep a events a' \<Longrightarrow> asmInv a \<Longrightarrow> asLimits a' = asLimits a"
  by (erule asmStepE)
     (auto simp: FlushExpired_closed intro: AddRecovering_limits RejectPhysicalLine_limits FlushAllWith_limits)

lemma reachable_limits:
  assumes "asmReachable timeout limits a"
  shows "asmInv a" and "asLimits a = limits"
proof -
  show "asLimits a = limits"
    using assms
  proof (induction rule: asmReachable.induct)
    case (reach_new a)
    then show ?case by (rule NewBoundedAssembler_inv)
  next
    case (reach_step a events a')
    then show ?case using asmStep_limits asmReachable_inv by metis
  qed
qed (use assms asmReachable_inv in blast)

section \<open>A small assembler\<close>

definition smallLimits :: assemblerLimits where
  "smallLimits = \<lparr>maxPendingEvents = 2, maxRecordsPerEvent = 3, maxPendingBytes = 100\<rparr>"

definition emptySmall :: assembler where
  "emptySmall = (NewAssembler 1000)\<lparr>asLimits := smallLimits\<rparr>"

definition smallRecord :: "string \<Rightarrow> string \<Rightarrow> int \<Rightarrow> auditRecord" where
  "smallRecord type ident start =
     emptyRecord\<lparr>rType := type, rID := ident, rSourceBytes := 10,
       rSource := noPosition\<lparr>spValid := True, spStart := start, spEnd := start\<rparr>\<rparr>"

text \<open>The state after one SYSCALL record of event \<open>x\<close> observed at time 5.\<close>

definition oneRecord :: assembler where
  "oneRecord = fst (AddRecovering (smallRecord ''SYSCALL'' ''x'' 40) 5 emptySmall)"

lemma emptySmall_reachable: "asmReachable 1000 smallLimits emptySmall"
proof (rule reach_new)
  show "NewBoundedAssembler 1000 smallLimits = Some emptySmall"
    by (simp add: NewBoundedAssembler_def emptySmall_def smallLimits_def)
qed

lemma oneRecord_step:
  "asmStep emptySmall (fst (snd (AddRecovering (smallRecord ''SYSCALL'' ''x'' 40) 5 emptySmall))) oneRecord"
proof (rule step_add)
  show "0 \<le> rSourceBytes (smallRecord ''SYSCALL'' ''x'' 40)" by (simp add: smallRecord_def)
  show "AddRecovering (smallRecord ''SYSCALL'' ''x'' 40) 5 emptySmall =
      (oneRecord, fst (snd (AddRecovering (smallRecord ''SYSCALL'' ''x'' 40) 5 emptySmall)),
       snd (snd (AddRecovering (smallRecord ''SYSCALL'' ''x'' 40) 5 emptySmall)))"
    by (simp add: oneRecord_def)
qed

lemma oneRecord_reachable: "asmReachable 1000 smallLimits oneRecord"
  using emptySmall_reachable oneRecord_step by (rule reach_step)

text \<open>Two pending events: \<open>y\<close> follows \<open>x\<close>.\<close>

definition twoRecords :: assembler where
  "twoRecords = fst (AddRecovering (smallRecord ''SYSCALL'' ''y'' 60) 6 oneRecord)"

lemma twoRecords_reachable: "asmReachable 1000 smallLimits twoRecords"
proof (rule reach_step [OF oneRecord_reachable])
  show "asmStep oneRecord (fst (snd (AddRecovering (smallRecord ''SYSCALL'' ''y'' 60) 6 oneRecord))) twoRecords"
  proof (rule step_add)
    show "0 \<le> rSourceBytes (smallRecord ''SYSCALL'' ''y'' 60)" by (simp add: smallRecord_def)
    show "AddRecovering (smallRecord ''SYSCALL'' ''y'' 60) 6 oneRecord =
        (twoRecords, fst (snd (AddRecovering (smallRecord ''SYSCALL'' ''y'' 60) 6 oneRecord)),
         snd (snd (AddRecovering (smallRecord ''SYSCALL'' ''y'' 60) 6 oneRecord)))"
      by (simp add: twoRecords_def)
  qed
qed

lemma oneRecord_pending: "map fst (asPending oneRecord) = [\<lparr>ckID = ''x'', ckNode = [], ckNodePresent = False\<rparr>]"
  by code_simp

section \<open>The properties\<close>

text \<open>
  C5: memory is bounded. In every reachable state the number of pending groups, the records of each
  group, the bytes they retain, and the keys and bytes of the rejection table stay within the
  configured limits, and the byte count the assembler keeps is the sum over its records.
\<close>

theorem assembler_memory_bounded:
  assumes "asmReachable timeout limits a"
  shows "int (length (asPending a)) \<le> maxPendingEvents limits \<and>
     (\<forall>(k, p) \<in> set (asPending a). int (length (peRecords p)) \<le> maxRecordsPerEvent limits) \<and>
     asPendingBytes a = sum_list (map rSourceBytes (entryRecords (asPending a))) \<and>
     asPendingBytes a \<le> maxPendingBytes limits \<and>
     int (length (asRejected a)) \<le> maxPendingEvents limits \<and> asRejectionBytes a \<le> maxPendingBytes limits"
proof -
  note inv = reachable_limits [OF assms]
  have "sum_list (map rSourceBytes (entryRecords es)) = entryBytes es" for es
    by (induction es) (auto simp: entryBytes_def entryRecords_def)
  moreover have "\<forall>(k, p) \<in> set (asPending a). int (length (peRecords p)) \<le> maxRecordsPerEvent limits"
    using asmInvD(2) [OF inv(1)] inv(2)
    by (auto simp: boundedInv_def list_all_iff core_def entryCore_def)
  ultimately show ?thesis
    using asmInvD [OF inv(1)] inv(2) pendingInv_bytes [OF asmInvD(1) [OF inv(1)]]
    by (auto simp: boundedInv_def length_core rejectedInv_def)
qed

theorem assembler_memory_bounded_witness:
  "asPending oneRecord \<noteq> [] \<and> asPendingBytes oneRecord \<le> 100"
  using assembler_memory_bounded [OF oneRecord_reachable] oneRecord_pending
  by (auto simp: smallLimits_def)

text \<open>
  C6: no record is lost or duplicated. Admitting a record leaves the multiset of emitted and pending
  records exactly one record larger, in every branch: admission, completion, expiry, limits,
  rejected keys and the conservative fence. Only an end-of-event marker may be dropped.
\<close>

theorem admission_conserves_records:
  assumes "asmReachable timeout limits a" and "0 \<le> rSourceBytes r"
    and "AddRecovering r now a = (a', events, diagnostic)"
  shows "\<exists>lost. eventRecords events + pendingRecords a' + lost = pendingRecords a + {#r#} \<and>
     (lost = {#} \<or> lost = {#r#} \<and> rType r = ''EOE'')"
  using AddRecovering_records [OF asmReachable_inv [OF assms(1)] assms(2,3)] by simp

theorem admission_conserves_records_witness:
  "\<exists>a' events. eventRecords events + pendingRecords a' = pendingRecords oneRecord + {#smallRecord ''PATH'' ''x'' 50#}"
proof -
  obtain a' events d where res: "AddRecovering (smallRecord ''PATH'' ''x'' 50) 6 oneRecord = (a', events, d)"
    by (cases "AddRecovering (smallRecord ''PATH'' ''x'' 50) 6 oneRecord")
  have "0 \<le> rSourceBytes (smallRecord ''PATH'' ''x'' 50)" "rType (smallRecord ''PATH'' ''x'' 50) \<noteq> ''EOE''"
    by (simp_all add: smallRecord_def)
  with admission_conserves_records [OF oneRecord_reachable _ res] show ?thesis by fastforce
qed

text \<open>
  C16: the other operations conserve records too: rejecting an oversized line, expiring and flushing
  only move pending records into events, and a flush leaves nothing pending.
\<close>

theorem flush_conserves_records:
  assumes "asmReachable timeout limits a"
  shows "(FlushExpired now a = (a1, events1) \<longrightarrow> eventRecords events1 + pendingRecords a1 = pendingRecords a) \<and>
     (RejectPhysicalLine pr pre source now a = (a2, events2) \<longrightarrow>
        eventRecords events2 + pendingRecords a2 = pendingRecords a) \<and>
     (FlushAllWith c a = (a3, events3) \<longrightarrow> eventRecords events3 = pendingRecords a \<and> asPending a3 = [])"
  using FlushExpired_records [OF asmReachable_inv [OF assms]]
    RejectPhysicalLine_records [OF asmReachable_inv [OF assms]] FlushAllWith_records
  by blast

theorem flush_conserves_records_witness:
  "\<exists>a events. FlushAllWith CompletionEOF oneRecord = (a, events) \<and> eventRecords events = pendingRecords oneRecord"
proof -
  obtain a events where "FlushAllWith CompletionEOF oneRecord = (a, events)"
    by (cases "FlushAllWith CompletionEOF oneRecord")
  with flush_conserves_records [OF oneRecord_reachable, where c = CompletionEOF] show ?thesis by blast
qed



text \<open>
  The events of one step leave in the order their groups were first observed.
\<close>

theorem emitted_in_first_observed_order:
  assumes "asmReachable timeout limits a" and "asmStep a events a'"
  shows "sorted (map aeSequence events)"
  using asmStep_sorted [OF assms(2) asmReachable_inv [OF assms(1)]] by (simp add: firstObserved_def)

theorem emitted_in_first_observed_order_witness:
  "sorted (map aeSequence (snd (FlushAllWith CompletionEOF oneRecord)))"
proof -
  have "asmStep oneRecord (snd (FlushAllWith CompletionEOF oneRecord)) (fst (FlushAllWith CompletionEOF oneRecord))"
    by (rule step_flush) simp
  with oneRecord_reachable show ?thesis by (rule emitted_in_first_observed_order)
qed

text \<open>
  C18: nothing overstays. After a record has been admitted, or expiry has run, no pending group is
  past its inactivity timeout or behind the watermark of the event clock.
\<close>

theorem no_group_overstays:
  assumes "asmReachable timeout limits a" and "0 \<le> rSourceBytes r" and "0 < asTimeout a'"
    and "AddRecovering r now a = (a', events, diagnostic) \<or> FlushExpired now a = (a', events)"
  shows "\<forall>(k, p) \<in> set (asPending a'). \<not> wallExpired now a' p \<and> \<not> watermarkExpired a' p"
proof -
  note inv = asmReachable_inv [OF assms(1)]
  have "settledAt now a'"
    using assms(4) AddRecovering_settled [OF inv assms(2)] FlushExpired_settled [OF inv] by blast
  with assms(3) show ?thesis by (auto simp: settledAt_def list_all_iff isExpired_def)
qed

theorem no_group_overstays_witness:
  "list_all (\<lambda>(k, p). \<not> wallExpired 2000 (fst (FlushExpired 2000 oneRecord)) p)
     (asPending (fst (FlushExpired 2000 oneRecord)))"
proof -
  have t: "0 < asTimeout (fst (FlushExpired 2000 oneRecord))" by code_simp
  have r: "0 \<le> rSourceBytes (smallRecord ''PATH'' ''x'' 50)" by (simp add: smallRecord_def)
  have f: "FlushExpired 2000 oneRecord = (fst (FlushExpired 2000 oneRecord), snd (FlushExpired 2000 oneRecord))"
    by simp
  show ?thesis
    using no_group_overstays [OF oneRecord_reachable r t disjI2 [OF f]] unfolding list_all_iff by fast
qed

text \<open>
  A completing record closes its group. When a terminal record (an end-of-event marker for an
  open group, or a record type that is an event by itself) is admitted, one complete event with the
  group's records followed by it is emitted, and the key is no longer pending.
\<close>

theorem terminal_record_closes_group:
  assumes "asmReachable timeout limits a" and "0 \<le> rSourceBytes r"
    and "AddCheckedAt r now a = (a', Inr events)" and "isTerminalRecord (rType r)"
    and "rType r \<noteq> ''EOE'' \<or> map_of (asPending a) (recordKey r) \<noteq> None"
  shows "(\<exists>e \<in> set events. aeComplete e \<and>
       aeRecords e = (case map_of (asPending a) (recordKey r) of None \<Rightarrow> [] | Some p \<Rightarrow> peRecords p) @ [r]) \<and>
     map_of (asPending a') (recordKey r) = None"
proof -
  have "terminalOutcome r (map_of (asPending a) (recordKey r) \<noteq> None) \<noteq> None"
    using assms(4) by (simp add: terminalOutcome_def)
  then obtain c where c: "terminalOutcome r (map_of (asPending a) (recordKey r) \<noteq> None) = Some c"
    by blast
  note inv = asmReachable_inv [OF assms(1)]
  from addAt_terminal [OF inv assms(2) assms(3) [unfolded AddCheckedAt_def] c assms(5)]
  show ?thesis by blast
qed

theorem terminal_record_closes_group_witness:
  "\<exists>a' events. AddCheckedAt (smallRecord ''EOE'' ''x'' 60) 7 oneRecord = (a', Inr events) \<and>
     (\<exists>e \<in> set events. aeComplete e)"
proof -
  have "case snd (AddCheckedAt (smallRecord ''EOE'' ''x'' 60) 7 oneRecord) of Inr es \<Rightarrow> True | Inl l \<Rightarrow> False"
    by code_simp
  then obtain a' events where res: "AddCheckedAt (smallRecord ''EOE'' ''x'' 60) 7 oneRecord = (a', Inr events)"
    by (cases "AddCheckedAt (smallRecord ''EOE'' ''x'' 60) 7 oneRecord") (auto split: sum.splits)
  have t: "isTerminalRecord (rType (smallRecord ''EOE'' ''x'' 60))" "0 \<le> rSourceBytes (smallRecord ''EOE'' ''x'' 60)"
    by (simp_all add: smallRecord_def isTerminalRecord_def)
  have "map_of (asPending oneRecord) (recordKey (smallRecord ''EOE'' ''x'' 60)) \<noteq> None"
    by code_simp
  from terminal_record_closes_group [OF oneRecord_reachable t(2) res t(1) disjI2 [OF this]] res
  show ?thesis by blast
qed

text \<open>
  C17: a rejected key stays isolated. While a key is rejected, a further record of it is emitted only
  as an exceptional event of its own, no group of that key opens, and the key stays rejected with a
  renewed time until a terminal record ends it.
\<close>

theorem rejected_key_isolated:
  assumes "asmReachable timeout limits a" and "map_of (asRejected a) (recordKey r) = Some rj"
    and "\<not> rejectedExpired now a rj" and "AddRecovering r now a = (a', events, diagnostic)"
  shows "map_of (asPending a') (recordKey r) = None \<and>
     (\<exists>e \<in> set events. aeRecords e = [r] \<and> aeExceptional e \<and> \<not> aeComplete e) \<and>
     map_of (asRejected a') (recordKey r) = (if terminalFor r then None else Some (rj\<lparr>rjLastSeen := now\<rparr>))"
proof -
  note x = AddRecovering_rejected [OF asmReachable_inv [OF assms(1)] assms(2-4)]
  from x(2) obtain s where "exceptionOf r s [r] \<in> set events" by blast
  then have "\<exists>e \<in> set events. aeRecords e = [r] \<and> aeExceptional e \<and> \<not> aeComplete e"
    by (rule bexI [rotated]) (simp add: exceptionOf_def)
  with x(1,3) show ?thesis by blast
qed

text \<open>The state after a line of event \<open>x\<close> exceeded the byte limit.\<close>

definition rejectedSmall :: assembler where
  "rejectedSmall = fst (RejectPhysicalLine (\<lambda>_. False) ''type=CWD msg=audit(x):'' noPosition 5 emptySmall)"

theorem rejected_key_isolated_witness:
  "\<exists>a' events d. AddRecovering (smallRecord ''PATH'' ''x'' 50) 6 rejectedSmall = (a', events, d) \<and>
     (\<exists>e \<in> set events. aeRecords e = [smallRecord ''PATH'' ''x'' 50] \<and> aeExceptional e)"
proof -
  have "asmStep emptySmall (snd (RejectPhysicalLine (\<lambda>_. False) ''type=CWD msg=audit(x):'' noPosition 5 emptySmall)) rejectedSmall"
    by (rule step_reject) (simp add: rejectedSmall_def)
  with emptySmall_reachable have reach: "asmReachable 1000 smallLimits rejectedSmall" by (rule reach_step)
  have "case map_of (asRejected rejectedSmall) (recordKey (smallRecord ''PATH'' ''x'' 50)) of
      None \<Rightarrow> False | Some rj \<Rightarrow> \<not> rejectedExpired 6 rejectedSmall rj"
    by code_simp
  then obtain rj where rj: "map_of (asRejected rejectedSmall) (recordKey (smallRecord ''PATH'' ''x'' 50)) = Some rj"
    "\<not> rejectedExpired 6 rejectedSmall rj"
    by (cases "map_of (asRejected rejectedSmall) (recordKey (smallRecord ''PATH'' ''x'' 50))") auto
  obtain a' events d where res: "AddRecovering (smallRecord ''PATH'' ''x'' 50) 6 rejectedSmall = (a', events, d)"
    by (cases "AddRecovering (smallRecord ''PATH'' ''x'' 50) 6 rejectedSmall")
  from rejected_key_isolated [OF reach rj res] res show ?thesis by blast
qed

text \<open>
  C19: the result does not depend on Go's random map iteration. Any permutation of the pending map
  gives the same flushed events, the same expired events and the same remaining groups.
\<close>

theorem map_order_irrelevant:
  assumes "asmReachable timeout limits a" and "mset m = mset (asPending a)"
  shows "snd (FlushAllWith c (a\<lparr>asPending := m\<rparr>)) = snd (FlushAllWith c a) \<and>
     snd (expired now (a\<lparr>asPending := m\<rparr>)) = snd (expired now a) \<and>
     mset (asPending (fst (expired now (a\<lparr>asPending := m\<rparr>)))) = mset (asPending (fst (expired now a)))"
  using FlushAllWith_permuted [OF asmReachable_inv [OF assms(1)] assms(2)]
    expired_permuted [OF asmReachable_inv [OF assms(1)] assms(2)]
  by blast

theorem map_order_irrelevant_witness:
  "rev (asPending twoRecords) \<noteq> asPending twoRecords \<and>
   snd (FlushAllWith CompletionEOF (twoRecords\<lparr>asPending := rev (asPending twoRecords)\<rparr>)) =
     snd (FlushAllWith CompletionEOF twoRecords)"
proof (intro conjI)
  show "rev (asPending twoRecords) \<noteq> asPending twoRecords" by code_simp
  show "snd (FlushAllWith CompletionEOF (twoRecords\<lparr>asPending := rev (asPending twoRecords)\<rparr>)) =
     snd (FlushAllWith CompletionEOF twoRecords)"
    using map_order_irrelevant [OF twoRecords_reachable, of "rev (asPending twoRecords)"] by simp
qed

text \<open>
  C10: the safe source position is a lower bound. It lies at or before the start of every source line
  the assembler still needs (of a pending record, a rejected key or the fence) and, when the
  fallback is valid, at or before the fallback; and it is the fallback or the start of such a line.
\<close>

theorem safe_position_lower_bound:
  "(\<forall>p \<in> set (heldPositions a). spValid p \<longrightarrow> \<not> sourcePositionBefore p (SafeSourcePosition fallback a)) \<and>
   (spValid fallback \<longrightarrow> \<not> sourcePositionBefore fallback (SafeSourcePosition fallback a)) \<and>
   SafeSourcePosition fallback a \<in> insert fallback (atStart ` set (heldPositions a))"
proof (intro conjI)
  show "\<forall>p \<in> set (heldPositions a). spValid p \<longrightarrow> \<not> sourcePositionBefore p (SafeSourcePosition fallback a)"
    using SafeSourcePosition_lower by blast
  show "spValid fallback \<longrightarrow> \<not> sourcePositionBefore fallback (SafeSourcePosition fallback a)"
    unfolding SafeSourcePosition_fold using startOrder.earliest_start by blast
  show "SafeSourcePosition fallback a \<in> insert fallback (atStart ` set (heldPositions a))"
    unfolding SafeSourcePosition_fold
    using startOrder.earliest_member [of "map atStart (heldPositions a)" fallback] by simp
qed

theorem safe_position_lower_bound_witness:
  "\<not> sourcePositionBefore (rSource (smallRecord ''SYSCALL'' ''x'' 40)) (SafeSourcePosition noPosition oneRecord)"
proof -
  have "rSource (smallRecord ''SYSCALL'' ''x'' 40) \<in> set (heldPositions oneRecord)"
    and "spValid (rSource (smallRecord ''SYSCALL'' ''x'' 40))"
    by code_simp+
  then show ?thesis using safe_position_lower_bound [of oneRecord noPosition] by blast
qed

end
