(* ===== verification/Decoding.thy ===== *)
theory Decoding
  imports RecordEnvelope
begin

text \<open>
  internal/audit/decoding.go and conflicts.go: the semantic view of the records of an event.
  Encoded text fields are decoded, text that is not UTF-8 becomes evidence and disappears from
  the view, and keys with contradictory values are marked as conflicts of their record.
\<close>

section \<open>Issues\<close>

text \<open>
  \<open>type CanonicalIssue struct\<close>; the pointers \<open>RecordIndex\<close> and \<open>Quoted\<close> are options.
\<close>

record canonicalIssue =
  ciCode :: string
  ciRecordType :: string
  ciField :: string
  ciValue :: string
  ciValueEncoding :: string
  ciRecordIndex :: "nat option"
  ciQuoted :: "bool option"
  ciSource :: string

definition plainIssue :: "string \<Rightarrow> string \<Rightarrow> string \<Rightarrow> string \<Rightarrow> canonicalIssue" where
  "plainIssue code recordType field value =
     \<lparr>ciCode = code, ciRecordType = recordType, ciField = field, ciValue = value,
      ciValueEncoding = [], ciRecordIndex = None, ciQuoted = None, ciSource = []\<rparr>"

definition sourceFieldIssue :: "string \<Rightarrow> auditRecord \<Rightarrow> nat \<Rightarrow> field \<Rightarrow> bool \<Rightarrow> canonicalIssue" where
  "sourceFieldIssue code r index f isEmbedded =
     \<lparr>ciCode = code, ciRecordType = rType r, ciField = fKey f, ciValue = hexEncode (fValue f),
      ciValueEncoding = ''hex'', ciRecordIndex = Some index, ciQuoted = Some (fQuoted f),
      ciSource = (if isEmbedded then ''embedded''
                  else if fInterpreted f then ''interpreted'' else ''raw'')\<rparr>"

section \<open>Decoding\<close>

text \<open>\<open>untrustedString\<close>: None stands for the result \<open>("", false)\<close>.\<close>

definition untrustedString :: "field \<Rightarrow> bool \<Rightarrow> string option" where
  "untrustedString f strict =
     (if fQuoted f \<or> fInterpreted f then Some (fValue f)
      else case hexDecode (fValue f) of
             Some decoded \<Rightarrow> Some decoded
           | None \<Rightarrow> if strict then None else Some (fValue f))"

definition encodedTextField :: "string \<Rightarrow> string \<Rightarrow> bool" where
  "encodedTextField recordType key \<longleftrightarrow>
     (if key \<in> {''comm'', ''exe'', ''key''} then True
      else if key = ''cwd'' then recordType = ''CWD'' \<or> recordType = ''USER_CMD''
      else if key = ''name'' then
        recordType \<in> {''PATH'', ''AVC'', ''USER_AVC'', ''SELINUX_ERR'', ''USER_SELINUX_ERR''} \<or>
        hasPrefix recordType ''APPARMOR_'' \<or> recordType = ''KERN_MODULE''
      else if key = ''acct'' then
        hasPrefix recordType ''USER_'' \<or> hasPrefix recordType ''CRED_'' \<or>
        recordType = ''ADD_USER'' \<or> recordType = ''DEL_USER''
      else False)"

text \<open>The value of a field before the UTF-8 check.\<close>

definition decodedText :: "string \<Rightarrow> field \<Rightarrow> string" where
  "decodedText recordType f =
     (if encodedTextField recordType (fKey f)
      then if fKey f = ''key'' \<and> \<not> fQuoted f \<and> \<not> fInterpreted f \<and> fValue f = ''(null)'' then []
           else case untrustedString f False of Some v \<Rightarrow> v | None \<Rightarrow> []
      else fValue f)"

record decodeState =
  dsFirst :: "(string, string) gomap"
  dsValues :: "(string, string list) gomap"
  dsIssues :: "canonicalIssue list"

definition decodeField :: "nat \<Rightarrow> auditRecord \<Rightarrow> bool \<Rightarrow> field \<Rightarrow> decodeState \<Rightarrow> decodeState" where
  "decodeField i r isEmbedded f s =
     (let text = decodedText (rType r) f;
          value = (if utf8Valid text then text else [])
      in \<lparr>dsFirst = (if map_of (dsFirst s) (fKey f) = None
                     then AList.update (fKey f) value (dsFirst s) else dsFirst s),
          dsValues = AList.update (fKey f) (gmList (dsValues s) (fKey f) @ [value]) (dsValues s),
          dsIssues = (if utf8Valid text then dsIssues s
                      else dsIssues s @ [sourceFieldIssue ''invalid_utf8'' r i f isEmbedded])\<rparr>)"

definition decodeFields :: "nat \<Rightarrow> auditRecord \<Rightarrow> bool \<Rightarrow> field list \<Rightarrow> decodeState" where
  "decodeFields i r isEmbedded fs =
     fold (decodeField i r isEmbedded) fs \<lparr>dsFirst = [], dsValues = [], dsIssues = []\<rparr>"

text \<open>The body of the loop over the records.\<close>

definition decodeRecord :: "nat \<Rightarrow> auditRecord \<Rightarrow> auditRecord \<times> canonicalIssue list" where
  "decodeRecord i r =
     (let raw = decodeFields i r False (rAllFields r);
          emb = decodeFields i r True (rEmbeddedAllFields r);
          r1 = (if rAllFields r \<noteq> [] then r\<lparr>rFields := dsFirst raw, rValues := Some (dsValues raw)\<rparr> else r);
          r2 = (if rEmbeddedAllFields r \<noteq> []
                then r1\<lparr>rEmbeddedFields := dsFirst emb, rEmbeddedValues := Some (dsValues emb)\<rparr> else r1)
      in (r2, dsIssues raw @ dsIssues emb))"

section \<open>Singleton conflicts\<close>

definition eventSingletonKeys :: "string list" where
  "eventSingletonKeys =
     [''auid'', ''AUID'', ''uid'', ''UID'', ''euid'', ''EUID'', ''pid'', ''ppid'', ''comm'', ''exe'',
      ''cwd'', ''tty'', ''exit'', ''arch'', ''ARCH'', ''syscall'', ''SYSCALL'', ''acct'', ''addr'',
      ''hostname'', ''terminal'', ''unit'', ''service'', ''reason'', ''op'', ''operation'']"

definition eventSingleton :: "string \<Rightarrow> bool" where
  "eventSingleton key \<longleftrightarrow> key \<in> set eventSingletonKeys"

definition singletonKeys :: "string list" where
  "singletonKeys =
     [''auid'', ''AUID'', ''uid'', ''UID'', ''euid'', ''EUID'', ''pid'', ''ppid'', ''comm'', ''exe'',
      ''cwd'', ''tty'', ''exit'', ''arch'', ''ARCH'', ''syscall'', ''SYSCALL'', ''acct'', ''addr'',
      ''hostname'', ''terminal'', ''name'', ''nametype'', ''item'', ''ouid'', ''OUID'', ''ogid'',
      ''OGID'', ''cap_fp'', ''cap_fi'', ''cap_fe'', ''decision'', ''apparmor'', ''scontext'',
      ''subj'', ''tcontext'', ''tclass'', ''profile'', ''permissive'', ''code'', ''sig'', ''ip'',
      ''compat'', ''op'', ''operation'', ''unit'', ''service'', ''reason'']"

definition singletonField :: "string \<Rightarrow> bool" where
  "singletonField key \<longleftrightarrow> key \<in> set singletonKeys"

text \<open>
  The maps of \<open>markSingletonConflicts\<close>. \<open>seen\<close> is the domain of \<open>first\<close>; note that \<open>first\<close>
  holds the latest value of a key. A set of keys is a list.
\<close>

record conflictScan =
  csConflicts :: "string list"
  csFirst :: "(string, string) gomap"
  csGlobalFirst :: "(string, string) gomap"
  csGlobalConflict :: "string list"

definition differs :: "(string, string) gomap \<Rightarrow> string \<Rightarrow> string \<Rightarrow> bool" where
  "differs m key value \<longleftrightarrow> (case map_of m key of None \<Rightarrow> False | Some v \<Rightarrow> v \<noteq> value)"

definition scanEntry :: "string \<Rightarrow> string \<Rightarrow> conflictScan \<Rightarrow> conflictScan" where
  "scanEntry key value s =
     (let s1 = (if differs (csFirst s) key value
                then s\<lparr>csConflicts := List.insert key (csConflicts s)\<rparr> else s);
          s2 = s1\<lparr>csFirst := AList.update key value (csFirst s1)\<rparr>
      in if eventSingleton key
         then let s3 = (if differs (csGlobalFirst s2) key value
                        then s2\<lparr>csGlobalConflict := List.insert key (csGlobalConflict s2)\<rparr> else s2)
              in s3\<lparr>csGlobalFirst := AList.update key value (csGlobalFirst s3)\<rparr>
         else s2)"

definition scanKey :: "string \<times> string list \<Rightarrow> conflictScan \<Rightarrow> conflictScan" where
  "scanKey = (\<lambda>(key, entries) s. if singletonField key then fold (scanEntry key) entries s else s)"

definition optionMap :: "('k, 'v) gomap option \<Rightarrow> ('k, 'v) gomap" where
  "optionMap m = (case m of None \<Rightarrow> [] | Some m \<Rightarrow> m)"

definition scanValues :: "auditRecord \<Rightarrow> conflictScan \<Rightarrow> conflictScan" where
  "scanValues r s =
     fold scanKey (optionMap (rEmbeddedValues r)) (fold scanKey (optionMap (rValues r)) s)"

definition semanticPairs :: "(string \<times> string) list" where
  "semanticPairs = [(''decision'', ''apparmor''), (''scontext'', ''subj''), (''op'', ''operation'')]"

definition insertBoth :: "string \<times> string \<Rightarrow> string list \<Rightarrow> string list" where
  "insertBoth pair cs = List.insert (snd pair) (List.insert (fst pair) cs)"

definition pairDiffers :: "(string, string) gomap \<Rightarrow> string \<times> string \<Rightarrow> bool" where
  "pairDiffers first pair \<longleftrightarrow>
     (case (map_of first (fst pair), map_of first (snd pair)) of
        (Some v, Some w) \<Rightarrow> v \<noteq> w
      | _ \<Rightarrow> False)"

definition markPairs :: "conflictScan \<Rightarrow> string list" where
  "markPairs s =
     fold (\<lambda>pair cs. if pairDiffers (csFirst s) pair then insertBoth pair cs else cs)
       semanticPairs (csConflicts s)"

text \<open>The first loop: each record's own conflicts, and the conflicts across the event.\<close>

fun scanRecords ::
    "auditRecord list \<Rightarrow> (string, string) gomap \<Rightarrow> string list \<Rightarrow> auditRecord list \<times> string list" where
  "scanRecords [] globalFirst globalConflict = ([], globalConflict)"
| "scanRecords (r # rs) globalFirst globalConflict =
     (let s = scanValues r \<lparr>csConflicts = [], csFirst = [], csGlobalFirst = globalFirst,
                csGlobalConflict = globalConflict\<rparr>;
          (rs', conflicts) = scanRecords rs (csGlobalFirst s) (csGlobalConflict s)
      in (r\<lparr>rConflicts := markPairs s\<rparr> # rs', conflicts))"

definition aliasPairs :: "(string \<times> string) list" where
  "aliasPairs =
     [(''auid'', ''AUID''), (''uid'', ''UID''), (''euid'', ''EUID''), (''ouid'', ''OUID''),
      (''ogid'', ''OGID''), (''arch'', ''ARCH''), (''syscall'', ''SYSCALL'')]"

definition markAliases :: "string list \<Rightarrow> string list" where
  "markAliases cs =
     fold (\<lambda>pair cs. if fst pair \<in> set cs \<or> snd pair \<in> set cs then insertBoth pair cs else cs)
       aliasPairs cs"

text \<open>The second loop: spread the event's conflicts and list the evidence.\<close>

definition spreadConflicts :: "string list \<Rightarrow> auditRecord \<Rightarrow> auditRecord" where
  "spreadConflicts globalConflict r =
     r\<lparr>rConflicts := markAliases (fold List.insert globalConflict (rConflicts r))\<rparr>"

definition conflictEvidence :: "nat \<Rightarrow> auditRecord \<Rightarrow> canonicalIssue list" where
  "conflictEvidence i r =
     map (\<lambda>f. sourceFieldIssue ''conflicting_singleton'' r i f False)
       (filter (\<lambda>f. fKey f \<in> set (rConflicts r)) (rAllFields r)) @
     map (\<lambda>f. sourceFieldIssue ''conflicting_singleton'' r i f True)
       (filter (\<lambda>f. fKey f \<in> set (rConflicts r)) (rEmbeddedAllFields r))"

definition markSingletonConflicts :: "auditRecord list \<Rightarrow> auditRecord list \<times> canonicalIssue list" where
  "markSingletonConflicts records =
     (let (rs, globalConflict) = scanRecords records [] [];
          rs' = map (spreadConflicts globalConflict) rs
      in (rs', concat (map (\<lambda>(i, r). conflictEvidence i r) (enumerate 0 rs'))))"

definition decodedRecords :: "auditRecord list \<Rightarrow> auditRecord list \<times> canonicalIssue list" where
  "decodedRecords records =
     (let decoded = map (\<lambda>(i, r). decodeRecord i r) (enumerate 0 records);
          (result, conflicts) = markSingletonConflicts (map fst decoded)
      in (result, concat (map snd decoded) @ conflicts))"

end
