(* ===== verification/Arguments.thy ===== *)
theory Arguments
  imports Decoding
begin

text \<open>
  internal/audit/argv.go and user_command.go: the argument vector rebuilt from EXECVE fields
  (whole, or cut into numbered fragments by the kernel) or from a PROCTITLE, and the command
  text of USER_CMD.
\<close>

section \<open>Scanning the fields\<close>

record execArgument =
  eaWhole :: "field option"
  eaLength :: "int option"
  eaFragments :: "(int, field) gomap"

definition emptyArgument :: execArgument where
  "emptyArgument = \<lparr>eaWhole = None, eaLength = None, eaFragments = []\<rparr>"

record argScan =
  sgArgs :: "(int, execArgument) gomap"
  sgArgc :: int
  sgValid :: bool

definition argField :: "field \<Rightarrow> bool" where
  "argField f \<longleftrightarrow> fKey f = ''argc'' \<or> parseExecArgKey (fKey f) \<noteq> None"

definition sameText :: "field \<Rightarrow> field \<Rightarrow> bool" where
  "sameText f g \<longleftrightarrow> fValue f = fValue g \<and> fQuoted f = fQuoted g"

text \<open>What one field does to its argument, and whether it leaves the scan valid.\<close>

definition argPart :: "execArgKind \<Rightarrow> int \<Rightarrow> field \<Rightarrow> execArgument \<Rightarrow> execArgument \<times> bool" where
  "argPart kind part f a =
     (case kind of
        ExecArgLength \<Rightarrow>
          (case atoi (fValue f) of
             None \<Rightarrow> (a, False)
           | Some n \<Rightarrow>
             if n < 0 \<or> (case eaLength a of None \<Rightarrow> False | Some m \<Rightarrow> m \<noteq> n) then (a, False)
             else (a\<lparr>eaLength := Some n\<rparr>, True))
      | ExecArgWhole \<Rightarrow>
          (a\<lparr>eaWhole := Some f\<rparr>, case eaWhole a of None \<Rightarrow> True | Some old \<Rightarrow> sameText old f)
      | ExecArgFragment \<Rightarrow>
          (a\<lparr>eaFragments := AList.update part f (eaFragments a)\<rparr>,
           case map_of (eaFragments a) part of None \<Rightarrow> True | Some old \<Rightarrow> sameText old f))"

definition argStep :: "field \<Rightarrow> argScan \<Rightarrow> argScan" where
  "argStep f s =
     (if fKey f = ''argc'' then
        (case atoi (fValue f) of
           None \<Rightarrow> s\<lparr>sgValid := False\<rparr>
         | Some n \<Rightarrow>
           if n < 0 \<or> sgArgc s \<ge> 0 \<and> sgArgc s \<noteq> n then s\<lparr>sgValid := False\<rparr> else s\<lparr>sgArgc := n\<rparr>)
      else case parseExecArgKey (fKey f) of
             None \<Rightarrow> s
           | Some (ai, part, kind) \<Rightarrow>
             if ai < 0 \<or> part < 0 then s\<lparr>sgValid := False\<rparr>
             else let a = (case map_of (sgArgs s) ai of Some a \<Rightarrow> a | None \<Rightarrow> emptyArgument);
                      (a', ok) = argPart kind part f a
                  in s\<lparr>sgArgs := AList.update ai a' (sgArgs s), sgValid := sgValid s \<and> ok\<rparr>)"

text \<open>The body of the inner loop: evidence is collected beside the scan.\<close>

definition scanArgField ::
    "nat \<Rightarrow> auditRecord \<Rightarrow> field \<Rightarrow> argScan \<times> canonicalIssue list \<Rightarrow> argScan \<times> canonicalIssue list" where
  "scanArgField ri r f = (\<lambda>(s, evidence).
     if argField f then (argStep f s, evidence @ [sourceFieldIssue ''incomplete_argv'' r ri f False])
     else (s, evidence))"

definition scanArguments :: "auditRecord list \<Rightarrow> argScan \<times> canonicalIssue list" where
  "scanArguments records =
     fold (\<lambda>(ri, r) acc. if rType r = ''EXECVE'' then fold (scanArgField ri r) (rAllFields r) acc else acc)
       (enumerate 0 records) (\<lparr>sgArgs = [], sgArgc = - 1, sgValid = True\<rparr>, [])"

section \<open>Decoding an argument\<close>

text \<open>The loop over the sorted fragment indexes: the text and the encoded length, or failure.\<close>

fun decodeParts :: "int \<Rightarrow> int list \<Rightarrow> (int, field) gomap \<Rightarrow> (string \<times> int) option" where
  "decodeParts pos [] fragments = Some ([], 0)"
| "decodeParts pos (p # ps) fragments =
     (if pos \<noteq> p then None
      else case map_of fragments p of
             None \<Rightarrow> None
           | Some f \<Rightarrow>
             (case (untrustedString f True, decodeParts (pos + 1) ps fragments) of
                (Some v, Some (text, n)) \<Rightarrow> Some (v @ text, int (length (fValue f)) + n)
              | _ \<Rightarrow> None))"

text \<open>\<open>(*execArgument).decode\<close>: None stands for a result whose second component is false.\<close>

definition decodeArgument :: "execArgument \<Rightarrow> string option" where
  "decodeArgument a =
     (case eaWhole a of
        Some f \<Rightarrow>
          if eaFragments a \<noteq> [] \<or> eaLength a \<noteq> None then None else untrustedString f True
      | None \<Rightarrow>
          (case eaLength a of
             None \<Rightarrow> None
           | Some n \<Rightarrow>
             if eaFragments a = [] then None
             else (case decodeParts 0 (sort (map fst (eaFragments a))) (eaFragments a) of
                     None \<Rightarrow> None
                   | Some (text, m) \<Rightarrow> if m = n then Some text else None)))"

text \<open>The loop over the sorted argument indexes; None when it leaves \<open>valid\<close> false.\<close>

fun decodeArguments :: "int \<Rightarrow> int list \<Rightarrow> (int, execArgument) gomap \<Rightarrow> string list option" where
  "decodeArguments pos [] args = Some []"
| "decodeArguments pos (i # is) args =
     (case map_of args i of
        None \<Rightarrow> None
      | Some a \<Rightarrow>
        (case (decodeArgument a, decodeArguments (pos + 1) is args) of
           (Some v, Some vs) \<Rightarrow> if pos = i \<and> utf8Valid v then Some (v # vs) else None
         | _ \<Rightarrow> None))"

text \<open>The first \<open>proctitle\<close> field of the first PROCTITLE record that has one.\<close>

definition proctitleFields :: "auditRecord list \<Rightarrow> (nat \<times> auditRecord \<times> field) list" where
  "proctitleFields records =
     concat (map (\<lambda>(ri, r). if rType r = ''PROCTITLE''
                            then map (\<lambda>f. (ri, r, f)) (filter (\<lambda>f. fKey f = ''proctitle'') (rAllFields r))
                            else []) (enumerate 0 records))"

definition splitTitle :: "string \<Rightarrow> string list" where
  "splitTitle value =
     (let parts = splitByte (CHR 0x00) value
      in if length parts > 1 \<and> last parts = [] then butlast parts else parts)"

definition buildArguments :: "auditRecord list \<Rightarrow> string list \<times> string \<times> canonicalIssue list" where
  "buildArguments records =
     (if list_ex (\<lambda>r. rType r = ''EXECVE'') records then
        (let (s, evidence) = scanArguments records;
             argv = decodeArguments 0 (sort (map fst (sgArgs s))) (sgArgs s);
             missing = plainIssue ''incomplete_argv'' ''EXECVE'' ''argc'' []
         in case argv of
              Some argv' \<Rightarrow>
                if sgValid s \<and> sgArgc s = int (length (sgArgs s)) then (argv', ''execve'', [])
                else ([], ''execve'', if evidence = [] then [missing] else evidence)
            | None \<Rightarrow> ([], ''execve'', if evidence = [] then [missing] else evidence))
      else case proctitleFields records of
             [] \<Rightarrow> ([], [], [])
           | (ri, r, f) # _ \<Rightarrow>
             (case untrustedString f True of
                None \<Rightarrow> ([], ''proctitle'', [sourceFieldIssue ''invalid_proctitle'' r ri f False])
              | Some value \<Rightarrow>
                if \<not> utf8Valid value
                then ([], ''proctitle'', [sourceFieldIssue ''invalid_proctitle'' r ri f False])
                else (splitTitle value, ''proctitle'', [])))"

section \<open>User commands\<close>

record commandScan =
  ucCommand :: string
  ucSeen :: bool
  ucValid :: bool
  ucEvidence :: "canonicalIssue list"

definition scanCommandField :: "nat \<Rightarrow> auditRecord \<Rightarrow> bool \<Rightarrow> field \<Rightarrow> commandScan \<Rightarrow> commandScan" where
  "scanCommandField i r isEmbedded f s =
     (if fKey f \<noteq> ''cmd'' then s
      else let value = untrustedString f True;
               text = (case value of None \<Rightarrow> [] | Some v \<Rightarrow> v)
           in \<lparr>ucCommand = text, ucSeen = True,
               ucValid = ucValid s \<and> \<not> (value = None \<or> \<not> utf8Valid text \<or> CHR 0x00 \<in> set text \<or>
                           ucSeen s \<and> text \<noteq> ucCommand s),
               ucEvidence = ucEvidence s @ [sourceFieldIssue ''invalid_user_command'' r i f isEmbedded]\<rparr>)"

definition buildUserCommand :: "auditRecord list \<Rightarrow> string \<times> string \<times> canonicalIssue list" where
  "buildUserCommand records =
     (let s = fold (\<lambda>(i, r) s.
                 if rType r = ''USER_CMD''
                 then fold (scanCommandField i r True) (rEmbeddedAllFields r)
                        (fold (scanCommandField i r False) (rAllFields r) s)
                 else s) (enumerate 0 records)
               \<lparr>ucCommand = [], ucSeen = False, ucValid = True, ucEvidence = []\<rparr>;
          source = (if list_ex (\<lambda>r. rType r = ''USER_CMD'') records then ''user_cmd'' else [])
      in if \<not> ucValid s then ([], source, ucEvidence s) else (ucCommand s, source, []))"

definition auditIDUnset :: "string \<Rightarrow> bool" where
  "auditIDUnset value \<longleftrightarrow> value = ''4294967295'' \<or> value = ''-1'' \<or> equalFold value ''unset''"

section \<open>Properties\<close>

subsection \<open>Keys the kernel writes\<close>

definition argKey :: "nat \<Rightarrow> string" where
  "argKey i = CHR ''a'' # natDigits i"

definition fragmentKey :: "nat \<Rightarrow> nat \<Rightarrow> string" where
  "fragmentKey i j = argKey i @ ''['' @ natDigits j @ '']''"

lemma natDigits_digits: "list_all isDigit (natDigits n)" "natDigits n \<noteq> []"
  using natDigits_isDecimal [of n] by (simp_all add: isDecimal_def)

lemma atoi_natDigits [go_string_simps]: "int n < 2 ^ 63 \<Longrightarrow> atoi (natDigits n) = Some (int n)"
proof -
  assume n: "int n < 2 ^ 63"
  obtain c cs where c: "natDigits n = c # cs" using natDigits_digits(2) [of n] by (cases "natDigits n") auto
  have "isDigit c" using natDigits_digits(1) [of n] by (simp add: c)
  then have "c \<noteq> CHR ''-''" "c \<noteq> CHR ''+''" by (auto simp: isDigit_def byte_def)
  moreover have "isDecimal (c # cs)" "decimalValue (c # cs) = int n"
    using natDigits_isDecimal [of n] decimalValue_natDigits [of n] by (simp_all add: c)
  ultimately show ?thesis using n by (simp add: parseInt10_def c Let_def)
qed

lemma takeWhile_digits: "takeWhile isDigit (natDigits n @ c # s) = (if isDigit c then natDigits n @ takeWhile isDigit (c # s) else natDigits n)"
  using natDigits_digits(1) [of n] by (simp add: takeWhile_append list_all_iff)

lemma dropWhile_digits: "\<not> isDigit c \<Longrightarrow> dropWhile isDigit (natDigits n @ c # s) = c # s"
  using natDigits_digits(1) [of n] by (simp add: dropWhile_append list_all_iff)

lemma parse_key_shape:
  assumes i: "int i < 2 ^ 63" and rest: "rest = [] \<or> \<not> isDigit (hd rest)"
  shows "parseExecArgKey (CHR ''a'' # natDigits i @ rest) =
     (if rest = [] then Some (int i, 0, ExecArgWhole)
      else if rest = ''_len'' then Some (int i, 0, ExecArgLength)
      else if hd rest \<noteq> CHR ''['' \<or> last rest \<noteq> CHR '']'' \<or> length rest < 2 then None
      else (case atoi (butlast (tl rest)) of
              None \<Rightarrow> None
            | Some partIndex \<Rightarrow> Some (int i, partIndex, ExecArgFragment)))"
proof -
  obtain c cs where c: "natDigits i = c # cs" using natDigits_digits(2) [of i] by (cases "natDigits i") auto
  have d: "list_all isDigit (c # cs)" using natDigits_digits(1) [of i] by (simp add: c)
  have t: "takeWhile isDigit (c # cs @ rest) = c # cs" "dropWhile isDigit (c # cs @ rest) = rest"
    using d rest takeWhile_append2 [of "c # cs" isDigit rest] dropWhile_append2 [of "c # cs" isDigit rest]
    by (cases rest; simp add: list_all_iff)+
  have a: "atoi (c # cs) = Some (int i)" using atoi_natDigits [OF i] by (simp add: c)
  have l: "rest \<noteq> [] \<Longrightarrow> last (CHR ''a'' # c # cs @ rest) = last rest" by simp
  show ?thesis
    unfolding c append_Cons using d t a l
    by (cases "rest = []") (simp_all only: parseExecArgKey_def list.case list.sel list_all_iff list.set ball_simps insert_iff Let_def
        option.case simp_thms if_True if_False)
qed

lemma parseExecArgKey_whole: "int i < 2 ^ 63 \<Longrightarrow> parseExecArgKey (argKey i) = Some (int i, 0, ExecArgWhole)"
  using parse_key_shape [of i "[]"] by (simp add: argKey_def)

lemma parseExecArgKey_length:
  "int i < 2 ^ 63 \<Longrightarrow> parseExecArgKey (argKey i @ ''_len'') = Some (int i, 0, ExecArgLength)"
  using parse_key_shape [of i "''_len''"] by (simp add: argKey_def isDigit_def byte_def)

lemma parseExecArgKey_fragment:
  "int i < 2 ^ 63 \<Longrightarrow> int j < 2 ^ 63 \<Longrightarrow>
     parseExecArgKey (fragmentKey i j) = Some (int i, int j, ExecArgFragment)"
  using parse_key_shape [of i "''['' @ natDigits j @ '']''"]
  by (simp add: fragmentKey_def argKey_def atoi_natDigits isDigit_def byte_def butlast_append)

end
