(* ===== verification/Results.thy ===== *)
theory Results
  imports Arguments
begin

text \<open>
  internal/audit/results.go and login.go: the success of an event, decided by its primary action
  before the system call's own result, and the attribution transition of LOGIN records.
\<close>

section \<open>Success\<close>

text \<open>\<open>decodeResult\<close>: None stands for a second component false.\<close>

definition decodeResult :: "string \<Rightarrow> string \<Rightarrow> bool option" where
  "decodeResult recordType raw =
     (if toLower raw \<in> {''yes'', ''success'', ''succeeded''} then Some True
      else if toLower raw \<in> {''no'', ''failed'', ''failure''} then Some False
      else if recordType \<in> {''LOGIN'', ''CONFIG_CHANGE'', ''FEATURE_CHANGE'', ''MAC_STATUS'',
                            ''MAC_POLICY_LOAD''}
      then (if raw = ''1'' then Some True else if raw = ''0'' then Some False else None)
      else None)"

record resultScan =
  rsFound :: bool
  rsKnown :: bool
  rsResult :: bool
  rsEvidence :: "canonicalIssue list"

definition resultField :: "field \<Rightarrow> bool" where
  "resultField f \<longleftrightarrow> fKey f = ''success'' \<or> fKey f = ''res''"

definition scanResultField :: "string \<Rightarrow> nat \<Rightarrow> auditRecord \<Rightarrow> field \<times> bool \<Rightarrow> resultScan \<Rightarrow> resultScan" where
  "scanResultField kind ri r = (\<lambda>(f, isEmbedded) s.
     if \<not> resultField f then s
     else let value = decodeResult kind (fValue f);
              result = (value = Some True)
          in \<lparr>rsFound = True,
              rsKnown = rsKnown s \<and> \<not> (value = None \<or> rsFound s \<and> rsResult s \<noteq> result),
              rsResult = result,
              rsEvidence = rsEvidence s @ [sourceFieldIssue ''unknown_result'' r ri f isEmbedded]\<rparr>)"

definition sectionFields :: "auditRecord \<Rightarrow> (field \<times> bool) list" where
  "sectionFields r = map (\<lambda>f. (f, False)) (rAllFields r) @ map (\<lambda>f. (f, True)) (rEmbeddedAllFields r)"

definition scanResults :: "string \<Rightarrow> auditRecord list \<Rightarrow> resultScan" where
  "scanResults kind records =
     fold (\<lambda>(ri, r) s. if rType r = kind then fold (scanResultField kind ri r) (sectionFields r) s else s)
       (enumerate 0 records) \<lparr>rsFound = False, rsKnown = True, rsResult = False, rsEvidence = []\<rparr>"

text \<open>The loop over the record types, in order of precedence.\<close>

fun firstResult :: "string list \<Rightarrow> auditRecord list \<Rightarrow> bool \<times> bool \<times> canonicalIssue list" where
  "firstResult [] records = (False, False, [])"
| "firstResult (kind # kinds) records =
     (let s = scanResults kind records
      in if rsFound s then
           (if rsKnown s then (rsResult s, True, [])
            else (False, False,
                  if length (rsEvidence s) > 1
                  then map (\<lambda>i. i\<lparr>ciCode := ''conflicting_result''\<rparr>) (rsEvidence s)
                  else rsEvidence s))
         else firstResult kinds records)"

definition resultTypes :: "auditRecord list \<Rightarrow> string \<Rightarrow> string list" where
  "resultTypes records primary =
     (let others = sort (remdups (filter (\<lambda>t. t \<noteq> primary \<and> t \<noteq> ''SYSCALL'') (map rType records)))
      in if primary = ''LOGIN'' then [primary]
         else primary # (if primary \<noteq> ''SYSCALL'' then [''SYSCALL''] else []) @ others)"

definition canonicalSuccess :: "auditRecord list \<Rightarrow> string \<Rightarrow> bool \<times> bool \<times> canonicalIssue list" where
  "canonicalSuccess records primary = firstResult (resultTypes records primary) records"

subsection \<open>What decides the result\<close>

definition statedResults :: "string \<Rightarrow> auditRecord list \<Rightarrow> bool option list" where
  "statedResults kind records =
     map (\<lambda>f. decodeResult kind (fValue f))
       (filter resultField
         (concat (map (\<lambda>r. rAllFields r @ rEmbeddedAllFields r) (filter (\<lambda>r. rType r = kind) records))))"

definition unanimous :: "bool option list \<Rightarrow> bool \<Rightarrow> bool" where
  "unanimous vs b \<longleftrightarrow> vs \<noteq> [] \<and> (\<forall>v \<in> set vs. v = Some b)"

definition scanStep :: "bool option \<Rightarrow> bool \<times> bool \<times> bool \<Rightarrow> bool \<times> bool \<times> bool" where
  "scanStep v = (\<lambda>(found, known, result).
     (True, known \<and> \<not> (v = None \<or> found \<and> result \<noteq> (v = Some True)), v = Some True))"

lemma scanStep_pair [simp]:
  "scanStep v (found, known, result) =
     (True, known \<and> \<not> (v = None \<or> found \<and> result \<noteq> (v = Some True)), v = Some True)"
  by (simp add: scanStep_def)

definition scanView :: "resultScan \<Rightarrow> bool \<times> bool \<times> bool" where
  "scanView s = (rsFound s, rsKnown s, rsResult s)"

lemma scanView_section:
  "scanView (fold (scanResultField kind ri r) fs s) =
     fold scanStep (map (\<lambda>f. decodeResult kind (fValue f)) (filter resultField (map fst fs))) (scanView s)"
proof (induction fs arbitrary: s)
  case Nil
  then show ?case by simp
next
  case (Cons f fs)
  have "scanView (scanResultField kind ri r f s) =
      (if resultField (fst f) then scanStep (decodeResult kind (fValue (fst f))) (scanView s) else scanView s)"
    by (cases f) (simp add: scanResultField_def scanView_def Let_def)
  with Cons show ?case by simp
qed

lemma map_fst_sectionFields: "map fst (sectionFields r) = rAllFields r @ rEmbeddedAllFields r"
  by (simp add: sectionFields_def comp_def)

lemma scanView_results:
  "scanView (scanResults kind records) = fold scanStep (statedResults kind records) (False, True, False)"
proof -
  have "scanView (fold (\<lambda>(ri, r) s. if rType r = kind then fold (scanResultField kind ri r) (sectionFields r) s else s)
       (enumerate n records) s) = fold scanStep (statedResults kind records) (scanView s)" for n s
    by (induction records arbitrary: n s)
       (auto simp: statedResults_def scanView_section map_fst_sectionFields)
  then show ?thesis by (simp add: scanResults_def scanView_def)
qed

lemma fold_scanStep_found:
  "fold scanStep vs (True, known, result) =
     (True, known \<and> (\<forall>v \<in> set vs. v = Some result), if vs = [] then result else last vs = Some True)"
proof (induction vs arbitrary: known result)
  case Nil
  then show ?case by simp
next
  case (Cons v vs)
  show ?case by (cases v) (auto simp: Cons.IH)
qed

lemma fold_scanStep_start:
  "fold scanStep vs (False, True, False) = (f, k, b) \<Longrightarrow>
     (f \<longleftrightarrow> vs \<noteq> []) \<and> (vs \<noteq> [] \<longrightarrow> (k \<longleftrightarrow> (\<exists>c. unanimous vs c))) \<and> (\<forall>c. unanimous vs c \<longrightarrow> b = c)"
proof (cases vs)
  case Nil
  assume "fold scanStep vs (False, True, False) = (f, k, b)"
  with Nil show ?thesis by (simp add: unanimous_def)
next
  case (Cons v ws)
  assume "fold scanStep vs (False, True, False) = (f, k, b)"
  then have e: "f" "k \<longleftrightarrow> v \<noteq> None \<and> (\<forall>w \<in> set ws. w = Some (v = Some True))"
    "b \<longleftrightarrow> (if ws = [] then v = Some True else last ws = Some True)"
    by (auto simp: Cons fold_scanStep_found)
  have u: "unanimous vs c \<longleftrightarrow> v = Some c \<and> (\<forall>w \<in> set ws. w = Some c)" for c
    by (simp add: unanimous_def Cons)
  have "\<forall>c. unanimous vs c \<longrightarrow> b = c"
  proof (intro allI impI)
    fix c assume c: "unanimous vs c"
    show "b = c"
    proof (cases "ws = []")
      case False
      then have "last ws = Some c" using c last_in_set [OF False] by (simp add: u)
      with False e(3) show ?thesis by simp
    qed (use c e(3) in \<open>simp add: u\<close>)
  qed
  moreover have "k \<longleftrightarrow> (\<exists>c. unanimous vs c)" unfolding e(2) u by (cases v) auto
  ultimately show ?thesis using e(1) Cons by simp
qed

lemma scanResults_view:
  "rsFound (scanResults kind records) \<longleftrightarrow> statedResults kind records \<noteq> []"
  "rsFound (scanResults kind records) \<Longrightarrow> rsKnown (scanResults kind records) \<Longrightarrow>
     unanimous (statedResults kind records) (rsResult (scanResults kind records))"
  "unanimous (statedResults kind records) b \<Longrightarrow>
     rsKnown (scanResults kind records) \<and> rsResult (scanResults kind records) = b"
proof -
  have "fold scanStep (statedResults kind records) (False, True, False) =
      (rsFound (scanResults kind records), rsKnown (scanResults kind records), rsResult (scanResults kind records))"
    using scanView_results [of kind records] by (simp add: scanView_def)
  note v = fold_scanStep_start [OF this]
  then show "rsFound (scanResults kind records) \<longleftrightarrow> statedResults kind records \<noteq> []" by blast
  show "unanimous (statedResults kind records) (rsResult (scanResults kind records))"
    if known: "rsFound (scanResults kind records)" "rsKnown (scanResults kind records)"
  proof -
    obtain c where "unanimous (statedResults kind records) c" using v known by blast
    with v show ?thesis by blast
  qed
  show "rsKnown (scanResults kind records) \<and> rsResult (scanResults kind records) = b"
    if "unanimous (statedResults kind records) b"
  proof -
    have "statedResults kind records \<noteq> []" using that by (simp add: unanimous_def)
    with v that show ?thesis by blast
  qed
qed

text \<open>The first type that states a result at all decides; it must be unanimous.\<close>

fun decided :: "string list \<Rightarrow> auditRecord list \<Rightarrow> bool option" where
  "decided [] records = None"
| "decided (kind # kinds) records =
     (let vs = statedResults kind records
      in if vs = [] then decided kinds records
         else if unanimous vs True then Some True
         else if unanimous vs False then Some False
         else None)"

lemma firstResult_decided:
  "(case firstResult kinds records of (b, known, issues) \<Rightarrow> if known then Some b else None) = decided kinds records"
proof (induction kinds)
  case Nil
  then show ?case by simp
next
  case (Cons kind kinds)
  let ?s = "scanResults kind records"
  show ?case
  proof (cases "rsFound ?s")
    case False
    with Cons scanResults_view(1) [of kind records] show ?thesis by simp
  next
    case True
    note v = scanResults_view [of kind records]
    have u: "unanimous (statedResults kind records) True \<Longrightarrow> \<not> unanimous (statedResults kind records) False"
      by (cases "statedResults kind records") (auto simp: unanimous_def)
    show ?thesis
    proof (cases "rsKnown ?s")
      case known: True
      with True v(1) v(2) u show ?thesis by (cases "rsResult ?s") (auto simp: Let_def)
    next
      case False
      with True v(1) v(3) show ?thesis by (auto simp: Let_def)
    qed
  qed
qed

lemma statedResults_mset:
  assumes "mset rs = mset rs'"
  shows "set (statedResults kind rs) = set (statedResults kind rs')"
  using mset_eq_setD [OF assms] by (auto simp: statedResults_def)

lemma unanimous_set: "set vs = set ws \<Longrightarrow> unanimous vs b = unanimous ws b"
  by (auto simp: unanimous_def)

lemma decided_mset: "mset rs = mset rs' \<Longrightarrow> decided kinds rs = decided kinds rs'"
proof (induction kinds)
  case Nil
  then show ?case by simp
next
  case (Cons kind kinds)
  note s = statedResults_mset [OF Cons.prems, of kind]
  have "statedResults kind rs = [] \<longleftrightarrow> statedResults kind rs' = []"
    using s by (metis set_empty)
  with Cons s unanimous_set [OF s] show ?case by (simp add: Let_def)
qed

lemma resultTypes_mset:
  assumes "mset rs = mset rs'"
  shows "resultTypes rs primary = resultTypes rs' primary"
proof -
  have "set (map rType rs) = set (map rType rs')" using mset_eq_setD [OF assms] by auto
  then have "set (filter (\<lambda>t. t \<noteq> primary \<and> t \<noteq> ''SYSCALL'') (map rType rs)) =
      set (filter (\<lambda>t. t \<noteq> primary \<and> t \<noteq> ''SYSCALL'') (map rType rs'))"
    by simp
  then have "sort (remdups (filter (\<lambda>t. t \<noteq> primary \<and> t \<noteq> ''SYSCALL'') (map rType rs))) =
      sort (remdups (filter (\<lambda>t. t \<noteq> primary \<and> t \<noteq> ''SYSCALL'') (map rType rs')))"
    by (simp only: sorted_list_of_set_sort_remdups [symmetric])
  then show ?thesis unfolding resultTypes_def Let_def by (simp only:)
qed

section \<open>Attribution\<close>

record canonicalAuditAttributionIdentity =
  aiLoginUID :: string
  aiUser :: string
  aiLoginUIDUnset :: bool
  aiSessionID :: string
  aiSessionUnset :: bool

record auditAttribution =
  aaOld :: "canonicalAuditAttributionIdentity option"
  aaNew :: "canonicalAuditAttributionIdentity option"

definition attributionKeys :: "string list" where
  "attributionKeys =
     [''old-auid'', ''OLD-AUID'', ''auid'', ''AUID'', ''old-ses'', ''OLD-SES'', ''ses'', ''SES'']"

record attributionScan =
  atValues :: "(string, string) gomap"
  atValid :: bool
  atEvidence :: "canonicalIssue list"

definition scanAttributionField ::
    "nat \<Rightarrow> auditRecord \<Rightarrow> field \<times> bool \<Rightarrow> attributionScan \<Rightarrow> attributionScan" where
  "scanAttributionField i r = (\<lambda>(f, isEmbedded) s.
     if fKey f \<notin> set attributionKeys then s
     else \<lparr>atValues = AList.update (fKey f) (fValue f) (atValues s),
           atValid = atValid s \<and>
             (case map_of (atValues s) (fKey f) of None \<Rightarrow> True | Some old \<Rightarrow> old = fValue f) \<and>
             \<not> (fValue f = [] \<or> \<not> utf8Valid (fValue f) \<or> CHR 0x00 \<in> set (fValue f)),
           atEvidence = atEvidence s @ [sourceFieldIssue ''invalid_audit_attribution'' r i f isEmbedded]\<rparr>)"

definition scanAttribution :: "auditRecord list \<Rightarrow> attributionScan" where
  "scanAttribution records =
     fold (\<lambda>(i, r) s. if rType r = ''LOGIN'' then fold (scanAttributionField i r) (sectionFields r) s else s)
       (enumerate 0 records) \<lparr>atValues = [], atValid = True, atEvidence = []\<rparr>"

definition noIdentity :: canonicalAuditAttributionIdentity where
  "noIdentity = \<lparr>aiLoginUID = [], aiUser = [], aiLoginUIDUnset = False, aiSessionID = [], aiSessionUnset = False\<rparr>"

definition validAuditID :: "string \<Rightarrow> bool" where
  "validAuditID value \<longleftrightarrow>
     value = [] \<or> auditIDUnset value \<or> isDecimal value \<and> parseUint10 32 value \<noteq> None"

text \<open>\<open>attributionIdentity\<close>: None is a second component false, \<open>Some None\<close> the nil identity.\<close>

definition attributionIdentity :: "string \<Rightarrow> string \<Rightarrow> string \<Rightarrow> string \<Rightarrow> canonicalAuditAttributionIdentity option option" where
  "attributionIdentity loginuid user session sessionName =
     (let loginUnset = (auditIDUnset loginuid \<or> equalFold user ''unset'');
          sessionUnset = (auditIDUnset session \<or> equalFold sessionName ''unset'');
          identity = noIdentity\<lparr>aiLoginUID := loginuid, aiSessionID := session,
                       aiLoginUIDUnset := loginUnset, aiSessionUnset := sessionUnset\<rparr>
      in if \<not> validAuditID loginuid \<or> \<not> validAuditID session \<or>
            loginUnset \<and> loginuid \<noteq> [] \<and> \<not> auditIDUnset loginuid \<or>
            sessionUnset \<and> session \<noteq> [] \<and> \<not> auditIDUnset session \<or>
            sessionName \<noteq> [] \<and> \<not> equalFold sessionName ''unset'' \<and> sessionName \<noteq> session
         then None
         else if user \<noteq> [] \<and> \<not> equalFold user ''unset'' \<and>
                 (loginUnset \<or> isDecimal user \<and> user \<noteq> loginuid)
         then None
         else let identity' = (if user \<noteq> [] \<and> \<not> equalFold user ''unset'' \<and> \<not> isDecimal user
                               then identity\<lparr>aiUser := user\<rparr> else identity)
              in if identity' = noIdentity then Some None else Some (Some identity'))"

definition buildAuditAttribution ::
    "auditRecord list \<Rightarrow> auditAttribution option \<times> canonicalIssue list" where
  "buildAuditAttribution records =
     (let s = scanAttribution records;
          v = gmString (atValues s);
          old = attributionIdentity (v ''old-auid'') (v ''OLD-AUID'') (v ''old-ses'') (v ''OLD-SES'');
          new = attributionIdentity (v ''auid'') (v ''AUID'') (v ''ses'') (v ''SES'')
      in case (old, new) of
           (Some oldId, Some newId) \<Rightarrow>
             if \<not> atValid s then (None, atEvidence s)
             else if oldId = None \<and> newId = None then (None, [])
             else (Some \<lparr>aaOld = oldId, aaNew = newId\<rparr>, [])
         | _ \<Rightarrow> (None, atEvidence s))"

subsection \<open>Reported identities\<close>

definition identityOk :: "canonicalAuditAttributionIdentity \<Rightarrow> bool" where
  "identityOk i \<longleftrightarrow>
     validAuditID (aiLoginUID i) \<and> validAuditID (aiSessionID i) \<and>
     (aiLoginUIDUnset i \<longrightarrow> (aiLoginUID i = [] \<or> auditIDUnset (aiLoginUID i)) \<and> aiUser i = []) \<and>
     (aiSessionUnset i \<longrightarrow> aiSessionID i = [] \<or> auditIDUnset (aiSessionID i)) \<and>
     (auditIDUnset (aiLoginUID i) \<longrightarrow> aiLoginUIDUnset i) \<and> \<not> isDecimal (aiUser i) \<and> i \<noteq> noIdentity"

lemma isDecimal_Nil [simp]: "\<not> isDecimal []"
  by (simp add: isDecimal_def)

lemma attributionIdentity_ok:
  assumes "attributionIdentity loginuid user session sessionName = Some (Some i)"
  shows "identityOk i"
proof -
  define loginUnset where "loginUnset \<longleftrightarrow> auditIDUnset loginuid \<or> equalFold user ''unset''"
  define sessionUnset where "sessionUnset \<longleftrightarrow> auditIDUnset session \<or> equalFold sessionName ''unset''"
  define named where "named \<longleftrightarrow> user \<noteq> [] \<and> \<not> equalFold user ''unset''"
  have a: "validAuditID loginuid" "validAuditID session"
    "loginUnset \<Longrightarrow> loginuid \<noteq> [] \<Longrightarrow> auditIDUnset loginuid"
    "sessionUnset \<Longrightarrow> session \<noteq> [] \<Longrightarrow> auditIDUnset session"
    "named \<Longrightarrow> \<not> loginUnset"
    and i: "i = noIdentity\<lparr>aiLoginUID := loginuid, aiSessionID := session, aiLoginUIDUnset := loginUnset,
         aiSessionUnset := sessionUnset, aiUser := (if named \<and> \<not> isDecimal user then user else [])\<rparr>"
    and ne: "i \<noteq> noIdentity"
    using assms
    unfolding attributionIdentity_def loginUnset_def [symmetric] sessionUnset_def [symmetric] named_def Let_def
    by (simp_all add: noIdentity_def split: if_split_asm) blast+
  show ?thesis
    using a ne unfolding identityOk_def i by (auto simp: noIdentity_def loginUnset_def)
qed

lemma buildAuditAttribution_ok:
  assumes "buildAuditAttribution records = (Some a, issues)"
  shows "issues = []" and "aaOld a \<noteq> None \<or> aaNew a \<noteq> None"
    and "\<forall>i. aaOld a = Some i \<or> aaNew a = Some i \<longrightarrow> identityOk i"
  using assms attributionIdentity_ok
  by (auto simp: buildAuditAttribution_def Let_def split: option.splits if_splits)

end
