(* ===== verification/SecurityEvidence.thy ===== *)
theory SecurityEvidence
  imports Results FamilyTables "HOL-Library.Product_Lexorder"
begin

text \<open>
  internal/audit/seccomp.go and security_evidence.go with the record selection helpers of
  canonical.go: the security decision of an event is taken from one record, chosen by rank, type
  and encoded value, never combined from several, and what is not selected is listed as evidence.
\<close>

section \<open>Standard library\<close>

text \<open>
  \<open>strings.ToLower\<close> where its result is emitted: the lower case of a rune beyond ASCII is the
  Unicode table \<open>lo\<close> of the Go release, on encoded runes.
\<close>

function toLowerWith :: "(string \<Rightarrow> string) \<Rightarrow> string \<Rightarrow> string" where
  "toLowerWith lo s =
     (if s = [] then []
      else case decodeRune s of
             None \<Rightarrow> [CHR 0xEF, CHR 0xBF, CHR 0xBD] @ toLowerWith lo (tl s)
           | Some (r, w) \<Rightarrow>
             (if r < 128 then [lowerByte (hd s)] else lo (take w s)) @ toLowerWith lo (drop w s))"
  by pat_completeness auto
termination
  by (relation "measure (\<lambda>(lo, s). length s)") (auto dest: decodeRune_width)

declare toLowerWith.simps [simp del]

text \<open>\<open>strings.Fields\<close>: the maximal runs without white space.\<close>

function spanWord :: "string \<Rightarrow> string \<times> string" where
  "spanWord s =
     (if s = [] \<or> 0 < spaceLen s then ([], s)
      else (case spanWord (tl s) of (w, rest) \<Rightarrow> (hd s # w, rest)))"
  by pat_completeness auto
termination
  by (relation "measure length") auto

declare spanWord.simps [simp del]

lemma spanWord_length: "length (snd (spanWord s)) \<le> length s"
proof (induction s)
  case Nil
  then show ?case by (subst spanWord.simps) simp
next
  case (Cons c s)
  then show ?case by (subst spanWord.simps) (auto split: prod.splits)
qed

function goFields :: "string \<Rightarrow> string list" where
  "goFields s =
     (if s = [] then []
      else if 0 < spaceLen s then goFields (drop (spaceLen s) s)
      else (hd s # fst (spanWord (tl s))) # goFields (snd (spanWord (tl s))))"
  by pat_completeness auto
termination
proof (relation "measure length")
  fix s :: string
  assume "s \<noteq> []"
  then show "(snd (spanWord (tl s)), s) \<in> measure length" using spanWord_length [of "tl s"] by (cases s) auto
qed auto

declare goFields.simps [simp del]

text \<open>\<open>strings.Trim\<close> with an ASCII cutset.\<close>

definition trimSet :: "char list \<Rightarrow> string \<Rightarrow> string" where
  "trimSet cutset s = rev (dropWhile (\<lambda>c. c \<in> set cutset) (rev (dropWhile (\<lambda>c. c \<in> set cutset) s)))"

text \<open>
  \<open>strconv.ParseUint(s, 0, bits)\<close>: the base comes from the prefix, and single underscores may
  separate digits.
\<close>

definition lowerIs :: "char \<Rightarrow> char \<Rightarrow> bool" where
  "lowerIs c l \<longleftrightarrow> lowerByte c = l"

definition basePrefix :: "string \<Rightarrow> int \<times> string" where
  "basePrefix s =
     (case s of
        z # c # d # ds \<Rightarrow>
          if z \<noteq> CHR ''0'' then (10, s)
          else if lowerIs c (CHR ''b'') then (2, d # ds)
          else if lowerIs c (CHR ''o'') then (8, d # ds)
          else if lowerIs c (CHR ''x'') then (16, d # ds)
          else (8, c # d # ds)
      | z # cs \<Rightarrow> if z = CHR ''0'' then (8, cs) else (10, s)
      | [] \<Rightarrow> (10, []))"

definition digitValue :: "char \<Rightarrow> int option" where
  "digitValue c =
     (let b = byte c; l = byte (lowerByte c) in
      if 48 \<le> b \<and> b \<le> 57 then Some (int b - 48)
      else if 97 \<le> l \<and> l \<le> 122 then Some (int l - 87)
      else None)"

fun accumulateDigits :: "int \<Rightarrow> int \<Rightarrow> string \<Rightarrow> int option" where
  "accumulateDigits base n [] = Some n"
| "accumulateDigits base n (c # cs) =
     (if c = CHR ''_'' then accumulateDigits base n cs
      else case digitValue c of
             None \<Rightarrow> None
           | Some d \<Rightarrow> if d \<ge> base then None else accumulateDigits base (n * base + d) cs)"

datatype digitClass = ClassStart | ClassDigit | ClassUnderscore | ClassOther

fun underscoreScan :: "bool \<Rightarrow> digitClass \<Rightarrow> string \<Rightarrow> bool" where
  "underscoreScan hex i [] = (i \<noteq> ClassUnderscore)"
| "underscoreScan hex i (c # cs) =
     (if isDigit c \<or> hex \<and> 97 \<le> byte (lowerByte c) \<and> byte (lowerByte c) \<le> 102
      then underscoreScan hex ClassDigit cs
      else if c = CHR ''_'' then i = ClassDigit \<and> underscoreScan hex ClassUnderscore cs
      else i \<noteq> ClassUnderscore \<and> underscoreScan hex ClassOther cs)"

definition underscoreOK :: "string \<Rightarrow> bool" where
  "underscoreOK s0 =
     (let s = (case s0 of c # cs \<Rightarrow> if c = CHR ''-'' \<or> c = CHR ''+'' then cs else s0 | [] \<Rightarrow> [])
      in case s of
           z # c # cs \<Rightarrow>
             if z = CHR ''0'' \<and> (lowerIs c (CHR ''b'') \<or> lowerIs c (CHR ''o'') \<or> lowerIs c (CHR ''x''))
             then underscoreScan (lowerIs c (CHR ''x'')) ClassDigit cs
             else underscoreScan False ClassStart s
         | _ \<Rightarrow> underscoreScan False ClassStart s)"

definition parseUint0 :: "nat \<Rightarrow> string \<Rightarrow> int option" where
  "parseUint0 bits s =
     (if s = [] then None
      else case basePrefix s of (base, digits) \<Rightarrow>
        (case accumulateDigits base 0 digits of
           None \<Rightarrow> None
         | Some n \<Rightarrow>
           if n \<ge> 2 ^ bits \<or> CHR ''_'' \<in> set digits \<and> \<not> underscoreOK s then None else Some n))"

definition hex8 :: "int \<Rightarrow> string" where
  "hex8 n = map (\<lambda>i. hexDigit (nat n div 16 ^ i mod 16)) [7, 6, 5, 4, 3, 2, 1, 0]"

text \<open>\<open>json.Marshal\<close> of a string (with HTML escaping) and of a struct.\<close>

definition jsonEscape :: "char \<Rightarrow> string" where
  "jsonEscape c =
     (let b = byte c in
      if b = 34 \<or> b = 92 then [CHR 0x5C, c]
      else if b = 8 then [CHR 0x5C, CHR ''b'']
      else if b = 12 then [CHR 0x5C, CHR ''f'']
      else if b = 10 then [CHR 0x5C, CHR ''n'']
      else if b = 13 then [CHR 0x5C, CHR ''r'']
      else if b = 9 then [CHR 0x5C, CHR ''t'']
      else if b < 32 \<or> b = 60 \<or> b = 62 \<or> b = 38
      then [CHR 0x5C, CHR ''u'', CHR ''0'', CHR ''0'', hexDigit (b div 16), hexDigit (b mod 16)]
      else [c])"

function jsonBody :: "string \<Rightarrow> string" where
  "jsonBody s =
     (if s = [] then []
      else case decodeRune s of
             None \<Rightarrow> [CHR 0x5C, CHR ''u'', CHR ''f'', CHR ''f'', CHR ''f'', CHR ''d''] @ jsonBody (tl s)
           | Some (r, w) \<Rightarrow>
             (if r < 128 then jsonEscape (hd s)
              else if r = 8232 \<or> r = 8233
              then [CHR 0x5C, CHR ''u'', CHR ''2'', CHR ''0'', CHR ''2'', hexDigit (r mod 16)]
              else take w s) @ jsonBody (drop w s))"
  by pat_completeness auto
termination
  by (relation "measure length") (auto dest: decodeRune_width)

declare jsonBody.simps [simp del]

definition jsonString :: "string \<Rightarrow> string" where
  "jsonString s = CHR 0x22 # jsonBody s @ [CHR 0x22]"

fun jsonJoin :: "string list \<Rightarrow> string" where
  "jsonJoin [] = []"
| "jsonJoin [x] = x"
| "jsonJoin (x # xs) = x @ CHR '','' # jsonJoin xs"

definition jsonMember :: "string \<Rightarrow> string \<Rightarrow> string" where
  "jsonMember name v = jsonString name @ CHR '':'' # v"

text \<open>A string member with \<open>omitempty\<close>.\<close>

definition optionalMember :: "string \<Rightarrow> string \<Rightarrow> string list" where
  "optionalMember name v = (if v = [] then [] else [jsonMember name (jsonString v)])"

definition jsonObject :: "string list \<Rightarrow> string" where
  "jsonObject members = CHR ''{'' # jsonJoin members @ ''}''"

definition jsonBool :: "bool \<Rightarrow> string" where
  "jsonBool b = (if b then ''true'' else ''false'')"

section \<open>Selecting values\<close>

fun firstRecordValue :: "auditRecord list \<Rightarrow> string \<Rightarrow> string" where
  "firstRecordValue [] key = []"
| "firstRecordValue (r # rs) key = (if recordValue r key \<noteq> [] then recordValue r key else firstRecordValue rs key)"

fun firstSemanticRecordValue :: "auditRecord list \<Rightarrow> string \<Rightarrow> string" where
  "firstSemanticRecordValue [] key = []"
| "firstSemanticRecordValue (r # rs) key =
     (if semanticRecordValue r key \<noteq> [] then semanticRecordValue r key
      else firstSemanticRecordValue rs key)"

fun firstSemanticRecordValueExcludingType :: "auditRecord list \<Rightarrow> string \<Rightarrow> string \<Rightarrow> string" where
  "firstSemanticRecordValueExcludingType [] key excluded = []"
| "firstSemanticRecordValueExcludingType (r # rs) key excluded =
     (if rType r = excluded then firstSemanticRecordValueExcludingType rs key excluded
      else if semanticRecordValue r key \<noteq> [] then semanticRecordValue r key
      else firstSemanticRecordValueExcludingType rs key excluded)"

fun firstNonemptySemanticRecordValue :: "auditRecord list \<Rightarrow> string list \<Rightarrow> string" where
  "firstNonemptySemanticRecordValue records [] = []"
| "firstNonemptySemanticRecordValue records (key # keys) =
     (if firstSemanticRecordValue records key \<noteq> [] then firstSemanticRecordValue records key
      else firstNonemptySemanticRecordValue records keys)"

definition meaningfulAuditValue :: "string \<Rightarrow> string" where
  "meaningfulAuditValue value =
     (if toLower (trimSpace value) \<in> {[], ''?'', ''unset'', ''(none)'', ''unknown''} then [] else value)"

section \<open>Seccomp\<close>

record canonicalSeccomp =
  scAction :: string
  scCode :: string
  scSignal :: string
  scInstructionPointer :: string

definition seccompJSON :: "canonicalSeccomp \<Rightarrow> string" where
  "seccompJSON v =
     jsonObject (jsonMember ''action'' (jsonString (scAction v)) # optionalMember ''code'' (scCode v) @
       optionalMember ''signal'' (scSignal v) @ optionalMember ''instruction_pointer'' (scInstructionPointer v))"

text \<open>The action of one SECCOMP record: None when the code is unreadable, unknown or contradicted.\<close>

definition seccompActionOf :: "auditRecord \<Rightarrow> string \<Rightarrow> seccompAction option" where
  "seccompActionOf r code =
     (case parseUint0 32 code of
        None \<Rightarrow> None
      | Some n \<Rightarrow>
        if list_all (\<lambda>other. other = code) (case rValues r of None \<Rightarrow> [] | Some vs \<Rightarrow> gmList vs ''code'')
        then map_of seccompActions (hex8 (n div 65536 * 65536)) else None)"

definition seccompCandidate :: "nat \<Rightarrow> auditRecord \<Rightarrow> canonicalSeccomp \<times> canonicalIssue list" where
  "seccompCandidate ri r =
     (let value = \<lparr>scAction = ''unknown'', scCode = recordValue r ''code'', scSignal = recordValue r ''sig'',
                   scInstructionPointer = recordValue r ''ip''\<rparr>;
          codes = filter (\<lambda>f. fKey f = ''code'') (rAllFields r)
      in case seccompActionOf r (scCode value) of
           Some action \<Rightarrow> (value\<lparr>scAction := saAction action\<rparr>, [])
         | None \<Rightarrow>
           (value,
            if codes = [] then [(plainIssue ''missing_seccomp_code'' (rType r) ''code'' [])\<lparr>ciRecordIndex := Some ri\<rparr>]
            else map (\<lambda>f. sourceFieldIssue ''unknown_seccomp_action'' r ri f False) codes))"

definition seccompEvidenceKeys :: "string list" where
  "seccompEvidenceKeys = [''code'', ''sig'', ''ip'', ''syscall'', ''arch'', ''compat'']"

definition buildCanonicalSeccomp :: "auditRecord list \<Rightarrow> canonicalSeccomp option \<times> canonicalIssue list" where
  "buildCanonicalSeccomp records =
     (let indexed = filter (\<lambda>(ri, r). rType r = ''SECCOMP'') (enumerate 0 records);
          issues = concat (map (\<lambda>(ri, r). snd (seccompCandidate ri r)) indexed);
          candidates = map (\<lambda>(ri, r). (ri, r, fst (seccompCandidate ri r))) indexed
      in case sort_key (\<lambda>(ri, r, v). seccompJSON v) candidates of
           [] \<Rightarrow> (None, issues)
         | (ri0, r0, v0) # extras \<Rightarrow>
           (Some v0,
            issues @ concat (map (\<lambda>(ri, r, v).
              if seccompJSON v = seccompJSON v0 then []
              else map (\<lambda>f. sourceFieldIssue ''additional_seccomp_evidence'' r ri f False)
                     (filter (\<lambda>f. fKey f \<in> set seccompEvidenceKeys) (rAllFields r))) extras)))"

section \<open>Security decisions\<close>

record canonicalSecurity =
  csSeccomp :: "canonicalSeccomp option"
  csDecision :: string
  csPermissions :: "string list"
  csSubjectContext :: string
  csTargetContext :: string
  csTargetClass :: string
  csProfile :: string
  csPermissive :: "bool option"

definition noSecurity :: canonicalSecurity where
  "noSecurity = \<lparr>csSeccomp = None, csDecision = [], csPermissions = [], csSubjectContext = [],
     csTargetContext = [], csTargetClass = [], csProfile = [], csPermissive = None\<rparr>"

definition securityJSON :: "canonicalSecurity \<Rightarrow> string" where
  "securityJSON v =
     jsonObject
       ((case csSeccomp v of None \<Rightarrow> [] | Some s \<Rightarrow> [jsonMember ''seccomp'' (seccompJSON s)]) @
        optionalMember ''decision'' (csDecision v) @
        (if csPermissions v = [] then []
         else [jsonMember ''permissions'' (CHR ''['' # jsonJoin (map jsonString (csPermissions v)) @ '']'')]) @
        optionalMember ''subject_context'' (csSubjectContext v) @
        optionalMember ''target_context'' (csTargetContext v) @
        optionalMember ''target_class'' (csTargetClass v) @ optionalMember ''profile'' (csProfile v) @
        (case csPermissive v of None \<Rightarrow> [] | Some b \<Rightarrow> [jsonMember ''permissive'' (jsonBool b)]))"

definition permissiveValue :: "string \<Rightarrow> bool option" where
  "permissiveValue s =
     (if s = [] then None
      else if s = ''1'' \<or> equalFold s ''yes'' \<or> equalFold s ''true'' then Some True
      else if s = ''0'' \<or> equalFold s ''no'' \<or> equalFold s ''false'' then Some False
      else None)"

definition buildCanonicalSecurityRecord :: "(string \<Rightarrow> string) \<Rightarrow> auditRecord \<Rightarrow> canonicalSecurity option" where
  "buildCanonicalSecurityRecord lo r =
     (case securityEventFamilyForType (rType r) of
        None \<Rightarrow> None
      | Some f \<Rightarrow>
        if sfCategory f \<notin> {''access_control'', ''security'', ''integrity''} then None
        else let permissions = meaningfulAuditValue (firstNonemptySemanticRecordValue [r] [''permissions'', ''requested_mask'']);
                 security =
                   \<lparr>csSeccomp = None,
                    csDecision = toLowerWith lo (meaningfulAuditValue
                       (firstNonemptySemanticRecordValue [r] [''decision'', ''apparmor''])),
                    csPermissions = (if permissions = [] then []
                                     else goFields (trimSet [CHR 0x22, CHR ''{'', CHR ''}'', CHR '' ''] permissions)),
                    csSubjectContext = meaningfulAuditValue (firstNonemptySemanticRecordValue [r] [''scontext'', ''subj'']),
                    csTargetContext = meaningfulAuditValue (firstSemanticRecordValue [r] ''tcontext''),
                    csTargetClass = meaningfulAuditValue (firstSemanticRecordValue [r] ''tclass''),
                    csProfile = meaningfulAuditValue (firstSemanticRecordValue [r] ''profile''),
                    csPermissive = permissiveValue (firstSemanticRecordValue [r] ''permissive'')\<rparr>
             in if security = noSecurity then None else Some security)"

definition securityEvidenceField :: "string \<Rightarrow> bool" where
  "securityEvidenceField key \<longleftrightarrow>
     key \<in> {''decision'', ''apparmor'', ''permissions'', ''requested_mask'', ''scontext'', ''subj'',
            ''tcontext'', ''tclass'', ''profile'', ''permissive''}"

definition securityCandidates ::
    "(string \<Rightarrow> string) \<Rightarrow> auditRecord list \<Rightarrow> (nat \<times> auditRecord \<times> canonicalSecurity) list" where
  "securityCandidates lo records =
     concat (map (\<lambda>(i, r).
       if rType r = ''SECCOMP'' then []
       else case buildCanonicalSecurityRecord lo r of None \<Rightarrow> [] | Some s \<Rightarrow> [(i, r, s)]) (enumerate 0 records))"

definition securityOrder :: "nat \<times> auditRecord \<times> canonicalSecurity \<Rightarrow> nat \<times> string \<times> string" where
  "securityOrder = (\<lambda>(i, r, s). (securityRecordRank (rType r), rType r, securityJSON s))"

definition extraEvidence :: "nat \<Rightarrow> auditRecord \<Rightarrow> canonicalIssue list" where
  "extraEvidence i r =
     map (\<lambda>f. sourceFieldIssue ''additional_security_evidence'' r i f False)
       (filter (\<lambda>f. securityEvidenceField (fKey f)) (rAllFields r)) @
     map (\<lambda>f. sourceFieldIssue ''additional_security_evidence'' r i f True)
       (filter (\<lambda>f. securityEvidenceField (fKey f)) (rEmbeddedAllFields r))"

definition buildCanonicalSecurity ::
    "(string \<Rightarrow> string) \<Rightarrow> auditRecord list \<Rightarrow> canonicalSecurity option \<times> canonicalIssue list" where
  "buildCanonicalSecurity lo records =
     (case sort_key securityOrder (securityCandidates lo records) of
        [] \<Rightarrow> (None, [])
      | (i0, r0, s0) # extras \<Rightarrow>
        (Some s0, concat (map (\<lambda>(i, r, s).
           if securityJSON s = securityJSON s0 then [] else extraEvidence i r) extras)))"

end
