(* ===== verification/Canonical.thy ===== *)
theory Canonical
  imports SecurityEvidence GoTime
begin

text \<open>
  internal/audit/canonical.go: the canonical event of schema version 1 and its construction from an
  assembled event, with exception.go. The pointers of the structs are options; the classification
  that ends the construction is in \<open>Classification\<close>.
\<close>

section \<open>The canonical event\<close>

record canonicalAuditPart =
  auID :: string
  auTime :: string
  auRaw :: string
  auRawEncoding :: string

record canonicalIntegrity =
  inState :: string
  inReason :: completion

record canonicalEventMeta =
  mtType :: string
  mtCategory :: string
  mtAction :: string
  mtOriginalAction :: string
  mtSuccess :: "bool option"
  mtIntegrity :: "canonicalIntegrity option"
  mtIssues :: "canonicalIssue list"

record canonicalActor =
  acUser :: string
  acUserID :: string

record canonicalTarget =
  tgUser :: string
  tgUserID :: string
  tgService :: string
  tgName :: string

record canonicalOrigin =
  orAddress :: string
  orHost :: string
  orTerminal :: string

record canonicalProcess =
  prAuditAttribution :: "auditAttribution option"
  prCommand :: string
  prCommandSource :: string
  prPID :: string
  prPPID :: string
  prUser :: string
  prUserID :: string
  prRealUser :: string
  prRealUserID :: string
  prName :: string
  prExecutable :: string
  prArgv :: "string list"
  prArgvSource :: string
  prCWD :: string
  prTTY :: string
  prArchitectureCode :: string
  prSyscall :: string
  prSyscallNumber :: string
  prReturnValue :: string

record canonicalFileCapabilities =
  fcPermitted :: "string list"
  fcInheritable :: "string list"
  fcEffective :: bool

record canonicalPath =
  paName :: string
  paNameType :: string
  paOwner :: string
  paOwnerID :: string
  paGroup :: string
  paGroupID :: string
  paCapabilities :: "canonicalFileCapabilities option"

text \<open>\<open>CanonicalSource\<close> and \<open>CanonicalRule\<close> have one field each and are that field.\<close>

record canonicalEvent =
  evSchemaVersion :: string
  evAudit :: canonicalAuditPart
  evSource :: "string option"
  evMeta :: canonicalEventMeta
  evRuleKeys :: "string list option"
  evActor :: "canonicalActor option"
  evProcess :: "canonicalProcess option"
  evTarget :: "canonicalTarget option"
  evOrigin :: "canonicalOrigin option"
  evSecurity :: "canonicalSecurity option"
  evPaths :: "canonicalPath list"
  evMessage :: string
  evRenderer :: string

definition canonicalSchemaVersion :: string where
  "canonicalSchemaVersion = ''1.0''"

definition canonicalAudit :: "string \<Rightarrow> canonicalAuditPart" where
  "canonicalAudit ident =
     \<lparr>auID = ident,
      auTime = (case auditTimeFromID ident of None \<Rightarrow> [] | Some t \<Rightarrow> formatRFC3339Nano t),
      auRaw = [], auRawEncoding = []\<rparr>"

definition emptyMeta :: canonicalEventMeta where
  "emptyMeta = \<lparr>mtType = [], mtCategory = [], mtAction = [], mtOriginalAction = [], mtSuccess = None,
     mtIntegrity = None, mtIssues = []\<rparr>"

definition emptyEvent :: canonicalEvent where
  "emptyEvent = \<lparr>evSchemaVersion = canonicalSchemaVersion,
     evAudit = \<lparr>auID = [], auTime = [], auRaw = [], auRawEncoding = []\<rparr>, evSource = None,
     evMeta = emptyMeta, evRuleKeys = None, evActor = None, evProcess = None, evTarget = None,
     evOrigin = None, evSecurity = None, evPaths = [], evMessage = [], evRenderer = []\<rparr>"

definition addIssues :: "canonicalIssue list \<Rightarrow> canonicalEvent \<Rightarrow> canonicalEvent" where
  "addIssues issues e = e\<lparr>evMeta := (evMeta e)\<lparr>mtIssues := mtIssues (evMeta e) @ issues\<rparr>\<rparr>"

section \<open>Lines that are no event\<close>

text \<open>\<open>host\<close> is \<open>CanonicalOptions.Host\<close>, \<open>err\<close> the text of the error.\<close>

definition BuildParseFailureEvent :: "string \<Rightarrow> string \<Rightarrow> string \<Rightarrow> canonicalEvent" where
  "BuildParseFailureEvent line err host =
     (let ident = auditIDFromLinePrefix line;
          audit = (if ident \<noteq> [] \<and> utf8Valid ident then (canonicalAudit ident)\<lparr>auRaw := line\<rparr>
                   else \<lparr>auID = [], auTime = [], auRaw = line, auRawEncoding = []\<rparr>);
          audit' = (if utf8Valid line then audit
                    else audit\<lparr>auRaw := hexEncode line, auRawEncoding := ''hex''\<rparr>)
      in emptyEvent
           \<lparr>evAudit := audit', evSource := (if host \<noteq> [] then Some host else None),
            evMeta := emptyMeta\<lparr>mtType := ''PARSE_ERROR'', mtCategory := ''conversion'',
              mtAction := ''parse_failure'', mtIssues := [plainIssue ''parse_failure'' [] [] err]\<rparr>\<rparr>)"

definition assemblyLimitText :: string where
  "assemblyLimitText =
     ''assembly limit: physical record evidence; logical event is incomplete''"

definition sourceRecordText :: "auditRecord \<Rightarrow> string" where
  "sourceRecordText r =
     ''device='' @ natDigits (spDevice (rSource r)) @ '' inode='' @ natDigits (spInode (rSource r)) @
     '' offset='' @ itoa (spStart (rSource r)) @ '' bytes='' @ itoa (rSourceBytes r)"

definition BuildAssemblyException :: "auditRecord \<Rightarrow> string \<Rightarrow> canonicalEvent" where
  "BuildAssemblyException r host =
     (let e = BuildParseFailureEvent (rRaw r) assemblyLimitText host;
          issues = [plainIssue ''assembly_limit'' (rType r) [] []] @
            (if rNodePresent r then [plainIssue ''audit_node'' [] [] (rNode r)] else []) @
            (if spValid (rSource r) then [plainIssue ''source_record'' [] [] (sourceRecordText r)] else [])
      in e\<lparr>evAudit := (evAudit e)\<lparr>auID := rID r\<rparr>,
           evSource := (if rNodePresent r \<and> host = [] then Some (rNode r) else evSource e),
           evMeta := (evMeta e)\<lparr>mtType := ''ASSEMBLY_EXCEPTION'', mtAction := ''assembly_limit'',
             mtIntegrity := Some \<lparr>inState = ''incomplete'', inReason = CompletionAssemblyLimit\<rparr>,
             mtIssues := issues\<rparr>\<rparr>)"

section \<open>Identities\<close>

record sourceIdentity =
  siName :: string
  siID :: string

definition identityEmpty :: "sourceIdentity \<Rightarrow> bool" where
  "identityEmpty i \<longleftrightarrow> siName i = [] \<and> siID i = []"

definition sameIdentity :: "sourceIdentity \<Rightarrow> sourceIdentity \<Rightarrow> bool" where
  "sameIdentity l r \<longleftrightarrow>
     (if identityEmpty l \<or> identityEmpty r then False
      else if siID l \<noteq> [] \<and> siID r \<noteq> [] then siID l = siID r
      else siName l \<noteq> [] \<and> siName r \<noteq> [] \<and> siName l = siName r)"

definition interpretedRecordValue :: "auditRecord \<Rightarrow> string \<Rightarrow> string" where
  "interpretedRecordValue r key =
     (let value = recordValue r key
      in if value = [] \<or> equalFold value ''unset'' \<or> isDecimal value then [] else value)"

fun interpretedValue :: "auditRecord list \<Rightarrow> string \<Rightarrow> string" where
  "interpretedValue [] key = []"
| "interpretedValue (r # rs) key =
     (if interpretedRecordValue r key \<noteq> [] then interpretedRecordValue r key else interpretedValue rs key)"

definition recordIdentity :: "auditRecord list \<Rightarrow> string \<Rightarrow> string \<Rightarrow> sourceIdentity" where
  "recordIdentity records nameKey idKey =
     (if idKey = ''auid'' \<and> (auditIDUnset (firstRecordValue records idKey) \<or>
                            equalFold (firstRecordValue records nameKey) ''unset'')
      then \<lparr>siName = [], siID = []\<rparr>
      else \<lparr>siName = interpretedValue records nameKey, siID = firstRecordValue records idKey\<rparr>)"

definition singleRecordIdentity :: "auditRecord \<Rightarrow> string \<Rightarrow> string \<Rightarrow> sourceIdentity" where
  "singleRecordIdentity r nameKey idKey =
     \<lparr>siName = interpretedRecordValue r nameKey, siID = recordValue r idKey\<rparr>"

definition setActorIdentity :: "canonicalActor \<Rightarrow> sourceIdentity \<Rightarrow> canonicalActor" where
  "setActorIdentity a i = (if siName i \<noteq> [] then a\<lparr>acUser := siName i\<rparr> else a\<lparr>acUserID := siID i\<rparr>)"

definition setProcessIdentity :: "canonicalProcess \<Rightarrow> sourceIdentity \<Rightarrow> canonicalProcess" where
  "setProcessIdentity p i = (if siName i \<noteq> [] then p\<lparr>prUser := siName i\<rparr> else p\<lparr>prUserID := siID i\<rparr>)"

definition setRealProcessIdentity :: "canonicalProcess \<Rightarrow> sourceIdentity \<Rightarrow> canonicalProcess" where
  "setRealProcessIdentity p i =
     (if siName i \<noteq> [] then p\<lparr>prRealUser := siName i\<rparr> else p\<lparr>prRealUserID := siID i\<rparr>)"

definition setPathOwner :: "canonicalPath \<Rightarrow> sourceIdentity \<Rightarrow> canonicalPath" where
  "setPathOwner p i = (if siName i \<noteq> [] then p\<lparr>paOwner := siName i\<rparr> else p\<lparr>paOwnerID := siID i\<rparr>)"

definition setPathGroup :: "canonicalPath \<Rightarrow> sourceIdentity \<Rightarrow> canonicalPath" where
  "setPathGroup p i = (if siName i \<noteq> [] then p\<lparr>paGroup := siName i\<rparr> else p\<lparr>paGroupID := siID i\<rparr>)"

section \<open>The process\<close>

definition buildCanonicalProcess :: "auditRecord list \<Rightarrow> canonicalProcess \<times> canonicalIssue list" where
  "buildCanonicalProcess records =
     (let name = interpretedValue records ''SYSCALL'';
          number = firstRecordValue records ''syscall'';
          (argv, argvSource, argvIssues) = buildArguments records;
          (command, commandSource, commandIssues) = buildUserCommand records;
          (attribution, attributionIssues) = buildAuditAttribution records
      in (\<lparr>prAuditAttribution = attribution, prCommand = command, prCommandSource = commandSource,
           prPID = firstSemanticRecordValue records ''pid'', prPPID = firstSemanticRecordValue records ''ppid'',
           prUser = [], prUserID = [], prRealUser = [], prRealUserID = [],
           prName = firstSemanticRecordValue records ''comm'',
           prExecutable = firstSemanticRecordValue records ''exe'',
           prArgv = argv, prArgvSource = argvSource,
           prCWD = firstSemanticRecordValue records ''cwd'', prTTY = firstSemanticRecordValue records ''tty'',
           prArchitectureCode = (if name = [] \<and> number \<noteq> [] then firstRecordValue records ''arch'' else []),
           prSyscall = name, prSyscallNumber = (if name = [] then number else []),
           prReturnValue = firstSemanticRecordValue records ''exit''\<rparr>,
          argvIssues @ commandIssues @ attributionIssues))"

definition hasCanonicalProcess :: "canonicalProcess \<Rightarrow> bool" where
  "hasCanonicalProcess p \<longleftrightarrow>
     prAuditAttribution p \<noteq> None \<or> prCommandSource p \<noteq> [] \<or> prPID p \<noteq> [] \<or> prPPID p \<noteq> [] \<or>
     prUser p \<noteq> [] \<or> prUserID p \<noteq> [] \<or> prRealUser p \<noteq> [] \<or> prRealUserID p \<noteq> [] \<or>
     prName p \<noteq> [] \<or> prExecutable p \<noteq> [] \<or> prArgv p \<noteq> [] \<or> prArgvSource p \<noteq> [] \<or>
     prCWD p \<noteq> [] \<or> prTTY p \<noteq> [] \<or> prArchitectureCode p \<noteq> [] \<or> prSyscall p \<noteq> [] \<or>
     prSyscallNumber p \<noteq> [] \<or> prReturnValue p \<noteq> []"

section \<open>Target and origin\<close>

definition buildCanonicalTarget :: "auditRecord list \<Rightarrow> string \<Rightarrow> canonicalTarget option" where
  "buildCanonicalTarget records primaryType =
     (let account = meaningfulAuditValue (firstSemanticRecordValue records ''acct'');
          target = \<lparr>tgUser = (if account \<noteq> [] \<and> \<not> isDecimal account then account else []),
                    tgUserID = (if isDecimal account then account else []),
                    tgService = meaningfulAuditValue (firstNonemptySemanticRecordValue records [''unit'', ''service'']),
                    tgName = (if primaryType \<noteq> ''PATH''
                              then meaningfulAuditValue
                                     (firstSemanticRecordValueExcludingType records ''name'' ''PATH'')
                              else [])\<rparr>
      in if tgUser target = [] \<and> tgUserID target = [] \<and> tgService target = [] \<and> tgName target = []
         then None else Some target)"

definition originProducer :: "auditRecord \<Rightarrow> bool" where
  "originProducer r \<longleftrightarrow>
     rType r \<noteq> ''LOGIN'' \<and>
     (case securityEventFamilyForType (rType r) of
        None \<Rightarrow> False
      | Some f \<Rightarrow> hasPrefix (rType r) ''USER_'' \<or>
                  sfCategory f \<in> {''authentication'', ''identity'', ''session''})"

definition buildCanonicalOrigin :: "auditRecord list \<Rightarrow> canonicalOrigin option" where
  "buildCanonicalOrigin records =
     (let producers = filter originProducer records;
          origin = \<lparr>orAddress = meaningfulAuditValue (firstNonemptySemanticRecordValue producers [''addr'', ''ip'']),
                    orHost = meaningfulAuditValue (firstNonemptySemanticRecordValue producers [''hostname'', ''host'']),
                    orTerminal = meaningfulAuditValue (firstSemanticRecordValue producers ''terminal'')\<rparr>
      in if orAddress origin = [] \<and> orHost origin = [] \<and> orTerminal origin = []
         then None else Some origin)"

section \<open>Paths\<close>

text \<open>A mask bit is tested on the value read from the 64-bit mask.\<close>

definition maskBit :: "int \<Rightarrow> nat \<Rightarrow> bool" where
  "maskBit bits i \<longleftrightarrow> bits div 2 ^ i mod 2 = 1"

definition maskNames :: "int \<Rightarrow> string list" where
  "maskNames bits = map snd (filter (\<lambda>(i, n). maskBit bits i) (enumerate 0 linuxCapabilityNames))"

definition maskRemaining :: "int \<Rightarrow> int" where
  "maskRemaining bits =
     bits - sum_list (map (\<lambda>i. 2 ^ i) (filter (maskBit bits) [0 ..< length linuxCapabilityNames]))"

definition decodeCapabilityMask :: "string \<Rightarrow> string \<Rightarrow> string list \<times> canonicalIssue list" where
  "decodeCapabilityMask value fieldName =
     (let trimmed = trimPrefix (toLower value) ''0x''
      in if trimmed = [] \<or> trimmed = ''none'' then ([], [])
         else case parseUint16 64 trimmed of
                None \<Rightarrow> ([], [plainIssue ''invalid_capability_mask'' ''PATH'' fieldName value])
              | Some bits \<Rightarrow>
                if bits = 0 then ([], [])
                else (maskNames bits,
                      if maskRemaining bits \<noteq> 0
                      then [plainIssue ''unknown_capability_bits'' ''PATH'' fieldName value] else []))"

definition fileCapabilities :: "auditRecord \<Rightarrow> canonicalFileCapabilities option \<times> canonicalIssue list" where
  "fileCapabilities r =
     (let (permitted, permittedIssue) =
            decodeCapabilityMask (recordValue r ''cap_fp'') ''paths.capabilities.permitted'';
          (inheritable, inheritableIssue) =
            decodeCapabilityMask (recordValue r ''cap_fi'') ''paths.capabilities.inheritable'';
          effective = toLower (recordValue r ''cap_fe'');
          issues = permittedIssue @ inheritableIssue @
            (if effective \<in> {[], ''none'', ''0'', ''1''} then []
             else [plainIssue ''unknown_capability_effective'' (rType r) ''paths.capabilities.effective''
                     (recordValue r ''cap_fe'')])
      in if permitted = [] \<and> inheritable = [] \<and> effective \<noteq> ''1'' then (None, issues)
         else (Some \<lparr>fcPermitted = permitted, fcInheritable = inheritable,
                     fcEffective = (effective = ''1'')\<rparr>, issues))"

definition canonicalPathOf :: "auditRecord \<Rightarrow> canonicalPath" where
  "canonicalPathOf r =
     setPathGroup (setPathOwner
       \<lparr>paName = recordValue r ''name'', paNameType = recordValue r ''nametype'', paOwner = [],
        paOwnerID = [], paGroup = [], paGroupID = [], paCapabilities = fst (fileCapabilities r)\<rparr>
       (singleRecordIdentity r ''OUID'' ''ouid'')) (singleRecordIdentity r ''OGID'' ''ogid'')"

text \<open>Entries with an item number first, by number; then by position in the event.\<close>

definition pathOrder :: "nat \<times> auditRecord \<Rightarrow> nat \<times> int \<times> nat" where
  "pathOrder = (\<lambda>(index, r).
     case atoi (recordValue r ''item'') of
       Some item \<Rightarrow> (0, item, index)
     | None \<Rightarrow> (1, 0, index))"

definition buildCanonicalPaths :: "auditRecord list \<Rightarrow> canonicalPath list \<times> canonicalIssue list" where
  "buildCanonicalPaths records =
     (let entries = filter (\<lambda>(i, r). rType r = ''PATH'') (enumerate 0 records)
      in (map (\<lambda>(i, r). canonicalPathOf r) (sort_key pathOrder entries),
          concat (map (\<lambda>(i, r). snd (fileCapabilities r)) entries)))"

section \<open>Building the event\<close>

fun uniqueFrom :: "string list \<Rightarrow> string list \<Rightarrow> string list" where
  "uniqueFrom seen [] = []"
| "uniqueFrom seen (v # vs) =
     (if v = [] \<or> v \<in> set seen then uniqueFrom seen vs else v # uniqueFrom (v # seen) vs)"

definition uniqueNonempty :: "string list \<Rightarrow> string list" where
  "uniqueNonempty values = uniqueFrom [] values"

fun unsupportedFrom :: "string list \<Rightarrow> auditRecord list \<Rightarrow> string list" where
  "unsupportedFrom seen [] = []"
| "unsupportedFrom seen (r # rs) =
     (if rType r \<in> {''SYSCALL'', ''EXECVE'', ''CWD'', ''PATH'', ''PROCTITLE'', ''EOE''} \<or>
         securityEventFamilyForType (rType r) \<noteq> None \<or> rType r \<in> set seen
      then unsupportedFrom seen rs else rType r # unsupportedFrom (rType r # seen) rs)"

definition unsupportedRecordTypes :: "auditRecord list \<Rightarrow> string list" where
  "unsupportedRecordTypes records = unsupportedFrom [] records"

definition embeddedFailureIssues :: "auditRecord list \<Rightarrow> canonicalIssue list" where
  "embeddedFailureIssues records =
     concat (map (\<lambda>(i, r). map (\<lambda>f. sourceFieldIssue ''embedded_parse_failure'' r i f False)
                            (rEmbeddedFailures r)) (enumerate 0 records))"

definition nodeIssues :: "auditRecord list \<Rightarrow> canonicalIssue list" where
  "nodeIssues records =
     concat (map (\<lambda>(i, r). if rNodePresent r
                          then map (\<lambda>f. sourceFieldIssue ''audit_node'' r i f False)
                                 (filter (\<lambda>f. fKey f = ''node'' \<and> \<not> fInterpreted f) (rAllFields r))
                          else []) (enumerate 0 records))"

definition ruleKeys :: "auditRecord list \<Rightarrow> string list" where
  "ruleKeys records =
     uniqueNonempty (concat (map (\<lambda>r. concat (map (splitByte (CHR 0x01)) (gmList (optionMap (rValues r)) ''key''))) records))"

text \<open>The issues that precede those of the process, in the order they are appended.\<close>

definition eventType :: "auditRecord list \<Rightarrow> string" where
  "eventType records =
     (let preferred = preferredSecurityRecordType records
      in if preferred \<noteq> [] then preferred else primaryRecordType records)"

definition eventSource :: "auditRecord list \<Rightarrow> string \<Rightarrow> string option" where
  "eventSource records host =
     (if host \<noteq> [] then Some host
      else case filter rNodePresent records of [] \<Rightarrow> None | r # _ \<Rightarrow> Some (rNode r))"

definition eventSuccess :: "auditRecord list \<Rightarrow> bool option \<times> canonicalIssue list" where
  "eventSuccess records =
     (case canonicalSuccess records (eventType records) of
        (success, known, issues) \<Rightarrow> if known then (Some success, []) else (None, issues))"

text \<open>The identities: login, effective and real user, and where each is reported.\<close>

definition loginIdentity :: "auditRecord list \<Rightarrow> sourceIdentity" where
  "loginIdentity records =
     (if eventType records = ''LOGIN'' \<and> fst (eventSuccess records) \<noteq> Some True
      then \<lparr>siName = [], siID = []\<rparr> else recordIdentity records ''AUID'' ''auid'')"

definition realIdentity :: "auditRecord list \<Rightarrow> sourceIdentity" where
  "realIdentity records = recordIdentity records ''UID'' ''uid''"

definition effectiveIdentity :: "auditRecord list \<Rightarrow> sourceIdentity" where
  "effectiveIdentity records =
     (let e = recordIdentity records ''EUID'' ''euid''
      in if identityEmpty e then realIdentity records else e)"

definition identifiedProcess :: "auditRecord list \<Rightarrow> canonicalProcess" where
  "identifiedProcess records =
     (let p = fst (buildCanonicalProcess records);
          login = loginIdentity records; real = realIdentity records; effective = effectiveIdentity records;
          p1 = (if \<not> identityEmpty effective \<and> \<not> sameIdentity effective login
                then setProcessIdentity p effective else p)
      in if \<not> identityEmpty real \<and> \<not> sameIdentity real login \<and> \<not> sameIdentity real effective
         then setRealProcessIdentity p1 real else p1)"

definition eventSecurity :: "(string \<Rightarrow> string) \<Rightarrow> auditRecord list \<Rightarrow> canonicalSecurity option" where
  "eventSecurity lo records =
     (case fst (buildCanonicalSeccomp records) of
        None \<Rightarrow> fst (buildCanonicalSecurity lo records)
      | Some s \<Rightarrow>
        Some ((case fst (buildCanonicalSecurity lo records) of None \<Rightarrow> noSecurity | Some c \<Rightarrow> c)\<lparr>csSeccomp := Some s\<rparr>))"

definition eventIssues ::
    "(string \<Rightarrow> string) \<Rightarrow> assembledEvent \<Rightarrow> auditRecord list \<Rightarrow> canonicalIssue list \<Rightarrow> canonicalIssue list" where
  "eventIssues lo assembled records decodingIssues =
     decodingIssues @
     (if auTime (canonicalAudit (aeID assembled)) = []
      then [plainIssue ''invalid_audit_id'' [] ''audit.id'' (aeID assembled)] else []) @
     snd (eventSuccess records) @
     map (\<lambda>t. plainIssue ''unsupported_record'' t [] []) (unsupportedRecordTypes records) @
     embeddedFailureIssues records @
     (if aeMixedNode assembled then [plainIssue ''ambiguous_node_presence'' [] ''node'' []] else []) @
     nodeIssues records @ snd (buildCanonicalProcess records) @ snd (buildCanonicalSecurity lo records) @
     snd (buildCanonicalSeccomp records) @ snd (buildCanonicalPaths records)"

text \<open>\<open>BuildCanonicalEvent\<close> before its last statement, the classification.\<close>

definition unclassifiedEvent ::
    "(string \<Rightarrow> string) \<Rightarrow> assembledEvent \<Rightarrow> string \<Rightarrow> canonicalEvent" where
  "unclassifiedEvent lo assembled host =
     (let (records, decodingIssues) = decodedRecords (aeRecords assembled);
          keys = ruleKeys records;
          login = loginIdentity records;
          process = identifiedProcess records
      in emptyEvent
           \<lparr>evAudit := canonicalAudit (aeID assembled),
            evSource := eventSource records host,
            evMeta := \<lparr>mtType = eventType records, mtCategory = [], mtAction = [],
              mtOriginalAction = meaningfulAuditValue
                (firstNonemptySemanticRecordValue records [''op'', ''operation'']),
              mtSuccess = fst (eventSuccess records),
              mtIntegrity = (if aeComplete assembled then None
                             else Some \<lparr>inState = ''incomplete'', inReason = aeCompletion assembled\<rparr>),
              mtIssues = eventIssues lo assembled records decodingIssues\<rparr>,
            evRuleKeys := (if keys = [] then None else Some keys),
            evActor := (if identityEmpty login then None
                        else Some (setActorIdentity \<lparr>acUser = [], acUserID = []\<rparr> login)),
            evProcess := (if hasCanonicalProcess process then Some process else None),
            evTarget := buildCanonicalTarget records (eventType records),
            evOrigin := buildCanonicalOrigin records,
            evSecurity := eventSecurity lo records,
            evPaths := fst (buildCanonicalPaths records)\<rparr>)"

end
