(* ===== verification/DecodingProperties.thy ===== *)
theory DecodingProperties
  imports Decoding
begin

text \<open>
  What decoding guarantees: the tables hold exactly the decoded fields in order, everything in
  them is UTF-8, and a key is marked as a conflict exactly when its values, those of its alias or
  those of its semantic partner disagree. A value selected for an event-wide key is therefore
  the only one any record carries.
\<close>

section \<open>The decoded tables\<close>

definition decodedValue :: "string \<Rightarrow> field \<Rightarrow> string" where
  "decodedValue recordType f =
     (if utf8Valid (decodedText recordType f) then decodedText recordType f else [])"

lemma gmList_update: "gmList (AList.update k vs m) j = (if j = k then vs else gmList m j)"
  by (simp add: gmList_def update_conv')

lemma gmList_Nil [simp]: "gmList [] k = []"
  by (simp add: gmList_def)

lemma decodeFields_issues:
  "dsIssues (fold (decodeField i r b) fs s) =
     dsIssues s @ map (\<lambda>f. sourceFieldIssue ''invalid_utf8'' r i f b)
         (filter (\<lambda>f. \<not> utf8Valid (decodedText (rType r) f)) fs)"
  by (induction fs arbitrary: s) (auto simp: decodeField_def Let_def)

lemma gmList_decodeFields:
  "gmList (dsValues (fold (decodeField i r b) fs s)) k =
     gmList (dsValues s) k @ map (decodedValue (rType r)) (filter (\<lambda>f. fKey f = k) fs)"
  by (induction fs arbitrary: s)
     (auto simp: decodeField_def Let_def gmList_update decodedValue_def)

lemma decodeFields_values:
  "gmList (dsValues (decodeFields i r b fs)) k =
     map (decodedValue (rType r)) (filter (\<lambda>f. fKey f = k) fs)"
  by (simp add: decodeFields_def gmList_decodeFields)

lemma decodeFields_wf: "gm_wf (dsValues (decodeFields i r b fs))"
proof -
  have "gm_wf (dsValues s) \<Longrightarrow> gm_wf (dsValues (fold (decodeField i r b) fs s))" for s
    by (induction fs arbitrary: s) (auto simp: decodeField_def Let_def)
  then show ?thesis by (simp add: decodeFields_def)
qed

lemma decodedValue_utf8: "utf8Valid (decodedValue t f)"
  by (simp add: decodedValue_def)

section \<open>Conflicts\<close>

definition ambiguous :: "string list \<Rightarrow> bool" where
  "ambiguous vs \<longleftrightarrow> (\<exists>v \<in> set vs. \<exists>w \<in> set vs. v \<noteq> w)"

definition recordValues :: "auditRecord \<Rightarrow> string \<Rightarrow> string list" where
  "recordValues r k = gmList (optionMap (rValues r)) k @ gmList (optionMap (rEmbeddedValues r)) k"

definition eventValues :: "auditRecord list \<Rightarrow> string \<Rightarrow> string list" where
  "eventValues rs k = concat (map (\<lambda>r. recordValues r k) rs)"

lemma scanKey_pair [simp]:
  "scanKey (j, vs) s = (if singletonField j then fold (scanEntry j) vs s else s)"
  by (simp add: scanKey_def)

text \<open>The part of the scan that concerns one key.\<close>

definition keyScan :: "string \<Rightarrow> conflictScan \<Rightarrow> bool \<times> string option \<times> bool \<times> string option" where
  "keyScan k s = (k \<in> set (csConflicts s), map_of (csFirst s) k,
     k \<in> set (csGlobalConflict s), map_of (csGlobalFirst s) k)"

lemma scanEntry_other: "j \<noteq> k \<Longrightarrow> keyScan k (scanEntry j v s) = keyScan k s"
  by (auto simp: scanEntry_def keyScan_def Let_def update_conv')

lemma fold_scanEntry_other: "j \<noteq> k \<Longrightarrow> keyScan k (fold (scanEntry j) vs s) = keyScan k s"
  by (induction vs arbitrary: s) (auto simp: scanEntry_other)

definition lastSeen :: "string option \<Rightarrow> string list \<Rightarrow> string option" where
  "lastSeen p vs = (if vs = [] then p else Some (last vs))"

text \<open>Consecutive values that differ, starting after the value \<open>p\<close>.\<close>

fun changes :: "string option \<Rightarrow> string list \<Rightarrow> bool" where
  "changes p [] = False"
| "changes p (v # vs) = ((case p of None \<Rightarrow> False | Some u \<Rightarrow> u \<noteq> v) \<or> changes (Some v) vs)"

lemma changes_append: "changes p (vs @ ws) \<longleftrightarrow> changes p vs \<or> changes (lastSeen p vs) ws"
  by (induction vs arbitrary: p) (auto simp: lastSeen_def)

lemma lastSeen_append: "lastSeen p (vs @ ws) = lastSeen (lastSeen p vs) ws"
  by (auto simp: lastSeen_def)

lemma changes_Some: "changes (Some u) vs \<longleftrightarrow> (\<exists>v \<in> set vs. v \<noteq> u)"
  by (induction vs arbitrary: u) auto

lemma changes_None: "changes None vs \<longleftrightarrow> ambiguous vs"
proof (cases vs)
  case (Cons a as)
  then show ?thesis unfolding ambiguous_def by (simp add: changes_Some) metis
qed (simp add: ambiguous_def)

lemma keyScan_entries:
  assumes "keyScan k s = (c, p, g, q)"
  shows "keyScan k (fold (scanEntry k) vs s) =
     (c \<or> changes p vs, lastSeen p vs, if eventSingleton k then g \<or> changes q vs else g,
      if eventSingleton k then lastSeen q vs else q)"
  using assms
proof (induction vs arbitrary: s c p g q)
  case Nil
  then show ?case by (simp add: lastSeen_def)
next
  case (Cons v vs)
  have "keyScan k (scanEntry k v s) =
      (c \<or> (case p of None \<Rightarrow> False | Some u \<Rightarrow> u \<noteq> v), Some v,
       if eventSingleton k then g \<or> (case q of None \<Rightarrow> False | Some u \<Rightarrow> u \<noteq> v) else g,
       if eventSingleton k then Some v else q)"
    using Cons.prems
    by (auto simp: scanEntry_def keyScan_def Let_def differs_def update_conv split: option.splits)
  from Cons.IH [OF this] show ?case by (auto simp: lastSeen_def)
qed

lemma keyScan_absent:
  "k \<notin> fst ` set m \<Longrightarrow> keyScan k (fold scanKey m s) = keyScan k s"
  by (induction m arbitrary: s) (auto simp: fold_scanEntry_other)

lemma keyScan_map:
  assumes "gm_wf m" and "singletonField k" and "keyScan k s = (c, p, g, q)"
  shows "keyScan k (fold scanKey m s) =
     (c \<or> changes p (gmList m k), lastSeen p (gmList m k),
      if eventSingleton k then g \<or> changes q (gmList m k) else g,
      if eventSingleton k then lastSeen q (gmList m k) else q)"
  using assms
proof (induction m arbitrary: s)
  case Nil
  then show ?case by (simp add: gmList_def lastSeen_def)
next
  case (Cons e m)
  obtain j vs where e: "e = (j, vs)" by (cases e)
  show ?case
  proof (cases "j = k")
    case True
    then have "k \<notin> fst ` set m" using Cons.prems(1) e by simp
    then show ?thesis
      using True Cons.prems(2) e keyScan_entries [OF Cons.prems(3), of vs]
      by (simp add: keyScan_absent gmList_def)
  next
    case False
    have "keyScan k (scanKey e s) = (c, p, g, q)"
      using False Cons.prems(3) by (simp add: e fold_scanEntry_other)
    from Cons.IH [OF _ Cons.prems(2) this] False Cons.prems(1) e show ?thesis
      by (simp add: gmList_def)
  qed
qed

lemma keyScan_nonsingleton:
  assumes "\<not> singletonField k"
  shows "keyScan k (fold scanKey m s) = keyScan k s"
proof (induction m arbitrary: s)
  case Nil
  then show ?case by simp
next
  case (Cons e m)
  have "keyScan k (scanKey e s) = keyScan k s"
    using assms by (cases e) (auto intro: fold_scanEntry_other)
  with Cons show ?case by simp
qed

definition wfValues :: "auditRecord \<Rightarrow> bool" where
  "wfValues r \<longleftrightarrow> gm_wf (optionMap (rValues r)) \<and> gm_wf (optionMap (rEmbeddedValues r))"

lemma keyScan_values:
  assumes "wfValues r" and "singletonField k" and "keyScan k s = (c, p, g, q)"
  shows "keyScan k (scanValues r s) =
     (c \<or> changes p (recordValues r k), lastSeen p (recordValues r k),
      if eventSingleton k then g \<or> changes q (recordValues r k) else g,
      if eventSingleton k then lastSeen q (recordValues r k) else q)"
proof -
  have w: "gm_wf (optionMap (rValues r))" "gm_wf (optionMap (rEmbeddedValues r))"
    using assms(1) by (simp_all add: wfValues_def)
  have "keyScan k (fold scanKey (optionMap (rValues r)) s) =
     (c \<or> changes p (gmList (optionMap (rValues r)) k), lastSeen p (gmList (optionMap (rValues r)) k),
      if eventSingleton k then g \<or> changes q (gmList (optionMap (rValues r)) k) else g,
      if eventSingleton k then lastSeen q (gmList (optionMap (rValues r)) k) else q)"
    using w(1) assms(2,3) by (rule keyScan_map)
  from keyScan_map [OF w(2) assms(2) this] show ?thesis
    by (auto simp: scanValues_def recordValues_def changes_append lastSeen_append)
qed

lemma eventSingleton_singleton: "eventSingleton k \<Longrightarrow> singletonField k"
  by (auto simp: eventSingleton_def singletonField_def eventSingletonKeys_def singletonKeys_def)

definition localConflict :: "auditRecord \<Rightarrow> string \<Rightarrow> bool" where
  "localConflict r k \<longleftrightarrow> singletonField k \<and> ambiguous (recordValues r k)"

definition partnerConflict :: "auditRecord \<Rightarrow> string \<Rightarrow> bool" where
  "partnerConflict r k \<longleftrightarrow>
     (\<exists>(x, y) \<in> set semanticPairs. (k = x \<or> k = y) \<and> recordValues r x \<noteq> [] \<and> recordValues r y \<noteq> [] \<and>
        last (recordValues r x) \<noteq> last (recordValues r y))"

definition eventConflict :: "auditRecord list \<Rightarrow> string \<Rightarrow> bool" where
  "eventConflict rs k \<longleftrightarrow> eventSingleton k \<and> ambiguous (eventValues rs k)"

definition keyConflict :: "auditRecord list \<Rightarrow> auditRecord \<Rightarrow> string \<Rightarrow> bool" where
  "keyConflict rs r k \<longleftrightarrow> localConflict r k \<or> partnerConflict r k \<or> eventConflict rs k"

definition aliasOf :: "string \<Rightarrow> string \<Rightarrow> bool" where
  "aliasOf k j \<longleftrightarrow> (k, j) \<in> set aliasPairs \<or> (j, k) \<in> set aliasPairs"

lemma set_markPairs:
  "k \<in> set (markPairs s) \<longleftrightarrow> k \<in> set (csConflicts s) \<or>
     (\<exists>(x, y) \<in> set semanticPairs. (k = x \<or> k = y) \<and> pairDiffers (csFirst s) (x, y))"
  by (auto simp: markPairs_def semanticPairs_def insertBoth_def)

lemma fold_insert_set: "set (fold List.insert xs ys) = set xs \<union> set ys"
  by (induction xs arbitrary: ys) auto

lemma fold_alias_other:
  assumes "\<forall>p \<in> set ps. k \<noteq> fst p \<and> k \<noteq> snd p"
  shows "k \<in> set (fold (\<lambda>pair cs. if fst pair \<in> set cs \<or> snd pair \<in> set cs then insertBoth pair cs else cs) ps cs)
     \<longleftrightarrow> k \<in> set cs"
  using assms by (induction ps arbitrary: cs) (auto simp: insertBoth_def)

lemma fold_alias_pairs:
  assumes "distinct (concat (map (\<lambda>p. [fst p, snd p]) ps))"
  shows "k \<in> set (fold (\<lambda>pair cs. if fst pair \<in> set cs \<or> snd pair \<in> set cs then insertBoth pair cs else cs) ps cs)
     \<longleftrightarrow> k \<in> set cs \<or> (\<exists>p \<in> set ps. k = fst p \<and> snd p \<in> set cs \<or> k = snd p \<and> fst p \<in> set cs)"
  using assms
proof (induction ps arbitrary: cs)
  case Nil
  then show ?case by simp
next
  case (Cons p ps)
  let ?cs = "if fst p \<in> set cs \<or> snd p \<in> set cs then insertBoth p cs else cs"
  have d: "distinct (concat (map (\<lambda>p. [fst p, snd p]) ps))"
    and fresh: "\<forall>q \<in> set ps. fst q \<noteq> fst p \<and> fst q \<noteq> snd p \<and> snd q \<noteq> fst p \<and> snd q \<noteq> snd p"
    using Cons.prems by auto
  have keep: "j \<in> set ?cs \<longleftrightarrow> j \<in> set cs" if "j \<noteq> fst p" "j \<noteq> snd p" for j
    using that by (auto simp: insertBoth_def)
  have own: "fst p \<in> set ?cs \<longleftrightarrow> fst p \<in> set cs \<or> snd p \<in> set cs"
    "snd p \<in> set ?cs \<longleftrightarrow> fst p \<in> set cs \<or> snd p \<in> set cs"
    by (auto simp: insertBoth_def)
  have rest: "(\<exists>q \<in> set ps. k = fst q \<and> snd q \<in> set ?cs \<or> k = snd q \<and> fst q \<in> set ?cs) \<longleftrightarrow>
      (\<exists>q \<in> set ps. k = fst q \<and> snd q \<in> set cs \<or> k = snd q \<and> fst q \<in> set cs)"
    using fresh keep by (metis (no_types, lifting))
  have "k \<in> set ?cs \<longleftrightarrow> k \<in> set cs \<or> k = fst p \<and> snd p \<in> set cs \<or> k = snd p \<and> fst p \<in> set cs"
    using own keep by metis
  then show ?case using Cons.IH [OF d, of ?cs] rest by (simp only: fold_simps) auto
qed

lemma set_markAliases:
  "k \<in> set (markAliases cs) \<longleftrightarrow> k \<in> set cs \<or> (\<exists>j \<in> set cs. aliasOf k j)"
proof -
  have "distinct (concat (map (\<lambda>p. [fst p, snd p]) aliasPairs))"
    by (simp add: aliasPairs_def)
  from fold_alias_pairs [OF this, of k cs] show ?thesis
    unfolding markAliases_def aliasOf_def by force
qed

text \<open>One record's scan, from any global state.\<close>

definition freshScan :: "(string, string) gomap \<Rightarrow> string list \<Rightarrow> conflictScan" where
  "freshScan gf gc = \<lparr>csConflicts = [], csFirst = [], csGlobalFirst = gf, csGlobalConflict = gc\<rparr>"

lemma scan_record:
  assumes wf: "wfValues r"
  defines "s gf gc \<equiv> scanValues r (freshScan gf gc)"
  shows "k \<in> set (csConflicts (s gf gc)) \<longleftrightarrow> localConflict r k"
    and "singletonField k \<Longrightarrow> map_of (csFirst (s gf gc)) k = lastSeen None (recordValues r k)"
    and "k \<in> set (csGlobalConflict (s gf gc)) \<longleftrightarrow>
      k \<in> set gc \<or> eventSingleton k \<and> changes (map_of gf k) (recordValues r k)"
    and "eventSingleton k \<Longrightarrow> map_of (csGlobalFirst (s gf gc)) k = lastSeen (map_of gf k) (recordValues r k)"
proof -
  have start: "keyScan k (freshScan gf gc) = (False, None, k \<in> set gc, map_of gf k)"
    by (simp add: keyScan_def freshScan_def)
  have all: "(k \<in> set (csConflicts (s gf gc)) \<longleftrightarrow> localConflict r k) \<and>
     (singletonField k \<longrightarrow> map_of (csFirst (s gf gc)) k = lastSeen None (recordValues r k)) \<and>
     (k \<in> set (csGlobalConflict (s gf gc)) \<longleftrightarrow>
        k \<in> set gc \<or> eventSingleton k \<and> changes (map_of gf k) (recordValues r k)) \<and>
     (eventSingleton k \<longrightarrow> map_of (csGlobalFirst (s gf gc)) k = lastSeen (map_of gf k) (recordValues r k))"
  proof (cases "singletonField k")
    case True
    from keyScan_values [OF wf True start] True show ?thesis
      unfolding s_def by (auto simp: keyScan_def localConflict_def changes_None split: if_splits)
  next
    case False
    have "keyScan k (s gf gc) = keyScan k (freshScan gf gc)"
      unfolding s_def scanValues_def by (simp add: keyScan_nonsingleton [OF False])
    with start False eventSingleton_singleton show ?thesis
      by (auto simp: keyScan_def localConflict_def)
  qed
  then show "k \<in> set (csConflicts (s gf gc)) \<longleftrightarrow> localConflict r k"
    and "singletonField k \<Longrightarrow> map_of (csFirst (s gf gc)) k = lastSeen None (recordValues r k)"
    and "k \<in> set (csGlobalConflict (s gf gc)) \<longleftrightarrow>
      k \<in> set gc \<or> eventSingleton k \<and> changes (map_of gf k) (recordValues r k)"
    and "eventSingleton k \<Longrightarrow> map_of (csGlobalFirst (s gf gc)) k = lastSeen (map_of gf k) (recordValues r k)"
    by blast+
qed

lemma semanticPairs_singleton: "(x, y) \<in> set semanticPairs \<Longrightarrow> singletonField x \<and> singletonField y"
  by (auto simp: semanticPairs_def singletonField_def singletonKeys_def)

lemma scan_record_pairs:
  assumes "wfValues r"
  shows "k \<in> set (markPairs (scanValues r (freshScan gf gc))) \<longleftrightarrow> localConflict r k \<or> partnerConflict r k"
proof -
  have "pairDiffers (csFirst (scanValues r (freshScan gf gc))) (x, y) \<longleftrightarrow>
      recordValues r x \<noteq> [] \<and> recordValues r y \<noteq> [] \<and> last (recordValues r x) \<noteq> last (recordValues r y)"
    if "(x, y) \<in> set semanticPairs" for x y
    using semanticPairs_singleton [OF that] scan_record(2) [OF assms]
    by (simp add: pairDiffers_def lastSeen_def)
  then show ?thesis
    unfolding set_markPairs scan_record(1) [OF assms] partnerConflict_def by blast
qed

lemma eventValues_simps [simp]:
  "eventValues [] k = []" "eventValues (r # rs) k = recordValues r k @ eventValues rs k"
  by (simp_all add: eventValues_def)

lemma scanRecords_step:
  assumes "scanRecords (r # rs) gf gc = (rs', conflicts)"
  obtains rs2 where "scanRecords rs (csGlobalFirst (scanValues r (freshScan gf gc)))
        (csGlobalConflict (scanValues r (freshScan gf gc))) = (rs2, conflicts)"
    and "rs' = r\<lparr>rConflicts := markPairs (scanValues r (freshScan gf gc))\<rparr> # rs2"
  using assms by (auto simp: freshScan_def [symmetric] Let_def split: prod.splits)

lemma scanRecords_result:
  assumes "\<forall>r \<in> set rs. wfValues r" and "scanRecords rs gf gc = (rs', conflicts)"
  shows "k \<in> set conflicts \<longleftrightarrow> k \<in> set gc \<or> eventSingleton k \<and> changes (map_of gf k) (eventValues rs k)"
    and "list_all2 (\<lambda>r r'. \<exists>cs. r' = r\<lparr>rConflicts := cs\<rparr> \<and>
           (\<forall>k. k \<in> set cs \<longleftrightarrow> localConflict r k \<or> partnerConflict r k)) rs rs'"
  using assms
proof (induction rs arbitrary: gf gc rs')
  case Nil
  case 1
  then show ?case by simp
next
  case Nil
  case 2
  then show ?case by simp
next
  case (Cons r rs)
  {
    case 1
    obtain rs2 where rest: "scanRecords rs (csGlobalFirst (scanValues r (freshScan gf gc)))
        (csGlobalConflict (scanValues r (freshScan gf gc))) = (rs2, conflicts)"
      using 1(2) by (rule scanRecords_step) blast
    from Cons.IH(1) [OF _ rest] 1(1) scan_record(3,4) [of r k gf gc] show ?case
      by (auto simp: changes_append)
  next
    case 2
    obtain rs2 where rest: "scanRecords rs (csGlobalFirst (scanValues r (freshScan gf gc)))
        (csGlobalConflict (scanValues r (freshScan gf gc))) = (rs2, conflicts)"
      and r': "rs' = r\<lparr>rConflicts := markPairs (scanValues r (freshScan gf gc))\<rparr> # rs2"
      using 2(2) by (rule scanRecords_step) blast
    have "wfValues r" using 2(1) by simp
    then have "\<exists>cs. r\<lparr>rConflicts := markPairs (scanValues r (freshScan gf gc))\<rparr> = r\<lparr>rConflicts := cs\<rparr> \<and>
        (\<forall>k. k \<in> set cs \<longleftrightarrow> localConflict r k \<or> partnerConflict r k)"
      using scan_record_pairs by blast
    moreover have "list_all2 (\<lambda>r r'. \<exists>cs. r' = r\<lparr>rConflicts := cs\<rparr> \<and>
           (\<forall>k. k \<in> set cs \<longleftrightarrow> localConflict r k \<or> partnerConflict r k)) rs rs2"
      using Cons.IH(2) [OF _ rest] 2(1) by simp
    ultimately show ?case unfolding r' by simp
  }
qed

definition markedConflict :: "auditRecord list \<Rightarrow> auditRecord \<Rightarrow> string \<Rightarrow> bool" where
  "markedConflict rs r k \<longleftrightarrow> keyConflict rs r k \<or> (\<exists>j. aliasOf k j \<and> keyConflict rs r j)"

lemma markSingletonConflicts_result:
  assumes wf: "\<forall>r \<in> set rs. wfValues r" and res: "markSingletonConflicts rs = (rs', issues)"
  shows "list_all2 (\<lambda>r r'. \<exists>cs. r' = r\<lparr>rConflicts := cs\<rparr> \<and>
           (\<forall>k. k \<in> set cs \<longleftrightarrow> markedConflict rs r k)) rs rs'"
proof -
  obtain rs1 gc where sc: "scanRecords rs [] [] = (rs1, gc)" by (cases "scanRecords rs [] []")
  then have rs': "rs' = map (spreadConflicts gc) rs1"
    using res by (simp add: markSingletonConflicts_def Let_def)
  have gc: "k \<in> set gc \<longleftrightarrow> eventConflict rs k" for k
    using scanRecords_result(1) [OF wf sc] by (simp add: eventConflict_def changes_None)
  have "\<exists>cs. spreadConflicts gc r1 = r\<lparr>rConflicts := cs\<rparr> \<and> (\<forall>k. k \<in> set cs \<longleftrightarrow> markedConflict rs r k)"
    if "r1 = r\<lparr>rConflicts := cs\<rparr>" "\<forall>k. k \<in> set cs \<longleftrightarrow> localConflict r k \<or> partnerConflict r k" for r r1 cs
  proof (intro exI conjI allI)
    show "spreadConflicts gc r1 = r\<lparr>rConflicts := markAliases (fold List.insert gc cs)\<rparr>"
      by (simp add: that(1) spreadConflicts_def)
    show "k \<in> set (markAliases (fold List.insert gc cs)) \<longleftrightarrow> markedConflict rs r k" for k
      using that(2) gc
      by (auto simp: set_markAliases fold_insert_set markedConflict_def keyConflict_def)
  qed
  then show ?thesis
    using scanRecords_result(2) [OF wf sc]
    by (auto simp: rs' list_all2_conv_all_nth)
qed

section \<open>Decoded records\<close>

lemma decodeRecord_wf: "wfValues r \<Longrightarrow> wfValues (fst (decodeRecord i r))"
  by (auto simp: wfValues_def decodeRecord_def Let_def optionMap_def decodeFields_wf)

lemma recordValues_conflicts [simp]: "recordValues (r\<lparr>rConflicts := cs\<rparr>) k = recordValues r k"
  by (simp add: recordValues_def)

lemma decodedRecords_result:
  assumes wf: "\<forall>r \<in> set rs. wfValues r" and res: "decodedRecords rs = (rs', issues)"
  shows "list_all2 (\<lambda>r r'. \<exists>cs. r' = r\<lparr>rConflicts := cs\<rparr> \<and>
       (\<forall>k. k \<in> set cs \<longleftrightarrow> markedConflict (map (\<lambda>(i, r). fst (decodeRecord i r)) (enumerate 0 rs)) r k))
     (map (\<lambda>(i, r). fst (decodeRecord i r)) (enumerate 0 rs)) rs'"
proof -
  let ?ds = "map (\<lambda>(i, r). fst (decodeRecord i r)) (enumerate 0 rs)"
  have ds: "map fst (map (\<lambda>(i, r). decodeRecord i r) (enumerate 0 rs)) = ?ds"
    by (simp add: comp_def split_def)
  obtain is2 where m: "markSingletonConflicts ?ds = (rs', is2)"
    using res unfolding decodedRecords_def Let_def ds by (auto split: prod.splits)
  have "\<forall>r \<in> set ?ds. wfValues r"
    using wf by (auto simp: set_conv_nth nth_enumerate_eq decodeRecord_wf)
  then show ?thesis using m by (rule markSingletonConflicts_result)
qed

lemma eventValues_all2:
  "list_all2 (\<lambda>r r'. \<exists>cs. r' = r\<lparr>rConflicts := cs\<rparr> \<and> P r cs) rs rs' \<Longrightarrow> eventValues rs' k = eventValues rs k"
  by (induction rs rs' rule: list_all2_induct) auto

lemma list_all2_conflicts_mono:
  assumes "list_all2 (\<lambda>r r'. \<exists>cs. r' = r\<lparr>rConflicts := cs\<rparr> \<and> P r cs) rs rs'" and "r' \<in> set rs'"
  obtains r cs where "r \<in> set rs" "r' = r\<lparr>rConflicts := cs\<rparr>" "P r cs"
proof -
  obtain i where i: "i < length rs'" "r' = rs' ! i" using assms(2) by (auto simp: in_set_conv_nth)
  with assms(1) have "rs ! i \<in> set rs" "\<exists>cs. r' = (rs ! i)\<lparr>rConflicts := cs\<rparr> \<and> P (rs ! i) cs"
    by (auto simp: list_all2_conv_all_nth)
  then show thesis using that by blast
qed

lemma decodedRecords_agree:
  assumes wf: "\<forall>r \<in> set rs. wfValues r" and res: "decodedRecords rs = (rs', issues)"
    and k: "eventSingleton k" and r': "r' \<in> set rs'" and free: "k \<notin> set (rConflicts r')"
  shows "\<not> ambiguous (eventValues rs' k)"
proof -
  note all = decodedRecords_result [OF wf res]
  obtain r cs where "r' = r\<lparr>rConflicts := cs\<rparr>"
    and "\<forall>k. k \<in> set cs \<longleftrightarrow> markedConflict (map (\<lambda>(i, r). fst (decodeRecord i r)) (enumerate 0 rs)) r k"
    using all r' by (rule list_all2_conflicts_mono)
  with free have "\<not> eventConflict (map (\<lambda>(i, r). fst (decodeRecord i r)) (enumerate 0 rs)) k"
    by (simp add: markedConflict_def keyConflict_def)
  with k show ?thesis by (simp add: eventConflict_def eventValues_all2 [OF all])
qed

end
