(* ===== verification/ArgumentProperties.thy ===== *)
theory ArgumentProperties
  imports Arguments
begin

text \<open>
  The argument vector is exact: whatever mixture of quoted, hex-encoded and fragmented
  spellings the kernel chose and however it spread them over EXECVE records, the vector that
  was executed is rebuilt, and a vector is only reported when the count, the indexes and the
  fragment lengths all agree.
\<close>

section \<open>Spelling an argument vector\<close>

datatype chunk = Literal string | Hex string

fun chunkText :: "chunk \<Rightarrow> string" where
  "chunkText (Literal s) = s"
| "chunkText (Hex s) = s"

fun chunkField :: "string \<Rightarrow> chunk \<Rightarrow> field" where
  "chunkField k (Literal s) = \<lparr>fKey = k, fValue = s, fQuoted = True, fInterpreted = False\<rparr>"
| "chunkField k (Hex s) = \<lparr>fKey = k, fValue = hexEncode s, fQuoted = False, fInterpreted = False\<rparr>"

datatype spelling = Whole chunk | Cut "chunk list"

fun spelledText :: "spelling \<Rightarrow> string" where
  "spelledText (Whole c) = chunkText c"
| "spelledText (Cut cs) = concat (map chunkText cs)"

definition numberField :: "string \<Rightarrow> nat \<Rightarrow> field" where
  "numberField k n = \<lparr>fKey = k, fValue = natDigits n, fQuoted = False, fInterpreted = False\<rparr>"

definition spelledLength :: "chunk list \<Rightarrow> nat" where
  "spelledLength cs = sum_list (map (\<lambda>c. length (fValue (chunkField [] c))) cs)"

definition fragmentFields :: "nat \<Rightarrow> nat \<Rightarrow> chunk list \<Rightarrow> field list" where
  "fragmentFields i j cs = map (\<lambda>(j, c). chunkField (fragmentKey i j) c) (enumerate j cs)"

fun spelledFields :: "nat \<Rightarrow> spelling \<Rightarrow> field list" where
  "spelledFields i (Whole c) = [chunkField (argKey i) c]"
| "spelledFields i (Cut cs) = numberField (argKey i @ ''_len'') (spelledLength cs) # fragmentFields i 0 cs"

definition execveFields :: "spelling list \<Rightarrow> field list" where
  "execveFields args =
     numberField ''argc'' (length args) # concat (map (\<lambda>(i, a). spelledFields i a) (enumerate 0 args))"

fun spellingOk :: "spelling \<Rightarrow> bool" where
  "spellingOk (Whole c) = utf8Valid (chunkText c)"
| "spellingOk (Cut cs) = (cs \<noteq> [] \<and> int (spelledLength cs) < 2 ^ 63 \<and> int (length cs) < 2 ^ 63 \<and>
      utf8Valid (concat (map chunkText cs)))"

text \<open>All EXECVE fields of an event that say something about arguments, in order.\<close>

definition argumentFields :: "auditRecord list \<Rightarrow> field list" where
  "argumentFields records =
     filter argField (concat (map rAllFields (filter (\<lambda>r. rType r = ''EXECVE'') records)))"

section \<open>The scan is a fold over those fields\<close>

lemma scanArgField_fold:
  "fst (fold (scanArgField ri r) fs acc) = fold argStep (filter argField fs) (fst acc)"
proof (induction fs arbitrary: acc)
  case Nil
  then show ?case by simp
next
  case (Cons f fs)
  have "fst (scanArgField ri r f acc) = (if argField f then argStep f (fst acc) else fst acc)"
    by (simp add: scanArgField_def split: prod.splits)
  with Cons show ?case by simp
qed

definition startScan :: argScan where
  "startScan = \<lparr>sgArgs = [], sgArgc = - 1, sgValid = True\<rparr>"

lemma scanArguments_fold: "fst (scanArguments records) = fold argStep (argumentFields records) startScan"
proof -
  have "fst (fold (\<lambda>(ri, r) acc. if rType r = ''EXECVE'' then fold (scanArgField ri r) (rAllFields r) acc else acc)
       (enumerate n records) acc) = fold argStep (argumentFields records) (fst acc)" for n acc
    by (induction records arbitrary: n acc)
       (auto simp: argumentFields_def scanArgField_fold)
  then show ?thesis by (simp add: scanArguments_def startScan_def)
qed

section \<open>Scanning a spelled vector\<close>

lemma chunkField_key [simp]: "fKey (chunkField k c) = k"
  by (cases c) simp_all

lemma chunkField_value: "fValue (chunkField k c) = fValue (chunkField [] c)"
  by (cases c) simp_all

lemma untrusted_chunk [simp]: "untrustedString (chunkField k c) True = Some (chunkText c)"
  by (cases c) (simp_all add: untrustedString_def hexDecode_hexEncode)

definition fragmentEntries :: "nat \<Rightarrow> nat \<Rightarrow> chunk list \<Rightarrow> (int, field) gomap" where
  "fragmentEntries i j cs = map (\<lambda>(j, c). (int j, chunkField (fragmentKey i j) c)) (enumerate j cs)"

fun spelledArgument :: "nat \<Rightarrow> spelling \<Rightarrow> execArgument" where
  "spelledArgument i (Whole c) = emptyArgument\<lparr>eaWhole := Some (chunkField (argKey i) c)\<rparr>"
| "spelledArgument i (Cut cs) =
     emptyArgument\<lparr>eaLength := Some (int (spelledLength cs)), eaFragments := fragmentEntries i 0 cs\<rparr>"

definition spelledEntries :: "nat \<Rightarrow> spelling list \<Rightarrow> (int, execArgument) gomap" where
  "spelledEntries i args = map (\<lambda>(i, a). (int i, spelledArgument i a)) (enumerate i args)"

lemma key_not_argc: "argKey i @ s \<noteq> ''argc''" "fragmentKey i j \<noteq> ''argc''" "argKey i \<noteq> ''argc''"
proof -
  have "argKey i @ s \<noteq> ''argc''" for s
  proof
    assume "argKey i @ s = ''argc''"
    moreover obtain c cs where c: "natDigits i = c # cs" using natDigits_digits(2) [of i] by (cases "natDigits i") auto
    ultimately have "isDigit (CHR ''r'')" using natDigits_digits(1) [of i] by (simp add: argKey_def)
    then show False by (simp add: isDigit_def byte_def)
  qed
  from this [of s] this [of "[]"] this [of "''['' @ natDigits j @ '']''"]
  show "argKey i @ s \<noteq> ''argc''" "fragmentKey i j \<noteq> ''argc''" "argKey i \<noteq> ''argc''"
    by (simp_all add: fragmentKey_def)
qed

lemma enumerate_Cons: "enumerate n (x # xs) = (n, x) # enumerate (Suc n) xs"
  by simp

lemma fragment_step:
  assumes i: "int i < 2 ^ 63" and j: "int j < 2 ^ 63" and fresh: "int j \<notin> fst ` set fr"
    and args: "sgArgs s = m @ [(int i, a\<lparr>eaFragments := fr\<rparr>)]" and new: "int i \<notin> fst ` set m"
  shows "argStep (chunkField (fragmentKey i j) c) s =
     s\<lparr>sgArgs := m @ [(int i, a\<lparr>eaFragments := fr @ [(int j, chunkField (fragmentKey i j) c)]\<rparr>)]\<rparr>"
proof -
  have "map_of (sgArgs s) (int i) = Some (a\<lparr>eaFragments := fr\<rparr>)"
    using new map_of_None_notin [of m "int i"] by (simp add: args map_add_def)
  moreover have "map_of fr (int j) = None" using fresh by (simp add: map_of_None_notin)
  ultimately show ?thesis
    using fresh new
    by (simp add: argStep_def key_not_argc parseExecArgKey_fragment [OF i j] argPart_def Let_def args
        update_append_fresh update_fresh)
qed

lemma fragments_scan:
  assumes i: "int i < 2 ^ 63" and j: "int (j + length cs) < 2 ^ 63"
    and args: "sgArgs s = m @ [(int i, a\<lparr>eaFragments := fr\<rparr>)]" and new: "int i \<notin> fst ` set m"
    and fresh: "\<forall>k \<in> fst ` set fr. k < int j"
  shows "fold argStep (fragmentFields i j cs) s =
     s\<lparr>sgArgs := m @ [(int i, a\<lparr>eaFragments := fr @ fragmentEntries i j cs\<rparr>)]\<rparr>"
  using j args fresh
proof (induction cs arbitrary: j s fr)
  case Nil
  then show ?case by (simp add: fragmentFields_def fragmentEntries_def)
next
  case (Cons c cs)
  have j: "int j < 2 ^ 63" using Cons.prems(1) by simp
  have f: "int j \<notin> fst ` set fr" using Cons.prems(3) by auto
  let ?s = "s\<lparr>sgArgs := m @ [(int i, a\<lparr>eaFragments := fr @ [(int j, chunkField (fragmentKey i j) c)]\<rparr>)]\<rparr>"
  have "fold argStep (fragmentFields i (Suc j) cs) ?s =
     ?s\<lparr>sgArgs := m @ [(int i, a\<lparr>eaFragments := (fr @ [(int j, chunkField (fragmentKey i j) c)]) @
        fragmentEntries i (Suc j) cs\<rparr>)]\<rparr>"
    using Cons.prems(1,3) by (intro Cons.IH) auto
  then show ?case
    using fragment_step [OF i j f Cons.prems(2) new]
    by (simp add: fragmentFields_def fragmentEntries_def)
qed

lemma argument_scan:
  assumes i: "int i < 2 ^ 63" and ok: "spellingOk x" and new: "int i \<notin> fst ` set (sgArgs s)"
  shows "fold argStep (spelledFields i x) s = s\<lparr>sgArgs := sgArgs s @ [(int i, spelledArgument i x)]\<rparr>"
proof (cases x)
  case (Whole c)
  have "map_of (sgArgs s) (int i) = None" using new by (simp add: map_of_None_notin)
  with Whole new show ?thesis
    by (simp add: argStep_def key_not_argc parseExecArgKey_whole [OF i] argPart_def Let_def emptyArgument_def
        update_fresh)
next
  case (Cut cs)
  let ?s = "s\<lparr>sgArgs := sgArgs s @ [(int i, (emptyArgument\<lparr>eaLength := Some (int (spelledLength cs))\<rparr>)\<lparr>eaFragments := []\<rparr>)]\<rparr>"
  have "map_of (sgArgs s) (int i) = None" using new by (simp add: map_of_None_notin)
  with Cut ok new have "argStep (numberField (argKey i @ ''_len'') (spelledLength cs)) s = ?s"
    by (simp add: argStep_def numberField_def key_not_argc parseExecArgKey_length [OF i] argPart_def Let_def
        emptyArgument_def update_fresh atoi_natDigits)
  moreover have "fold argStep (fragmentFields i 0 cs) ?s =
     ?s\<lparr>sgArgs := sgArgs s @ [(int i, (emptyArgument\<lparr>eaLength := Some (int (spelledLength cs))\<rparr>)
         \<lparr>eaFragments := [] @ fragmentEntries i 0 cs\<rparr>)]\<rparr>"
    using Cut ok i new by (intro fragments_scan) auto
  ultimately show ?thesis by (simp add: Cut)
qed

lemma arguments_scan:
  assumes "int (i + length xs) < 2 ^ 63" and "list_all spellingOk xs"
    and "\<forall>k \<in> fst ` set (sgArgs s). k < int i"
  shows "fold argStep (concat (map (\<lambda>(i, a). spelledFields i a) (enumerate i xs))) s =
     s\<lparr>sgArgs := sgArgs s @ spelledEntries i xs\<rparr>"
  using assms
proof (induction xs arbitrary: i s)
  case Nil
  then show ?case by (simp add: spelledEntries_def)
next
  case (Cons x xs)
  let ?s = "s\<lparr>sgArgs := sgArgs s @ [(int i, spelledArgument i x)]\<rparr>"
  have "fold argStep (spelledFields i x) s = ?s"
    using Cons.prems by (intro argument_scan) auto
  moreover have "fold argStep (concat (map (\<lambda>(i, a). spelledFields i a) (enumerate (Suc i) xs))) ?s =
      ?s\<lparr>sgArgs := sgArgs ?s @ spelledEntries (Suc i) xs\<rparr>"
    using Cons.prems by (intro Cons.IH) auto
  ultimately show ?case by (simp add: spelledEntries_def)
qed

lemma execve_scan:
  assumes "int (length args) < 2 ^ 63" and "list_all spellingOk args"
  shows "fold argStep (execveFields args) startScan =
     \<lparr>sgArgs = spelledEntries 0 args, sgArgc = int (length args), sgValid = True\<rparr>"
proof -
  let ?s = "startScan\<lparr>sgArgc := int (length args)\<rparr>"
  have "argStep (numberField ''argc'' (length args)) startScan = ?s"
    using assms(1) by (simp add: argStep_def numberField_def startScan_def atoi_natDigits)
  moreover have "fold argStep (concat (map (\<lambda>(i, a). spelledFields i a) (enumerate 0 args))) ?s =
      ?s\<lparr>sgArgs := sgArgs ?s @ spelledEntries 0 args\<rparr>"
    using assms by (intro arguments_scan) (auto simp: startScan_def)
  ultimately show ?thesis by (simp add: execveFields_def startScan_def)
qed

section \<open>Decoding a spelled vector\<close>

lemma map_fst_fragments: "map fst (fragmentEntries i j cs) = map int [j ..< j + length cs]"
  by (induction cs arbitrary: j) (auto simp: fragmentEntries_def upt_rec)

lemma map_fst_entries: "map fst (spelledEntries i xs) = map int [i ..< i + length xs]"
  by (induction xs arbitrary: i) (auto simp: spelledEntries_def upt_rec)

lemma sorted_ints: "sorted (map int [i ..< n])"
  by (simp add: sorted_map)

lemma decodeParts_cong:
  "(\<And>p. p \<in> set ps \<Longrightarrow> map_of m p = map_of n p) \<Longrightarrow> decodeParts k ps m = decodeParts k ps n"
  by (induction ps arbitrary: k) (auto split: option.splits)

lemma decodeParts_fragments:
  "decodeParts (int j) (map int [j ..< j + length cs]) (fragmentEntries i j cs) =
     Some (concat (map chunkText cs), int (spelledLength cs))"
proof (induction cs arbitrary: j)
  case Nil
  then show ?case by (simp add: fragmentEntries_def spelledLength_def)
next
  case (Cons c cs)
  have e: "fragmentEntries i j (c # cs) = (int j, chunkField (fragmentKey i j) c) # fragmentEntries i (Suc j) cs"
    by (simp add: fragmentEntries_def)
  have u: "[j ..< j + length (c # cs)] = j # [Suc j ..< Suc j + length cs]"
    by (simp add: upt_rec)
  have "decodeParts (int (Suc j)) (map int [Suc j ..< Suc j + length cs]) (fragmentEntries i j (c # cs)) =
      decodeParts (int (Suc j)) (map int [Suc j ..< Suc j + length cs]) (fragmentEntries i (Suc j) cs)"
    by (rule decodeParts_cong) (auto simp: e)
  also have "\<dots> = Some (concat (map chunkText cs), int (spelledLength cs))" by (rule Cons.IH)
  finally have rest: "decodeParts (int j + 1) (map int [Suc j ..< Suc j + length cs])
        (fragmentEntries i j (c # cs)) = Some (concat (map chunkText cs), int (spelledLength cs))"
    by (simp add: add.commute)
  have "map_of (fragmentEntries i j (c # cs)) (int j) = Some (chunkField (fragmentKey i j) c)"
    by (simp add: e)
  then show ?case
    using rest chunkField_value [of "fragmentKey i j" c]
    unfolding u by (simp add: spelledLength_def)
qed

lemma decode_spelled: "spellingOk x \<Longrightarrow> decodeArgument (spelledArgument i x) = Some (spelledText x)"
proof (cases x)
  case (Whole c)
  then show ?thesis by (simp add: decodeArgument_def emptyArgument_def)
next
  case (Cut cs)
  assume ok: "spellingOk x"
  have "fragmentEntries i 0 cs \<noteq> []" using ok Cut by (cases cs) (auto simp: fragmentEntries_def)
  moreover have "sort (map fst (fragmentEntries i 0 cs)) = map int [0 ..< length cs]"
    using map_fst_fragments [of i 0 cs] sorted_ints [of 0 "length cs"] by (simp add: sorted_sort_id)
  moreover have "decodeParts 0 (map int [0 ..< length cs]) (fragmentEntries i 0 cs) =
      Some (concat (map chunkText cs), int (spelledLength cs))"
    using decodeParts_fragments [of 0 cs i] by simp
  ultimately show ?thesis using Cut by (simp add: decodeArgument_def emptyArgument_def)
qed

lemma decodeArguments_cong:
  "(\<And>i. i \<in> set ix \<Longrightarrow> map_of m i = map_of n i) \<Longrightarrow> decodeArguments k ix m = decodeArguments k ix n"
  by (induction ix arbitrary: k) (auto split: option.splits)

lemma utf8_spelled: "spellingOk x \<Longrightarrow> utf8Valid (spelledText x)"
  by (cases x) simp_all

lemma decodeArguments_entries:
  "list_all spellingOk xs \<Longrightarrow>
   decodeArguments (int i) (map int [i ..< i + length xs]) (spelledEntries i xs) = Some (map spelledText xs)"
proof (induction xs arbitrary: i)
  case Nil
  then show ?case by (simp add: spelledEntries_def)
next
  case (Cons x xs)
  have e: "spelledEntries i (x # xs) = (int i, spelledArgument i x) # spelledEntries (Suc i) xs"
    by (simp add: spelledEntries_def)
  have u: "[i ..< i + length (x # xs)] = i # [Suc i ..< Suc i + length xs]"
    by (simp add: upt_rec)
  have "decodeArguments (int (Suc i)) (map int [Suc i ..< Suc i + length xs]) (spelledEntries i (x # xs)) =
      decodeArguments (int (Suc i)) (map int [Suc i ..< Suc i + length xs]) (spelledEntries (Suc i) xs)"
    by (rule decodeArguments_cong) (auto simp: e)
  also have "\<dots> = Some (map spelledText xs)" using Cons by (intro Cons.IH) simp
  finally have rest: "decodeArguments (int i + 1) (map int [Suc i ..< Suc i + length xs])
      (spelledEntries i (x # xs)) = Some (map spelledText xs)"
    by (simp add: add.commute)
  have "map_of (spelledEntries i (x # xs)) (int i) = Some (spelledArgument i x)" by (simp add: e)
  then show ?case
    using rest Cons.prems decode_spelled [of x i] utf8_spelled [of x] unfolding u by simp
qed

lemma buildArguments_spelled:
  assumes "int (length args) < 2 ^ 63" and "list_all spellingOk args"
    and "argumentFields records = execveFields args" and "list_ex (\<lambda>r. rType r = ''EXECVE'') records"
  shows "buildArguments records = (map spelledText args, ''execve'', [])"
proof -
  obtain s ev where s: "scanArguments records = (s, ev)" by (cases "scanArguments records")
  then have "s = \<lparr>sgArgs = spelledEntries 0 args, sgArgc = int (length args), sgValid = True\<rparr>"
    using scanArguments_fold [of records] execve_scan [OF assms(1,2)] assms(3) by simp
  moreover have "sort (map fst (spelledEntries 0 args)) = map int [0 ..< length args]"
    using map_fst_entries [of 0 args] sorted_ints [of 0 "length args"] by (simp add: sorted_sort_id)
  moreover have "decodeArguments 0 (map int [0 ..< length args]) (spelledEntries 0 args) =
      Some (map spelledText args)"
    using decodeArguments_entries [OF assms(2), of 0] by simp
  moreover have "length (spelledEntries 0 args) = length args" by (simp add: spelledEntries_def)
  ultimately show ?thesis using s assms(4) by (simp add: buildArguments_def)
qed

section \<open>Reported vectors are consistent\<close>

lemma decodeArguments_result:
  assumes "decodeArguments pos ix m = Some vs"
  shows "ix = map (\<lambda>k. pos + int k) [0 ..< length vs]" and "list_all utf8Valid vs"
    and "\<forall>k < length vs. \<exists>a. map_of m (pos + int k) = Some a \<and> decodeArgument a = Some (vs ! k)"
proof -
  have "length ix = length vs \<and> (\<forall>k < length vs. ix ! k = pos + int k \<and> utf8Valid (vs ! k) \<and>
      (\<exists>a. map_of m (pos + int k) = Some a \<and> decodeArgument a = Some (vs ! k)))"
    using assms
  proof (induction ix arbitrary: pos vs)
    case Nil
    then show ?case by simp
  next
    case (Cons i ix)
    obtain a v ws where a: "map_of m i = Some a" "decodeArgument a = Some v"
      "decodeArguments (pos + 1) ix m = Some ws" "pos = i" "utf8Valid v" "vs = v # ws"
      using Cons.prems by (auto split: option.splits if_splits)
    from Cons.IH [OF a(3)] a show ?case by (auto simp: nth_Cons add.assoc split: nat.splits)
  qed
  then show "ix = map (\<lambda>k. pos + int k) [0 ..< length vs]" and "list_all utf8Valid vs"
    and "\<forall>k < length vs. \<exists>a. map_of m (pos + int k) = Some a \<and> decodeArgument a = Some (vs ! k)"
    by (auto intro!: nth_equalityI simp: list_all_length)
qed

lemma buildArguments_execve:
  assumes ex: "list_ex (\<lambda>r. rType r = ''EXECVE'') records" and res: "buildArguments records = (argv, source, [])"
  shows "source = ''execve''" and "sgValid (fst (scanArguments records))"
    and "sgArgc (fst (scanArguments records)) = int (length argv)" and "list_all utf8Valid argv"
    and "\<forall>k < length argv. \<exists>a. map_of (sgArgs (fst (scanArguments records))) (int k) = Some a \<and>
           decodeArgument a = Some (argv ! k)"
proof -
  obtain s ev where s: "scanArguments records = (s, ev)" by (cases "scanArguments records")
  obtain vs where vs: "decodeArguments 0 (sort (map fst (sgArgs s))) (sgArgs s) = Some vs"
    and ok: "sgValid s" "sgArgc s = int (length (sgArgs s))" "argv = vs" "source = ''execve''"
    using res ex s by (auto simp: buildArguments_def Let_def split: option.splits if_splits)
  note r = decodeArguments_result [OF vs]
  have "length (sgArgs s) = length vs" using arg_cong [OF r(1), of length] by simp
  with ok r(2,3) s show "source = ''execve''" "sgValid (fst (scanArguments records))"
    "sgArgc (fst (scanArguments records)) = int (length argv)" "list_all utf8Valid argv"
    "\<forall>k < length argv. \<exists>a. map_of (sgArgs (fst (scanArguments records))) (int k) = Some a \<and>
           decodeArgument a = Some (argv ! k)"
    by auto
qed

end
