(* ===== verification/Classification.thy ===== *)
theory Classification
  imports Canonical DecodingProperties ArgumentProperties
begin

text \<open>
  internal/audit/classify.go: category and action of a canonical event, from its security family,
  the execution of a program, or the first matching rule of the CIS table.
\<close>

definition containsString :: "string list \<Rightarrow> string \<Rightarrow> bool" where
  "containsString values wanted \<longleftrightarrow> wanted \<in> set values"

definition normalizedAuditKey :: "string \<Rightarrow> string" where
  "normalizedAuditKey value =
     map (\<lambda>c. if c = CHR ''-'' then CHR ''_'' else c) (toLower (trimSpace value))"

definition writeSyscalls :: "string list" where
  "writeSyscalls = [''write'', ''pwrite64'', ''writev'', ''pwritev'', ''pwritev2'']"

definition mutatingSyscalls :: "string list" where
  "mutatingSyscalls =
     [''creat'', ''truncate'', ''ftruncate'', ''chmod'', ''fchmod'', ''fchmodat'', ''fchmodat2'',
      ''chown'', ''fchown'', ''fchownat'', ''lchown'', ''setxattr'', ''lsetxattr'', ''fsetxattr'',
      ''removexattr'', ''lremovexattr'', ''fremovexattr'', ''unlink'', ''unlinkat'', ''rename'',
      ''renameat'', ''renameat2'']"

definition pathEvidenceIsMutation :: "canonicalEvent \<Rightarrow> bool" where
  "pathEvidenceIsMutation e =
     (case evProcess e of
        None \<Rightarrow> False
      | Some p \<Rightarrow>
        let syscall = toLower (prSyscall p)
        in if syscall \<in> set writeSyscalls
           then (case parseInt10 (prReturnValue p) of None \<Rightarrow> False | Some n \<Rightarrow> n > 0)
           else syscall \<in> set mutatingSyscalls)"

definition pathMatches :: "classificationRule \<Rightarrow> canonicalPath \<Rightarrow> bool" where
  "pathMatches rule path \<longleftrightarrow>
     containsString (crPaths rule) (paName path) \<or>
     list_ex (\<lambda>pre. hasPrefix (paName path) pre) (crPathPrefixes rule)"

definition classificationRuleMatches :: "canonicalEvent \<Rightarrow> classificationRule \<Rightarrow> bool" where
  "classificationRuleMatches e rule \<longleftrightarrow>
     (if crRequireFailure rule \<and> mtSuccess (evMeta e) \<noteq> Some False then False
      else if (case evProcess e of None \<Rightarrow> False
               | Some p \<Rightarrow> containsString (crSyscalls rule) (toLower (prSyscall p))) then True
      else if (case evRuleKeys e of None \<Rightarrow> False
               | Some keys \<Rightarrow> list_ex (\<lambda>k. containsString (crKeys rule) (normalizedAuditKey k)) keys) then True
      else list_ex (\<lambda>path. pathMatches rule path \<and> pathEvidenceIsMutation e) (evPaths e))"

definition classificationOperationSupported :: "canonicalEvent \<Rightarrow> classificationRule \<Rightarrow> bool" where
  "classificationOperationSupported e rule =
     (case evProcess e of
        None \<Rightarrow> False
      | Some p \<Rightarrow>
        let syscall = toLower (prSyscall p)
        in if syscall \<in> {''adjtimex'', ''clock_adjtime'', ''settimeofday''} then False
           else if containsString (crSyscalls rule) syscall then True
           else if \<not> pathEvidenceIsMutation e then False
           else list_ex (pathMatches rule) (evPaths e))"

definition setCategory :: "string \<Rightarrow> string \<Rightarrow> canonicalEvent \<Rightarrow> canonicalEvent" where
  "setCategory category action e =
     e\<lparr>evMeta := (evMeta e)\<lparr>mtCategory := category, mtAction := action\<rparr>\<rparr>"

text \<open>
  The range over the map of seccomp actions stops at the first entry with the action's name; the
  names of the table are distinct, so the order does not matter.
\<close>

definition seccompEventAction :: "string \<Rightarrow> string \<Rightarrow> string" where
  "seccompEventAction name fallback =
     (case find (\<lambda>(code, a). saAction a = name) seccompActions of
        Some (code, a) \<Rightarrow> saEventAction a
      | None \<Rightarrow> fallback)"

definition executesProgram :: "canonicalEvent \<Rightarrow> bool" where
  "executesProgram e =
     (case evProcess e of
        None \<Rightarrow> False
      | Some p \<Rightarrow> prSyscall p = ''execve'' \<or> prSyscall p = ''execveat'' \<or> prArgvSource p = ''execve'')"

definition ruleAction :: "canonicalEvent \<Rightarrow> classificationRule \<Rightarrow> string" where
  "ruleAction e rule =
     (if crAction rule \<noteq> ''access'' \<and> \<not> classificationOperationSupported e rule
      then ''observe_'' @ crCategory rule @ ''_activity'' else crAction rule)"

definition familyAction :: "canonicalEvent \<Rightarrow> securityEventFamily \<Rightarrow> string" where
  "familyAction e f =
     (if mtType (evMeta e) = ''SECCOMP''
      then (case evSecurity e of
              Some s \<Rightarrow> (case csSeccomp s of
                          Some sc \<Rightarrow> seccompEventAction (scAction sc) (sfAction f)
                        | None \<Rightarrow> sfAction f)
            | None \<Rightarrow> sfAction f)
      else sfAction f)"

definition classifyCanonicalEvent :: "canonicalEvent \<Rightarrow> canonicalEvent" where
  "classifyCanonicalEvent e =
     (let family = securityEventFamilyForType (mtType (evMeta e))
      in case family of
           Some f \<Rightarrow>
             if mtType (evMeta e) \<noteq> ''KERN_MODULE'' then setCategory (sfCategory f) (familyAction e f) e
             else if executesProgram e then setCategory ''process'' ''execute'' e
             else (case find (classificationRuleMatches e) cisRules of
                     Some rule \<Rightarrow> setCategory (crCategory rule) (ruleAction e rule) e
                   | None \<Rightarrow> setCategory (sfCategory f) (sfAction f) e)
         | None \<Rightarrow>
             if executesProgram e then setCategory ''process'' ''execute'' e
             else (case find (classificationRuleMatches e) cisRules of
                     Some rule \<Rightarrow> setCategory (crCategory rule) (ruleAction e rule) e
                   | None \<Rightarrow> e))"

definition BuildCanonicalEvent :: "(string \<Rightarrow> string) \<Rightarrow> assembledEvent \<Rightarrow> string \<Rightarrow> canonicalEvent" where
  "BuildCanonicalEvent lo assembled host = classifyCanonicalEvent (unclassifiedEvent lo assembled host)"

section \<open>Properties\<close>

subsection \<open>Selected values\<close>

lemma recordValue_in:
  assumes "recordValue r k \<noteq> []" and "rValues r = Some m"
  shows "recordValue r k \<in> set (gmList m k)" and "k \<notin> set (rConflicts r)"
  using assms firstNonempty_in
  by (auto simp: recordValue_def firstValue_def split: if_splits)

definition tabled :: "auditRecord \<Rightarrow> bool" where
  "tabled r \<longleftrightarrow> wfValues r \<and> rValues r \<noteq> None \<and> rEmbeddedValues r \<noteq> None"

lemma semanticRecordValue_in:
  assumes "semanticRecordValue r k \<noteq> []" and "tabled r"
  shows "semanticRecordValue r k \<in> set (recordValues r k)" and "k \<notin> set (rConflicts r)"
proof -
  obtain m n where m: "rValues r = Some m" "rEmbeddedValues r = Some n"
    using assms(2) by (auto simp: tabled_def)
  show "k \<notin> set (rConflicts r)" using assms(1) by (auto simp: semanticRecordValue_def split: if_splits)
  then show "semanticRecordValue r k \<in> set (recordValues r k)"
    using assms(1) m firstNonempty_in
    by (auto simp: semanticRecordValue_def recordValue_def recordValues_def firstValue_def optionMap_def
        split: if_splits)
qed

lemma firstSemanticRecordValue_source:
  "firstSemanticRecordValue rs k \<noteq> [] \<Longrightarrow>
     \<exists>r \<in> set rs. semanticRecordValue r k = firstSemanticRecordValue rs k"
  by (induction rs) auto

lemma decodedRecords_tabled:
  assumes "\<forall>r \<in> set rs. tabled r" and "decodedRecords rs = (rs', issues)" and "r' \<in> set rs'"
  shows "tabled r'"
proof -
  have wf: "\<forall>r \<in> set rs. wfValues r" using assms(1) by (simp add: tabled_def)
  obtain d cs where d: "d \<in> set (map (\<lambda>(i, r). fst (decodeRecord i r)) (enumerate 0 rs))"
    and r': "r' = d\<lparr>rConflicts := cs\<rparr>"
    using decodedRecords_result [OF wf assms(2)] assms(3) by (rule list_all2_conflicts_mono)
  from d obtain i where "i < length rs" "d = fst (decodeRecord i (rs ! i))"
    by (auto simp: in_set_enumerate_eq)
  then obtain r where "r \<in> set rs" "d = fst (decodeRecord i r)" using nth_mem by blast
  with assms(1) have "tabled d"
    by (auto simp: tabled_def decodeRecord_wf) (auto simp: decodeRecord_def Let_def)
  then show ?thesis by (simp add: r' tabled_def wfValues_def)
qed

lemma selected_value_agrees:
  assumes t: "\<forall>r \<in> set rs. tabled r" and dec: "decodedRecords rs = (rs', issues)"
    and k: "eventSingleton k" and sel: "firstSemanticRecordValue rs' k \<noteq> []"
  shows "\<forall>r \<in> set rs'. \<forall>v \<in> set (recordValues r k). v = firstSemanticRecordValue rs' k"
proof -
  obtain r where r: "r \<in> set rs'" "semanticRecordValue r k = firstSemanticRecordValue rs' k"
    using firstSemanticRecordValue_source [OF sel] by blast
  have ne: "semanticRecordValue r k \<noteq> []" using r sel by simp
  note tr = decodedRecords_tabled [OF t dec r(1)]
  have wf: "\<forall>r \<in> set rs. wfValues r" using t by (simp add: tabled_def)
  have "\<not> ambiguous (eventValues rs' k)"
    using wf dec k r(1) semanticRecordValue_in(2) [OF ne tr] by (rule decodedRecords_agree)
  moreover have "firstSemanticRecordValue rs' k \<in> set (eventValues rs' k)"
    using semanticRecordValue_in(1) [OF ne tr] r by (auto simp: eventValues_def)
  ultimately show ?thesis by (auto simp: ambiguous_def eventValues_def)
qed

subsection \<open>Capability masks\<close>

lemma sum_bits:
  fixes m :: int
  assumes "0 \<le> m"
  shows "sum_list (map (\<lambda>i. 2 ^ i) (filter (maskBit m) [0 ..< n])) = m mod 2 ^ n"
proof (induction n)
  case 0
  then show ?case by simp
next
  case (Suc n)
  have "m mod (2 ^ n * 2) = 2 ^ n * (m div 2 ^ n mod 2) + m mod 2 ^ n"
    by (rule zmod_zmult2_eq) simp
  then have "m mod 2 ^ Suc n = 2 ^ n * (m div 2 ^ n mod 2) + m mod 2 ^ n"
    by (simp only: power_Suc mult.commute)
  with Suc show ?case by (auto simp: maskBit_def)
qed

lemma maskRemaining_zero:
  assumes "0 \<le> m"
  shows "maskRemaining m = 0 \<longleftrightarrow> m < 2 ^ length linuxCapabilityNames"
proof -
  have "maskRemaining m = m - m mod 2 ^ length linuxCapabilityNames"
    using sum_bits [OF assms] by (simp add: maskRemaining_def)
  also have "\<dots> = 0 \<longleftrightarrow> m < 2 ^ length linuxCapabilityNames"
    using assms by (metis diff_eq_eq add_0 mod_pos_pos_trivial pos_mod_bound zero_less_numeral zero_less_power)
  finally show ?thesis .
qed

lemma maskNames_member:
  "n \<in> set (maskNames m) \<longleftrightarrow> (\<exists>i < length linuxCapabilityNames. linuxCapabilityNames ! i = n \<and> maskBit m i)"
proof -
  have "n \<in> set (maskNames m) \<longleftrightarrow>
      (\<exists>e \<in> set (enumerate 0 linuxCapabilityNames). snd e = n \<and> maskBit m (fst e))"
    by (auto simp: maskNames_def split_def)
  also have "\<dots> \<longleftrightarrow> (\<exists>i < length linuxCapabilityNames. linuxCapabilityNames ! i = n \<and> maskBit m i)"
  proof
    assume "\<exists>i < length linuxCapabilityNames. linuxCapabilityNames ! i = n \<and> maskBit m i"
    then obtain i where "i < length linuxCapabilityNames" "linuxCapabilityNames ! i = n" "maskBit m i" by blast
    then have "(i, n) \<in> set (enumerate 0 linuxCapabilityNames)" by (auto simp: in_set_enumerate_eq)
    with \<open>maskBit m i\<close> show "\<exists>e \<in> set (enumerate 0 linuxCapabilityNames). snd e = n \<and> maskBit m (fst e)"
      by force
  qed (auto simp: in_set_enumerate_eq)
  finally show ?thesis .
qed

subsection \<open>Order independence\<close>

lemma sort_key_first:
  assumes "mset xs = mset ys" and "sort_key f xs = a # as" and "sort_key f ys = b # bs"
  shows "f a = f b" and "a \<in> set xs" and "b \<in> set xs"
proof -
  have sets: "set (a # as) = set xs" "set (b # bs) = set xs"
    using assms(2,3) mset_eq_setD [OF assms(1)] by (metis set_sort)+
  have "sorted (map f (a # as))" "sorted (map f (b # bs))"
    using assms(2,3) by (metis sorted_sort_key)+
  then have "\<forall>x \<in> set xs. f a \<le> f x" "\<forall>x \<in> set xs. f b \<le> f x" using sets by auto
  moreover show "a \<in> set xs" "b \<in> set xs" using sets by auto
  ultimately show "f a = f b" by (simp add: order.antisym)
qed

lemma sort_key_Nil:
  assumes "mset xs = mset ys"
  shows "sort_key f xs = [] \<longleftrightarrow> sort_key f ys = []"
  using assms by (metis mset_sort mset_zero_iff)

end
