(* ===== verification/CanonicalProperties.thy ===== *)
theory CanonicalProperties
  imports Classification
begin

text \<open>
  What a canonical event asserts: nothing beyond its evidence. Lemmas on the result, the integrity
  state, the identities, the selected security decision and the preservation of raw lines.
\<close>

section \<open>Frame of the classification\<close>

lemma setCategory_frame [simp]:
  "evAudit (setCategory c a e) = evAudit e" "evSource (setCategory c a e) = evSource e"
  "evActor (setCategory c a e) = evActor e" "evProcess (setCategory c a e) = evProcess e"
  "evSecurity (setCategory c a e) = evSecurity e" "evPaths (setCategory c a e) = evPaths e"
  "mtType (evMeta (setCategory c a e)) = mtType (evMeta e)"
  "mtSuccess (evMeta (setCategory c a e)) = mtSuccess (evMeta e)"
  "mtIntegrity (evMeta (setCategory c a e)) = mtIntegrity (evMeta e)"
  "mtIssues (evMeta (setCategory c a e)) = mtIssues (evMeta e)"
  "mtCategory (evMeta (setCategory c a e)) = c" "mtAction (evMeta (setCategory c a e)) = a"
  by (simp_all add: setCategory_def)

lemma classify_outcome:
  "classifyCanonicalEvent e = e \<or> (\<exists>c a. classifyCanonicalEvent e = setCategory c a e)"
  unfolding classifyCanonicalEvent_def Let_def
  by (simp split: option.split if_split) blast

lemma classify_cases:
  obtains "classifyCanonicalEvent e = e" | c a where "classifyCanonicalEvent e = setCategory c a e"
  using classify_outcome by blast

lemma classify_frame [simp]:
  "evAudit (classifyCanonicalEvent e) = evAudit e" "evSource (classifyCanonicalEvent e) = evSource e"
  "evActor (classifyCanonicalEvent e) = evActor e" "evProcess (classifyCanonicalEvent e) = evProcess e"
  "evSecurity (classifyCanonicalEvent e) = evSecurity e" "evPaths (classifyCanonicalEvent e) = evPaths e"
  "mtType (evMeta (classifyCanonicalEvent e)) = mtType (evMeta e)"
  "mtSuccess (evMeta (classifyCanonicalEvent e)) = mtSuccess (evMeta e)"
  "mtIntegrity (evMeta (classifyCanonicalEvent e)) = mtIntegrity (evMeta e)"
  "mtIssues (evMeta (classifyCanonicalEvent e)) = mtIssues (evMeta e)"
  by (cases rule: classify_cases [of e]; simp)+

definition eventRecordsDecoded :: "assembledEvent \<Rightarrow> auditRecord list" where
  "eventRecordsDecoded e = fst (decodedRecords (aeRecords e))"

lemma BuildCanonicalEvent_fields:
  "mtSuccess (evMeta (BuildCanonicalEvent lo e host)) = fst (eventSuccess (eventRecordsDecoded e))"
  "mtType (evMeta (BuildCanonicalEvent lo e host)) = eventType (eventRecordsDecoded e)"
  "mtIntegrity (evMeta (BuildCanonicalEvent lo e host)) =
     (if aeComplete e then None else Some \<lparr>inState = ''incomplete'', inReason = aeCompletion e\<rparr>)"
  "evActor (BuildCanonicalEvent lo e host) =
     (if identityEmpty (loginIdentity (eventRecordsDecoded e)) then None
      else Some (setActorIdentity \<lparr>acUser = [], acUserID = []\<rparr> (loginIdentity (eventRecordsDecoded e))))"
  "evProcess (BuildCanonicalEvent lo e host) =
     (if hasCanonicalProcess (identifiedProcess (eventRecordsDecoded e))
      then Some (identifiedProcess (eventRecordsDecoded e)) else None)"
  "evSecurity (BuildCanonicalEvent lo e host) = eventSecurity lo (eventRecordsDecoded e)"
  by (simp_all add: BuildCanonicalEvent_def unclassifiedEvent_def eventRecordsDecoded_def Let_def
      split: prod.splits)

section \<open>The result\<close>

lemma decided_Some:
  assumes "decided kinds records = Some b"
  shows "\<exists>pre kind post. kinds = pre @ kind # post \<and> unanimous (statedResults kind records) b \<and>
     (\<forall>k \<in> set pre. statedResults k records = [])"
  using assms
proof (induction kinds)
  case Nil
  then show ?case by simp
next
  case (Cons kind kinds)
  show ?case
  proof (cases "statedResults kind records = []")
    case True
    with Cons obtain pre k post where "kinds = pre @ k # post" "unanimous (statedResults k records) b"
      "\<forall>k \<in> set pre. statedResults k records = []"
      by (auto simp: Let_def)
    with True have "kind # kinds = (kind # pre) @ k # post \<and> unanimous (statedResults k records) b \<and>
        (\<forall>k \<in> set (kind # pre). statedResults k records = [])"
      by simp
    then show ?thesis by blast
  next
    case False
    with Cons.prems have "unanimous (statedResults kind records) b"
      by (auto simp: Let_def split: if_splits)
    then have "kind # kinds = [] @ kind # kinds \<and> unanimous (statedResults kind records) b \<and>
        (\<forall>k \<in> set []. statedResults k records = [])"
      by simp
    then show ?thesis by blast
  qed
qed

lemma eventSuccess_decided:
  "fst (eventSuccess records) = decided (resultTypes records (eventType records)) records"
  using firstResult_decided [of "resultTypes records (eventType records)" records]
  by (auto simp: eventSuccess_def canonicalSuccess_def split: prod.splits)

section \<open>Selection does not depend on the arrival order\<close>

lemma sort_key_first_image:
  assumes "f ` set xs = f ` set ys" and "sort_key f xs = a # as" and "sort_key f ys = b # bs"
  shows "f a = f b"
proof -
  have sets: "set (a # as) = set xs" "set (b # bs) = set ys"
    using assms(2,3) by (metis set_sort)+
  have sorted: "sorted (map f (a # as))" "sorted (map f (b # bs))"
    using assms(2,3) by (metis sorted_sort_key)+
  have la: "\<forall>y \<in> f ` set xs. f a \<le> y" and lb: "\<forall>y \<in> f ` set ys. f b \<le> y"
    using sorted unfolding sets [symmetric] by auto
  have "f a \<in> f ` set xs" "f b \<in> f ` set ys" using sets by force+
  then have "f a \<in> f ` set ys" "f b \<in> f ` set xs" using assms(1) by simp_all
  with la lb have "f a \<le> f b" "f b \<le> f a" by blast+
  then show ?thesis by (rule order.antisym)
qed

lemma securityCandidates_set:
  "(\<lambda>(i, r, s). (r, s)) ` set (securityCandidates lo records) =
     {(r, s). r \<in> set records \<and> rType r \<noteq> ''SECCOMP'' \<and> buildCanonicalSecurityRecord lo r = Some s}"
  (is "?L = ?R")
proof
  show "?L \<subseteq> ?R"
    by (auto simp: securityCandidates_def in_set_enumerate_eq split: if_splits option.splits)
  show "?R \<subseteq> ?L"
  proof clarify
    fix r s assume r: "r \<in> set records" "rType r \<noteq> ''SECCOMP''" "buildCanonicalSecurityRecord lo r = Some s"
    then obtain i where "i < length records" "records ! i = r" by (auto simp: in_set_conv_nth)
    then have "(i, r) \<in> set (enumerate 0 records)" by (auto simp: in_set_enumerate_eq)
    with r have "(i, r, s) \<in> set (securityCandidates lo records)"
      by (force simp: securityCandidates_def)
    then show "(r, s) \<in> ?L" by force
  qed
qed

lemma securityOrder_image:
  "securityOrder ` set (securityCandidates lo records) =
     (\<lambda>(r, s). (securityRecordRank (rType r), rType r, securityJSON s)) `
       {(r, s). r \<in> set records \<and> rType r \<noteq> ''SECCOMP'' \<and> buildCanonicalSecurityRecord lo r = Some s}"
  unfolding securityCandidates_set [symmetric] image_image
  by (rule image_cong [OF refl]) (simp add: securityOrder_def split: prod.splits)

lemma buildCanonicalSecurity_mset:
  assumes "mset rs = mset rs'"
  shows "map_option securityJSON (fst (buildCanonicalSecurity lo rs)) =
     map_option securityJSON (fst (buildCanonicalSecurity lo rs'))"
proof -
  let ?c = "securityCandidates lo rs" and ?c' = "securityCandidates lo rs'"
  have img: "securityOrder ` set ?c = securityOrder ` set ?c'"
    unfolding securityOrder_image using mset_eq_setD [OF assms] by simp
  show ?thesis
  proof (cases "sort_key securityOrder ?c")
    case Nil
    then have "?c = []" by (metis set_empty set_sort)
    with img have "?c' = []" by simp
    with \<open>?c = []\<close> show ?thesis by (simp add: buildCanonicalSecurity_def)
  next
    case (Cons a as)
    then have "?c \<noteq> []" by auto
    with img have "?c' \<noteq> []" by auto
    then obtain b bs where b: "sort_key securityOrder ?c' = b # bs"
      by (metis neq_Nil_conv set_empty set_sort)
    have "securityOrder a = securityOrder b" using img Cons b by (rule sort_key_first_image)
    with Cons b show ?thesis
      by (simp add: buildCanonicalSecurity_def securityOrder_def split: prod.splits)
  qed
qed

section \<open>Raw lines survive\<close>

definition rawBytes :: "canonicalEvent \<Rightarrow> string option" where
  "rawBytes e =
     (if auRawEncoding (evAudit e) = ''hex'' then hexDecode (auRaw (evAudit e)) else Some (auRaw (evAudit e)))"

lemma rawBytes_parse_failure: "rawBytes (BuildParseFailureEvent line err host) = Some line"
  by (auto simp: BuildParseFailureEvent_def rawBytes_def canonicalAudit_def Let_def hexDecode_hexEncode)

lemma rawBytes_exception: "rawBytes (BuildAssemblyException r host) = Some (rRaw r)"
proof -
  have "rawBytes (BuildAssemblyException r host) =
      rawBytes (BuildParseFailureEvent (rRaw r) assemblyLimitText host)"
    by (simp add: BuildAssemblyException_def rawBytes_def Let_def)
  then show ?thesis by (simp add: rawBytes_parse_failure)
qed

lemma hexDigit_ascii: "n < 16 \<Longrightarrow> byte (hexDigit n) < 128"
  by (simp add: hexDigit_def byte_char_of)

lemma parse_failure_utf8: "utf8Valid (auRaw (evAudit (BuildParseFailureEvent line err host)))"
proof -
  have hex: "list_all (\<lambda>c. byte c < 128) (hexEncode s)" for s
    by (induction s) (simp_all add: hexDigit_ascii less_mult_imp_div_less)
  show ?thesis
    using utf8Valid_ascii [OF hex [of line]]
    by (auto simp: BuildParseFailureEvent_def canonicalAudit_def Let_def)
qed

lemma exception_utf8: "utf8Valid (auRaw (evAudit (BuildAssemblyException r host)))"
proof -
  have "auRaw (evAudit (BuildAssemblyException r host)) = auRaw (evAudit (BuildParseFailureEvent (rRaw r) assemblyLimitText host))"
    by (simp add: BuildAssemblyException_def Let_def)
  then show ?thesis by (simp add: parse_failure_utf8)
qed

section \<open>Rules of the CIS table\<close>

text \<open>
  What ties an event to a rule, in terms of the event: its system call, a rule key, or a path the
  call has modified; the failure the rule asks for must be stated.
\<close>

definition callOf :: "canonicalProcess \<Rightarrow> string" where
  "callOf p = toLower (prSyscall p)"

definition modifies :: "canonicalProcess \<Rightarrow> bool" where
  "modifies p \<longleftrightarrow> callOf p \<in> set mutatingSyscalls \<or>
     callOf p \<in> set writeSyscalls \<and> (\<exists>n > 0. parseInt10 (prReturnValue p) = Some n)"

definition namesRulePath :: "classificationRule \<Rightarrow> canonicalEvent \<Rightarrow> bool" where
  "namesRulePath rule e \<longleftrightarrow> (\<exists>path \<in> set (evPaths e).
     paName path \<in> set (crPaths rule) \<or> (\<exists>pre \<in> set (crPathPrefixes rule). prefix pre (paName path)))"

definition tiedToRule :: "canonicalEvent \<Rightarrow> classificationRule \<Rightarrow> bool" where
  "tiedToRule e rule \<longleftrightarrow>
     (crRequireFailure rule \<longrightarrow> mtSuccess (evMeta e) = Some False) \<and>
     ((\<exists>p. evProcess e = Some p \<and> callOf p \<in> set (crSyscalls rule)) \<or>
      (\<exists>keys. evRuleKeys e = Some keys \<and> (\<exists>key \<in> set keys. normalizedAuditKey key \<in> set (crKeys rule))) \<or>
      (\<exists>p. evProcess e = Some p \<and> modifies p) \<and> namesRulePath rule e)"

text \<open>
  What proves the operation of a rule: the system call is one of the rule's, or it has modified one of
  the rule's paths; never a rule key, and never a call that may only have read the clock.
\<close>

definition provesOperation :: "canonicalEvent \<Rightarrow> classificationRule \<Rightarrow> bool" where
  "provesOperation e rule \<longleftrightarrow>
     (\<exists>p. evProcess e = Some p \<and> callOf p \<notin> {''adjtimex'', ''clock_adjtime'', ''settimeofday''} \<and>
        (callOf p \<in> set (crSyscalls rule) \<or> modifies p \<and> namesRulePath rule e))"

lemma write_not_mutating: "set writeSyscalls \<inter> set mutatingSyscalls = {}"
  by (simp add: writeSyscalls_def mutatingSyscalls_def)

lemma pathEvidence_modifies: "evProcess e = Some p \<Longrightarrow> pathEvidenceIsMutation e = modifies p"
  using write_not_mutating
  by (auto simp: pathEvidenceIsMutation_def modifies_def callOf_def Let_def disjoint_iff split: option.splits)

lemma pathMatches_names: "list_ex (pathMatches rule) (evPaths e) = namesRulePath rule e"
  by (auto simp: namesRulePath_def pathMatches_def containsString_def list_ex_iff hasPrefix_def)

lemma classificationRuleMatches_tied: "classificationRuleMatches e rule = tiedToRule e rule"
proof -
  have "list_ex (\<lambda>path. pathMatches rule path \<and> pathEvidenceIsMutation e) (evPaths e) \<longleftrightarrow>
      namesRulePath rule e \<and> pathEvidenceIsMutation e"
    by (auto simp: pathMatches_names [symmetric] list_ex_iff)
  moreover have "pathEvidenceIsMutation e \<longleftrightarrow> (\<exists>p. evProcess e = Some p \<and> modifies p)"
    using pathEvidence_modifies by (cases "evProcess e") (auto simp: pathEvidenceIsMutation_def)
  ultimately show ?thesis
    by (auto simp: classificationRuleMatches_def tiedToRule_def callOf_def containsString_def list_ex_iff
        split: option.splits)
qed

lemma classificationOperationSupported_proves: "classificationOperationSupported e rule = provesOperation e rule"
  using pathEvidence_modifies
  by (cases "evProcess e")
     (auto simp: classificationOperationSupported_def provesOperation_def callOf_def Let_def containsString_def
       pathMatches_names)

lemma find_first:
  assumes "find P xs = Some x"
  shows "\<exists>before after. xs = before @ x # after \<and> P x \<and> (\<forall>y \<in> set before. \<not> P y)"
proof -
  obtain i where i: "i < length xs" "P (xs ! i)" "x = xs ! i" "\<forall>j < i. \<not> P (xs ! j)"
    using assms by (auto simp: find_Some_iff)
  have "\<forall>y \<in> set (take i xs). \<not> P y" using i(1,4) by (auto simp: in_set_conv_nth)
  moreover have "xs = take i xs @ x # drop (Suc i) xs" using i(1,3) by (simp add: id_take_nth_drop)
  ultimately show ?thesis using i(2,3) by blast
qed

text \<open>In the table, a rule about access is about a failed one.\<close>

lemma access_rules_failed: "\<forall>rule \<in> set cisRules. crAction rule = ''access'' \<longrightarrow> crRequireFailure rule"
  by code_simp

text \<open>An event that reaches the rules: of no security family but a kernel module's, executing nothing.\<close>

definition reachesRules :: "canonicalEvent \<Rightarrow> bool" where
  "reachesRules e \<longleftrightarrow>
     (securityEventFamilyForType (mtType (evMeta e)) = None \<or> mtType (evMeta e) = ''KERN_MODULE'') \<and> \<not> executesProgram e"

lemma classify_reached:
  assumes "reachesRules e"
  shows "classifyCanonicalEvent e =
     (case find (tiedToRule e) cisRules of
        Some rule \<Rightarrow> setCategory (crCategory rule) (ruleAction e rule) e
      | None \<Rightarrow> (case securityEventFamilyForType (mtType (evMeta e)) of
                   None \<Rightarrow> e | Some f \<Rightarrow> setCategory (sfCategory f) (sfAction f) e))"
proof -
  have "classificationRuleMatches e = tiedToRule e" using classificationRuleMatches_tied by blast
  with assms show ?thesis
    by (auto simp: classifyCanonicalEvent_def reachesRules_def Let_def split: option.splits)
qed

section \<open>The actor\<close>

lemma firstRecordValue_source:
  "firstRecordValue rs k \<noteq> [] \<Longrightarrow> \<exists>r \<in> set rs. recordValue r k = firstRecordValue rs k"
  by (induction rs) auto

lemma interpretedValue_source:
  "interpretedValue rs k \<noteq> [] \<Longrightarrow> \<exists>r \<in> set rs. recordValue r k = interpretedValue rs k \<and>
     \<not> equalFold (interpretedValue rs k) ''unset'' \<and> \<not> isDecimal (interpretedValue rs k)"
  by (induction rs) (auto simp: interpretedRecordValue_def Let_def split: if_splits)

text \<open>A value is that of a key when some record carries it and every value carried for the key is it.\<close>

definition agreedValue :: "auditRecord list \<Rightarrow> string \<Rightarrow> string \<Rightarrow> bool" where
  "agreedValue rs k v \<longleftrightarrow> (\<exists>r \<in> set rs. v \<in> set (recordValues r k)) \<and> (\<forall>r \<in> set rs. \<forall>u \<in> set (recordValues r k). u = v)"

lemma recordValue_agreed:
  assumes t: "\<forall>r \<in> set rs. tabled r" and dec: "decodedRecords rs = (rs', issues)"
    and k: "eventSingleton k" and r: "r \<in> set rs'" "recordValue r k \<noteq> []"
  shows "agreedValue rs' k (recordValue r k)"
proof -
  have "tabled r" using decodedRecords_tabled [OF t dec r(1)] .
  then obtain m where m: "rValues r = Some m" by (auto simp: tabled_def)
  note v = recordValue_in [OF r(2) m]
  have wf: "\<forall>r \<in> set rs. wfValues r" using t by (simp add: tabled_def)
  have "\<not> ambiguous (eventValues rs' k)" using decodedRecords_agree [OF wf dec k r(1) v(2)] .
  moreover have "recordValue r k \<in> set (recordValues r k)" using v(1) m by (simp add: recordValues_def optionMap_def)
  ultimately show ?thesis using r(1) by (auto simp: agreedValue_def ambiguous_def eventValues_def)
qed

lemma actor_evidence:
  assumes "\<forall>r \<in> set (aeRecords e). tabled r" and "evActor (BuildCanonicalEvent lo e host) = Some a"
  shows "acUser a \<noteq> [] \<and> acUserID a = [] \<and> agreedValue (eventRecordsDecoded e) ''AUID'' (acUser a) \<and>
       \<not> equalFold (acUser a) ''unset'' \<and> \<not> isDecimal (acUser a) \<or>
     acUser a = [] \<and> acUserID a \<noteq> [] \<and> agreedValue (eventRecordsDecoded e) ''auid'' (acUserID a) \<and>
       \<not> auditIDUnset (acUserID a)"
    and "eventType (eventRecordsDecoded e) = ''LOGIN'' \<Longrightarrow> fst (eventSuccess (eventRecordsDecoded e)) = Some True"
proof -
  let ?rs = "eventRecordsDecoded e"
  have dec: "decodedRecords (aeRecords e) = (?rs, snd (decodedRecords (aeRecords e)))" by (simp add: eventRecordsDecoded_def)
  have login: "\<not> identityEmpty (loginIdentity ?rs)"
    and a: "a = setActorIdentity \<lparr>acUser = [], acUserID = []\<rparr> (loginIdentity ?rs)"
    using assms(2) unfolding BuildCanonicalEvent_fields by (simp_all split: if_splits)
  then have ident: "loginIdentity ?rs = \<lparr>siName = interpretedValue ?rs ''AUID'', siID = firstRecordValue ?rs ''auid''\<rparr>"
    and set: "\<not> auditIDUnset (firstRecordValue ?rs ''auid'')"
    by (auto simp: loginIdentity_def recordIdentity_def identityEmpty_def split: if_splits)
  show "eventType ?rs = ''LOGIN'' \<Longrightarrow> fst (eventSuccess ?rs) = Some True"
    using login by (auto simp: loginIdentity_def identityEmpty_def split: if_splits)
  have keys: "eventSingleton ''AUID''" "eventSingleton ''auid''" by (simp_all add: eventSingleton_def eventSingletonKeys_def)
  show "acUser a \<noteq> [] \<and> acUserID a = [] \<and> agreedValue ?rs ''AUID'' (acUser a) \<and>
       \<not> equalFold (acUser a) ''unset'' \<and> \<not> isDecimal (acUser a) \<or>
     acUser a = [] \<and> acUserID a \<noteq> [] \<and> agreedValue ?rs ''auid'' (acUserID a) \<and> \<not> auditIDUnset (acUserID a)"
  proof (cases "interpretedValue ?rs ''AUID'' = []")
    case True
    then have "firstRecordValue ?rs ''auid'' \<noteq> []" using login ident by (simp add: identityEmpty_def)
    moreover from firstRecordValue_source [OF this] obtain r where
      "r \<in> set ?rs" "recordValue r ''auid'' = firstRecordValue ?rs ''auid''" by blast
    ultimately show ?thesis
      using recordValue_agreed [OF assms(1) dec keys(2), of r] True set by (simp add: a ident setActorIdentity_def)
  next
    case False
    from interpretedValue_source [OF this] obtain r where r: "r \<in> set ?rs" "recordValue r ''AUID'' = interpretedValue ?rs ''AUID''"
      "\<not> equalFold (interpretedValue ?rs ''AUID'') ''unset''" "\<not> isDecimal (interpretedValue ?rs ''AUID'')" by blast
    with recordValue_agreed [OF assms(1) dec keys(1), of r] False show ?thesis
      by (simp add: a ident setActorIdentity_def)
  qed
qed

end
