(* ===== verification/SemanticTheorems.thy ===== *)
theory SemanticTheorems
  imports CanonicalProperties
begin

text \<open>
  The properties of the semantic layer: decoding, argument vectors, results, attribution, file
  capabilities, security decisions and canonical events, each with a witness.
\<close>

section \<open>Sample records\<close>

definition plainField :: "string \<Rightarrow> string \<Rightarrow> field" where
  "plainField k v = \<lparr>fKey = k, fValue = v, fQuoted = False, fInterpreted = False\<rparr>"

definition fieldRecord :: "string \<Rightarrow> field list \<Rightarrow> auditRecord" where
  "fieldRecord type fs =
     emptyRecord\<lparr>rType := type, rAllFields := fs, rValues := Some [], rEmbeddedValues := Some []\<rparr>"

definition loginRecord :: auditRecord where
  "loginRecord = fieldRecord ''LOGIN'' [plainField ''pid'' ''7'', plainField ''auid'' ''1000'', plainField ''res'' ''1'']"

lemma loginRecord_tabled: "tabled loginRecord"
  by (simp add: tabled_def loginRecord_def fieldRecord_def wfValues_def optionMap_def)

section \<open>Decoding\<close>

text \<open>
  C14: a reported identity is unambiguous. After decoding, if a value is selected for one of the
  event-wide keys (process, user, path, host and result fields), then every value any record of the
  event carries for that key, in its own fields or in its embedded message, equals the selected one.
\<close>

theorem selected_value_unambiguous:
  assumes "\<forall>r \<in> set rs. tabled r" and "decodedRecords rs = (rs', issues)"
    and "eventSingleton k" and "firstSemanticRecordValue rs' k \<noteq> []"
  shows "\<forall>r \<in> set rs'. \<forall>v \<in> set (recordValues r k). v = firstSemanticRecordValue rs' k"
  using assms by (rule selected_value_agrees)

theorem selected_value_unambiguous_witness:
  "list_all (\<lambda>r. list_all (\<lambda>v. v = ''7'') (recordValues r ''pid'')) (fst (decodedRecords [loginRecord]))"
proof -
  have v: "firstSemanticRecordValue (fst (decodedRecords [loginRecord])) ''pid'' = ''7''" by code_simp
  have d: "decodedRecords [loginRecord] = (fst (decodedRecords [loginRecord]), snd (decodedRecords [loginRecord]))"
    by simp
  have t: "\<forall>r \<in> set [loginRecord]. tabled r" using loginRecord_tabled by simp
  have k: "eventSingleton ''pid''" by code_simp
  show ?thesis using selected_value_unambiguous [OF t d k] v by (simp add: list_all_iff)
qed

text \<open>
  C23: conflicts are marked exactly. A key is a conflict of a decoded record precisely when its own
  values disagree, its semantic partner (decision/apparmor, scontext/subj, op/operation) states
  something else, the event's records disagree on it, or one of this holds of its alias.
\<close>

theorem conflicts_marked_exactly:
  assumes "\<forall>r \<in> set rs. wfValues r" and "markSingletonConflicts rs = (rs', issues)" and "i < length rs"
  shows "k \<in> set (rConflicts (rs' ! i)) \<longleftrightarrow> markedConflict rs (rs ! i) k"
  using markSingletonConflicts_result [OF assms(1,2)] assms(3)
  by (auto simp: list_all2_conv_all_nth)

theorem conflicts_marked_exactly_witness:
  "''pid'' \<in> set (rConflicts (fst (markSingletonConflicts
      [emptyRecord\<lparr>rValues := Some [(''pid'', [''1'', ''2''])]\<rparr>]) ! 0)) \<longleftrightarrow>
   markedConflict [emptyRecord\<lparr>rValues := Some [(''pid'', [''1'', ''2''])]\<rparr>]
     (emptyRecord\<lparr>rValues := Some [(''pid'', [''1'', ''2''])]\<rparr>) ''pid''"
proof -
  let ?rs = "[emptyRecord\<lparr>rValues := Some [(''pid'', [''1'', ''2''])]\<rparr>]"
  have w: "\<forall>r \<in> set ?rs. wfValues r" by (simp add: wfValues_def optionMap_def emptyRecord_def)
  have m: "markSingletonConflicts ?rs = (fst (markSingletonConflicts ?rs), snd (markSingletonConflicts ?rs))"
    by simp
  show ?thesis using conflicts_marked_exactly [OF w m, of 0 "''pid''"] by simp
qed

section \<open>Arguments\<close>

text \<open>
  C11: the argument vector is rebuilt exactly. If the EXECVE records of an event spell a vector, each
  argument quoted, in hexadecimal, or cut into numbered fragments with its length, spread over any
  number of records and mixed with other fields, then exactly that vector is reported and no issue.
\<close>

theorem argv_rebuilt_exactly:
  assumes "int (length args) < 2 ^ 63" and "list_all spellingOk args"
    and "argumentFields records = execveFields args" and "list_ex (\<lambda>r. rType r = ''EXECVE'') records"
  shows "buildArguments records = (map spelledText args, ''execve'', [])"
  using assms by (rule buildArguments_spelled)

definition sampleArgv :: "spelling list" where
  "sampleArgv = [Whole (Literal ''ls''), Cut [Hex ''-l'', Literal ''a'']]"

theorem argv_rebuilt_exactly_witness:
  "buildArguments [fieldRecord ''EXECVE'' (execveFields sampleArgv)] = ([''ls'', ''-la''], ''execve'', [])"
proof -
  have "buildArguments [fieldRecord ''EXECVE'' (execveFields sampleArgv)] = (map spelledText sampleArgv, ''execve'', [])"
  proof (rule argv_rebuilt_exactly)
    show "int (length sampleArgv) < 2 ^ 63" by (simp add: sampleArgv_def)
    show "list_all spellingOk sampleArgv" by code_simp
    show "argumentFields [fieldRecord ''EXECVE'' (execveFields sampleArgv)] = execveFields sampleArgv" by code_simp
    show "list_ex (\<lambda>r. rType r = ''EXECVE'') [fieldRecord ''EXECVE'' (execveFields sampleArgv)]" by code_simp
  qed
  then show ?thesis by (simp add: sampleArgv_def)
qed

text \<open>
  No inconsistent vector is reported. When EXECVE arguments come without an issue, the declared
  count is the length of the vector, every argument was decoded from fields of its own index, and
  all of them are valid UTF-8.
\<close>

theorem argv_consistent:
  assumes "list_ex (\<lambda>r. rType r = ''EXECVE'') records" and "buildArguments records = (argv, source, [])"
  shows "source = ''execve'' \<and> sgArgc (fst (scanArguments records)) = int (length argv) \<and>
     list_all utf8Valid argv \<and>
     (\<forall>k < length argv. \<exists>a. map_of (sgArgs (fst (scanArguments records))) (int k) = Some a \<and>
        decodeArgument a = Some (argv ! k))"
  using buildArguments_execve [OF assms] by blast

theorem argv_consistent_witness:
  "sgArgc (fst (scanArguments [fieldRecord ''EXECVE'' [plainField ''argc'' ''1'', plainField ''a0'' ''6c73'']])) = 1"
proof -
  let ?rs = "[fieldRecord ''EXECVE'' [plainField ''argc'' ''1'', plainField ''a0'' ''6c73'']]"
  have e: "list_ex (\<lambda>r. rType r = ''EXECVE'') ?rs" by code_simp
  have b: "buildArguments ?rs = ([''ls''], ''execve'', [])" by code_simp
  show ?thesis using argv_consistent [OF e b] by simp
qed

section \<open>Results and attribution\<close>

text \<open>
  C15: success is never asserted without evidence. If a canonical event reports a result, some record
  type states it unanimously in all its result fields, and every type of higher precedence (the
  primary action first, then the system call) states nothing.
\<close>

theorem success_is_evidenced:
  assumes "mtSuccess (evMeta (BuildCanonicalEvent lo e host)) = Some b"
  shows "\<exists>pre kind post. resultTypes (eventRecordsDecoded e) (mtType (evMeta (BuildCanonicalEvent lo e host))) =
       pre @ kind # post \<and>
     unanimous (statedResults kind (eventRecordsDecoded e)) b \<and>
     (\<forall>k \<in> set pre. statedResults k (eventRecordsDecoded e) = [])"
proof -
  have "decided (resultTypes (eventRecordsDecoded e) (eventType (eventRecordsDecoded e))) (eventRecordsDecoded e) = Some b"
    using assms unfolding BuildCanonicalEvent_fields eventSuccess_decided .
  from decided_Some [OF this] show ?thesis unfolding BuildCanonicalEvent_fields .
qed

definition loginEvent :: assembledEvent where
  "loginEvent = \<lparr>aeSequence = 0, aeExceptional = False, aeMixedNode = False, aeID = ''1.0:1'',
     aeRecords = [loginRecord], aeComplete = False, aeCompletion = CompletionTimeout\<rparr>"

theorem success_is_evidenced_witness:
  "\<exists>kind. unanimous (statedResults kind (eventRecordsDecoded loginEvent)) True"
proof -
  have "fst (eventSuccess (eventRecordsDecoded loginEvent)) = Some True" by code_simp
  then have "mtSuccess (evMeta (BuildCanonicalEvent id loginEvent [])) = Some True"
    by (simp add: BuildCanonicalEvent_fields)
  from success_is_evidenced [OF this] show ?thesis by blast
qed

text \<open>
  C24: the result does not depend on the order in which the records of the event arrived.
\<close>

theorem result_order_independent:
  assumes "mset rs = mset rs'" and "canonicalSuccess rs primary = (b, known, issues)"
    and "canonicalSuccess rs' primary = (b', known', issues')"
  shows "known = known' \<and> (known \<longrightarrow> b = b')"
proof -
  have "(if known then Some b else None) = (if known' then Some b' else None)"
    using firstResult_decided [of "resultTypes rs primary" rs] firstResult_decided [of "resultTypes rs' primary" rs']
      decided_mset [OF assms(1), of "resultTypes rs primary"] resultTypes_mset [OF assms(1), of primary] assms(2,3)
    by (simp add: canonicalSuccess_def)
  then show ?thesis by (cases known; cases known') simp_all
qed

theorem result_order_independent_witness:
  "fst (canonicalSuccess [loginRecord, emptyRecord] ''LOGIN'') = fst (canonicalSuccess [emptyRecord, loginRecord] ''LOGIN'')"
proof -
  have m: "mset [loginRecord, emptyRecord] = mset [emptyRecord, loginRecord]" by simp
  have k: "fst (snd (canonicalSuccess [loginRecord, emptyRecord] ''LOGIN''))" by code_simp
  let ?l = "canonicalSuccess [loginRecord, emptyRecord] ''LOGIN''"
  let ?r = "canonicalSuccess [emptyRecord, loginRecord] ''LOGIN''"
  have e: "?l = (fst ?l, fst (snd ?l), snd (snd ?l))" "?r = (fst ?r, fst (snd ?r), snd (snd ?r))"
    by (simp_all only: prod.collapse)
  show ?thesis using result_order_independent [OF m e] k by blast
qed

text \<open>
  C25: the actor of an event is evidenced by its records. A reported user name is the value some record
  carries for the interpreted login user, no record carries another, and it is neither unset nor a
  number; a reported user identifier is in the same way the one login identifier of the records, and
  not an unset one; never both are reported. And a LOGIN event, whose records only ask for the new
  identity, has an actor only if its records state success unanimously, by the first record type that
  states anything.
\<close>

theorem actor_evidenced:
  assumes "\<forall>r \<in> set (aeRecords e). tabled r" and "evActor (BuildCanonicalEvent lo e host) = Some a"
  shows "(acUser a \<noteq> [] \<and> acUserID a = [] \<and> agreedValue (eventRecordsDecoded e) ''AUID'' (acUser a) \<and>
        \<not> equalFold (acUser a) ''unset'' \<and> \<not> isDecimal (acUser a) \<or>
      acUser a = [] \<and> acUserID a \<noteq> [] \<and> agreedValue (eventRecordsDecoded e) ''auid'' (acUserID a) \<and>
        \<not> auditIDUnset (acUserID a)) \<and>
     (mtType (evMeta (BuildCanonicalEvent lo e host)) = ''LOGIN'' \<longrightarrow>
        (\<exists>pre kind post. resultTypes (eventRecordsDecoded e) ''LOGIN'' = pre @ kind # post \<and>
           unanimous (statedResults kind (eventRecordsDecoded e)) True \<and>
           (\<forall>k \<in> set pre. statedResults k (eventRecordsDecoded e) = [])))"
proof (intro conjI impI)
  assume "mtType (evMeta (BuildCanonicalEvent lo e host)) = ''LOGIN''"
  then have type: "eventType (eventRecordsDecoded e) = ''LOGIN''" unfolding BuildCanonicalEvent_fields .
  from actor_evidence(2) [OF assms type]
  have "decided (resultTypes (eventRecordsDecoded e) ''LOGIN'') (eventRecordsDecoded e) = Some True"
    unfolding eventSuccess_decided type .
  from decided_Some [OF this] show "\<exists>pre kind post. resultTypes (eventRecordsDecoded e) ''LOGIN'' = pre @ kind # post \<and>
           unanimous (statedResults kind (eventRecordsDecoded e)) True \<and>
           (\<forall>k \<in> set pre. statedResults k (eventRecordsDecoded e) = [])" .
qed (rule actor_evidence(1) [OF assms])

theorem actor_evidenced_witness:
  "(\<exists>kind. unanimous (statedResults kind (eventRecordsDecoded loginEvent)) True) \<and>
   (\<exists>a. evActor (BuildCanonicalEvent id loginEvent []) = Some a \<and> agreedValue (eventRecordsDecoded loginEvent) ''auid'' (acUserID a))"
proof -
  have t: "\<forall>r \<in> set (aeRecords loginEvent). tabled r" using loginRecord_tabled by (simp add: loginEvent_def)
  have "loginIdentity (eventRecordsDecoded loginEvent) = \<lparr>siName = [], siID = ''1000''\<rparr>" by code_simp
  then have a: "evActor (BuildCanonicalEvent id loginEvent []) = Some \<lparr>acUser = [], acUserID = ''1000''\<rparr>"
    unfolding BuildCanonicalEvent_fields by (simp add: identityEmpty_def setActorIdentity_def)
  have "eventType (eventRecordsDecoded loginEvent) = ''LOGIN''" by code_simp
  then have "mtType (evMeta (BuildCanonicalEvent id loginEvent [])) = ''LOGIN''" unfolding BuildCanonicalEvent_fields .
  with actor_evidenced [OF t a] a show ?thesis by auto
qed

text \<open>
  A reported attribution transition is well formed: it has an old or a new identity, and each
  has decimal 32-bit or unset identifiers, an unset login without a name, no numeric user name, and
  is not empty.
\<close>

theorem attribution_well_formed:
  assumes "buildAuditAttribution records = (Some a, issues)"
  shows "issues = [] \<and> (aaOld a \<noteq> None \<or> aaNew a \<noteq> None) \<and>
     (\<forall>i. aaOld a = Some i \<or> aaNew a = Some i \<longrightarrow> identityOk i)"
  using buildAuditAttribution_ok [OF assms] by blast

theorem attribution_well_formed_witness:
  "\<exists>a i. buildAuditAttribution [loginRecord] = (Some a, []) \<and> aaNew a = Some i \<and> identityOk i"
proof -
  have "case fst (buildAuditAttribution [loginRecord]) of None \<Rightarrow> False | Some a \<Rightarrow> aaNew a \<noteq> None" by code_simp
  then obtain a i issues where a: "buildAuditAttribution [loginRecord] = (Some a, issues)" and "aaNew a = Some i"
    by (cases "buildAuditAttribution [loginRecord]") (auto split: option.splits)
  with attribution_well_formed [OF a] show ?thesis by blast
qed

section \<open>Capabilities and security decisions\<close>

text \<open>
  Capability masks are decoded exactly. For a readable nonzero mask the reported names are those
  of its set bits, and the issue about unknown bits appears precisely when a bit beyond the table is
  set.
\<close>

theorem capability_mask_exact:
  assumes "parseUint16 64 (trimPrefix (toLower value) ''0x'') = Some m" and "0 < m"
    and "trimPrefix (toLower value) ''0x'' \<notin> {[], ''none''}"
  shows "set (fst (decodeCapabilityMask value fieldName)) =
       {n. \<exists>i < length linuxCapabilityNames. linuxCapabilityNames ! i = n \<and> m div 2 ^ i mod 2 = 1} \<and>
     (snd (decodeCapabilityMask value fieldName) = [] \<longleftrightarrow> m < 2 ^ length linuxCapabilityNames)"
proof -
  have "decodeCapabilityMask value fieldName =
      (maskNames m, if maskRemaining m \<noteq> 0 then [plainIssue ''unknown_capability_bits'' ''PATH'' fieldName value] else [])"
    using assms by (simp add: decodeCapabilityMask_def Let_def)
  then show ?thesis
    using maskNames_member [of _ m] maskRemaining_zero [of m] assms(2)
    by (auto simp: maskBit_def)
qed

theorem capability_mask_exact_witness:
  "set (fst (decodeCapabilityMask ''0x3'' ''f'')) =
     {n. \<exists>i < length linuxCapabilityNames. linuxCapabilityNames ! i = n \<and> (3::int) div 2 ^ i mod 2 = 1}"
proof -
  have "parseUint16 64 (trimPrefix (toLower ''0x3'') ''0x'') = Some 3" by code_simp
  moreover have "trimPrefix (toLower ''0x3'') ''0x'' \<notin> {[], ''none''}" by code_simp
  ultimately show ?thesis using capability_mask_exact [of "''0x3''" 3 "''f''"] by simp
qed

text \<open>
  The security decision does not depend on the arrival order of the records: the selected
  decision, as it is emitted, is the same for every permutation of the event's records.
\<close>

theorem security_decision_order_independent:
  assumes "mset rs = mset rs'"
  shows "map_option securityJSON (fst (buildCanonicalSecurity lo rs)) =
     map_option securityJSON (fst (buildCanonicalSecurity lo rs'))"
  using assms by (rule buildCanonicalSecurity_mset)

theorem security_decision_order_independent_witness:
  "map_option securityJSON (fst (buildCanonicalSecurity id [loginRecord, emptyRecord])) =
   map_option securityJSON (fst (buildCanonicalSecurity id [emptyRecord, loginRecord]))"
  by (rule security_decision_order_independent) simp

section \<open>Evidence that is no event\<close>

text \<open>
  C26: rejected input survives byte for byte. The event emitted for an unparseable line, and the one
  emitted for a record that exceeded an assembly limit, carry the raw line reversibly, and the raw
  text that either carries is valid UTF-8.
\<close>

theorem rejected_input_recoverable:
  "(if auRawEncoding (evAudit (BuildParseFailureEvent line err host)) = ''hex''
    then hexDecode (auRaw (evAudit (BuildParseFailureEvent line err host)))
    else Some (auRaw (evAudit (BuildParseFailureEvent line err host)))) = Some line \<and>
   utf8Valid (auRaw (evAudit (BuildParseFailureEvent line err host))) \<and>
   (if auRawEncoding (evAudit (BuildAssemblyException r host)) = ''hex''
    then hexDecode (auRaw (evAudit (BuildAssemblyException r host)))
    else Some (auRaw (evAudit (BuildAssemblyException r host)))) = Some (rRaw r) \<and>
   utf8Valid (auRaw (evAudit (BuildAssemblyException r host)))"
  using rawBytes_parse_failure [of line err host] rawBytes_exception [of r host] parse_failure_utf8 exception_utf8
  unfolding rawBytes_def by blast

text \<open>
  C27: a rule key is not proof of an operation. An event that reaches the rule table, because it is of
  no security family or of a kernel module's, and executes nothing, is classified by the first rule it is
  tied to. It gets the rule's own action if the event proves the operation: by a system call of the
  rule that cannot merely have read the clock, or by having modified a path of the rule. Without proof
  it gets the rule's action only if that is access, and then the event states a failure; otherwise the
  activity is only observed. Tied to no rule, it keeps its family's classification, or none.
\<close>

theorem classification_supported:
  assumes "reachesRules e" and "c = classifyCanonicalEvent e"
  shows "(\<exists>before rule after. cisRules = before @ rule # after \<and>
        tiedToRule e rule \<and> (\<forall>other \<in> set before. \<not> tiedToRule e other) \<and>
        mtCategory (evMeta c) = crCategory rule \<and>
        (provesOperation e rule \<and> mtAction (evMeta c) = crAction rule \<or>
         \<not> provesOperation e rule \<and> crAction rule = ''access'' \<and> mtAction (evMeta c) = ''access'' \<and>
           mtSuccess (evMeta e) = Some False \<or>
         \<not> provesOperation e rule \<and> crAction rule \<noteq> ''access'' \<and>
           mtAction (evMeta c) = ''observe_'' @ crCategory rule @ ''_activity'')) \<or>
     (\<forall>rule \<in> set cisRules. \<not> tiedToRule e rule) \<and>
        (case securityEventFamilyForType (mtType (evMeta e)) of
           None \<Rightarrow> c = e
         | Some f \<Rightarrow> mtCategory (evMeta c) = sfCategory f \<and> mtAction (evMeta c) = sfAction f)"
proof (cases "find (tiedToRule e) cisRules")
  case None
  then have "\<forall>rule \<in> set cisRules. \<not> tiedToRule e rule" by (simp add: find_None_iff)
  moreover have "c = (case securityEventFamilyForType (mtType (evMeta e)) of
      None \<Rightarrow> e | Some f \<Rightarrow> setCategory (sfCategory f) (sfAction f) e)"
    using classify_reached [OF assms(1)] assms(2) None by simp
  ultimately show ?thesis by (intro disjI2 conjI) (simp_all split: option.split)
next
  case (Some rule)
  obtain before after where split: "cisRules = before @ rule # after" "tiedToRule e rule"
      "\<forall>other \<in> set before. \<not> tiedToRule e other"
    using find_first [OF Some] by blast
  have c: "c = setCategory (crCategory rule) (ruleAction e rule) e" using classify_reached [OF assms(1)] assms(2) Some by simp
  have failed: "crAction rule = ''access'' \<Longrightarrow> mtSuccess (evMeta e) = Some False"
  proof -
    assume "crAction rule = ''access''"
    moreover have "rule \<in> set cisRules" unfolding split(1) by simp
    ultimately have "crRequireFailure rule" using access_rules_failed by blast
    with split(2) show "mtSuccess (evMeta e) = Some False" by (simp add: tiedToRule_def)
  qed
  have "provesOperation e rule \<and> mtAction (evMeta c) = crAction rule \<or>
         \<not> provesOperation e rule \<and> crAction rule = ''access'' \<and> mtAction (evMeta c) = ''access'' \<and>
           mtSuccess (evMeta e) = Some False \<or>
         \<not> provesOperation e rule \<and> crAction rule \<noteq> ''access'' \<and>
           mtAction (evMeta c) = ''observe_'' @ crCategory rule @ ''_activity''"
    using failed by (auto simp: c ruleAction_def classificationOperationSupported_proves)
  moreover have "mtCategory (evMeta c) = crCategory rule" by (simp add: c)
  ultimately show ?thesis using split by blast
qed

definition keyedEvent :: canonicalEvent where
  "keyedEvent = emptyEvent\<lparr>evMeta := emptyMeta\<lparr>mtType := ''SYSCALL''\<rparr>, evRuleKeys := Some [''time-change'']\<rparr>"

theorem classification_supported_witness:
  "\<exists>rule \<in> set cisRules. tiedToRule keyedEvent rule \<and>
     mtAction (evMeta (classifyCanonicalEvent keyedEvent)) = ''observe_'' @ crCategory rule @ ''_activity''"
proof -
  have reached: "reachesRules keyedEvent" by code_simp
  have "evProcess keyedEvent = None" by code_simp
  then have unproved: "\<not> provesOperation keyedEvent rule" for rule by (simp add: provesOperation_def)
  have nofail: "mtSuccess (evMeta keyedEvent) \<noteq> Some False" by code_simp
  have "list_ex (classificationRuleMatches keyedEvent) cisRules" by code_simp
  then have tied: "\<not> (\<forall>rule \<in> set cisRules. \<not> tiedToRule keyedEvent rule)"
    by (auto simp: list_ex_iff classificationRuleMatches_tied)
  then obtain before rule after where rule: "cisRules = before @ rule # after" "tiedToRule keyedEvent rule"
    and action: "provesOperation keyedEvent rule \<and> mtAction (evMeta (classifyCanonicalEvent keyedEvent)) = crAction rule \<or>
         \<not> provesOperation keyedEvent rule \<and> crAction rule = ''access'' \<and>
           mtAction (evMeta (classifyCanonicalEvent keyedEvent)) = ''access'' \<and> mtSuccess (evMeta keyedEvent) = Some False \<or>
         \<not> provesOperation keyedEvent rule \<and> crAction rule \<noteq> ''access'' \<and>
           mtAction (evMeta (classifyCanonicalEvent keyedEvent)) = ''observe_'' @ crCategory rule @ ''_activity''"
    using classification_supported [OF reached refl] by blast
  have "rule \<in> set cisRules" unfolding rule(1) by simp
  with rule(2) action unproved nofail show ?thesis by metis
qed

end
