(* ===== verification/Checkpoint.thy ===== *)
theory Checkpoint
  imports GoTime
begin

text \<open>
  The durable state documents of the collector (internal/collector/checkpoint.go): the
  checkpoint and its validation, the content anchor, and the loading and the atomic replacement
  of a state document. The hash (\<open>crypto/sha256\<close>) and the JSON codec (\<open>encoding/json\<close>) are
  arguments; the directory and descriptor checks of internal/securefile are outcomes of the
  environment.
\<close>

text \<open>\<open>type FileIdentity struct\<close> of follower.go.\<close>

record fileIdentity =
  fiDevice :: nat
  fiInode :: nat

text \<open>\<open>type Checkpoint struct\<close>.\<close>

record checkpoint =
  cpVersion :: int
  cpInputPath :: string
  cpDevice :: nat
  cpInode :: nat
  cpOffset :: int
  cpAnchor :: string
  cpUpdatedAt :: gotime

definition CheckpointVersion :: int where
  "CheckpointVersion = 2"

datatype checkpointError =
  UnsupportedVersion int
| InvalidState
| AnchorRequired
| InvalidAnchor

text \<open>\<open>Checkpoint.Validate\<close>; None is a nil error.\<close>

definition checkpointValidate :: "checkpoint \<Rightarrow> checkpointError option" where
  "checkpointValidate c =
     (if cpVersion c \<noteq> CheckpointVersion then Some (UnsupportedVersion (cpVersion c))
      else if cpInputPath c = [] \<or> cpDevice c = 0 \<or> cpInode c = 0 \<or> cpOffset c < 0 \<or> cpUpdatedAt c = 0
        then Some InvalidState
      else if length (cpAnchor c) \<noteq> 64 then Some AnchorRequired
      else case hexDecode (cpAnchor c) of
             None \<Rightarrow> Some InvalidAnchor
           | Some decoded \<Rightarrow> if length decoded \<noteq> 32 then Some InvalidAnchor else None)"

text \<open>
  \<open>ContentAnchor\<close>: the hash of the first and of the last (at most 4096) bytes of the consumed
  prefix. A read past the end of the file is an error of \<open>ReadAt\<close>.
\<close>

datatype anchorError = NegativeOffset | ShortRead

definition ContentAnchor :: "(string \<Rightarrow> string) \<Rightarrow> string \<Rightarrow> int \<Rightarrow> anchorError + string" where
  "ContentAnchor sha content offset =
     (if offset < 0 then Inl NegativeOffset
      else let n = min (nat offset) 4096
           in if n > 0 \<and> length content < nat offset then Inl ShortRead
              else Inr (hexEncode (sha (take n content @ take n (drop (nat offset - n) content)))))"

subsection \<open>Loading and saving\<close>

text \<open>
  What opening a state file finds: no file or directory, an environment error (an unsafe owner,
  mode, link or a failing call), or its bytes.
\<close>

datatype stateFile = Absent | Unsafe | Bytes string

datatype loadError =
  UnsafeState
| TooLarge
| Malformed
| Refused checkpointError

definition maxCheckpointBytes :: int where
  "maxCheckpointBytes = 64 * 1024"

text \<open>
  \<open>LoadCheckpoint\<close>. The decoder argument stands for one strict JSON document with no unknown
  field and nothing after it.
\<close>

definition LoadCheckpoint ::
  "(string \<Rightarrow> checkpoint option) \<Rightarrow> stateFile \<Rightarrow> loadError + checkpoint option" where
  "LoadCheckpoint decode file =
     (case file of
        Absent \<Rightarrow> Inr None
      | Unsafe \<Rightarrow> Inl UnsafeState
      | Bytes content \<Rightarrow>
          if int (length content) > maxCheckpointBytes then Inl TooLarge
          else case decode content of
                 None \<Rightarrow> Inl Malformed
               | Some c \<Rightarrow> (case checkpointValidate c of
                             Some e \<Rightarrow> Inl (Refused e)
                           | None \<Rightarrow> Inr (Some c)))"

text \<open>
  The calls of \<open>saveState\<close>, each with its outcome: opening the pinned directory, closing the
  existing target, the random name, creating, writing, syncing and closing the temporary file,
  the rename, removing an abandoned temporary file, and syncing and closing the directory.
  \<open>svTorn\<close> is what the disk holds of the temporary file as long as it has not been written, synced
  and closed without an error: any part of the document, or none.
\<close>

record saveCalls =
  svOpenDirectory :: bool
  svCloseExisting :: bool
  svRandom :: bool
  svCreate :: bool
  svTorn :: string
  svEncode :: bool
  svSync :: bool
  svClose :: bool
  svRename :: bool
  svUnlink :: bool
  svSyncDirectory :: bool
  svCloseDirectory :: bool

text \<open>The directory: the target, and whether an abandoned temporary file is left.\<close>

record stateDirectory =
  sdTarget :: stateFile
  sdLeftover :: bool

text \<open>The deferred clean-up of a failed save.\<close>

definition abandonSave :: "saveCalls \<Rightarrow> stateDirectory \<Rightarrow> bool \<times> stateDirectory" where
  "abandonSave calls d = (False, d\<lparr>sdLeftover := sdLeftover d \<or> \<not> svUnlink calls\<rparr>)"

text \<open>
  The temporary file: what was written to it, and what of that is on the disk. Each call returns
  whether it succeeded; only a sync moves the written content to the disk, and after a failed encoding
  or close any bytes (\<open>svTorn\<close>) may be in the file.
\<close>

record temporaryFile =
  tfWritten :: string
  tfOnDisk :: string

definition createTemporary :: "saveCalls \<Rightarrow> temporaryFile" where
  "createTemporary calls = \<lparr>tfWritten = [], tfOnDisk = svTorn calls\<rparr>"

definition encodeTemporary :: "saveCalls \<Rightarrow> string \<Rightarrow> temporaryFile \<Rightarrow> bool \<times> temporaryFile" where
  "encodeTemporary calls text t = (svEncode calls, t\<lparr>tfWritten := if svEncode calls then text else svTorn calls\<rparr>)"

definition syncTemporary :: "saveCalls \<Rightarrow> temporaryFile \<Rightarrow> bool \<times> temporaryFile" where
  "syncTemporary calls t = (svSync calls, if svSync calls then t\<lparr>tfOnDisk := tfWritten t\<rparr> else t)"

definition closeTemporary :: "saveCalls \<Rightarrow> temporaryFile \<Rightarrow> bool \<times> temporaryFile" where
  "closeTemporary calls t = (svClose calls, if svClose calls then t else t\<lparr>tfOnDisk := svTorn calls\<rparr>)"

text \<open>The rename makes the temporary file the target, with the content it has on the disk.\<close>

definition renameTemporary :: "saveCalls \<Rightarrow> temporaryFile \<Rightarrow> stateDirectory \<Rightarrow> bool \<times> stateDirectory" where
  "renameTemporary calls t d = (svRename calls, if svRename calls then d\<lparr>sdTarget := Bytes (tfOnDisk t)\<rparr> else d)"

text \<open>\<open>saveState\<close>; True is a nil error.\<close>

definition saveState ::
  "('d \<Rightarrow> string) \<Rightarrow> saveCalls \<Rightarrow> 'd \<Rightarrow> stateDirectory \<Rightarrow> bool \<times> stateDirectory" where
  "saveState encode calls v d =
     (if \<not> svOpenDirectory calls then (False, d)
      else if sdTarget d = Unsafe then (False, d)
      else if sdTarget d \<noteq> Absent \<and> \<not> svCloseExisting calls then (False, d)
      else if \<not> svRandom calls \<or> \<not> svCreate calls then (False, d)
      else case encodeTemporary calls (encode v) (createTemporary calls) of
             (False, t) \<Rightarrow> abandonSave calls d
           | (True, t) \<Rightarrow>
               (case syncTemporary calls t of
                  (False, t) \<Rightarrow> abandonSave calls d
                | (True, t) \<Rightarrow>
                    (case closeTemporary calls t of
                       (False, t) \<Rightarrow> abandonSave calls d
                     | (True, t) \<Rightarrow>
                         (case renameTemporary calls t d of
                            (False, d) \<Rightarrow> abandonSave calls d
                          | (True, d) \<Rightarrow> (svSyncDirectory calls \<and> svCloseDirectory calls, d)))))"

lemmas temporary_defs = createTemporary_def encodeTemporary_def syncTemporary_def closeTemporary_def renameTemporary_def

text \<open>\<open>SaveCheckpoint\<close>: the version and the time are its own; True is a nil error.\<close>

definition stampedCheckpoint :: "gotime \<Rightarrow> checkpoint \<Rightarrow> checkpoint" where
  "stampedCheckpoint now c = c\<lparr>cpVersion := CheckpointVersion, cpUpdatedAt := now\<rparr>"

definition SaveCheckpoint ::
  "(checkpoint \<Rightarrow> string) \<Rightarrow> saveCalls \<Rightarrow> gotime \<Rightarrow> checkpoint \<Rightarrow> stateDirectory \<Rightarrow> bool \<times> stateDirectory" where
  "SaveCheckpoint encode calls now c d =
     (let c' = stampedCheckpoint now c
      in if checkpointValidate c' \<noteq> None then (False, d) else saveState encode calls c' d)"

subsection \<open>What the documents guarantee\<close>

lemma checkpointValidate_ok:
  "checkpointValidate c = None \<longleftrightarrow>
     cpVersion c = 2 \<and> cpInputPath c \<noteq> [] \<and> cpDevice c \<noteq> 0 \<and> cpInode c \<noteq> 0 \<and> 0 \<le> cpOffset c
     \<and> cpUpdatedAt c \<noteq> 0 \<and> length (cpAnchor c) = 64 \<and> hexDecode (cpAnchor c) \<noteq> None"
  by (auto simp: checkpointValidate_def CheckpointVersion_def split: option.splits if_splits
           dest: hexDecode_length)

lemma LoadCheckpoint_valid:
  "LoadCheckpoint decode file = Inr (Some c) \<Longrightarrow> checkpointValidate c = None"
  by (auto simp: LoadCheckpoint_def split: stateFile.splits if_splits option.splits)

lemma saveState_target:
  assumes "saveState encode calls v d = (ok, d')"
  shows "sdTarget d' = sdTarget d \<and> \<not> ok \<or> sdTarget d' = Bytes (encode v)"
    and "sdLeftover d' \<Longrightarrow> sdLeftover d \<or> \<not> svUnlink calls"
  using assms by (auto simp: saveState_def temporary_defs abandonSave_def split: if_splits)

lemma SaveCheckpoint_target:
  assumes "SaveCheckpoint encode calls now c d = (ok, d')"
  shows "sdTarget d' = sdTarget d \<and> \<not> ok \<or>
     sdTarget d' = Bytes (encode (stampedCheckpoint now c)) \<and> checkpointValidate (stampedCheckpoint now c) = None"
    and "sdLeftover d' \<Longrightarrow> sdLeftover d \<or> \<not> svUnlink calls"
  using assms saveState_target [of encode calls "stampedCheckpoint now c" d ok d']
  by (auto simp: SaveCheckpoint_def Let_def split: if_splits)

text \<open>Bytes after the anchored prefix do not participate, so an append keeps the anchor.\<close>

lemma ContentAnchor_append:
  assumes "offset \<le> int (length content)"
  shows "ContentAnchor sha (content @ appended) offset = ContentAnchor sha content offset"
  using assms by (auto simp: ContentAnchor_def Let_def min_def)

text \<open>The same window computed on integers, for evaluation.\<close>

lemma ContentAnchor_code [code]:
  "ContentAnchor sha content offset =
     (if offset < 0 then Inl NegativeOffset
      else let n = (if offset \<le> 4096 then nat offset else 4096)
           in if 0 < offset \<and> int (length content) < offset then Inl ShortRead
              else Inr (hexEncode (sha (take n content @ take n (drop (nat offset - n) content)))))"
  by (auto simp: ContentAnchor_def Let_def min_def)

lemma ContentAnchor_some:
  assumes "0 \<le> offset" and "offset \<le> int (length content)"
  shows "\<exists>anchor. ContentAnchor sha content offset = Inr anchor"
  using assms by (auto simp: ContentAnchor_def Let_def)

text \<open>With a hash that separates what it is given, equal anchors mean equal windows.\<close>

lemma ContentAnchor_detects:
  assumes c: "ContentAnchor sha c offset = Inr a" and d: "ContentAnchor sha d offset = Inr a"
    and sha: "\<And>x y. sha x = sha y \<Longrightarrow> x = y"
  shows "take (min (nat offset) 4096) c = take (min (nat offset) 4096) d"
proof -
  let ?n = "min (nat offset) 4096"
  let ?w = "\<lambda>x. take ?n x @ take ?n (drop (nat offset - ?n) x)"
  have same: "hexEncode (sha (?w c)) = hexEncode (sha (?w d))"
    and long: "?n = 0 \<or> nat offset \<le> length c \<and> nat offset \<le> length d"
    using c d by (auto simp: ContentAnchor_def Let_def split: if_splits)
  from same have "sha (?w c) = sha (?w d)" by (rule hexEncode_inj)
  then have w: "?w c = ?w d" by (rule sha)
  have "length (take ?n c) = length (take ?n d)" using long by auto
  with w show ?thesis using append_eq_append_conv by blast
qed

end
