(* ===== verification/Follower.thy ===== *)
theory Follower
  imports Checkpoint
begin

text \<open>
  The line follower of one opened file (internal/collector/follower.go). The buffered reader is
  its position and the bytes the file holds at that moment; the growing file, read faults,
  cancellation and the hash are the environment of a call. \<open>lineText\<close> and \<open>holds\<close>
  are the specification: what a physical line is turned into and what the follower keeps of
  an unfinished one.
\<close>

section \<open>State\<close>

text \<open>\<open>type SourceLine struct\<close>.\<close>

record sourceLine =
  slOmittedBytes :: nat
  slText :: string
  slIdentity :: fileIdentity
  slGeneration :: nat
  slStartIdentity :: fileIdentity
  slStartGeneration :: nat
  slStart :: int
  slEnd :: int
  slStartAnchor :: string
  slEndAnchor :: string
  slSourceBytes :: nat

text \<open>\<open>type FollowerOptions struct\<close>; the poll interval is a delay of the caller's idle wait.\<close>

record followerOptions =
  foPollInterval :: duration
  foMaxLineBytes :: int
  foGeneration :: nat
  foRecoverLineLimits :: bool

text \<open>\<open>type FileFollower struct\<close>, without the descriptor and its reader.\<close>

record fileFollower =
  ffPath :: string
  ffMaxLineBytes :: nat
  ffPartial :: string
  ffLineBytes :: nat
  ffRecoverLineLimits :: bool
  ffIdentity :: fileIdentity
  ffGeneration :: nat
  ffReadOffset :: int
  ffLineStart :: int
  ffCompleteEnd :: int
  ffOrigin :: fileIdentity
  ffOriginGen :: nat
  ffOriginOffset :: int
  ffOriginAnchor :: string

text \<open>
  The environment of one \<open>NextSource\<close>: what the file holds while the call reads it, whether a
  read fails where it would otherwise end, and whether the context is done on entry or
  during the idle wait.
\<close>

record readEnv =
  reContent :: string
  reFault :: bool
  reCancelled :: bool
  reCancelledIdle :: bool

datatype followerError =
  BadPollInterval
| BadLineSize
| BadOffset
| OpenFailed
| NotRegular
| GenerationChanged
| Truncated fileIdentity int int
| AnchorUnreadable anchorError
| AnchorMismatch fileIdentity
| NotAtBoundary
| ContextDone
| CounterExhausted
| LineTooLong
| ReadFailed

section \<open>Opening\<close>

text \<open>What opening a path finds: a failing call, or the kind, identity and bytes of a file.\<close>

record openedFile =
  ofRegular :: bool
  ofIdentity :: fileIdentity
  ofContent :: string

text \<open>
  \<open>OpenFileFollowerAt\<close>: the checks in their order, then the initial state. \<open>None\<close> for the
  expected identity or the anchor is an absent argument.
\<close>

definition OpenFileFollowerAt ::
  "(string \<Rightarrow> string) \<Rightarrow> string \<Rightarrow> followerOptions \<Rightarrow> int \<Rightarrow> fileIdentity option \<Rightarrow> string option
     \<Rightarrow> openedFile option \<Rightarrow> followerError + fileFollower" where
  "OpenFileFollowerAt sha path options offset expected anchor opened =
     (if foPollInterval options \<le> 0 then Inl BadPollInterval
      else if foMaxLineBytes options \<le> 0 then Inl BadLineSize
      else if offset < 0 then Inl BadOffset
      else case opened of
        None \<Rightarrow> Inl OpenFailed
      | Some file \<Rightarrow>
          if \<not> ofRegular file then Inl NotRegular
          else if expected \<noteq> None \<and> expected \<noteq> Some (ofIdentity file) then Inl GenerationChanged
          else if int (length (ofContent file)) < offset
            then Inl (Truncated (ofIdentity file) offset (int (length (ofContent file))))
          else case ContentAnchor sha (ofContent file) offset of
            Inl e \<Rightarrow> Inl (AnchorUnreadable e)
          | Inr found \<Rightarrow>
              if anchor \<noteq> None \<and> anchor \<noteq> Some found then Inl (AnchorMismatch (ofIdentity file))
              else if 0 < offset \<and> ofContent file ! nat (offset - 1) \<noteq> CHR 0x0A then Inl NotAtBoundary
              else Inr \<lparr>ffPath = path, ffMaxLineBytes = nat (foMaxLineBytes options), ffPartial = [],
                        ffLineBytes = 0, ffRecoverLineLimits = foRecoverLineLimits options,
                        ffIdentity = ofIdentity file, ffGeneration = foGeneration options,
                        ffReadOffset = offset, ffLineStart = offset, ffCompleteEnd = offset,
                        ffOrigin = ofIdentity file, ffOriginGen = foGeneration options,
                        ffOriginOffset = offset, ffOriginAnchor = found\<rparr>)"

text \<open>\<open>OpenFileFollower\<close>.\<close>

definition OpenFileFollower ::
  "(string \<Rightarrow> string) \<Rightarrow> string \<Rightarrow> followerOptions \<Rightarrow> openedFile option \<Rightarrow> followerError + fileFollower" where
  "OpenFileFollower sha path options opened = OpenFileFollowerAt sha path options 0 None None opened"

section \<open>Reading\<close>

definition defaultReadBufferBytes :: nat where
  "defaultReadBufferBytes = 64 * 1024"

definition newline :: char where
  "newline = CHR 0x0A"

definition carriageReturn :: char where
  "carriageReturn = CHR 0x0D"

datatype readStatus = ReadLine | BufferFull | ReadEOF | ReadFault

text \<open>
  \<open>bufio.Reader.ReadSlice\<close> on the unread bytes: through the delimiter if it lies in the
  buffer, a full buffer, or what there is with the error that ended the read.
\<close>

definition readSlice :: "bool \<Rightarrow> string \<Rightarrow> string \<times> readStatus" where
  "readSlice fault unread =
     (case indexByte newline (take defaultReadBufferBytes unread) of
        Some i \<Rightarrow> (take (Suc i) unread, ReadLine)
      | None \<Rightarrow>
          if defaultReadBufferBytes \<le> length unread then (take defaultReadBufferBytes unread, BufferFull)
          else (unread, if fault then ReadFault else ReadEOF))"

text \<open>Bytes that fit the buffer need no look at its size, which keeps evaluation cheap.\<close>

lemma readSlice_code [code]:
  "readSlice fault unread =
     (if int (length unread) < 65536 then
        (case indexByte newline unread of
           Some i \<Rightarrow> (take (Suc i) unread, ReadLine)
         | None \<Rightarrow> (unread, if fault then ReadFault else ReadEOF))
      else case indexByte newline (take 65536 unread) of
        Some i \<Rightarrow> (take (Suc i) unread, ReadLine)
      | None \<Rightarrow> (take 65536 unread, BufferFull))"
proof -
  have "defaultReadBufferBytes = 65536" by (simp add: defaultReadBufferBytes_def)
  then show ?thesis by (auto simp: readSlice_def split: option.splits)
qed

definition maxInt :: int where
  "maxInt = 2 ^ 63 - 1"

text \<open>The bookkeeping of one fragment.\<close>

definition takeFragment :: "string \<Rightarrow> fileFollower \<Rightarrow> followerError option \<times> fileFollower" where
  "takeFragment fragment f =
     (if fragment = [] then (None, f)
      else if maxInt < int (length fragment + ffLineBytes f) then (Some CounterExhausted, f)
      else let f' = f\<lparr>ffLineBytes := ffLineBytes f + length fragment\<rparr>
           in if ffMaxLineBytes f < ffLineBytes f' \<and> \<not> ffRecoverLineLimits f then (Some LineTooLong, f')
              else let retain = min (length fragment) (ffMaxLineBytes f - length (ffPartial f))
                   in (None, f'\<lparr>ffPartial := ffPartial f @ take retain fragment,
                              ffReadOffset := ffReadOffset f + int (length fragment)\<rparr>))"

text \<open>\<open>bytes.TrimSuffix\<close> with one byte.\<close>

definition trimSuffixByte :: "char \<Rightarrow> string \<Rightarrow> string" where
  "trimSuffixByte b s = (if s \<noteq> [] \<and> last s = b then butlast s else s)"

text \<open>The branch of a complete line.\<close>

definition completeLine ::
  "(string \<Rightarrow> string) \<Rightarrow> string \<Rightarrow> fileFollower \<Rightarrow> (followerError + sourceLine option) \<times> fileFollower" where
  "completeLine sha content f =
     (let omitted = ffLineBytes f - length (ffPartial f);
          complete = (if omitted = 0 then trimSuffixByte carriageReturn (trimSuffixByte newline (ffPartial f))
                      else ffPartial f)
      in case ContentAnchor sha content (ffReadOffset f) of
           Inl e \<Rightarrow> (Inl (AnchorUnreadable e), f)
         | Inr endAnchor \<Rightarrow>
             (Inr (Some \<lparr>slOmittedBytes = omitted, slText = complete, slIdentity = ffIdentity f,
                         slGeneration = ffGeneration f, slStartIdentity = ffOrigin f,
                         slStartGeneration = ffOriginGen f, slStart = ffOriginOffset f,
                         slEnd = ffReadOffset f, slStartAnchor = ffOriginAnchor f,
                         slEndAnchor = endAnchor, slSourceBytes = ffLineBytes f\<rparr>),
              f\<lparr>ffCompleteEnd := ffReadOffset f, ffLineStart := ffReadOffset f,
                ffOrigin := ffIdentity f, ffOriginGen := ffGeneration f,
                ffOriginOffset := ffReadOffset f, ffOriginAnchor := endAnchor,
                ffPartial := [], ffLineBytes := 0\<rparr>))"

text \<open>
  \<open>NextSource\<close>. \<open>Inr None\<close> is an idle poll. The loop goes round only after a full buffer, which
  moves the position, so it ends at the end of the file.
\<close>

function NextSource ::
  "(string \<Rightarrow> string) \<Rightarrow> readEnv \<Rightarrow> fileFollower \<Rightarrow> (followerError + sourceLine option) \<times> fileFollower" where
  "NextSource sha env f =
     (if reCancelled env then (Inl ContextDone, f)
      else case readSlice (reFault env) (drop (nat (ffReadOffset f)) (reContent env)) of
        (fragment, status) \<Rightarrow>
          case takeFragment fragment f of
            (Some e, f') \<Rightarrow> (Inl e, f')
          | (None, f') \<Rightarrow>
              case status of
                ReadLine \<Rightarrow> completeLine sha (reContent env) f'
              | BufferFull \<Rightarrow> NextSource sha env f'
              | ReadEOF \<Rightarrow> (if reCancelledIdle env then Inl ContextDone else Inr None, f')
              | ReadFault \<Rightarrow> (Inl ReadFailed, f'))"
  by pat_completeness auto

lemma takeFragment_advances:
  "takeFragment fragment f = (None, f') \<Longrightarrow> ffReadOffset f' = ffReadOffset f + int (length fragment)"
  by (auto simp: takeFragment_def Let_def split: if_splits)

termination NextSource
proof (relation "measure (\<lambda>(sha, env, f). nat (int (length (reContent env)) - ffReadOffset f))")
  show "wf (measure (\<lambda>(sha :: string \<Rightarrow> string, env, f). nat (int (length (reContent env)) - ffReadOffset f)))"
    by simp
next
  fix sha :: "string \<Rightarrow> string" and env f fragment status e f'
  assume p: "(fragment, status) = readSlice (reFault env) (drop (nat (ffReadOffset f)) (reContent env))"
    and q: "(e, f') = takeFragment fragment f" "e = None" and status: "status = BufferFull"
  let ?unread = "drop (nat (ffReadOffset f)) (reContent env)"
  have "defaultReadBufferBytes \<le> length ?unread" and "fragment = take defaultReadBufferBytes ?unread"
    using p status by (auto simp: readSlice_def split: option.splits if_splits)
  then have "length fragment = defaultReadBufferBytes" and "defaultReadBufferBytes \<le> length ?unread" by auto
  moreover have "ffReadOffset f' = ffReadOffset f + int (length fragment)"
    using q by (simp add: takeFragment_advances)
  ultimately show "((sha, env, f'), (sha, env, f)) \<in> measure (\<lambda>(sha, env, f). nat (int (length (reContent env)) - ffReadOffset f))"
    by (auto simp: defaultReadBufferBytes_def)
qed

declare NextSource.simps [simp del]

text \<open>\<open>HasPartial\<close>, \<open>CompleteOffset\<close> and \<open>CurrentOffset\<close>.\<close>

definition HasPartial :: "fileFollower \<Rightarrow> bool" where
  "HasPartial f \<longleftrightarrow> ffPartial f \<noteq> []"

definition CompleteOffset :: "fileFollower \<Rightarrow> int" where
  "CompleteOffset f = ffCompleteEnd f"

definition CurrentOffset :: "fileFollower \<Rightarrow> int" where
  "CurrentOffset f = ffReadOffset f"

text \<open>\<open>transferPartialTo\<close>: both followers after the transfer.\<close>

definition transferPartialTo ::
  "fileFollower \<Rightarrow> fileFollower \<Rightarrow> followerError + (fileFollower \<times> fileFollower)" where
  "transferPartialTo f after_rotation =
     (if ffPartial f = [] then Inr (f, after_rotation)
      else if ffMaxLineBytes after_rotation < length (ffPartial f) then Inl LineTooLong
      else Inr (f\<lparr>ffLineBytes := 0, ffPartial := []\<rparr>,
                after_rotation\<lparr>ffPartial := ffPartial after_rotation @ ffPartial f,
                  ffLineBytes := ffLineBytes f, ffOrigin := ffOrigin f, ffOriginGen := ffOriginGen f,
                  ffOriginOffset := ffOriginOffset f, ffOriginAnchor := ffOriginAnchor f\<rparr>))"

end
