(* ===== verification/Discovery.thy ===== *)
theory Discovery
  imports Follower "HOL-Library.Product_Lexorder"
begin

text \<open>
  Discovery of the retained generations of a rotated input
  (internal/collector/rotation.go, from \<open>discoverCandidates\<close> on, with the error values of the
  file): which directory entries are generations of the input, which listings are refused, and
  the order oldest first. A directory listing is what \<open>os.ReadDir\<close> returned, None a failing
  call; \<open>canon\<close> is \<open>CanonicalPath\<close>, which depends on the working directory.
\<close>

section \<open>Errors\<close>

text \<open>
  \<open>SourceGapError\<close>, \<open>SourceTruncatedError\<close>, \<open>errInputPathPending\<close>, the errors of the line
  follower and the remaining errors of the file; \<open>Joined\<close> is \<open>errors.Join\<close>.
\<close>

datatype rotationError =
  BadDrainInterval
| BadPath
| ReadDirFailed
| UnsafeSymlink string
| EntryFailed
| UnsupportedGeneration string
| AmbiguousAlias string string
| AmbiguousOrder string string
| NotExist
| InputPathPending
| SourceGap fileIdentity string
| SourceTruncated fileIdentity int int
| FollowerFailed followerError
| CallFailed
| Joined rotationError rotationError

text \<open>\<open>rotationPending\<close>: \<open>errors.Is(err, errInputPathPending)\<close>.\<close>

fun rotationPending :: "rotationError \<Rightarrow> bool" where
  "rotationPending InputPathPending = True"
| "rotationPending (Joined d e) = (rotationPending d \<or> rotationPending e)"
| "rotationPending _ = False"

section \<open>Names and paths\<close>

text \<open>\<open>filepath.Dir\<close>, \<open>Base\<close> and \<open>Join\<close> on a clean absolute path and a file name.\<close>

definition slash :: char where
  "slash = CHR ''/''"

definition pathDir :: "string \<Rightarrow> string" where
  "pathDir p = (case lastIndexByte slash p of
                  None \<Rightarrow> ''.'' | Some i \<Rightarrow> if i = 0 then [slash] else take i p)"

definition pathBase :: "string \<Rightarrow> string" where
  "pathBase p = (case lastIndexByte slash p of
                   None \<Rightarrow> p | Some i \<Rightarrow> if p = [slash] then p else drop (Suc i) p)"

definition pathJoin :: "string \<Rightarrow> string \<Rightarrow> string" where
  "pathJoin d n = (if d = [slash] then slash # n else d @ slash # n)"

text \<open>\<open>rotationNumber\<close>: None stands for a false second result.\<close>

definition rotationNumber :: "string \<Rightarrow> string \<Rightarrow> int option" where
  "rotationNumber base name =
     (let rest = trimPrefix name (base @ ''.'')
      in if rest = name \<or> rest = [] \<or> \<not> list_all isDigit rest then None else parseUint10 64 rest)"

definition isCompressedRotation :: "string \<Rightarrow> bool" where
  "isCompressedRotation name \<longleftrightarrow> (\<exists>s \<in> set [''.gz'', ''.xz'', ''.bz2'', ''.zst'']. hasSuffix name s)"

definition isExcludedPath :: "string \<Rightarrow> string list \<Rightarrow> bool" where
  "isExcludedPath path excluded \<longleftrightarrow>
     (\<exists>s \<in> set excluded. path = s \<or> hasPrefix path (s @ ''.'') \<or> hasPrefix path (s @ ''-''))"

section \<open>Candidates\<close>

record sourceCandidate =
  scPath :: string
  scIdentity :: fileIdentity
  scCurrent :: bool
  scNumber :: int
  scNumbered :: bool

text \<open>A directory entry: its name, whether it is a symbolic link, and what \<open>Info\<close> returns.\<close>

record dirEntry =
  deName :: string
  deSymlink :: bool
  deInfo :: "(bool \<times> fileIdentity) option"

text \<open>The entries of the directory that may be generations of the input.\<close>

definition generationEntry :: "string \<Rightarrow> string \<Rightarrow> string list \<Rightarrow> dirEntry \<Rightarrow> bool" where
  "generationEntry directory base excluded entry \<longleftrightarrow>
     (deName entry = base \<or> rotationNumber base (deName entry) \<noteq> None) \<and>
     \<not> isCompressedRotation (deName entry) \<and>
     \<not> isExcludedPath (pathJoin directory (deName entry)) excluded"

definition candidateOf :: "string \<Rightarrow> string \<Rightarrow> dirEntry \<Rightarrow> fileIdentity \<Rightarrow> sourceCandidate" where
  "candidateOf inputPath directory entry ident =
     \<lparr>scPath = pathJoin directory (deName entry), scIdentity = ident,
      scCurrent = (pathJoin directory (deName entry) = inputPath),
      scNumber = (case rotationNumber (pathBase inputPath) (deName entry) of None \<Rightarrow> 0 | Some n \<Rightarrow> n),
      scNumbered = (rotationNumber (pathBase inputPath) (deName entry) \<noteq> None)\<rparr>"

text \<open>The loop over the entries; the last argument is \<open>candidates\<close>, whose identities are the map.\<close>

fun scanEntries ::
  "string \<Rightarrow> string list \<Rightarrow> dirEntry list \<Rightarrow> sourceCandidate list \<Rightarrow> rotationError + sourceCandidate list" where
  "scanEntries inputPath excluded [] cs = Inr cs"
| "scanEntries inputPath excluded (entry # entries) cs =
     (let directory = pathDir inputPath; path = pathJoin directory (deName entry)
      in if \<not> generationEntry directory (pathBase inputPath) excluded entry
           then scanEntries inputPath excluded entries cs
         else if deSymlink entry then Inl (UnsafeSymlink path)
         else case deInfo entry of
           None \<Rightarrow> Inl EntryFailed
         | Some (regular, ident) \<Rightarrow>
             if \<not> regular then Inl (UnsupportedGeneration path)
             else case find (\<lambda>c. scIdentity c = ident) cs of
               Some c \<Rightarrow> Inl (AmbiguousAlias (scPath c) path)
             | None \<Rightarrow> scanEntries inputPath excluded entries (cs @ [candidateOf inputPath directory entry ident]))"

text \<open>The first pair of candidates whose order is not given by their numbers.\<close>

definition unordered :: "sourceCandidate \<Rightarrow> sourceCandidate \<Rightarrow> bool" where
  "unordered c d \<longleftrightarrow> \<not> scCurrent c \<and> \<not> scCurrent d
     \<and> (\<not> scNumbered c \<or> \<not> scNumbered d \<or> scNumber c = scNumber d)"

fun ambiguousPair :: "sourceCandidate list \<Rightarrow> (sourceCandidate \<times> sourceCandidate) option" where
  "ambiguousPair [] = None"
| "ambiguousPair (c # cs) =
     (case find (unordered c) cs of Some d \<Rightarrow> Some (c, d) | None \<Rightarrow> ambiguousPair cs)"

text \<open>The comparison of \<open>sort.SliceStable\<close> as a key: the current path last, larger numbers first.\<close>

definition candidateKey :: "sourceCandidate \<Rightarrow> bool \<times> int" where
  "candidateKey c = (scCurrent c, - scNumber c)"

definition discoverCandidates ::
  "(string \<Rightarrow> string option) \<Rightarrow> string \<Rightarrow> string list \<Rightarrow> dirEntry list option
     \<Rightarrow> rotationError + sourceCandidate list" where
  "discoverCandidates canon inputPath excludes listing =
     (let excluded = List.map_filter canon (filter (\<lambda>p. p \<noteq> []) excludes)
      in case listing of
           None \<Rightarrow> Inl ReadDirFailed
         | Some entries \<Rightarrow>
             (case scanEntries inputPath excluded entries [] of
                Inl e \<Rightarrow> Inl e
              | Inr cs \<Rightarrow>
                  if cs = [] then Inl NotExist
                  else case ambiguousPair cs of
                    Some (c, d) \<Rightarrow> Inl (AmbiguousOrder (scPath c) (scPath d))
                  | None \<Rightarrow>
                      let sorted_cs = sort_key candidateKey cs
                      in if \<exists>c \<in> set sorted_cs. scCurrent c then Inr sorted_cs else Inl InputPathPending))"

text \<open>\<open>validateGenerationChain\<close>.\<close>

definition linked :: "sourceCandidate \<Rightarrow> sourceCandidate \<Rightarrow> bool" where
  "linked older newer \<longleftrightarrow>
     \<not> (scCurrent older \<or> scNumber older = 0
        \<or> scNumber older - 1 \<noteq> (if scCurrent newer then 0 else scNumber newer))"

definition missingIntermediate :: string where
  "missingIntermediate = ''missing_intermediate_generation''"

fun validateGenerationChain :: "sourceCandidate list \<Rightarrow> rotationError option" where
  "validateGenerationChain (older # newer # cs) =
     (if linked older newer then validateGenerationChain (newer # cs)
      else Some (SourceGap (scIdentity older) missingIntermediate))"
| "validateGenerationChain _ = None"

section \<open>What discovery guarantees\<close>

definition wellScanned :: "string \<Rightarrow> string list \<Rightarrow> sourceCandidate list \<Rightarrow> dirEntry list \<Rightarrow> bool" where
  "wellScanned inputPath excluded cs entries \<longleftrightarrow>
     distinct (map scIdentity cs) \<and>
     (\<forall>c \<in> set cs. \<exists>entry \<in> set entries. \<exists>ident.
        generationEntry (pathDir inputPath) (pathBase inputPath) excluded entry \<and>
        \<not> deSymlink entry \<and> deInfo entry = Some (True, ident) \<and>
        c = candidateOf inputPath (pathDir inputPath) entry ident)"

lemma scanEntries_scanned:
  assumes "scanEntries inputPath excluded entries cs = Inr cs'"
    and "wellScanned inputPath excluded cs seen"
  shows "wellScanned inputPath excluded cs' (seen @ entries)"
  using assms
proof (induction inputPath excluded entries cs arbitrary: seen rule: scanEntries.induct)
  case (1 inputPath excluded cs)
  then show ?case by (auto simp: wellScanned_def)
next
  case (2 inputPath excluded entry entries cs)
  have keep: "wellScanned inputPath excluded cs (seen @ [entry])"
    using "2.prems"(2) by (fastforce simp: wellScanned_def)
  show ?case
  proof (cases "generationEntry (pathDir inputPath) (pathBase inputPath) excluded entry")
    case False
    then show ?thesis using "2.IH"(1) [OF refl refl _ _ keep] "2.prems"(1) by simp
  next
    case True
    then obtain ident where info: "\<not> deSymlink entry" "deInfo entry = Some (True, ident)"
      and fresh: "find (\<lambda>c. scIdentity c = ident) cs = None"
      and next_scan: "scanEntries inputPath excluded entries
             (cs @ [candidateOf inputPath (pathDir inputPath) entry ident]) = Inr cs'"
      using "2.prems"(1) by (auto simp: Let_def split: if_splits option.splits)
    have "wellScanned inputPath excluded (cs @ [candidateOf inputPath (pathDir inputPath) entry ident]) (seen @ [entry])"
      using keep info fresh True
      by (auto simp: wellScanned_def find_None_iff candidateOf_def)
    then show ?thesis
      using "2.IH"(2) [OF refl refl _ _ info(2) refl _ fresh, of "seen @ [entry]"] True info next_scan by simp
  qed
qed

lemma ambiguousPair_None:
  "ambiguousPair cs = None \<longleftrightarrow> sorted_wrt (\<lambda>c d. \<not> unordered c d) cs"
proof (induction cs)
  case Nil
  then show ?case by simp
next
  case (Cons c cs)
  show ?case
  proof (cases "find (unordered c) cs")
    case None
    then have "\<forall>d \<in> set cs. \<not> unordered c d" by (simp add: find_None_iff)
    with Cons None show ?thesis by (simp del: not_None_eq)
  next
    case (Some d)
    then have "d \<in> set cs \<and> unordered c d" by (auto simp: find_Some_iff)
    with Some show ?thesis by auto
  qed
qed

text \<open>The order of a listing: distinct generations, numbers falling, the input itself last.\<close>

definition generationOrder :: "sourceCandidate list \<Rightarrow> bool" where
  "generationOrder cs \<longleftrightarrow>
     (\<exists>olds cur. cs = olds @ [cur] \<and> scCurrent cur \<and> (\<forall>c \<in> set olds. \<not> scCurrent c) \<and>
        sorted_wrt (\<lambda>c d. scNumber d < scNumber c) olds \<and> distinct (map scIdentity cs))"

lemma pathJoin_inj [simp]: "pathJoin d m = pathJoin d n \<longleftrightarrow> m = n"
  by (simp add: pathJoin_def)

lemma current_unique:
  assumes "wellScanned inputPath excluded cs entries" and "distinct (map deName entries)"
    and "c \<in> set cs" and "d \<in> set cs" and "scCurrent c" and "scCurrent d"
  shows "c = d"
proof -
  obtain e i where c: "e \<in> set entries" "deInfo e = Some (True, i)" "c = candidateOf inputPath (pathDir inputPath) e i"
    using assms(1,3) unfolding wellScanned_def by blast
  obtain e' i' where d: "e' \<in> set entries" "deInfo e' = Some (True, i')" "d = candidateOf inputPath (pathDir inputPath) e' i'"
    using assms(1,4) unfolding wellScanned_def by blast
  have "pathJoin (pathDir inputPath) (deName e) = pathJoin (pathDir inputPath) (deName e')"
    using assms(5,6) c d by (simp add: candidateOf_def)
  then have "e = e'" using assms(2) c(1) d(1) by (auto simp: distinct_map dest: inj_onD)
  with c d show ?thesis by simp
qed

lemma sorted_current_last:
  assumes sorted: "sorted (map candidateKey cs)" and cur: "\<exists>c \<in> set cs. scCurrent c"
    and unique: "\<And>c d. c \<in> set cs \<Longrightarrow> d \<in> set cs \<Longrightarrow> scCurrent c \<Longrightarrow> scCurrent d \<Longrightarrow> c = d"
    and dist: "distinct cs"
  obtains olds c where "cs = olds @ [c]" "scCurrent c" "\<forall>d \<in> set olds. \<not> scCurrent d"
proof -
  have "cs \<noteq> []" using cur by auto
  then obtain olds c where cs: "cs = olds @ [c]" by (cases cs rule: rev_cases) auto
  have "scCurrent c"
  proof (rule ccontr)
    assume no: "\<not> scCurrent c"
    then obtain d where d: "d \<in> set olds" "scCurrent d" using cur cs by auto
    have "candidateKey d \<le> candidateKey c" using sorted d(1) by (simp add: cs sorted_append)
    with d(2) no show False by (simp add: candidateKey_def less_eq_prod_def)
  qed
  moreover have "\<forall>d \<in> set olds. \<not> scCurrent d"
    using unique [of c] dist cs calculation by auto
  ultimately show thesis using that cs by blast
qed

lemma unordered_mset:
  assumes "mset cs = mset ds" and "sorted_wrt (\<lambda>c d. \<not> unordered c d) cs"
  shows "sorted_wrt (\<lambda>c d. \<not> unordered c d) ds"
proof -
  have sym: "symp (\<lambda>c d. \<not> unordered c d)" by (auto simp: symp_def unordered_def)
  have pairs: "sorted_wrt (\<lambda>c d. \<not> unordered c d) xs \<longleftrightarrow>
      (\<forall>x \<in># mset xs. \<forall>y \<in># mset xs - {#x#}. \<not> unordered x y)" for xs
  proof (induction xs)
    case Nil
    then show ?case by simp
  next
    case (Cons x xs)
    have "(\<forall>a \<in># mset (x # xs). \<forall>b \<in># mset (x # xs) - {#a#}. \<not> unordered a b) \<longleftrightarrow>
        (\<forall>b \<in> set xs. \<not> unordered x b) \<and> (\<forall>a \<in># mset xs. \<forall>b \<in># mset xs - {#a#}. \<not> unordered a b)"
    proof (intro iffI conjI ballI)
      fix a b
      assume all: "\<forall>a \<in># mset (x # xs). \<forall>b \<in># mset (x # xs) - {#a#}. \<not> unordered a b"
        and a: "a \<in># mset xs" and b: "b \<in># mset xs - {#a#}"
      have "b \<in># mset (x # xs) - {#a#}"
        using b by (cases "x = a") (auto dest: in_diffD)
      with all a show "\<not> unordered a b" by auto
    next
      fix a b
      assume all: "(\<forall>b \<in> set xs. \<not> unordered x b) \<and> (\<forall>a \<in># mset xs. \<forall>b \<in># mset xs - {#a#}. \<not> unordered a b)"
        and a: "a \<in># mset (x # xs)" and b: "b \<in># mset (x # xs) - {#a#}"
      show "\<not> unordered a b"
      proof (cases "a = x")
        case True
        with all b show ?thesis by simp
      next
        case False
        then have "a \<in> set xs" "b = x \<or> b \<in># mset xs - {#a#}"
          using a b by (auto simp: insert_DiffM2)
        with all sym show ?thesis by (auto simp: symp_def)
      qed
    qed auto
    with Cons show ?case by simp
  qed
  show ?thesis using assms pairs by metis
qed

lemma discoverCandidates_order:
  assumes "discoverCandidates canon inputPath excludes (Some entries) = Inr cs"
    and "distinct (map deName entries)"
  shows "generationOrder cs"
    and "wellScanned inputPath (List.map_filter canon (filter (\<lambda>p. p \<noteq> []) excludes)) cs entries"
proof -
  let ?ex = "List.map_filter canon (filter (\<lambda>p. p \<noteq> []) excludes)"
  obtain scanned where scan: "scanEntries inputPath ?ex entries [] = Inr scanned"
    and pairs: "ambiguousPair scanned = None" and cs: "cs = sort_key candidateKey scanned"
    and cur: "\<exists>c \<in> set cs. scCurrent c"
    using assms(1) by (auto simp: discoverCandidates_def Let_def split: sum.splits if_splits option.splits)
  have ws: "wellScanned inputPath ?ex scanned entries"
    using scanEntries_scanned [OF scan, of "[]"] by (simp add: wellScanned_def)
  have "mset (map scIdentity cs) = mset (map scIdentity scanned)" by (simp add: cs)
  then have ids: "distinct (map scIdentity cs)"
    using ws by (metis mset_eq_imp_distinct_iff wellScanned_def)
  show ws': "wellScanned inputPath ?ex cs entries"
    using ws ids by (simp add: wellScanned_def cs)
  obtain olds c where split: "cs = olds @ [c]" "scCurrent c" "\<forall>d \<in> set olds. \<not> scCurrent d"
  proof (rule sorted_current_last)
    show "sorted (map candidateKey cs)" by (simp add: cs)
    show "distinct cs" using ids by (simp add: distinct_map)
  qed (use cur current_unique [OF ws' assms(2)] in auto)
  have "sorted_wrt (\<lambda>c d. \<not> unordered c d) cs"
    by (rule unordered_mset [of scanned]) (use pairs cs in \<open>simp_all add: ambiguousPair_None\<close>)
  then have "sorted_wrt (\<lambda>c d. \<not> unordered c d) olds" using split by (simp add: sorted_wrt_append)
  moreover have "sorted_wrt (\<lambda>c d. candidateKey c \<le> candidateKey d) olds"
    using split by (metis cs sorted_map sorted_sort_key sorted_wrt_append)
  ultimately have "sorted_wrt (\<lambda>c d. scNumber d < scNumber c) olds"
    using split(3)
    by (induction olds) (auto simp: candidateKey_def unordered_def less_eq_prod_def less_le)
  with split ids show "generationOrder cs" unfolding generationOrder_def by blast
qed

text \<open>An accepted chain is the conventional one: \<open>n, ..., 2, 1\<close> and then the input itself.\<close>

lemma linked_current: "linked c d \<Longrightarrow> \<not> scCurrent c"
  by (simp add: linked_def)

lemma validateGenerationChain_numbers:
  assumes "validateGenerationChain (olds @ [cur]) = None" and "scCurrent cur"
  shows "map scNumber olds = rev (map int [1..<Suc (length olds)])" and "\<forall>c \<in> set olds. \<not> scCurrent c"
proof -
  have "map scNumber olds = rev (map int [1..<Suc (length olds)]) \<and> (\<forall>c \<in> set olds. \<not> scCurrent c)"
    using assms
  proof (induction olds)
    case Nil
    then show ?case by simp
  next
    case (Cons c olds)
    show ?case
    proof (cases olds)
      case Nil
      with Cons.prems show ?thesis by (auto simp: linked_def split: if_splits)
    next
      case (Cons d ds)
      with Cons.prems have link: "linked c d" and rest: "validateGenerationChain (olds @ [cur]) = None"
        by (auto split: if_splits)
      from Cons.IH [OF rest Cons.prems(2)] have ih: "map scNumber olds = rev (map int [1..<Suc (length olds)])"
        "\<forall>c \<in> set olds. \<not> scCurrent c" by blast+
      have "scNumber d = int (length olds)" using ih(1) Cons by simp
      moreover have "\<not> scCurrent d" using ih(2) Cons by simp
      ultimately have "scNumber c = int (Suc (length olds))" using link by (simp add: linked_def)
      with ih linked_current [OF link] show ?thesis by simp
    qed
  qed
  then show "map scNumber olds = rev (map int [1..<Suc (length olds)])" and "\<forall>c \<in> set olds. \<not> scCurrent c"
    by blast+
qed

end
