(* ===== verification/Rotation.thy ===== *)
theory Rotation
  imports Discovery
begin

text \<open>
  The rotating follower (internal/collector/rotation.go) and the recovery follower
  (internal/collector/recovery.go): one polling step that reads a line, notices a rotation,
  waits for the old generation to settle and switches to the next one. Every system call of a
  step has its own outcome in the environment, because the directory may change between two of
  them. An index out of range is the result \<open>Panic\<close>.
\<close>

section \<open>State\<close>

text \<open>\<open>type SourcePosition struct\<close> of the collector.\<close>

record generationPosition =
  gpIdentity :: fileIdentity
  gpGeneration :: nat
  gpAnchor :: string
  gpOffset :: int

text \<open>\<open>type RotationOptions struct\<close>.\<close>

record rotationOptions =
  roFollower :: followerOptions
  roDrainInterval :: duration
  roExcludePaths :: "string list"

text \<open>\<open>type RotatingFollower struct\<close>.\<close>

record rotatingFollower =
  rfInputPath :: string
  rfOptions :: rotationOptions
  rfCurrent :: fileFollower
  rfCurrentAtPath :: bool
  rfQueued :: "sourceCandidate list"
  rfComplete :: generationPosition
  rfRotationCount :: nat
  rfPendingIdentity :: fileIdentity
  rfDrainStarted :: gotime
  rfDrainSize :: int

definition zeroIdentity :: fileIdentity where
  "zeroIdentity = \<lparr>fiDevice = 0, fiInode = 0\<rparr>"

text \<open>\<open>os.Stat\<close> of the input path.\<close>

datatype pathStat = StatMissing | StatFailed | StatInfo fileIdentity int

text \<open>
  The outcomes of the calls of one \<open>Next\<close>: the read, the status of the input path, the listing
  and the descriptor size, the clock, the opening of a path, and both again for the retry of
  \<open>switchTo\<close>.
\<close>

record nextEnv =
  neRead :: readEnv
  neStat :: pathStat
  neListing :: "dirEntry list option"
  neDescriptorSize :: "int option"
  neNow :: gotime
  neOpen :: "string \<Rightarrow> openedFile option"
  neListingAgain :: "dirEntry list option"
  neOpenAgain :: "string \<Rightarrow> openedFile option"
  neCloseFails :: bool

datatype nextResult = Failed rotationError | Idle | Returned sourceLine | Panic

text \<open>A truncation found on opening is the same error as one found by size.\<close>

fun liftError :: "followerError \<Rightarrow> rotationError" where
  "liftError (Truncated ident offset sz) = SourceTruncated ident offset sz"
| "liftError e = FollowerFailed e"

section \<open>Opening\<close>

definition followerOptionsAt :: "nat \<Rightarrow> rotationOptions \<Rightarrow> followerOptions" where
  "followerOptionsAt generation options = (roFollower options)\<lparr>foGeneration := generation\<rparr>"

definition startFollower ::
  "string \<Rightarrow> rotationOptions \<Rightarrow> fileFollower \<Rightarrow> bool \<Rightarrow> sourceCandidate list \<Rightarrow> generationPosition \<Rightarrow> rotatingFollower" where
  "startFollower inputPath options current atPath queued complete =
     \<lparr>rfInputPath = inputPath, rfOptions = options, rfCurrent = current, rfCurrentAtPath = atPath,
      rfQueued = queued, rfComplete = complete, rfRotationCount = 0,
      rfPendingIdentity = zeroIdentity, rfDrainStarted = 0, rfDrainSize = 0\<rparr>"

text \<open>\<open>OpenRotatingFollower\<close>.\<close>

definition OpenRotatingFollower ::
  "(string \<Rightarrow> string) \<Rightarrow> (string \<Rightarrow> string option) \<Rightarrow> string \<Rightarrow> rotationOptions \<Rightarrow> checkpoint option
     \<Rightarrow> dirEntry list option \<Rightarrow> (string \<Rightarrow> openedFile option) \<Rightarrow> rotationError + rotatingFollower" where
  "OpenRotatingFollower sha canon inputPath options saved listing opens =
     (if roDrainInterval options \<le> 0 then Inl BadDrainInterval
      else case canon inputPath of
        None \<Rightarrow> Inl BadPath
      | Some input \<Rightarrow>
          (case saved of
             None \<Rightarrow>
               (case OpenFileFollowerAt sha input (roFollower options) 0 None None (opens input) of
                  Inl e \<Rightarrow> Inl (liftError e)
                | Inr f \<Rightarrow> Inr (startFollower input options f True []
                     \<lparr>gpIdentity = ffIdentity f, gpGeneration = 0, gpAnchor = ffOriginAnchor f, gpOffset = 0\<rparr>))
           | Some c \<Rightarrow>
               let expected = \<lparr>fiDevice = cpDevice c, fiInode = cpInode c\<rparr>
               in (case discoverCandidates canon input (roExcludePaths options) listing of
                     Inl e \<Rightarrow> Inl e
                   | Inr candidates \<Rightarrow>
                       (case dropWhile (\<lambda>d. scIdentity d \<noteq> expected) candidates of
                          [] \<Rightarrow> Inl (SourceGap expected [])
                        | first # queued \<Rightarrow>
                            (case OpenFileFollowerAt sha (scPath first) (followerOptionsAt 0 options)
                                    (cpOffset c) (Some expected) (Some (cpAnchor c)) (opens (scPath first)) of
                               Inl e \<Rightarrow> Inl (liftError e)
                             | Inr f \<Rightarrow>
                                 (case validateGenerationChain (first # queued) of
                                    Some e \<Rightarrow> Inl e
                                  | None \<Rightarrow> Inr (startFollower input options f (scCurrent first) queued
                                       \<lparr>gpIdentity = expected, gpGeneration = 0, gpAnchor = cpAnchor c,
                                        gpOffset = cpOffset c\<rparr>)))))))"

section \<open>The steps of Next\<close>

definition resetDrain :: "rotatingFollower \<Rightarrow> rotatingFollower" where
  "resetDrain f = f\<lparr>rfPendingIdentity := zeroIdentity, rfDrainStarted := 0, rfDrainSize := 0\<rparr>"

text \<open>\<open>refreshQueue\<close>: None is a nil error.\<close>

definition refreshQueue ::
  "(string \<Rightarrow> string option) \<Rightarrow> dirEntry list option \<Rightarrow> rotatingFollower \<Rightarrow> rotationError option \<times> rotatingFollower" where
  "refreshQueue canon listing f =
     (case discoverCandidates canon (rfInputPath f) (roExcludePaths (rfOptions f)) listing of
        Inl e \<Rightarrow> (Some e, f)
      | Inr candidates \<Rightarrow>
          (case dropWhile (\<lambda>c. scIdentity c \<noteq> ffIdentity (rfCurrent f)) candidates of
             [] \<Rightarrow> (Some (SourceGap (ffIdentity (rfCurrent f)) []), f)
           | current # refreshed \<Rightarrow>
               if scCurrent current then (None, f\<lparr>rfCurrentAtPath := True, rfQueued := []\<rparr>)
               else if refreshed = [] then (Some (SourceGap (ffIdentity (rfCurrent f)) []), f)
               else (case find (\<lambda>k. scIdentity k \<notin> scIdentity ` set refreshed) (rfQueued f) of
                       Some known \<Rightarrow> (Some (SourceGap (scIdentity known) []), f)
                     | None \<Rightarrow>
                         (case validateGenerationChain (current # refreshed) of
                            Some e \<Rightarrow> (Some e, f)
                          | None \<Rightarrow> (None, f\<lparr>rfQueued := refreshed\<rparr>)))))"

text \<open>\<open>stableForSwitch\<close>.\<close>

definition stableForSwitch ::
  "fileIdentity \<Rightarrow> int option \<Rightarrow> gotime \<Rightarrow> rotatingFollower \<Rightarrow> (rotationError + bool) \<times> rotatingFollower" where
  "stableForSwitch following sz now f =
     (case sz of
        None \<Rightarrow> (Inl CallFailed, f)
      | Some n \<Rightarrow>
          if n < CurrentOffset (rfCurrent f)
            then (Inl (SourceTruncated (ffIdentity (rfCurrent f)) (CurrentOffset (rfCurrent f)) n), f)
          else if following \<noteq> rfPendingIdentity f \<or> n \<noteq> rfDrainSize f
            then (Inr False, f\<lparr>rfPendingIdentity := following, rfDrainSize := n, rfDrainStarted := now\<rparr>)
          else if timeSub now (rfDrainStarted f) < roDrainInterval (rfOptions f) then (Inr False, f)
          else (Inr True, f))"

text \<open>\<open>findCandidate\<close>.\<close>

definition findCandidate ::
  "(string \<Rightarrow> string option) \<Rightarrow> dirEntry list option \<Rightarrow> fileIdentity \<Rightarrow> rotatingFollower \<Rightarrow> rotationError + sourceCandidate" where
  "findCandidate canon listing ident f =
     (case discoverCandidates canon (rfInputPath f) (roExcludePaths (rfOptions f)) listing of
        Inl e \<Rightarrow> Inl e
      | Inr candidates \<Rightarrow>
          (case find (\<lambda>c. scIdentity c = ident) candidates of
             Some c \<Rightarrow> Inr c
           | None \<Rightarrow> Inl (SourceGap ident [])))"

text \<open>The opening in \<open>switchTo\<close>, retried once under the name the generation has by then.\<close>

definition openNext ::
  "(string \<Rightarrow> string) \<Rightarrow> (string \<Rightarrow> string option) \<Rightarrow> nextEnv \<Rightarrow> sourceCandidate \<Rightarrow> rotatingFollower
     \<Rightarrow> rotationError + (sourceCandidate \<times> fileFollower)" where
  "openNext sha canon env candidate f =
     (let options = followerOptionsAt (ffGeneration (rfCurrent f) + 1) (rfOptions f)
      in case OpenFileFollowerAt sha (scPath candidate) options 0 (Some (scIdentity candidate)) None
                (neOpen env (scPath candidate)) of
           Inr opened \<Rightarrow> Inr (candidate, opened)
         | Inl e \<Rightarrow>
             (case findCandidate canon (neListingAgain env) (scIdentity candidate) f of
                Inl e' \<Rightarrow> Inl (Joined (liftError e) e')
              | Inr resolved \<Rightarrow>
                  (case OpenFileFollowerAt sha (scPath resolved) options 0 (Some (scIdentity resolved)) None
                          (neOpenAgain env (scPath resolved)) of
                     Inl e'' \<Rightarrow> Inl (liftError e'')
                   | Inr opened \<Rightarrow> Inr (resolved, opened))))"

text \<open>\<open>switchTo\<close>. A failing close leaves the old generation current, but emptied of its partial line.\<close>

definition switchTo ::
  "(string \<Rightarrow> string) \<Rightarrow> (string \<Rightarrow> string option) \<Rightarrow> nextEnv \<Rightarrow> sourceCandidate \<Rightarrow> rotatingFollower
     \<Rightarrow> rotationError option \<times> rotatingFollower" where
  "switchTo sha canon env candidate f =
     (case openNext sha canon env candidate f of
        Inl e \<Rightarrow> (Some e, f)
      | Inr (opened_as, opened) \<Rightarrow>
          let hadPartial = HasPartial (rfCurrent f)
          in (case transferPartialTo (rfCurrent f) opened of
                Inl e \<Rightarrow> (Some (FollowerFailed e), f)
              | Inr (old, new) \<Rightarrow>
                  if neCloseFails env then (Some CallFailed, f\<lparr>rfCurrent := old\<rparr>)
                  else let f' = f\<lparr>rfCurrent := new, rfCurrentAtPath := scCurrent opened_as,
                                  rfRotationCount := rfRotationCount f + 1\<rparr>
                       in (None, if hadPartial then f'
                                 else f'\<lparr>rfComplete := \<lparr>gpIdentity = scIdentity opened_as,
                                        gpGeneration = ffGeneration (rfCurrent f) + 1,
                                        gpAnchor = ffOriginAnchor new, gpOffset = 0\<rparr>\<rparr>)))"

text \<open>The tail common to both ways into a switch: wait, switch, drop the head of the queue.\<close>

definition switchWhenStable ::
  "(string \<Rightarrow> string) \<Rightarrow> (string \<Rightarrow> string option) \<Rightarrow> nextEnv \<Rightarrow> rotatingFollower \<Rightarrow> nextResult \<times> rotatingFollower" where
  "switchWhenStable sha canon env f =
     (case rfQueued f of
        [] \<Rightarrow> (Panic, f)
      | candidate # queued \<Rightarrow>
          (case stableForSwitch (scIdentity candidate) (neDescriptorSize env) (neNow env) f of
             (Inl e, f1) \<Rightarrow> (Failed e, f1)
           | (Inr False, f1) \<Rightarrow> (Idle, f1)
           | (Inr True, f1) \<Rightarrow>
               (case switchTo sha canon env candidate f1 of
                  (Some e, f2) \<Rightarrow> (if rotationPending e then Idle else Failed e, f2)
                | (None, f2) \<Rightarrow> (Idle, resetDrain (f2\<lparr>rfQueued := queued\<rparr>)))))"

definition pendingOr :: "rotationError \<Rightarrow> nextResult" where
  "pendingOr e = (if rotationPending e then Idle else Failed e)"

text \<open>What \<open>Next\<close> does after an idle poll of the current generation.\<close>

definition afterIdle ::
  "(string \<Rightarrow> string) \<Rightarrow> (string \<Rightarrow> string option) \<Rightarrow> nextEnv \<Rightarrow> rotatingFollower \<Rightarrow> nextResult \<times> rotatingFollower" where
  "afterIdle sha canon env f =
     (if rfQueued f \<noteq> [] \<and> \<not> rfCurrentAtPath f then
        (case refreshQueue canon (neListing env) f of
           (Some e, f1) \<Rightarrow> (pendingOr e, f1)
         | (None, f1) \<Rightarrow> if rfCurrentAtPath f1 then (Idle, f1) else switchWhenStable sha canon env f1)
      else if \<not> rfCurrentAtPath f then
        (case refreshQueue canon (neListing env) f of
           (Some e, f1) \<Rightarrow> (pendingOr e, f1)
         | (None, f1) \<Rightarrow> (Idle, f1))
      else (case neStat env of
          StatMissing \<Rightarrow> (Idle, f)
        | StatFailed \<Rightarrow> (Failed CallFailed, f)
        | StatInfo ident sz \<Rightarrow>
            if ident = ffIdentity (rfCurrent f) then
              let f1 = resetDrain (f\<lparr>rfQueued := []\<rparr>)
              in if sz < CurrentOffset (rfCurrent f)
                   then (Failed (SourceTruncated ident (CurrentOffset (rfCurrent f)) sz), f1)
                 else (Idle, f1)
            else (case refreshQueue canon (neListing env) f of
                    (Some e, f1) \<Rightarrow> (pendingOr e, f1)
                  | (None, f1) \<Rightarrow> switchWhenStable sha canon env f1)))"

text \<open>\<open>Next\<close>.\<close>

definition Next ::
  "(string \<Rightarrow> string) \<Rightarrow> (string \<Rightarrow> string option) \<Rightarrow> nextEnv \<Rightarrow> rotatingFollower \<Rightarrow> nextResult \<times> rotatingFollower" where
  "Next sha canon env f =
     (case NextSource sha (neRead env) (rfCurrent f) of
        (Inl e, cur) \<Rightarrow> (Failed (FollowerFailed e), f\<lparr>rfCurrent := cur\<rparr>)
      | (Inr (Some line), cur) \<Rightarrow>
          (Returned line, f\<lparr>rfCurrent := cur, rfComplete := \<lparr>gpIdentity = slIdentity line,
             gpGeneration = slGeneration line, gpAnchor = slEndAnchor line, gpOffset = slEnd line\<rparr>\<rparr>)
      | (Inr None, cur) \<Rightarrow> afterIdle sha canon env (f\<lparr>rfCurrent := cur\<rparr>))"

section \<open>Progress reports\<close>

text \<open>\<open>CaughtUp\<close>.\<close>

definition CaughtUp :: "int option \<Rightarrow> rotatingFollower \<Rightarrow> bool" where
  "CaughtUp sz f \<longleftrightarrow>
     rfCurrentAtPath f \<and> rfQueued f = [] \<and> sz = Some (CurrentOffset (rfCurrent f))"

text \<open>\<open>LagBytes\<close>; the sizes of the newer generations are what \<open>os.Stat\<close> returns for their paths.\<close>

fun lagOf :: "(string \<Rightarrow> int option) \<Rightarrow> sourceCandidate list \<Rightarrow> int \<Rightarrow> rotationError + int" where
  "lagOf stat [] lag = Inr lag"
| "lagOf stat (c # cs) lag =
     (case stat (scPath c) of None \<Rightarrow> Inl CallFailed | Some n \<Rightarrow> lagOf stat cs (lag + n))"

definition LagBytes ::
  "(string \<Rightarrow> string option) \<Rightarrow> int option \<Rightarrow> dirEntry list option \<Rightarrow> (string \<Rightarrow> int option)
     \<Rightarrow> rotatingFollower \<Rightarrow> rotationError + int" where
  "LagBytes canon sz listing stat f =
     (case sz of
        None \<Rightarrow> Inl CallFailed
      | Some n \<Rightarrow>
          if n < CurrentOffset (rfCurrent f)
            then Inl (SourceTruncated (ffIdentity (rfCurrent f)) (CurrentOffset (rfCurrent f)) n)
          else (case discoverCandidates canon (rfInputPath f) (roExcludePaths (rfOptions f)) listing of
                  Inl e \<Rightarrow> Inl e
                | Inr candidates \<Rightarrow>
                    (case dropWhile (\<lambda>c. scIdentity c \<noteq> ffIdentity (rfCurrent f)) candidates of
                       [] \<Rightarrow> Inl (SourceGap (ffIdentity (rfCurrent f)) [])
                     | _ # newer \<Rightarrow> lagOf stat newer (n - CurrentOffset (rfCurrent f)))))"

section \<open>Recovery\<close>

text \<open>\<open>errors.As\<close> for the three error types, in the order of the tree.\<close>

fun anchorMismatch :: "rotationError \<Rightarrow> bool" where
  "anchorMismatch (FollowerFailed (AnchorMismatch ident)) = True"
| "anchorMismatch (Joined d e) = (anchorMismatch d \<or> anchorMismatch e)"
| "anchorMismatch _ = False"

fun truncation :: "rotationError \<Rightarrow> bool" where
  "truncation (SourceTruncated ident offset sz) = True"
| "truncation (Joined d e) = (truncation d \<or> truncation e)"
| "truncation _ = False"

fun sourceGap :: "rotationError \<Rightarrow> string option" where
  "sourceGap (SourceGap ident reason) = Some reason"
| "sourceGap (FollowerFailed (AnchorMismatch ident)) = Some []"
| "sourceGap (Joined d e) = (case sourceGap d of Some r \<Rightarrow> Some r | None \<Rightarrow> sourceGap e)"
| "sourceGap _ = None"

definition RecoverableSourceGap :: "rotationError \<Rightarrow> bool" where
  "RecoverableSourceGap e \<longleftrightarrow> \<not> anchorMismatch e \<and> (sourceGap e \<noteq> None \<or> truncation e)"

definition SourceGapReason :: "rotationError \<Rightarrow> string" where
  "SourceGapReason e =
     (if truncation e then ''source_truncated''
      else case sourceGap e of
             Some reason \<Rightarrow> if reason \<noteq> [] then reason else ''source_generation_missing''
           | None \<Rightarrow> ''source_generation_missing'')"

text \<open>
  The loop of \<open>OpenRecoveryFollower\<close> that walks back from the input while the numbers are
  contiguous; the argument is the listing reversed, newest first.
\<close>

definition precedes :: "sourceCandidate \<Rightarrow> sourceCandidate \<Rightarrow> bool" where
  "precedes older newer \<longleftrightarrow>
     \<not> (scNumber older = 0 \<or> scNumber older - 1 \<noteq> (if scCurrent newer then 0 else scNumber newer))"

fun walkBack :: "sourceCandidate \<Rightarrow> sourceCandidate list \<Rightarrow> sourceCandidate list \<Rightarrow> sourceCandidate list" where
  "walkBack newer [] found = newer # found"
| "walkBack newer (older # rest) found =
     (if precedes older newer then walkBack older rest (newer # found) else newer # found)"

definition retainedSuffix :: "sourceCandidate list \<Rightarrow> sourceCandidate list" where
  "retainedSuffix candidates =
     (case rev candidates of [] \<Rightarrow> [] | newest # older \<Rightarrow> walkBack newest older [])"

text \<open>\<open>OpenRecoveryFollower\<close>.\<close>

definition OpenRecoveryFollower ::
  "(string \<Rightarrow> string) \<Rightarrow> (string \<Rightarrow> string option) \<Rightarrow> string \<Rightarrow> rotationOptions
     \<Rightarrow> (string \<Rightarrow> openedFile option) \<Rightarrow> bool \<Rightarrow> dirEntry list option \<Rightarrow> (string \<Rightarrow> openedFile option)
     \<Rightarrow> rotationError + rotatingFollower" where
  "OpenRecoveryFollower sha canon inputPath options probes closeFails listing opens =
     (case canon inputPath of
        None \<Rightarrow> Inl BadPath
      | Some input \<Rightarrow>
          (case OpenFileFollower sha input (roFollower options) (probes input) of
             Inl e \<Rightarrow> Inl (liftError e)
           | Inr active \<Rightarrow>
               if closeFails then Inl CallFailed
               else (case discoverCandidates canon input (roExcludePaths options) listing of
                       Inl e \<Rightarrow> Inl e
                     | Inr candidates \<Rightarrow>
                         (case retainedSuffix candidates of
                            [] \<Rightarrow> Inl NotExist
                          | first # queued \<Rightarrow>
                              (case OpenFileFollowerAt sha (scPath first) (followerOptionsAt 0 options) 0
                                      (Some (scIdentity first)) None (opens (scPath first)) of
                                 Inl e \<Rightarrow> Inl (liftError e)
                               | Inr f \<Rightarrow> Inr (startFollower input options f (scCurrent first) queued
                                    \<lparr>gpIdentity = scIdentity first, gpGeneration = 0,
                                     gpAnchor = ffOriginAnchor f, gpOffset = 0\<rparr>))))))"

section \<open>The gap ledger\<close>

text \<open>\<open>type GapIncident struct\<close> and \<open>type GapLedger struct\<close>; pointers that may be nil are options.\<close>

record gapIncident =
  giNumber :: nat
  giDetectedAt :: gotime
  giReason :: string
  giObservedIdentity :: fileIdentity
  giObservedOffset :: "int option"
  giObservedSize :: "int option"
  giPrevious :: "checkpoint option"
  giResume :: checkpoint
  giPrepared :: bool
  giSuperseded :: bool

record gapLedger =
  glVersion :: int
  glInputPath :: string
  glTotal :: nat
  glIncidents :: "gapIncident list"

datatype ledgerError =
  InvalidLedger
| InvalidIncident
| BadCheckpoint checkpointError
| InputMismatch
| CountMismatch

definition gapReasons :: "string list" where
  "gapReasons = [''source_truncated'', ''source_generation_missing'', ''missing_intermediate_generation'']"

text \<open>The checks of one incident: its predecessor, if any, and whether a later one follows.\<close>

definition validateIncident :: "gapLedger \<Rightarrow> gapIncident option \<Rightarrow> bool \<Rightarrow> gapIncident \<Rightarrow> ledgerError option" where
  "validateIncident l previous later g =
     (if fiDevice (giObservedIdentity g) = 0 \<or> fiInode (giObservedIdentity g) = 0
         \<or> giPrepared g \<and> giSuperseded g \<or> giNumber g = 0 \<or> glTotal l < giNumber g
         \<or> (case previous of None \<Rightarrow> False | Some p \<Rightarrow> giNumber g \<noteq> giNumber p + 1)
         \<or> giDetectedAt g = 0 \<or> giReason g \<notin> set gapReasons
         \<or> cpInputPath (giResume g) \<noteq> glInputPath l \<or> cpOffset (giResume g) \<noteq> 0
         \<or> later \<and> giPrepared g
      then Some InvalidIncident
      else case checkpointValidate (giResume g) of
        Some e \<Rightarrow> Some (BadCheckpoint e)
      | None \<Rightarrow>
          (case giPrevious g of
             None \<Rightarrow> None
           | Some c \<Rightarrow>
               (case checkpointValidate c of
                  Some e \<Rightarrow> Some (BadCheckpoint e)
                | None \<Rightarrow> if cpInputPath c \<noteq> glInputPath l then Some InputMismatch else None)))"

fun validateIncidents :: "gapLedger \<Rightarrow> gapIncident option \<Rightarrow> gapIncident list \<Rightarrow> ledgerError option" where
  "validateIncidents l previous [] = None"
| "validateIncidents l previous (g # gs) =
     (case validateIncident l previous (gs \<noteq> []) g of
        Some e \<Rightarrow> Some e
      | None \<Rightarrow> validateIncidents l (Some g) gs)"

text \<open>\<open>GapLedger.Validate\<close>.\<close>

definition ledgerValidate :: "gapLedger \<Rightarrow> ledgerError option" where
  "ledgerValidate l =
     (if glVersion l \<noteq> 1 \<or> glInputPath l = [] \<or> glTotal l = 0 \<or> glIncidents l = [] \<or> 8 < length (glIncidents l)
        then Some InvalidLedger
      else case validateIncidents l None (glIncidents l) of
        Some e \<Rightarrow> Some e
      | None \<Rightarrow> if giNumber (last (glIncidents l)) \<noteq> glTotal l then Some CountMismatch else None)"

end
