(* ===== verification/FollowerProperties.thy ===== *)
theory FollowerProperties
  imports Follower
begin

text \<open>
  What the line follower makes of a growing file. \<open>keeps f raw\<close> says that the follower holds
  the unfinished physical line \<open>raw\<close>; reading takes it to the longer line, and a run of polls
  over any growth of the file yields its physical lines, whatever the growth looked like.
\<close>

section \<open>The specification\<close>

text \<open>A physical line and its presentation: the whole line without its ending, or a bounded prefix.\<close>

definition physicalLine :: "string \<Rightarrow> bool" where
  "physicalLine raw \<longleftrightarrow> (\<exists>body. raw = body @ [newline] \<and> newline \<notin> set body)"

definition lineText :: "nat \<Rightarrow> string \<Rightarrow> string" where
  "lineText limit raw =
     (if length raw \<le> limit then trimSuffixByte carriageReturn (trimSuffixByte newline raw)
      else take limit raw)"

definition keeps :: "fileFollower \<Rightarrow> string \<Rightarrow> bool" where
  "keeps f raw \<longleftrightarrow> ffPartial f = take (ffMaxLineBytes f) raw \<and> ffLineBytes f = length raw"

text \<open>The follower after it has read on to \<open>raw\<close> at offset \<open>off\<close>.\<close>

definition grown :: "fileFollower \<Rightarrow> string \<Rightarrow> int \<Rightarrow> fileFollower" where
  "grown f raw off =
     f\<lparr>ffLineBytes := length raw, ffPartial := take (ffMaxLineBytes f) raw, ffReadOffset := off\<rparr>"

definition admits :: "fileFollower \<Rightarrow> nat \<Rightarrow> bool" where
  "admits f n \<longleftrightarrow> int n \<le> maxInt \<and> (ffRecoverLineLimits f \<or> n \<le> ffMaxLineBytes f)"

lemma keeps_grown [simp]: "keeps (grown f raw off) raw"
  by (simp add: keeps_def grown_def)

lemma admits_grown [simp]: "admits (grown f raw off) n = admits f n"
  by (simp add: admits_def grown_def)

lemma grown_grown [simp]: "grown (grown f r o1) raw off = grown f raw off"
  by (simp add: grown_def)

lemma grown_fields [simp]:
  "ffReadOffset (grown f raw off) = off" "ffMaxLineBytes (grown f raw off) = ffMaxLineBytes f"
  "ffRecoverLineLimits (grown f raw off) = ffRecoverLineLimits f"
  "ffIdentity (grown f raw off) = ffIdentity f" "ffGeneration (grown f raw off) = ffGeneration f"
  "ffOrigin (grown f raw off) = ffOrigin f" "ffOriginGen (grown f raw off) = ffOriginGen f"
  "ffOriginOffset (grown f raw off) = ffOriginOffset f" "ffLineBytes (grown f raw off) = length raw"
  by (simp_all add: grown_def)

lemma grown_same: "keeps f raw \<Longrightarrow> grown f raw (ffReadOffset f) = f"
  by (cases f) (simp add: keeps_def grown_def)

lemma admits_mono: "admits f n \<Longrightarrow> m \<le> n \<Longrightarrow> admits f m"
  by (auto simp: admits_def)

section \<open>One fragment, one call\<close>

lemma takeFragment_keeps:
  assumes "keeps f raw" and "admits f (length raw + length fragment)"
  shows "takeFragment fragment f =
     (None, grown f (raw @ fragment) (ffReadOffset f + int (length fragment)))"
proof (cases "fragment = []")
  case True
  with assms(1) show ?thesis by (simp add: takeFragment_def grown_same)
next
  case False
  let ?max = "ffMaxLineBytes f"
  have "take (min (length fragment) (?max - min (length raw) ?max)) fragment = take (?max - length raw) fragment"
    by (cases "length raw \<le> ?max") (auto simp: min_def)
  with assms False show ?thesis
    by (auto simp: takeFragment_def Let_def keeps_def admits_def grown_def add.commute min.commute)
qed

lemma readSlice_buffer:
  "newline \<notin> set (take defaultReadBufferBytes s) \<Longrightarrow> defaultReadBufferBytes \<le> length s
     \<Longrightarrow> readSlice fault s = (take defaultReadBufferBytes s, BufferFull)"
  by (simp add: readSlice_def indexByte_None [THEN iffD2])

lemma readSlice_end:
  "newline \<notin> set s \<Longrightarrow> length s < defaultReadBufferBytes
     \<Longrightarrow> readSlice fault s = (s, if fault then ReadFault else ReadEOF)"
  by (simp add: readSlice_def indexByte_None [THEN iffD2])

lemma readSlice_line:
  assumes "indexByte newline s = Some i" and "i < defaultReadBufferBytes"
  shows "readSlice fault s = (take (Suc i) s, ReadLine)"
proof -
  have "indexByte newline (take defaultReadBufferBytes s) = Some i"
    using assms by (auto simp: indexByte_Some min_def)
  then show ?thesis by (simp add: readSlice_def)
qed

lemma readSlice_buffer_line:
  assumes "indexByte newline s = Some i" and "defaultReadBufferBytes \<le> i"
  shows "readSlice fault s = (take defaultReadBufferBytes s, BufferFull)"
proof (rule readSlice_buffer)
  have "set (take defaultReadBufferBytes s) \<subseteq> set (take i s)"
    using assms(2) by (rule set_take_subset_set_take)
  then show "newline \<notin> set (take defaultReadBufferBytes s)"
    and "defaultReadBufferBytes \<le> length s"
    using assms by (auto simp: indexByte_Some)
qed

lemma indexByte_skip:
  "b \<notin> set xs \<Longrightarrow> indexByte b (xs @ ys) = map_option ((+) (length xs)) (indexByte b ys)"
proof (induction xs)
  case Nil
  then show ?case by (simp add: option.map_ident)
next
  case (Cons x xs)
  then show ?case by (cases "indexByte b ys") auto
qed

text \<open>The unread bytes hold no newline: the call reads to the end of the file and is idle.\<close>

lemma NextSource_idle:
  assumes "\<not> reCancelled env" and "keeps f raw"
    and "0 \<le> ffReadOffset f" and "ffReadOffset f \<le> int (length (reContent env))"
    and "newline \<notin> set (drop (nat (ffReadOffset f)) (reContent env))"
    and "admits f (length raw + length (drop (nat (ffReadOffset f)) (reContent env)))"
  shows "NextSource sha env f =
     (if reFault env then Inl ReadFailed else if reCancelledIdle env then Inl ContextDone else Inr None,
      grown f (raw @ drop (nat (ffReadOffset f)) (reContent env)) (int (length (reContent env))))"
  using assms
proof (induction sha env f arbitrary: raw rule: NextSource.induct)
  case (1 sha env f)
  let ?unread = "drop (nat (ffReadOffset f)) (reContent env)"
  show ?case
  proof (cases "length ?unread < defaultReadBufferBytes")
    case True
    have slice: "readSlice (reFault env) ?unread = (?unread, if reFault env then ReadFault else ReadEOF)"
      using "1.prems"(5) True by (rule readSlice_end)
    have frag: "takeFragment ?unread f =
        (None, grown f (raw @ ?unread) (ffReadOffset f + int (length ?unread)))"
      using "1.prems"(2,6) by (rule takeFragment_keeps)
    have "ffReadOffset f + int (length ?unread) = int (length (reContent env))"
      using "1.prems"(3,4) by simp
    with slice frag "1.prems"(1) show ?thesis
      by (simp add: NextSource.simps [of sha env f] del: length_drop)
  next
    case False
    let ?fragment = "take defaultReadBufferBytes ?unread"
    let ?f = "grown f (raw @ ?fragment) (ffReadOffset f + int defaultReadBufferBytes)"
    have slice: "readSlice (reFault env) ?unread = (?fragment, BufferFull)"
      using False "1.prems"(5) by (intro readSlice_buffer) (auto dest: in_set_takeD)
    have frag: "takeFragment ?fragment f = (None, ?f)"
      using False admits_mono [OF "1.prems"(6)] "1.prems"(2)
      by (subst takeFragment_keeps [of f raw]) (auto simp: min_def)
    have rest: "drop (nat (ffReadOffset ?f)) (reContent env) = drop defaultReadBufferBytes ?unread"
      using "1.prems"(3) by (simp add: nat_add_distrib add.commute)
    have "NextSource sha env f = NextSource sha env ?f"
      using "1.prems"(1) slice frag by (simp add: NextSource.simps [of sha env f])
    also have "\<dots> = (if reFault env then Inl ReadFailed else if reCancelledIdle env then Inl ContextDone else Inr None,
        grown ?f ((raw @ ?fragment) @ drop (nat (ffReadOffset ?f)) (reContent env)) (int (length (reContent env))))"
    proof (rule "1.IH" [OF "1.prems"(1) slice [symmetric] frag [symmetric] refl refl])
      show "keeps ?f (raw @ ?fragment)" by simp
      show "newline \<notin> set (drop (nat (ffReadOffset ?f)) (reContent env))"
        unfolding rest using "1.prems"(5) in_set_dropD by metis
      show "admits ?f (length (raw @ ?fragment) + length (drop (nat (ffReadOffset ?f)) (reContent env)))"
        unfolding rest using "1.prems"(6) False by (auto intro: admits_mono)
    qed (use "1.prems" False in auto)
    finally show ?thesis unfolding rest by (simp del: drop_drop)
  qed
qed

text \<open>The unread bytes hold a newline: the call completes the line that ends there.\<close>

lemma NextSource_line:
  assumes "\<not> reCancelled env" and "keeps f raw" and "0 \<le> ffReadOffset f"
    and "indexByte newline (drop (nat (ffReadOffset f)) (reContent env)) = Some i"
    and "admits f (length raw + Suc i)"
  shows "NextSource sha env f =
     completeLine sha (reContent env)
       (grown f (raw @ take (Suc i) (drop (nat (ffReadOffset f)) (reContent env))) (ffReadOffset f + int (Suc i)))"
  using assms
proof (induction sha env f arbitrary: raw i rule: NextSource.induct)
  case (1 sha env f)
  let ?unread = "drop (nat (ffReadOffset f)) (reContent env)"
  have i: "i < length ?unread" using "1.prems"(4) by (simp add: indexByte_Some)
  show ?case
  proof (cases "i < defaultReadBufferBytes")
    case True
    have slice: "readSlice (reFault env) ?unread = (take (Suc i) ?unread, ReadLine)"
      using "1.prems"(4) True by (rule readSlice_line)
    have "length (take (Suc i) ?unread) = Suc i" using i by simp
    then have "takeFragment (take (Suc i) ?unread) f =
        (None, grown f (raw @ take (Suc i) ?unread) (ffReadOffset f + int (Suc i)))"
      using takeFragment_keeps [OF "1.prems"(2), of "take (Suc i) ?unread"] "1.prems"(5)
      by (simp del: take_Suc length_take)
    with slice "1.prems"(1) show ?thesis by (simp add: NextSource.simps [of sha env f])
  next
    case False
    let ?fragment = "take defaultReadBufferBytes ?unread"
    let ?f = "grown f (raw @ ?fragment) (ffReadOffset f + int defaultReadBufferBytes)"
    let ?j = "i - defaultReadBufferBytes"
    have slice: "readSlice (reFault env) ?unread = (?fragment, BufferFull)"
      using "1.prems"(4) False by (intro readSlice_buffer_line) auto
    have len: "length ?fragment = defaultReadBufferBytes" using i False by simp
    have frag: "takeFragment ?fragment f = (None, ?f)"
      using takeFragment_keeps [OF "1.prems"(2), of ?fragment] admits_mono [OF "1.prems"(5)] False len
      by (simp del: length_take)
    have rest: "drop (nat (ffReadOffset ?f)) (reContent env) = drop defaultReadBufferBytes ?unread"
      using "1.prems"(3) by (simp add: nat_add_distrib add.commute)
    have j: "indexByte newline (drop defaultReadBufferBytes ?unread) = Some ?j"
    proof -
      have "set ?fragment \<subseteq> set (take i ?unread)" using False by (intro set_take_subset_set_take) simp
      then have "newline \<notin> set ?fragment" using "1.prems"(4) by (auto simp: indexByte_Some)
      from indexByte_skip [OF this, of "drop defaultReadBufferBytes ?unread"] "1.prems"(4) len
      show ?thesis
        by (cases "indexByte newline (drop defaultReadBufferBytes ?unread)") (simp_all del: drop_drop length_take)
    qed
    have go: "NextSource sha env f = NextSource sha env ?f"
      using "1.prems"(1) slice frag by (simp add: NextSource.simps [of sha env f])
    have "NextSource sha env ?f = completeLine sha (reContent env)
        (grown ?f ((raw @ ?fragment) @ take (Suc ?j) (drop (nat (ffReadOffset ?f)) (reContent env)))
          (ffReadOffset ?f + int (Suc ?j)))"
    proof (rule "1.IH" [OF "1.prems"(1) slice [symmetric] frag [symmetric] refl refl])
      show "indexByte newline (drop (nat (ffReadOffset ?f)) (reContent env)) = Some ?j"
        unfolding rest by (rule j)
      show "admits ?f (length (raw @ ?fragment) + Suc ?j)"
        using "1.prems"(5) False len by simp
    qed (use "1.prems" in auto)
    moreover have "take (Suc i) ?unread = ?fragment @ take (Suc ?j) (drop defaultReadBufferBytes ?unread)"
    proof -
      have "Suc i = defaultReadBufferBytes + Suc ?j" using False by simp
      then show ?thesis by (simp only: take_add)
    qed
    ultimately show ?thesis
      unfolding go rest using False by simp
  qed
qed

text \<open>A line over the limit is refused when the follower is not told to recover.\<close>

lemma NextSource_too_long:
  assumes "\<not> reCancelled env" and "keeps f raw" and "\<not> ffRecoverLineLimits f"
    and "readSlice (reFault env) (drop (nat (ffReadOffset f)) (reContent env)) = (fragment, status)"
    and "fragment \<noteq> []" and "int (length raw + length fragment) \<le> maxInt"
    and "ffMaxLineBytes f < length raw + length fragment"
  shows "fst (NextSource sha env f) = Inl LineTooLong"
  using assms by (simp add: NextSource.simps [of sha env f] takeFragment_def keeps_def Let_def add.commute)

section \<open>Complete lines\<close>

text \<open>The line a complete physical line becomes, and the follower after it.\<close>

definition lineOf :: "fileFollower \<Rightarrow> string \<Rightarrow> int \<Rightarrow> string \<Rightarrow> sourceLine" where
  "lineOf f raw off anchor =
     \<lparr>slOmittedBytes = length raw - ffMaxLineBytes f, slText = lineText (ffMaxLineBytes f) raw,
      slIdentity = ffIdentity f, slGeneration = ffGeneration f, slStartIdentity = ffOrigin f,
      slStartGeneration = ffOriginGen f, slStart = ffOriginOffset f, slEnd = off,
      slStartAnchor = ffOriginAnchor f, slEndAnchor = anchor, slSourceBytes = length raw\<rparr>"

definition afterLine :: "fileFollower \<Rightarrow> int \<Rightarrow> string \<Rightarrow> fileFollower" where
  "afterLine f off anchor =
     f\<lparr>ffReadOffset := off, ffCompleteEnd := off, ffLineStart := off, ffOrigin := ffIdentity f,
       ffOriginGen := ffGeneration f, ffOriginOffset := off, ffOriginAnchor := anchor,
       ffPartial := [], ffLineBytes := 0\<rparr>"

lemma keeps_afterLine [simp]: "keeps (afterLine f off anchor) []"
  by (simp add: keeps_def afterLine_def)

lemma admits_afterLine [simp]: "admits (afterLine f off anchor) n = admits f n"
  by (simp add: admits_def afterLine_def)

lemma afterLine_fields [simp]:
  "ffReadOffset (afterLine f off anchor) = off" "ffMaxLineBytes (afterLine f off anchor) = ffMaxLineBytes f"
  "ffOriginOffset (afterLine f off anchor) = off" "ffLineBytes (afterLine f off anchor) = 0"
  "ffIdentity (afterLine f off anchor) = ffIdentity f" "ffGeneration (afterLine f off anchor) = ffGeneration f"
  "ffOrigin (afterLine f off anchor) = ffIdentity f" "ffOriginGen (afterLine f off anchor) = ffGeneration f"
  "ffRecoverLineLimits (afterLine f off anchor) = ffRecoverLineLimits f"
  by (simp_all add: afterLine_def)

lemma completeLine_grown:
  assumes "ContentAnchor sha content off = Inr anchor"
  shows "completeLine sha content (grown f raw off) = (Inr (Some (lineOf f raw off anchor)), afterLine f off anchor)"
  using assms
  by (auto simp: completeLine_def Let_def grown_def lineOf_def afterLine_def lineText_def)

text \<open>
  One poll of an uncancelled follower without read faults: either it is idle, having read
  the whole file, or it returns the next physical line.
\<close>

lemma NextSource_poll:
  assumes env: "\<not> reCancelled env" "\<not> reCancelledIdle env" "\<not> reFault env"
    and raw: "keeps f raw" "newline \<notin> set raw"
    and off: "0 \<le> ffReadOffset f" "ffReadOffset f \<le> int (length (reContent env))"
    and adm: "admits f (length raw + length (drop (nat (ffReadOffset f)) (reContent env)))"
  shows "NextSource sha env f =
       (Inr None, grown f (raw @ drop (nat (ffReadOffset f)) (reContent env)) (int (length (reContent env)))) \<and>
       newline \<notin> set (raw @ drop (nat (ffReadOffset f)) (reContent env)) \<or>
     (\<exists>part off anchor. NextSource sha env f = (Inr (Some (lineOf f (raw @ part) off anchor)), afterLine f off anchor) \<and>
       physicalLine (raw @ part) \<and> off = ffReadOffset f + int (length part) \<and>
       off \<le> int (length (reContent env)) \<and>
       part = take (length part) (drop (nat (ffReadOffset f)) (reContent env)))"
proof (cases "indexByte newline (drop (nat (ffReadOffset f)) (reContent env))")
  case None
  then have no: "newline \<notin> set (drop (nat (ffReadOffset f)) (reContent env))" by (simp add: indexByte_None)
  from NextSource_idle [OF env(1) raw(1) off no adm] env(2,3) no raw(2) show ?thesis by simp
next
  case (Some i)
  let ?unread = "drop (nat (ffReadOffset f)) (reContent env)"
  let ?part = "take (Suc i) ?unread"
  let ?off = "ffReadOffset f + int (Suc i)"
  have i: "i < length ?unread" "?unread ! i = newline" "newline \<notin> set (take i ?unread)"
    using Some by (auto simp: indexByte_Some)
  have part: "?part = take i ?unread @ [newline]"
    using i by (simp add: take_Suc_conv_app_nth del: drop_drop)
  have "physicalLine (raw @ ?part)"
    unfolding physicalLine_def part using i(3) raw(2) by (intro exI [of _ "raw @ take i ?unread"]) simp
  moreover have len: "length ?part = Suc i" using i(1) by simp
  moreover have le: "?off \<le> int (length (reContent env))" using i(1) off by simp
  moreover obtain anchor where "ContentAnchor sha (reContent env) ?off = Inr anchor"
    using ContentAnchor_some [OF _ le] off(1) by fastforce
  moreover have "admits f (length raw + Suc i)"
    using i(1) by (intro admits_mono [OF adm]) simp
  ultimately show ?thesis
    using NextSource_line [OF env(1) raw(1) off(1) Some] completeLine_grown by metis
qed

section \<open>A run of polls over a growing file\<close>

text \<open>The caller polls again after a line and after an idle tick, and stops on an error.\<close>

fun followPolls ::
  "(string \<Rightarrow> string) \<Rightarrow> readEnv list \<Rightarrow> fileFollower \<Rightarrow> followerError + (sourceLine list \<times> fileFollower)" where
  "followPolls sha [] f = Inr ([], f)"
| "followPolls sha (env # envs) f =
     (case NextSource sha env f of
        (Inl e, f') \<Rightarrow> Inl e
      | (Inr None, f') \<Rightarrow> followPolls sha envs f'
      | (Inr (Some l), f') \<Rightarrow> map_sum id (apfst (Cons l)) (followPolls sha envs f'))"

definition quiet :: "readEnv \<Rightarrow> bool" where
  "quiet env \<longleftrightarrow> \<not> reCancelled env \<and> \<not> reCancelledIdle env \<and> \<not> reFault env"

text \<open>Each poll sees an extension of what the poll before saw.\<close>

definition appendOnly :: "int \<Rightarrow> readEnv list \<Rightarrow> string \<Rightarrow> bool" where
  "appendOnly off envs final \<longleftrightarrow>
     sorted_wrt prefix (map reContent envs) \<and> (\<forall>env \<in> set envs. prefix (reContent env) final \<and>
       off \<le> int (length (reContent env)))"

fun chainedLines :: "int \<Rightarrow> sourceLine list \<Rightarrow> int \<Rightarrow> bool" where
  "chainedLines start [] stop \<longleftrightarrow> start = stop"
| "chainedLines start (l # ls) stop \<longleftrightarrow> slStart l = start \<and> chainedLines (slEnd l) ls stop"

text \<open>
  \<open>presents\<close> relates the returned lines to the physical lines of the stream: text, size and
  the number of bytes left out.
\<close>

definition presents :: "nat \<Rightarrow> sourceLine \<Rightarrow> string \<Rightarrow> bool" where
  "presents limit l raw \<longleftrightarrow>
     physicalLine raw \<and> slText l = lineText limit raw \<and> slSourceBytes l = length raw \<and>
     slOmittedBytes l = length raw - limit"

lemma presents_lineOf: "physicalLine raw \<Longrightarrow> presents (ffMaxLineBytes f) (lineOf f raw off anchor) raw"
  by (simp add: presents_def lineOf_def)

lemma appendOnly_Cons:
  assumes "appendOnly off (env # envs) final" and "off' \<le> int (length (reContent env))"
  shows "appendOnly off' envs final"
proof -
  have "prefix (reContent env) (reContent e)" if "e \<in> set envs" for e
    using assms(1) that by (auto simp: appendOnly_def)
  then have "off' \<le> int (length (reContent e))" if "e \<in> set envs" for e
    using assms(2) prefix_length_le [of "reContent env" "reContent e"] that by fastforce
  then show ?thesis using assms(1) by (auto simp: appendOnly_def)
qed

lemma prefix_window:
  assumes "prefix c final" and "a + length part \<le> length c" and "part = take (length part) (drop a c)"
  shows "take (length part) (drop a final) = part"
proof -
  obtain zs where "final = c @ zs" using assms(1) by (auto simp: prefix_def)
  with assms(2,3) show ?thesis by simp
qed

lemma followPolls_lines:
  assumes "\<forall>env \<in> set envs. quiet env" and "appendOnly (ffReadOffset f) envs final"
    and "keeps f raw" and "newline \<notin> set raw" and "0 \<le> ffReadOffset f"
    and "admits f (length raw + length (drop (nat (ffReadOffset f)) final))"
  shows "\<exists>ls f' raws rest read.
      followPolls sha envs f = Inr (ls, f') \<and> list_all2 (presents (ffMaxLineBytes f)) ls raws \<and>
      keeps f' rest \<and> newline \<notin> set rest \<and>
      ffReadOffset f' = ffReadOffset f + int read \<and>
      raw @ take read (drop (nat (ffReadOffset f)) final) = concat raws @ rest \<and>
      chainedLines (ffOriginOffset f) ls (ffOriginOffset f')"
  using assms
proof (induction envs arbitrary: f raw)
  case Nil
  then show ?case by (auto intro!: exI [of _ "[]"] exI [of _ raw] exI [of _ 0])
next
  case (Cons env envs)
  let ?ro = "nat (ffReadOffset f)"
  have q: "\<not> reCancelled env" "\<not> reCancelledIdle env" "\<not> reFault env"
    and pre: "prefix (reContent env) final" and le: "ffReadOffset f \<le> int (length (reContent env))"
    using Cons.prems by (auto simp: quiet_def appendOnly_def)
  have shorter: "length (drop ?ro (reContent env)) \<le> length (drop ?ro final)"
    using prefix_length_le [OF pre] by simp
  have adm: "admits f (length raw + length (drop ?ro (reContent env)))"
    using shorter by (intro admits_mono [OF Cons.prems(6)]) simp
  from NextSource_poll [OF q Cons.prems(3,4,5) le adm, of sha]
  consider (idle) "NextSource sha env f =
        (Inr None, grown f (raw @ drop ?ro (reContent env)) (int (length (reContent env))))"
      "newline \<notin> set (raw @ drop ?ro (reContent env))"
    | (line) part off anchor where
      "NextSource sha env f = (Inr (Some (lineOf f (raw @ part) off anchor)), afterLine f off anchor)"
      "physicalLine (raw @ part)" "off = ffReadOffset f + int (length part)"
      "off \<le> int (length (reContent env))" "part = take (length part) (drop ?ro (reContent env))"
    by blast
  then show ?case
  proof cases
    case idle
    let ?part = "drop ?ro (reContent env)"
    let ?f = "grown f (raw @ ?part) (int (length (reContent env)))"
    have part: "take (length ?part) (drop ?ro final) = ?part"
      using Cons.prems(5) le by (intro prefix_window [OF pre]) auto
    have rest: "drop (nat (ffReadOffset ?f)) final = drop (length ?part) (drop ?ro final)"
      using Cons.prems(5) le by simp
    have total: "length ?part + length (drop (length ?part) (drop ?ro final)) = length (drop ?ro final)"
      using shorter by (simp only: length_drop [of "length ?part"] le_add_diff_inverse)
    have "\<exists>ls f' raws rest read. followPolls sha envs ?f = Inr (ls, f') \<and>
        list_all2 (presents (ffMaxLineBytes ?f)) ls raws \<and> keeps f' rest \<and> newline \<notin> set rest \<and>
        ffReadOffset f' = ffReadOffset ?f + int read \<and>
        (raw @ ?part) @ take read (drop (nat (ffReadOffset ?f)) final) = concat raws @ rest \<and>
        chainedLines (ffOriginOffset ?f) ls (ffOriginOffset f')"
    proof (rule Cons.IH)
      show "appendOnly (ffReadOffset ?f) envs final"
        using appendOnly_Cons [OF Cons.prems(2), of "ffReadOffset ?f"] by simp
      show "admits ?f (length (raw @ ?part) + length (drop (nat (ffReadOffset ?f)) final))"
        unfolding rest admits_grown length_append add.assoc total by (rule Cons.prems(6))
    qed (use Cons.prems idle in auto)
    then obtain ls f' raws rest read where
      ih: "followPolls sha envs ?f = Inr (ls, f')" "list_all2 (presents (ffMaxLineBytes f)) ls raws"
        "keeps f' rest" "newline \<notin> set rest" "ffReadOffset f' = int (length (reContent env)) + int read"
        "raw @ ?part @ take read (drop (length ?part) (drop ?ro final)) = concat raws @ rest"
        "chainedLines (ffOriginOffset f) ls (ffOriginOffset f')"
      unfolding rest by (auto simp del: drop_drop)
    have "take (length ?part + read) (drop ?ro final) = ?part @ take read (drop (length ?part) (drop ?ro final))"
      using part by (simp only: take_add)
    moreover have "ffReadOffset f' = ffReadOffset f + int (length ?part + read)"
      using ih(5) Cons.prems(5) le by simp
    ultimately show ?thesis
      using idle(1) ih by (intro exI [of _ ls] exI [of _ f'] exI [of _ raws] exI [of _ rest]
          exI [of _ "length ?part + read"]) (simp del: drop_drop length_drop)
  next
    case line
    let ?f = "afterLine f off anchor"
    let ?l = "lineOf f (raw @ part) off anchor"
    have part: "take (length part) (drop ?ro final) = part"
      using Cons.prems(5) line(3,4,5) by (intro prefix_window [OF pre]) auto
    have rest: "drop (nat (ffReadOffset ?f)) final = drop (length part) (drop ?ro final)"
      using Cons.prems(5) line(3) by (simp add: nat_add_distrib add.commute)
    have "\<exists>ls f' raws rest read. followPolls sha envs ?f = Inr (ls, f') \<and>
        list_all2 (presents (ffMaxLineBytes ?f)) ls raws \<and> keeps f' rest \<and> newline \<notin> set rest \<and>
        ffReadOffset f' = ffReadOffset ?f + int read \<and>
        [] @ take read (drop (nat (ffReadOffset ?f)) final) = concat raws @ rest \<and>
        chainedLines (ffOriginOffset ?f) ls (ffOriginOffset f')"
    proof (rule Cons.IH)
      show "appendOnly (ffReadOffset ?f) envs final"
        using appendOnly_Cons [OF Cons.prems(2), of "ffReadOffset ?f"] line(4) by simp
      show "admits ?f (length [] + length (drop (nat (ffReadOffset ?f)) final))"
        unfolding rest admits_afterLine by (intro admits_mono [OF Cons.prems(6)]) simp
    qed (use Cons.prems line in auto)
    then obtain ls f' raws rest read where
      ih: "followPolls sha envs ?f = Inr (ls, f')" "list_all2 (presents (ffMaxLineBytes f)) ls raws"
        "keeps f' rest" "newline \<notin> set rest" "ffReadOffset f' = off + int read"
        "take read (drop (length part) (drop ?ro final)) = concat raws @ rest"
        "chainedLines off ls (ffOriginOffset f')"
      unfolding rest by (auto simp del: drop_drop)
    have "take (length part + read) (drop ?ro final) = part @ take read (drop (length part) (drop ?ro final))"
      using part by (simp only: take_add)
    moreover have "list_all2 (presents (ffMaxLineBytes f)) (?l # ls) ((raw @ part) # raws)"
      using ih(2) presents_lineOf [OF line(2)] by simp
    moreover have "chainedLines (ffOriginOffset f) (?l # ls) (ffOriginOffset f')"
      using ih(7) by (simp add: lineOf_def)
    ultimately show ?thesis
      using line(1,3) ih by (intro exI [of _ "?l # ls"] exI [of _ f'] exI [of _ "(raw @ part) # raws"]
          exI [of _ rest] exI [of _ "length part + read"]) (simp del: drop_drop)
  qed
qed

end
