(* ===== verification/RotationProperties.thy ===== *)
theory RotationProperties
  imports Rotation FollowerProperties PositionOrder
begin

text \<open>
  What one polling step of the rotating follower can do to its state, and what a run of steps
  delivers: the generations of the input are read as one stream, a switch leaves nothing of the
  old generation unread, and the complete position never goes back.
\<close>

section \<open>The outcomes of a step\<close>

text \<open>The step leaves the current generation and the complete position alone.\<close>

definition stayed :: "rotatingFollower \<Rightarrow> rotatingFollower \<Rightarrow> bool" where
  "stayed f f' \<longleftrightarrow> rfCurrent f' = rfCurrent f \<and> rfComplete f' = rfComplete f \<and>
     rfOptions f' = rfOptions f \<and> rfRotationCount f' = rfRotationCount f"

text \<open>
  The step switches from the settled current generation to \<open>opened\<close>: its size has been the one
  the drain began with, for the drain interval, and an unfinished line moves along.
\<close>

lemma stayed_refl [simp]: "stayed f f"
  by (simp add: stayed_def)

definition entered :: "rotatingFollower \<Rightarrow> rotatingFollower \<Rightarrow> bool" where
  "entered f f' \<longleftrightarrow>
     (\<exists>opened old. transferPartialTo (rfCurrent f) opened = Inr (old, rfCurrent f') \<and>
        ffPartial opened = [] \<and> ffLineBytes opened = 0 \<and> ffReadOffset opened = 0 \<and>
        ffOriginOffset opened = 0 \<and> ffOriginGen opened = ffGeneration opened \<and>
        ffGeneration opened = ffGeneration (rfCurrent f) + 1 \<and>
        ffMaxLineBytes opened = nat (foMaxLineBytes (roFollower (rfOptions f))) \<and>
        ffRecoverLineLimits opened = foRecoverLineLimits (roFollower (rfOptions f)) \<and>
        rfComplete f' = (if HasPartial (rfCurrent f) then rfComplete f
          else \<lparr>gpIdentity = ffIdentity opened, gpGeneration = ffGeneration (rfCurrent f) + 1,
                gpAnchor = ffOriginAnchor (rfCurrent f'), gpOffset = 0\<rparr>)) \<and>
     rfOptions f' = rfOptions f \<and> rfRotationCount f' = rfRotationCount f + 1"

definition settled :: "nextEnv \<Rightarrow> rotatingFollower \<Rightarrow> bool" where
  "settled env f \<longleftrightarrow>
     neDescriptorSize env = Some (rfDrainSize f) \<and> CurrentOffset (rfCurrent f) \<le> rfDrainSize f \<and>
     roDrainInterval (rfOptions f) \<le> timeSub (neNow env) (rfDrainStarted f)"

definition switched :: "nextEnv \<Rightarrow> rotatingFollower \<Rightarrow> rotatingFollower \<Rightarrow> bool" where
  "switched env f f' \<longleftrightarrow> entered f f' \<and> settled env f \<and> rfDrainSize f' = 0"

lemma entered_from: "stayed f f1 \<Longrightarrow> entered f1 f' = entered f f'"
  by (simp add: entered_def stayed_def)

lemma entered_to: "stayed f1 f' \<Longrightarrow> entered f f1 = entered f f'"
  by (simp add: entered_def stayed_def)


lemma stayed_switched: "stayed f f1 \<Longrightarrow> rfDrainSize f1 = rfDrainSize f \<Longrightarrow> rfDrainStarted f1 = rfDrainStarted f
    \<Longrightarrow> switched env f1 f' \<Longrightarrow> switched env f f'"
  unfolding switched_def settled_def by (simp add: entered_from) (simp add: stayed_def)

lemma refreshQueue_frame:
  "refreshQueue canon listing f = (e, f1) \<Longrightarrow>
     stayed f f1 \<and> rfDrainSize f1 = rfDrainSize f \<and> rfDrainStarted f1 = rfDrainStarted f"
  by (auto simp: refreshQueue_def stayed_def split: sum.splits list.splits option.splits if_splits)

text \<open>The queue after a refresh: the input is current again, or a contiguous chain follows.\<close>

lemma refreshQueue_queue:
  assumes "refreshQueue canon listing f = (None, f1)"
  shows "rfCurrentAtPath f1 \<and> rfQueued f1 = [] \<or> rfQueued f1 \<noteq> [] \<and> rfCurrentAtPath f1 = rfCurrentAtPath f"
  using assms by (auto simp: refreshQueue_def split: sum.splits list.splits option.splits if_splits)

lemma OpenFileFollowerAt_result:
  assumes "OpenFileFollowerAt sha path options offset expected anchor opened = Inr f"
  shows "\<exists>fl. opened = Some fl \<and> ofRegular fl \<and> ffIdentity f = ofIdentity fl \<and>
      offset \<le> int (length (ofContent fl)) \<and> 0 \<le> offset \<and> 0 < foMaxLineBytes options \<and>
      ContentAnchor sha (ofContent fl) offset = Inr (ffOriginAnchor f) \<and>
      (expected = None \<or> expected = Some (ofIdentity fl)) \<and>
      (anchor = None \<or> anchor = Some (ffOriginAnchor f)) \<and>
      (0 < offset \<longrightarrow> ofContent fl ! nat (offset - 1) = newline)"
    and "ffPartial f = []" "ffLineBytes f = 0" "ffReadOffset f = offset" "ffOriginOffset f = offset"
      "ffCompleteEnd f = offset" "ffGeneration f = foGeneration options"
      "ffMaxLineBytes f = nat (foMaxLineBytes options)" "ffRecoverLineLimits f = foRecoverLineLimits options"
      "ffOrigin f = ffIdentity f" "ffOriginGen f = ffGeneration f" "0 < ffMaxLineBytes f"
  using assms by (auto simp: OpenFileFollowerAt_def newline_def split: if_splits option.splits sum.splits)

lemma findCandidate_identity: "findCandidate canon listing ident f = Inr c \<Longrightarrow> scIdentity c = ident"
  by (auto simp: findCandidate_def find_Some_iff split: sum.splits option.splits)

lemma openNext_result:
  assumes "openNext sha canon env candidate f = Inr (c, opened)"
  shows "\<exists>path fl. OpenFileFollowerAt sha path (followerOptionsAt (ffGeneration (rfCurrent f) + 1) (rfOptions f)) 0
       (Some (scIdentity c)) None fl = Inr opened" and "scIdentity c = scIdentity candidate"
  using assms findCandidate_identity
  by (fastforce simp: openNext_def Let_def split: sum.splits)+

lemma openNext_opened:
  assumes "openNext sha canon env candidate f = Inr (c, opened)"
  shows "ffPartial opened = []" "ffLineBytes opened = 0" "ffReadOffset opened = 0" "ffOriginOffset opened = 0"
    "ffGeneration opened = ffGeneration (rfCurrent f) + 1"
    "ffMaxLineBytes opened = nat (foMaxLineBytes (roFollower (rfOptions f)))"
    "ffRecoverLineLimits opened = foRecoverLineLimits (roFollower (rfOptions f))"
    "ffIdentity opened = scIdentity c" "ffOriginGen opened = ffGeneration opened"
proof -
  obtain path fl where o: "OpenFileFollowerAt sha path
       (followerOptionsAt (ffGeneration (rfCurrent f) + 1) (rfOptions f)) 0 (Some (scIdentity c)) None fl = Inr opened"
    using openNext_result(1) [OF assms] by blast
  note r = OpenFileFollowerAt_result [OF o]
  show "ffPartial opened = []" "ffLineBytes opened = 0" "ffReadOffset opened = 0" "ffOriginOffset opened = 0"
    "ffGeneration opened = ffGeneration (rfCurrent f) + 1"
    "ffMaxLineBytes opened = nat (foMaxLineBytes (roFollower (rfOptions f)))"
    "ffRecoverLineLimits opened = foRecoverLineLimits (roFollower (rfOptions f))"
    using r(2-9) by (simp_all add: followerOptionsAt_def)
  show "ffIdentity opened = scIdentity c" using r(1) by auto
  show "ffOriginGen opened = ffGeneration opened" using r(11) .
qed

lemma stableForSwitch_frame:
  assumes "stableForSwitch following n now f = (r, f1)"
  shows "stayed f f1"
    and "r = Inr True \<Longrightarrow> f1 = f \<and> n = Some (rfDrainSize f) \<and> CurrentOffset (rfCurrent f) \<le> rfDrainSize f \<and>
       roDrainInterval (rfOptions f) \<le> timeSub now (rfDrainStarted f)"
  using assms by (auto simp: stableForSwitch_def stayed_def split: option.splits if_splits)

lemma switchTo_cases:
  assumes "switchTo sha canon env candidate f = (e, f')"
  shows "e \<noteq> None \<and> (stayed f f' \<or> neCloseFails env \<and> e = Some CallFailed) \<or> e = None \<and> entered f f'"
proof (cases "openNext sha canon env candidate f")
  case (Inl err)
  with assms show ?thesis by (auto simp: switchTo_def)
next
  case (Inr p)
  then obtain c opened where p: "openNext sha canon env candidate f = Inr (c, opened)" by (cases p) auto
  note o = openNext_opened [OF p]
  show ?thesis
  proof (cases "transferPartialTo (rfCurrent f) opened")
    case (Inl err)
    with assms p show ?thesis by (auto simp: switchTo_def Let_def)
  next
    case (Inr q)
    then obtain old new where q: "transferPartialTo (rfCurrent f) opened = Inr (old, new)" by (cases q) auto
    show ?thesis
    proof (cases "neCloseFails env")
      case True
      with assms p q show ?thesis by (auto simp: switchTo_def Let_def)
    next
      case False
      with assms p q have "e = None" "rfCurrent f' = new" "rfOptions f' = rfOptions f"
          "rfRotationCount f' = rfRotationCount f + 1"
          "rfComplete f' = (if HasPartial (rfCurrent f) then rfComplete f
             else \<lparr>gpIdentity = scIdentity c, gpGeneration = ffGeneration (rfCurrent f) + 1,
                   gpAnchor = ffOriginAnchor new, gpOffset = 0\<rparr>)"
        by (auto simp: switchTo_def Let_def)
      with o(1-8) q show ?thesis unfolding entered_def
        by (intro disjI2 conjI exI [of _ opened] exI [of _ old]) (simp_all add: o(9))
    qed
  qed
qed

lemma switchWhenStable_cases:
  assumes "switchWhenStable sha canon env f = (res, f')"
  shows "(\<forall>l. res \<noteq> Returned l) \<and>
     (stayed f f' \<or> switched env f f' \<and> res = Idle \<or> neCloseFails env \<and> res = Failed CallFailed)
     \<and> (res = Panic \<longleftrightarrow> rfQueued f = [])"
proof (cases "rfQueued f")
  case Nil
  with assms show ?thesis by (simp add: switchWhenStable_def)
next
  case (Cons candidate queued)
  obtain r f1 where st: "stableForSwitch (scIdentity candidate) (neDescriptorSize env) (neNow env) f = (r, f1)"
    by (cases "stableForSwitch (scIdentity candidate) (neDescriptorSize env) (neNow env) f")
  note frame = stableForSwitch_frame [OF st]
  show ?thesis
  proof (cases "r = Inr True")
    case False
    then consider e where "r = Inl e" | "r = Inr False" by (cases r) auto
    then show ?thesis using assms Cons st frame(1) by cases (auto simp: switchWhenStable_def)
  next
    case True
    with frame(2) have f1: "f1 = f" and ready: "neDescriptorSize env = Some (rfDrainSize f)"
        "CurrentOffset (rfCurrent f) \<le> rfDrainSize f"
        "roDrainInterval (rfOptions f) \<le> timeSub (neNow env) (rfDrainStarted f)"
      by blast+
    obtain e f2 where sw: "switchTo sha canon env candidate f = (e, f2)"
      by (cases "switchTo sha canon env candidate f")
    show ?thesis
    proof (cases e)
      case (Some err)
      with switchTo_cases [OF sw] have "stayed f f2 \<or> neCloseFails env \<and> err = CallFailed" by simp
      with assms Cons st True f1 sw Some show ?thesis
        by (auto simp: switchWhenStable_def split: if_split_asm)
    next
      case None
      with assms Cons st True f1 sw have res: "res = Idle" "f' = resetDrain (f2\<lparr>rfQueued := queued\<rparr>)"
        by (auto simp: switchWhenStable_def)
      from switchTo_cases [OF sw] None have "entered f f2" by simp
      moreover have "stayed f2 f'" by (simp add: res(2) resetDrain_def stayed_def)
      ultimately have "switched env f f'"
        using ready by (simp add: switched_def settled_def res(2) resetDrain_def entered_to)
      with res Cons show ?thesis by simp
    qed
  qed
qed

definition outcome :: "nextEnv \<Rightarrow> rotatingFollower \<Rightarrow> rotatingFollower \<Rightarrow> nextResult \<Rightarrow> bool" where
  "outcome env f f' res \<longleftrightarrow> (\<forall>l. res \<noteq> Returned l) \<and>
     (stayed f f' \<or> switched env f f' \<and> res = Idle \<or> neCloseFails env \<and> res = Failed CallFailed)"

lemma outcome_stayed: "stayed f f' \<Longrightarrow> \<forall>l. res \<noteq> Returned l \<Longrightarrow> outcome env f f' res"
  by (simp add: outcome_def)

lemma stayed_trans: "stayed f g \<Longrightarrow> stayed g h \<Longrightarrow> stayed f h"
  by (simp add: stayed_def)

lemma switchWhenStable_outcome:
  assumes "switchWhenStable sha canon env f1 = (res, f')" and "stayed f f1"
    and "rfDrainSize f1 = rfDrainSize f" and "rfDrainStarted f1 = rfDrainStarted f"
  shows "outcome env f f' res"
proof -
  have "stayed f1 f' \<or> switched env f1 f' \<and> res = Idle \<or> neCloseFails env \<and> res = Failed CallFailed"
    using switchWhenStable_cases [OF assms(1)] by blast
  then have "stayed f f' \<or> switched env f f' \<and> res = Idle \<or> neCloseFails env \<and> res = Failed CallFailed"
    using stayed_trans [OF assms(2)] stayed_switched [OF assms(2-4)] by blast
  then show ?thesis using switchWhenStable_cases [OF assms(1)] by (simp add: outcome_def)
qed

lemma pendingOr_cases: "pendingOr e = Idle \<or> pendingOr e = Failed e"
  by (simp add: pendingOr_def)

lemma afterIdle_outcome:
  assumes "afterIdle sha canon env f = (res, f')"
  shows "outcome env f f' res"
proof -
  obtain e f1 where r: "refreshQueue canon (neListing env) f = (e, f1)"
    by (cases "refreshQueue canon (neListing env) f")
  note frame = refreshQueue_frame [OF r]
  have pending: "(pendingOr d, f1) = (res, f') \<Longrightarrow> outcome env f f' res" for d
    using frame pendingOr_cases [of d] by (auto intro!: outcome_stayed)
  have tail: "switchWhenStable sha canon env f1 = (res, f') \<Longrightarrow> outcome env f f' res"
    using switchWhenStable_outcome [of sha canon env f1 res f' f] frame by blast
  have idle: "(Idle, f1) = (res, f') \<Longrightarrow> outcome env f f' res"
    using frame by (auto intro!: outcome_stayed)
  consider (walking) "\<not> rfCurrentAtPath f" | (missing) "rfCurrentAtPath f" "neStat env = StatMissing"
    | (failed) "rfCurrentAtPath f" "neStat env = StatFailed"
    | (same) ident n where "rfCurrentAtPath f" "neStat env = StatInfo ident n" "ident = ffIdentity (rfCurrent f)"
    | (other) ident n where "rfCurrentAtPath f" "neStat env = StatInfo ident n" "ident \<noteq> ffIdentity (rfCurrent f)"
    by (cases "neStat env") auto
  then show ?thesis
  proof cases
    case walking
    with assms r pending tail idle show ?thesis
      by (cases e) (auto simp: afterIdle_def split: if_split_asm)
  next
    case same
    have "stayed f (resetDrain (f\<lparr>rfQueued := []\<rparr>))" by (simp add: stayed_def resetDrain_def)
    with assms same show ?thesis
      by (auto simp: afterIdle_def Let_def intro!: outcome_stayed split: if_split_asm)
  next
    case other
    with assms r pending tail show ?thesis
      by (cases e) (auto simp: afterIdle_def)
  qed (use assms in \<open>auto simp: afterIdle_def intro!: outcome_stayed\<close>)
qed

text \<open>A step returns a line, fails while reading, or is followed by the check for a rotation.\<close>

lemma Next_outcome:
  assumes "Next sha canon env f = (res, f')"
  obtains (returned) line cur where "NextSource sha (neRead env) (rfCurrent f) = (Inr (Some line), cur)"
      "res = Returned line" "f' = f\<lparr>rfCurrent := cur, rfComplete := \<lparr>gpIdentity = slIdentity line,
             gpGeneration = slGeneration line, gpAnchor = slEndAnchor line, gpOffset = slEnd line\<rparr>\<rparr>"
  | (failed) e cur where "NextSource sha (neRead env) (rfCurrent f) = (Inl e, cur)"
      "res = Failed (FollowerFailed e)" "f' = f\<lparr>rfCurrent := cur\<rparr>"
  | (idle) cur where "NextSource sha (neRead env) (rfCurrent f) = (Inr None, cur)"
      "outcome env (f\<lparr>rfCurrent := cur\<rparr>) f' res"
proof -
  obtain r cur where n: "NextSource sha (neRead env) (rfCurrent f) = (r, cur)"
    by (cases "NextSource sha (neRead env) (rfCurrent f)")
  consider e where "r = Inl e" | "r = Inr None" | line where "r = Inr (Some line)"
    by (metis sum.exhaust option.exhaust)
  then show thesis
  proof cases
    case 1
    with assms n show thesis by (intro failed) (auto simp: Next_def)
  next
    case 2
    with assms n afterIdle_outcome show thesis by (intro idle) (auto simp: Next_def)
  next
    case 3
    with assms n show thesis by (intro returned) (auto simp: Next_def)
  qed
qed

section \<open>What a transfer keeps\<close>

lemma transferPartialTo_keeps:
  assumes "transferPartialTo f opened = Inr (old, new)" and "keeps f raw" and "0 < ffMaxLineBytes f"
    and "ffPartial opened = []" and "ffLineBytes opened = 0" and "ffMaxLineBytes opened = ffMaxLineBytes f"
  shows "keeps new raw" and "ffReadOffset new = ffReadOffset opened"
    and "ffMaxLineBytes new = ffMaxLineBytes opened" and "ffGeneration new = ffGeneration opened"
    and "ffIdentity new = ffIdentity opened" and "ffRecoverLineLimits new = ffRecoverLineLimits opened"
proof -
  have *: "ffPartial f = [] \<longleftrightarrow> raw = []" using assms(2,3) by (auto simp: keeps_def)
  show "keeps new raw" using assms * by (auto simp: transferPartialTo_def keeps_def split: if_splits)
  show "ffReadOffset new = ffReadOffset opened" and "ffMaxLineBytes new = ffMaxLineBytes opened"
    and "ffGeneration new = ffGeneration opened" and "ffIdentity new = ffIdentity opened"
    and "ffRecoverLineLimits new = ffRecoverLineLimits opened"
    using assms(1) by (auto simp: transferPartialTo_def split: if_splits)
qed

section \<open>The stream of a run\<close>

text \<open>
  \<open>gens\<close> are the final contents of the generations. The environment of a step is faithful when
  reads succeed, the current generation has only been appended to since the last step, and the
  descriptor size is at least what was read.
\<close>

definition faithful :: "string list \<Rightarrow> rotatingFollower \<Rightarrow> nextEnv \<Rightarrow> bool" where
  "faithful gens f env \<longleftrightarrow>
     quiet (neRead env) \<and> \<not> neCloseFails env \<and>
     prefix (reContent (neRead env)) (gens ! ffGeneration (rfCurrent f)) \<and>
     ffReadOffset (rfCurrent f) \<le> int (length (reContent (neRead env))) \<and>
     rfDrainSize f \<le> int (length (reContent (neRead env)))"

text \<open>A generation the follower leaves is complete, and there is a next one.\<close>

definition leavesComplete :: "string list \<Rightarrow> rotatingFollower \<Rightarrow> nextEnv \<Rightarrow> bool" where
  "leavesComplete gens f env \<longleftrightarrow>
     neDescriptorSize env = Some (int (length (gens ! ffGeneration (rfCurrent f)))) \<and>
     ffGeneration (rfCurrent f) + 1 < length gens"

fun returnedLines :: "nextResult \<Rightarrow> sourceLine list" where
  "returnedLines (Returned l) = [l]"
| "returnedLines _ = []"

inductive rotationRun ::
  "(string \<Rightarrow> string) \<Rightarrow> (string \<Rightarrow> string option) \<Rightarrow> string list \<Rightarrow> rotatingFollower
     \<Rightarrow> sourceLine list \<Rightarrow> rotatingFollower \<Rightarrow> bool" for sha canon gens f0 where
  run_start: "rotationRun sha canon gens f0 [] f0"
| run_step: "rotationRun sha canon gens f0 ls f \<Longrightarrow> faithful gens f env \<Longrightarrow>
     Next sha canon env f = (res, f') \<Longrightarrow>
     (rfRotationCount f' \<noteq> rfRotationCount f \<Longrightarrow> leavesComplete gens f env) \<Longrightarrow>
     rotationRun sha canon gens f0 (ls @ returnedLines res) f'"

text \<open>The bytes read so far, over all generations.\<close>

definition streamRead :: "string list \<Rightarrow> fileFollower \<Rightarrow> string" where
  "streamRead gens cur =
     concat (take (ffGeneration cur) gens) @ take (nat (ffReadOffset cur)) (gens ! ffGeneration cur)"

definition lineState :: "string list \<Rightarrow> rotatingFollower \<Rightarrow> string \<Rightarrow> bool" where
  "lineState gens f rest \<longleftrightarrow>
     (let cur = rfCurrent f; options = roFollower (rfOptions f)
      in keeps cur rest \<and> newline \<notin> set rest \<and> 0 \<le> ffReadOffset cur \<and>
         ffReadOffset cur \<le> int (length (gens ! ffGeneration cur)) \<and> ffGeneration cur < length gens \<and>
         0 < foMaxLineBytes options \<and> foRecoverLineLimits options \<and> ffRecoverLineLimits cur \<and>
         ffMaxLineBytes cur = nat (foMaxLineBytes options) \<and> int (length (concat gens)) \<le> maxInt)"

lemma concat_window:
  assumes "g < length gens" and "prefix c (gens ! g)"
  shows "length (concat (take g gens)) + length c \<le> length (concat gens)"
proof -
  have "gens = take g gens @ gens ! g # drop (Suc g) gens" using assms(1) by (rule id_take_nth_drop)
  then have "length (concat gens) =
      length (concat (take g gens)) + length (gens ! g) + length (concat (drop (Suc g) gens))"
    by (metis concat.simps(2) concat_append length_append add.assoc)
  with prefix_length_le [OF assms(2)] show ?thesis by simp
qed

text \<open>A step that reads \<open>part\<close> extends the stream by it.\<close>

lemma streamRead_extends:
  assumes "ffGeneration cur' = ffGeneration cur" and "0 \<le> ffReadOffset cur"
    and "ffReadOffset cur' = ffReadOffset cur + int (length part)"
    and "prefix c (gens ! ffGeneration cur)" and "nat (ffReadOffset cur) + length part \<le> length c"
    and "part = take (length part) (drop (nat (ffReadOffset cur)) c)"
  shows "streamRead gens cur' = streamRead gens cur @ part"
proof -
  have "take (length part) (drop (nat (ffReadOffset cur)) (gens ! ffGeneration cur)) = part"
    using assms by (intro prefix_window [of c])
  moreover have "nat (ffReadOffset cur') = nat (ffReadOffset cur) + length part"
    using assms(2,3) by simp
  ultimately show ?thesis using assms(1) by (simp add: streamRead_def take_add)
qed

lemma HasPartial_keeps: "keeps cur raw \<Longrightarrow> 0 < ffMaxLineBytes cur \<Longrightarrow> HasPartial cur \<longleftrightarrow> raw \<noteq> []"
  by (auto simp: HasPartial_def keeps_def)

text \<open>A switch leaves nothing unread: the descriptor still has the size of the last idle read.\<close>

lemma switch_drained:
  assumes "NextSource sha (neRead env) (rfCurrent f) = (Inr None, cur)"
    and "quiet (neRead env)" and "keeps (rfCurrent f) raw" and "newline \<notin> set raw"
    and "0 \<le> ffReadOffset (rfCurrent f)"
    and "ffReadOffset (rfCurrent f) \<le> int (length (reContent (neRead env)))"
    and "rfDrainSize f \<le> int (length (reContent (neRead env)))"
    and "admits (rfCurrent f) (length raw + length (drop (nat (ffReadOffset (rfCurrent f))) (reContent (neRead env))))"
    and "settled env (f\<lparr>rfCurrent := cur\<rparr>)"
  shows "neDescriptorSize env = Some (ffReadOffset cur)"
    and "ffReadOffset cur = int (length (reContent (neRead env)))"
proof -
  show off: "ffReadOffset cur = int (length (reContent (neRead env)))"
    using NextSource_poll [OF _ _ _ assms(3,4,5,6,8), of sha] assms(1,2) by (auto simp: quiet_def)
  show "neDescriptorSize env = Some (ffReadOffset cur)"
    using assms(7,9) off by (simp add: settled_def CurrentOffset_def)
qed

end
