(* ===== verification/RotationStream.thy ===== *)
theory RotationStream
  imports RotationProperties
begin

text \<open>
  The end-to-end facts of the rotating follower: the stream of a run, the monotone complete
  position (over the interface of a position order), the suffix a recovery resumes from and the
  position a checkpoint resumes from.
\<close>

section \<open>One step of the stream\<close>

text \<open>The new part of the stream and what it makes of the unfinished line.\<close>

definition stepDelivers ::
  "string list \<Rightarrow> rotatingFollower \<Rightarrow> string \<Rightarrow> nextResult \<Rightarrow> rotatingFollower \<Rightarrow> bool" where
  "stepDelivers gens f rest res f' \<longleftrightarrow>
     (\<exists>raws rest'. lineState gens f' rest' \<and> rfOptions f' = rfOptions f \<and>
        list_all2 (presents (ffMaxLineBytes (rfCurrent f))) (returnedLines res) raws \<and>
        (\<exists>part. streamRead gens (rfCurrent f') = streamRead gens (rfCurrent f) @ part \<and>
           rest @ part = concat raws @ rest'))"

lemma lineState_admits:
  assumes "lineState gens f rest" and "prefix c (gens ! ffGeneration (rfCurrent f))"
    and "before @ rest = streamRead gens (rfCurrent f)"
    and "ffReadOffset (rfCurrent f) \<le> int (length c)"
  shows "admits (rfCurrent f) (length rest + length (drop (nat (ffReadOffset (rfCurrent f))) c))"
proof -
  let ?cur = "rfCurrent f"
  have st: "ffGeneration ?cur < length gens" "int (length (concat gens)) \<le> maxInt" "ffRecoverLineLimits ?cur"
    "0 \<le> ffReadOffset ?cur"
    using assms(1) by (simp_all add: lineState_def Let_def)
  have "length before + length rest = length (streamRead gens ?cur)"
    using assms(3) by (metis length_append)
  then have "length rest \<le> length (streamRead gens ?cur)" by simp
  moreover have "length (streamRead gens ?cur) \<le> length (concat (take (ffGeneration ?cur) gens)) + nat (ffReadOffset ?cur)"
    by (simp add: streamRead_def)
  moreover have "length (drop (nat (ffReadOffset ?cur)) c) = length c - nat (ffReadOffset ?cur)" by simp
  moreover have "nat (ffReadOffset ?cur) \<le> length c" using assms(4) st(4) by simp
  ultimately have "int (length rest + length (drop (nat (ffReadOffset ?cur)) c)) \<le> maxInt"
    using concat_window [OF st(1) assms(2)] st(2) by linarith
  with st(3) show ?thesis by (simp add: admits_def)
qed

lemma lineState_fields:
  assumes "lineState gens f rest"
  shows "keeps (rfCurrent f) rest" "newline \<notin> set rest" "0 \<le> ffReadOffset (rfCurrent f)"
    "ffReadOffset (rfCurrent f) \<le> int (length (gens ! ffGeneration (rfCurrent f)))"
    "ffGeneration (rfCurrent f) < length gens" "0 < foMaxLineBytes (roFollower (rfOptions f))"
    "0 < ffMaxLineBytes (rfCurrent f)"
  using assms by (auto simp: lineState_def Let_def)

lemma lineState_stayed: "stayed f f' \<Longrightarrow> lineState gens f' rest = lineState gens f rest"
  by (simp add: stayed_def lineState_def)

text \<open>The state after a read of the current generation.\<close>

lemma lineState_read:
  assumes "lineState gens f rest" and "keeps cur rest'" and "newline \<notin> set rest'"
    and "0 \<le> ffReadOffset cur" and "ffReadOffset cur \<le> int (length (gens ! ffGeneration (rfCurrent f)))"
    and "ffGeneration cur = ffGeneration (rfCurrent f)"
    and "ffRecoverLineLimits cur = ffRecoverLineLimits (rfCurrent f)"
    and "ffMaxLineBytes cur = ffMaxLineBytes (rfCurrent f)"
    and "rfCurrent f' = cur" and "rfOptions f' = rfOptions f"
  shows "lineState gens f' rest'"
  using assms by (simp add: lineState_def Let_def)

lemma lineState_switched:
  assumes st: "lineState gens f rest" and sw: "entered f f'"
    and complete: "leavesComplete gens f env" and drained: "neDescriptorSize env = Some (ffReadOffset (rfCurrent f))"
  shows "lineState gens f' rest" and "streamRead gens (rfCurrent f') = streamRead gens (rfCurrent f)"
proof -
  let ?cur = "rfCurrent f" and ?new = "rfCurrent f'" and ?g = "ffGeneration (rfCurrent f)"
  note fields = lineState_fields [OF st]
  have max: "ffMaxLineBytes ?cur = nat (foMaxLineBytes (roFollower (rfOptions f)))"
    and flag: "foRecoverLineLimits (roFollower (rfOptions f))"
    using st by (simp_all add: lineState_def Let_def)
  obtain opened old where o: "transferPartialTo ?cur opened = Inr (old, ?new)"
      "ffPartial opened = []" "ffLineBytes opened = 0" "ffReadOffset opened = 0"
      "ffGeneration opened = ?g + 1"
      "ffMaxLineBytes opened = nat (foMaxLineBytes (roFollower (rfOptions f)))"
      "ffRecoverLineLimits opened = foRecoverLineLimits (roFollower (rfOptions f))"
    and options: "rfOptions f' = rfOptions f"
    using sw unfolding entered_def by blast
  note t = transferPartialTo_keeps [OF o(1) fields(1) fields(7) o(2,3)]
  have t': "keeps ?new rest" "ffReadOffset ?new = 0" "ffGeneration ?new = ?g + 1"
    "ffMaxLineBytes ?new = nat (foMaxLineBytes (roFollower (rfOptions f)))" "ffRecoverLineLimits ?new"
    using t o max flag by simp_all
  have len: "?g + 1 < length gens" and whole: "nat (ffReadOffset ?cur) = length (gens ! ?g)"
    using complete drained by (auto simp: leavesComplete_def)
  show "lineState gens f' rest"
    using st t' options len by (simp add: lineState_def Let_def)
  show "streamRead gens ?new = streamRead gens ?cur"
    using t' whole len by (simp add: streamRead_def take_Suc_conv_app_nth)
qed

lemma Next_step:
  assumes st: "lineState gens f rest" and before: "before @ rest = streamRead gens (rfCurrent f)"
    and env: "faithful gens f env" and nxt: "Next sha canon env f = (res, f')"
    and leave: "rfRotationCount f' \<noteq> rfRotationCount f \<Longrightarrow> leavesComplete gens f env"
  shows "stepDelivers gens f rest res f'"
proof -
  let ?cur = "rfCurrent f" and ?c = "reContent (neRead env)" and ?ro = "nat (ffReadOffset (rfCurrent f))"
  note fields = lineState_fields [OF st]
  have q: "quiet (neRead env)" "\<not> neCloseFails env" and pre: "prefix ?c (gens ! ffGeneration ?cur)"
    and le: "ffReadOffset ?cur \<le> int (length ?c)" and dr: "rfDrainSize f \<le> int (length ?c)"
    using env by (auto simp: faithful_def)
  have q': "\<not> reCancelled (neRead env)" "\<not> reCancelledIdle (neRead env)" "\<not> reFault (neRead env)"
    using q(1) by (auto simp: quiet_def)
  note adm = lineState_admits [OF st pre before le]
  note poll = NextSource_poll [OF q' fields(1,2,3) le adm, of sha]
  have short: "length ?c \<le> length (gens ! ffGeneration ?cur)" using pre by (rule prefix_length_le)
  from nxt show ?thesis
  proof (cases rule: Next_outcome)
    case (failed e cur)
    with poll show ?thesis by auto
  next
    case (returned line cur)
    from poll returned(1) obtain part off anchor where
      l: "line = lineOf ?cur (rest @ part) off anchor" "cur = afterLine ?cur off anchor"
      "physicalLine (rest @ part)" "off = ffReadOffset ?cur + int (length part)" "off \<le> int (length ?c)"
      "part = take (length part) (drop ?ro ?c)"
      by auto
    have "streamRead gens cur = streamRead gens ?cur @ part"
      using l fields(3) by (intro streamRead_extends [OF _ _ _ pre]) auto
    moreover have "lineState gens f' []"
      using l(2,4,5) fields(3) short returned(3) by (intro lineState_read [OF st, of cur]) auto
    moreover have "list_all2 (presents (ffMaxLineBytes ?cur)) (returnedLines res) [rest @ part]"
      using returned(2) l(1) presents_lineOf [OF l(3)] by simp
    ultimately show ?thesis
      unfolding stepDelivers_def using returned(3)
      by (intro exI [of _ "[rest @ part]"] exI [of _ "[]"] conjI exI [of _ part]) simp_all
  next
    case (idle cur)
    let ?part = "drop ?ro ?c" and ?f = "f\<lparr>rfCurrent := cur\<rparr>"
    from poll idle(1) have i: "cur = grown ?cur (rest @ ?part) (int (length ?c))" "newline \<notin> set (rest @ ?part)"
      by auto
    have read: "streamRead gens cur = streamRead gens ?cur @ ?part"
      using i fields(3) le by (intro streamRead_extends [OF _ _ _ pre]) auto
    have st': "lineState gens ?f (rest @ ?part)"
      using i short by (intro lineState_read [OF st, of cur]) auto
    have lines: "returnedLines res = []"
      using idle(2) by (cases res) (auto simp: outcome_def)
    from idle(2) q(2) have "stayed ?f f' \<or> switched env ?f f'" by (auto simp: outcome_def)
    then have "lineState gens f' (rest @ ?part) \<and> streamRead gens (rfCurrent f') = streamRead gens cur \<and>
        rfOptions f' = rfOptions f"
    proof
      assume "stayed ?f f'"
      with st' show ?thesis by (simp add: lineState_stayed) (simp add: stayed_def)
    next
      assume sw: "switched env ?f f'"
      then have count: "rfRotationCount f' \<noteq> rfRotationCount f" and opt: "rfOptions f' = rfOptions f"
        by (auto simp: switched_def entered_def)
      have "neDescriptorSize env = Some (ffReadOffset cur)"
        using switch_drained(1) [OF idle(1) q(1) fields(1,2,3) le dr adm] sw by (simp add: switched_def)
      moreover have "leavesComplete gens ?f env"
        using leave [OF count] i by (simp add: leavesComplete_def)
      ultimately show ?thesis
        using lineState_switched [OF st'] sw opt by (simp add: switched_def)
    qed
    with read lines show ?thesis
      unfolding stepDelivers_def by (intro exI [of _ "[]"] exI [of _ "rest @ ?part"] conjI exI [of _ ?part]) simp_all
  qed
qed

section \<open>A run\<close>

lemma rotationRun_stream:
  assumes "rotationRun sha canon gens f0 ls f" and "lineState gens f0 []"
  shows "\<exists>raws rest. lineState gens f rest \<and> rfOptions f = rfOptions f0 \<and>
     list_all2 (presents (nat (foMaxLineBytes (roFollower (rfOptions f0))))) ls raws \<and>
     streamRead gens (rfCurrent f0) @ concat raws @ rest = streamRead gens (rfCurrent f)"
  using assms
proof (induction rule: rotationRun.induct)
  case run_start
  then show ?case by (intro exI [of _ "[]"]) simp
next
  case (run_step ls f env res f')
  then obtain raws rest where ih: "lineState gens f rest" "rfOptions f = rfOptions f0"
      "list_all2 (presents (nat (foMaxLineBytes (roFollower (rfOptions f0))))) ls raws"
      "streamRead gens (rfCurrent f0) @ concat raws @ rest = streamRead gens (rfCurrent f)"
    by blast
  have max: "ffMaxLineBytes (rfCurrent f) = nat (foMaxLineBytes (roFollower (rfOptions f0)))"
    using ih(1,2) by (simp add: lineState_def Let_def)
  have "stepDelivers gens f rest res f'"
    using ih(1) _ run_step.hyps(2,3,4)
    by (rule Next_step [where before = "streamRead gens (rfCurrent f0) @ concat raws"]) (use ih(4) in simp)
  then obtain more_raws rest' part where s: "lineState gens f' rest'" "rfOptions f' = rfOptions f"
      "list_all2 (presents (ffMaxLineBytes (rfCurrent f))) (returnedLines res) more_raws"
      "streamRead gens (rfCurrent f') = streamRead gens (rfCurrent f) @ part"
      "rest @ part = concat more_raws @ rest'"
    unfolding stepDelivers_def by blast
  have "streamRead gens (rfCurrent f0) @ concat (raws @ more_raws) @ rest' = streamRead gens (rfCurrent f')"
    using ih(4) s(4,5) by (metis append.assoc concat_append)
  moreover have "list_all2 (presents (nat (foMaxLineBytes (roFollower (rfOptions f0))))) (ls @ returnedLines res) (raws @ more_raws)"
    using ih(3) s(3) max by (simp add: list_all2_appendI)
  ultimately show ?case using s(1,2) ih(2) by metis
qed

section \<open>The complete position\<close>

lemma takeFragment_frame:
  assumes "takeFragment fragment f = (e, f')"
  shows "ffGeneration f' = ffGeneration f" and "ffReadOffset f \<le> ffReadOffset f'"
  using assms by (auto simp: takeFragment_def Let_def split: if_splits)

lemma completeLine_frame:
  assumes "completeLine sha content f = (r, f')"
  shows "ffGeneration f' = ffGeneration f" and "ffReadOffset f' = ffReadOffset f"
    and "r = Inr (Some l) \<Longrightarrow> slEnd l = ffReadOffset f \<and> slGeneration l = ffGeneration f"
    and "r \<noteq> Inr None"
  using assms by (auto simp: completeLine_def Let_def split: sum.splits)

text \<open>Whatever the environment does, a read never moves the position back.\<close>

lemma NextSource_forward:
  "NextSource sha env f = (r, f') \<Longrightarrow>
     ffGeneration f' = ffGeneration f \<and> ffReadOffset f \<le> ffReadOffset f' \<and>
     (\<forall>l. r = Inr (Some l) \<longrightarrow> slEnd l = ffReadOffset f' \<and> slGeneration l = ffGeneration f)"
proof (induction sha env f arbitrary: r f' rule: NextSource.induct)
  case (1 sha env f)
  obtain fragment status where slice:
      "readSlice (reFault env) (drop (nat (ffReadOffset f)) (reContent env)) = (fragment, status)"
    by (cases "readSlice (reFault env) (drop (nat (ffReadOffset f)) (reContent env))")
  obtain e f1 where frag: "takeFragment fragment f = (e, f1)" by (cases "takeFragment fragment f")
  note frame = takeFragment_frame [OF frag]
  note eq = "1.prems" [unfolded NextSource.simps [of sha env f] slice frag prod.case]
  show ?case
  proof (cases "reCancelled env \<or> e \<noteq> None")
    case True
    with eq frame show ?thesis by (auto split: if_split_asm)
  next
    case False
    then have no: "\<not> reCancelled env" "e = None" by auto
    show ?thesis
    proof (cases status)
      case ReadLine
      with eq no have line: "completeLine sha (reContent env) f1 = (r, f')" by simp
      with completeLine_frame [OF line] frame show ?thesis by auto
    next
      case BufferFull
      with eq no have again: "NextSource sha env f1 = (r, f')" by simp
      from "1.IH" [OF no(1) slice [symmetric] frag [symmetric] no(2) BufferFull again] frame
      show ?thesis by auto
    qed (use eq no frame in \<open>auto split: if_splits\<close>)
  qed
qed

definition completeBefore :: "generationPosition \<Rightarrow> generationPosition \<Rightarrow> bool" where
  "completeBefore = lexBefore gpGeneration gpOffset"

interpretation completeOrder: position_order completeBefore "\<lambda>p. True"
  unfolding completeBefore_def by (rule lexBefore_order)

definition behindCurrent :: "rotatingFollower \<Rightarrow> bool" where
  "behindCurrent f \<longleftrightarrow>
     gpGeneration (rfComplete f) \<le> ffGeneration (rfCurrent f) \<and>
     (gpGeneration (rfComplete f) = ffGeneration (rfCurrent f) \<longrightarrow>
        gpOffset (rfComplete f) \<le> ffReadOffset (rfCurrent f))"

lemma transferPartialTo_frame:
  assumes "transferPartialTo f opened = Inr (old, new)"
  shows "ffReadOffset new = ffReadOffset opened" and "ffGeneration new = ffGeneration opened"
  using assms by (auto simp: transferPartialTo_def split: if_splits)

lemma behindCurrent_switched:
  assumes "behindCurrent f" and "entered f f'"
  shows "behindCurrent f' \<and> \<not> completeBefore (rfComplete f') (rfComplete f)"
proof -
  let ?g = "ffGeneration (rfCurrent f)"
  obtain opened old where o: "transferPartialTo (rfCurrent f) opened = Inr (old, rfCurrent f')"
      "ffReadOffset opened = 0" "ffGeneration opened = ?g + 1"
      "rfComplete f' = (if HasPartial (rfCurrent f) then rfComplete f
          else \<lparr>gpIdentity = ffIdentity opened, gpGeneration = ?g + 1,
                gpAnchor = ffOriginAnchor (rfCurrent f'), gpOffset = 0\<rparr>)"
    using assms(2) unfolding entered_def by blast
  have new: "ffGeneration (rfCurrent f') = ?g + 1" "ffReadOffset (rfCurrent f') = 0"
    using transferPartialTo_frame [OF o(1)] o(2,3) by simp_all
  show ?thesis
    using assms(1) new o(4) completeOrder.before_irrefl
    by (auto simp: behindCurrent_def completeBefore_def lexBefore_def)
qed

lemma Next_forward:
  assumes "behindCurrent f" and "\<not> neCloseFails env" and "Next sha canon env f = (res, f')"
  shows "behindCurrent f' \<and> \<not> completeBefore (rfComplete f') (rfComplete f)"
  using assms(3)
proof (cases rule: Next_outcome)
  case (returned line cur)
  note fw = NextSource_forward [OF returned(1)]
  show ?thesis
    using fw assms(1) returned(3) by (auto simp: behindCurrent_def completeBefore_def lexBefore_def)
next
  case (failed e cur)
  note fw = NextSource_forward [OF failed(1)]
  show ?thesis
    using fw assms(1) failed(3) completeOrder.before_irrefl by (auto simp: behindCurrent_def)
next
  case (idle cur)
  note fw = NextSource_forward [OF idle(1)]
  let ?f = "f\<lparr>rfCurrent := cur\<rparr>"
  have b: "behindCurrent ?f" using fw assms(1) by (auto simp: behindCurrent_def)
  from idle(2) assms(2) have "stayed ?f f' \<or> switched env ?f f'" by (auto simp: outcome_def)
  then show ?thesis
  proof
    assume "stayed ?f f'"
    with b completeOrder.before_irrefl show ?thesis by (simp add: stayed_def behindCurrent_def)
  next
    assume "switched env ?f f'"
    then have "entered ?f f'" by (simp add: switched_def)
    from behindCurrent_switched [OF b this] show ?thesis by simp
  qed
qed

text \<open>A sequence of steps, whatever their results.\<close>

fun nextSteps ::
  "(string \<Rightarrow> string) \<Rightarrow> (string \<Rightarrow> string option) \<Rightarrow> nextEnv list \<Rightarrow> rotatingFollower \<Rightarrow> rotatingFollower" where
  "nextSteps sha canon [] f = f"
| "nextSteps sha canon (env # envs) f = nextSteps sha canon envs (snd (Next sha canon env f))"

lemma nextSteps_forward:
  assumes "behindCurrent f" and "\<forall>env \<in> set envs. \<not> neCloseFails env"
  shows "behindCurrent (nextSteps sha canon envs f) \<and>
     \<not> completeBefore (rfComplete (nextSteps sha canon envs f)) (rfComplete f)"
  using assms
proof (induction envs arbitrary: f)
  case Nil
  then show ?case by (simp add: completeOrder.before_irrefl)
next
  case (Cons env envs)
  obtain res f1 where n: "Next sha canon env f = (res, f1)" by (cases "Next sha canon env f")
  have step: "behindCurrent f1" "\<not> completeBefore (rfComplete f1) (rfComplete f)"
    using Next_forward [OF Cons.prems(1) _ n] Cons.prems(2) by auto
  with Cons.IH [OF step(1)] Cons.prems(2) n completeOrder.not_before_trans
  show ?case by auto
qed

section \<open>When Next panics\<close>

lemma refreshQueue_current:
  "refreshQueue canon listing f = (None, f1) \<Longrightarrow> rfQueued f1 = [] \<longleftrightarrow>
     (\<exists>cs c rest. discoverCandidates canon (rfInputPath f) (roExcludePaths (rfOptions f)) listing = Inr cs \<and>
        dropWhile (\<lambda>c. scIdentity c \<noteq> ffIdentity (rfCurrent f)) cs = c # rest \<and> scCurrent c)"
  by (auto simp: refreshQueue_def split: sum.splits list.splits option.splits if_splits)

lemma refreshQueue_at_path:
  assumes "discoverCandidates canon (rfInputPath f) (roExcludePaths (rfOptions f)) listing = Inr cs"
    and "dropWhile (\<lambda>c. scIdentity c \<noteq> ffIdentity (rfCurrent f)) cs = c # rest" and "scCurrent c"
  shows "refreshQueue canon listing f = (None, f\<lparr>rfCurrentAtPath := True, rfQueued := []\<rparr>)"
  using assms by (simp add: refreshQueue_def)

text \<open>The index into the queue fails when the input was renamed away and back between two calls.\<close>

definition renamedBack :: "(string \<Rightarrow> string option) \<Rightarrow> nextEnv \<Rightarrow> rotatingFollower \<Rightarrow> bool" where
  "renamedBack canon env f \<longleftrightarrow>
     rfCurrentAtPath f \<and> (\<exists>ident n. neStat env = StatInfo ident n \<and> ident \<noteq> ffIdentity (rfCurrent f)) \<and>
     (\<exists>cs c rest. discoverCandidates canon (rfInputPath f) (roExcludePaths (rfOptions f)) (neListing env) = Inr cs \<and>
        dropWhile (\<lambda>c. scIdentity c \<noteq> ffIdentity (rfCurrent f)) cs = c # rest \<and> scCurrent c)"

lemma switchWhenStable_panic: "fst (switchWhenStable sha canon env f) = Panic \<longleftrightarrow> rfQueued f = []"
  using switchWhenStable_cases [of sha canon env f] by (cases "switchWhenStable sha canon env f") auto

lemma afterIdle_panic: "fst (afterIdle sha canon env f) = Panic \<longleftrightarrow> renamedBack canon env f"
proof -
  obtain e f1 where r: "refreshQueue canon (neListing env) f = (e, f1)"
    by (cases "refreshQueue canon (neListing env) f")
  have pending: "pendingOr d \<noteq> Panic" for d by (simp add: pendingOr_def)
  show ?thesis
  proof (cases "rfCurrentAtPath f")
    case False
    have "fst (afterIdle sha canon env f) \<noteq> Panic"
      using False r pending refreshQueue_queue [of canon "neListing env" f f1]
      by (cases e) (auto simp: afterIdle_def switchWhenStable_panic)
    with False show ?thesis by (simp add: renamedBack_def)
  next
    case True
    show ?thesis
    proof (cases "\<exists>ident n. neStat env = StatInfo ident n \<and> ident \<noteq> ffIdentity (rfCurrent f)")
      case False
      then show ?thesis
        using True by (auto simp: afterIdle_def renamedBack_def Let_def split: pathStat.splits)
    next
      case other: True
      show ?thesis
      proof (cases e)
        case None
        have "fst (afterIdle sha canon env f) = Panic \<longleftrightarrow> rfQueued f1 = []"
          using True other r None by (auto simp: afterIdle_def switchWhenStable_panic)
        with refreshQueue_current [OF r [unfolded None]] True other show ?thesis
          by (simp add: renamedBack_def)
      next
        case (Some d)
        have "\<not> renamedBack canon env f"
        proof
          assume "renamedBack canon env f"
          then obtain cs c rest where
            "discoverCandidates canon (rfInputPath f) (roExcludePaths (rfOptions f)) (neListing env) = Inr cs"
            "dropWhile (\<lambda>c. scIdentity c \<noteq> ffIdentity (rfCurrent f)) cs = c # rest" "scCurrent c"
            unfolding renamedBack_def by blast
          from refreshQueue_at_path [OF this] r Some show False by simp
        qed
        with True other r Some pending show ?thesis by (auto simp: afterIdle_def)
      qed
    qed
  qed
qed

lemma Next_panic:
  "fst (Next sha canon env f) = Panic \<longleftrightarrow>
     (\<exists>cur. NextSource sha (neRead env) (rfCurrent f) = (Inr None, cur) \<and>
        renamedBack canon env (f\<lparr>rfCurrent := cur\<rparr>))"
  by (auto simp: Next_def afterIdle_panic split: prod.splits sum.splits option.splits)

section \<open>Where a recovery and a checkpoint resume\<close>

lemma walkBack_result:
  assumes "\<forall>c \<in> set older. \<not> scCurrent c" and "validateGenerationChain (newer # found) = None"
  shows "\<exists>k. walkBack newer older found = rev (take k older) @ newer # found \<and>
     validateGenerationChain (walkBack newer older found) = None \<and>
     (k < length older \<longrightarrow> validateGenerationChain (older ! k # walkBack newer older found) \<noteq> None) \<and>
     k \<le> length older"
  using assms
proof (induction newer older found rule: walkBack.induct)
  case (1 newer found)
  then show ?case by simp
next
  case (2 newer older rest found)
  have link: "linked older newer = precedes older newer"
    using "2.prems"(1) by (simp add: linked_def precedes_def)
  show ?case
  proof (cases "precedes older newer")
    case False
    with "2.prems" link show ?thesis by (intro exI [of _ 0]) simp
  next
    case True
    have chain: "validateGenerationChain (older # newer # found) = None"
      using "2.prems"(2) True link by simp
    have "\<forall>c \<in> set rest. \<not> scCurrent c" using "2.prems"(1) by simp
    from "2.IH" [OF True this chain] obtain k where
      k: "walkBack older rest (newer # found) = rev (take k rest) @ older # newer # found"
        "validateGenerationChain (walkBack older rest (newer # found)) = None"
        "k < length rest \<longrightarrow> validateGenerationChain (rest ! k # walkBack older rest (newer # found)) \<noteq> None"
        "k \<le> length rest"
      by blast
    then show ?thesis using True by (intro exI [of _ "Suc k"]) simp
  qed
qed

lemma retainedSuffix_longest:
  assumes "generationOrder cs"
  shows "\<exists>gone. cs = gone @ retainedSuffix cs \<and> retainedSuffix cs \<noteq> [] \<and>
     validateGenerationChain (retainedSuffix cs) = None \<and>
     (gone \<noteq> [] \<longrightarrow> validateGenerationChain (last gone # retainedSuffix cs) \<noteq> None)"
proof -
  obtain olds cur where cs: "cs = olds @ [cur]" and old: "\<forall>c \<in> set olds. \<not> scCurrent c"
    using assms by (auto simp: generationOrder_def)
  have r: "retainedSuffix cs = walkBack cur (rev olds) []" by (simp add: retainedSuffix_def cs)
  obtain k where k: "walkBack cur (rev olds) [] = rev (take k (rev olds)) @ [cur]"
      "validateGenerationChain (walkBack cur (rev olds) []) = None"
      "k < length olds \<longrightarrow> validateGenerationChain (rev olds ! k # walkBack cur (rev olds) []) \<noteq> None"
      "k \<le> length olds"
    using walkBack_result [of "rev olds" cur "[]"] old by (metis length_rev set_rev validateGenerationChain.simps(3))
  let ?gone = "take (length olds - k) olds"
  have suffix: "rev (take k (rev olds)) = drop (length olds - k) olds" by (simp add: rev_take)
  have "cs = ?gone @ retainedSuffix cs" unfolding r k(1) suffix by (simp add: cs)
  moreover have "retainedSuffix cs \<noteq> []" unfolding r k(1) by simp
  moreover have "validateGenerationChain (last ?gone # retainedSuffix cs) \<noteq> None" if "?gone \<noteq> []"
  proof -
    have less: "k < length olds" using that by auto
    then have "last ?gone = olds ! (length olds - k - 1)"
      by (subst last_conv_nth) (use that in auto)
    also have "\<dots> = rev olds ! k" using less by (simp add: rev_nth)
    finally show ?thesis using k(3) less r by simp
  qed
  ultimately show ?thesis using k(2) r by metis
qed

lemma OpenRecoveryFollower_start:
  assumes "OpenRecoveryFollower sha canon inputPath options probes closeFails (Some entries) opens = Inr f"
    and "distinct (map deName entries)"
  shows "\<exists>candidates gone first. discoverCandidates canon (rfInputPath f) (roExcludePaths options) (Some entries) = Inr candidates \<and>
     candidates = gone @ first # rfQueued f \<and>
     validateGenerationChain (first # rfQueued f) = None \<and>
     (gone \<noteq> [] \<longrightarrow> validateGenerationChain (last gone # first # rfQueued f) \<noteq> None) \<and>
     ffIdentity (rfCurrent f) = scIdentity first \<and> ffReadOffset (rfCurrent f) = 0 \<and>
     rfCurrentAtPath f = scCurrent first \<and> gpOffset (rfComplete f) = 0"
proof -
  obtain input candidates first queued cur where
    d: "discoverCandidates canon input (roExcludePaths options) (Some entries) = Inr candidates"
    and r: "retainedSuffix candidates = first # queued"
    and o: "OpenFileFollowerAt sha (scPath first) (followerOptionsAt 0 options) 0 (Some (scIdentity first)) None
        (opens (scPath first)) = Inr cur"
    and f: "f = startFollower input options cur (scCurrent first) queued
        \<lparr>gpIdentity = scIdentity first, gpGeneration = 0, gpAnchor = ffOriginAnchor cur, gpOffset = 0\<rparr>"
    using assms(1) by (auto simp: OpenRecoveryFollower_def split: option.splits sum.splits list.splits if_splits)
  obtain gone where "candidates = gone @ first # queued" "validateGenerationChain (first # queued) = None"
      "gone \<noteq> [] \<longrightarrow> validateGenerationChain (last gone # first # queued) \<noteq> None"
    using retainedSuffix_longest [OF discoverCandidates_order(1) [OF d assms(2)]] r by auto
  with d f OpenFileFollowerAt_result [OF o] show ?thesis by (auto simp: startFollower_def)
qed

lemma OpenRotatingFollower_resumes:
  assumes "OpenRotatingFollower sha canon inputPath options (Some c) listing opens = Inr f"
  shows "\<exists>fl. opens (ffPath (rfCurrent f)) = Some fl \<and> ofIdentity fl = \<lparr>fiDevice = cpDevice c, fiInode = cpInode c\<rparr> \<and>
     ContentAnchor sha (ofContent fl) (cpOffset c) = Inr (cpAnchor c) \<and>
     cpOffset c \<le> int (length (ofContent fl)) \<and>
     (0 < cpOffset c \<longrightarrow> ofContent fl ! nat (cpOffset c - 1) = newline)"
    and "ffReadOffset (rfCurrent f) = cpOffset c" and "keeps (rfCurrent f) []"
    and "ffIdentity (rfCurrent f) = \<lparr>fiDevice = cpDevice c, fiInode = cpInode c\<rparr>"
    and "\<exists>first. scIdentity first = ffIdentity (rfCurrent f) \<and> rfCurrentAtPath f = scCurrent first \<and>
       validateGenerationChain (first # rfQueued f) = None"
    and "behindCurrent f"
proof -
  let ?id = "\<lparr>fiDevice = cpDevice c, fiInode = cpInode c\<rparr>"
  obtain input candidates first queued cur where
    dr: "dropWhile (\<lambda>d. scIdentity d \<noteq> ?id) candidates = first # queued"
    and o: "OpenFileFollowerAt sha (scPath first) (followerOptionsAt 0 options) (cpOffset c) (Some ?id)
        (Some (cpAnchor c)) (opens (scPath first)) = Inr cur"
    and v: "validateGenerationChain (first # queued) = None"
    and f: "f = startFollower input options cur (scCurrent first) queued
        \<lparr>gpIdentity = ?id, gpGeneration = 0, gpAnchor = cpAnchor c, gpOffset = cpOffset c\<rparr>"
    using assms by (auto simp: OpenRotatingFollower_def Let_def split: option.splits sum.splits list.splits if_splits)
  note r = OpenFileFollowerAt_result [OF o]
  have path: "ffPath cur = scPath first"
    using o by (auto simp: OpenFileFollowerAt_def split: if_splits option.splits sum.splits)
  have ident: "scIdentity first = ?id" using dr by (metis (mono_tags, lifting) dropWhile_eq_Cons_conv)
  show "\<exists>fl. opens (ffPath (rfCurrent f)) = Some fl \<and> ofIdentity fl = ?id \<and>
     ContentAnchor sha (ofContent fl) (cpOffset c) = Inr (cpAnchor c) \<and>
     cpOffset c \<le> int (length (ofContent fl)) \<and>
     (0 < cpOffset c \<longrightarrow> ofContent fl ! nat (cpOffset c - 1) = newline)"
    using r(1) path by (auto simp: f startFollower_def)
  show "ffReadOffset (rfCurrent f) = cpOffset c" and "keeps (rfCurrent f) []"
    using r by (simp_all add: f startFollower_def keeps_def)
  show id: "ffIdentity (rfCurrent f) = ?id" using r(1) by (auto simp: f startFollower_def)
  show "\<exists>first. scIdentity first = ffIdentity (rfCurrent f) \<and> rfCurrentAtPath f = scCurrent first \<and>
       validateGenerationChain (first # rfQueued f) = None"
    unfolding id using ident v by (intro exI [of _ first]) (simp add: f startFollower_def)
  show "behindCurrent f" using r by (simp add: behindCurrent_def f startFollower_def followerOptionsAt_def)
qed

end
