(* ===== verification/RotationWorld.thy ===== *)
theory RotationWorld
  imports RotationStream
begin

text \<open>
  The generations of an input as they exist on the disk, whatever the follower does: files with an
  identity and a final content, in the order they were created. A listing shows some of them
  under the names they have at that moment; reads and sizes are those of the file that is open. In
  such a world the queue of the follower is made of the generations that follow the open one, so
  that it visits all of them.
\<close>

section \<open>Generations and listings\<close>

record sourceGeneration =
  sgIdentity :: fileIdentity
  sgContent :: string

text \<open>
  The age a name stands for: the input path has the newest generation, the name with the rotation
  number \<open>n\<close> the one that was rotated away \<open>n\<close> rotations ago.
\<close>

definition entryAge :: "string \<Rightarrow> string \<Rightarrow> int option" where
  "entryAge inputPath name =
     (if pathJoin (pathDir inputPath) name = inputPath then Some 0 else rotationNumber (pathBase inputPath) name)"

text \<open>
  A listing made when \<open>m\<close> generations existed. Any of them may be missing from it, and other files
  may be in the directory.
\<close>

definition showsGenerations :: "sourceGeneration list \<Rightarrow> string \<Rightarrow> nat \<Rightarrow> dirEntry list \<Rightarrow> bool" where
  "showsGenerations w inputPath m entries \<longleftrightarrow>
     m \<le> length w \<and> distinct (map deName entries) \<and>
     (\<forall>entry \<in> set entries. \<forall>age ident.
        entryAge inputPath (deName entry) = Some age \<and> deInfo entry = Some (True, ident) \<longrightarrow>
        age < int m \<and> ident = sgIdentity (w ! (m - 1 - nat age)))"

text \<open>
  The environment of a step. Reads succeed and see an initial part of the open file's final content,
  no shorter than what was seen before; the listing is one of the world; and a file that a newer one
  has replaced at the input path, and whose size has not changed for the drain interval, is complete.
\<close>

definition worldStep :: "sourceGeneration list \<Rightarrow> rotatingFollower \<Rightarrow> nextEnv \<Rightarrow> bool" where
  "worldStep w f env \<longleftrightarrow>
     quiet (neRead env) \<and> \<not> neCloseFails env \<and>
     (\<forall>g \<in> set w. sgIdentity g = ffIdentity (rfCurrent f) \<longrightarrow> prefix (reContent (neRead env)) (sgContent g)) \<and>
     ffReadOffset (rfCurrent f) \<le> int (length (reContent (neRead env))) \<and>
     rfDrainSize f \<le> int (length (reContent (neRead env))) \<and>
     (case neListing env of
        None \<Rightarrow> True
      | Some entries \<Rightarrow>
          (\<exists>m \<le> length w. showsGenerations w (rfInputPath f) m entries \<and>
             (\<forall>g \<in> set (take (m - 1) w).
                sgIdentity g = ffIdentity (rfCurrent f) \<and> rfPendingIdentity f \<noteq> zeroIdentity \<and>
                neDescriptorSize env = Some (rfDrainSize f) \<and>
                roDrainInterval (rfOptions f) \<le> timeSub (neNow env) (rfDrainStarted f) \<longrightarrow>
                rfDrainSize f = int (length (sgContent g)))))"

inductive worldRun ::
  "(string \<Rightarrow> string) \<Rightarrow> (string \<Rightarrow> string option) \<Rightarrow> sourceGeneration list \<Rightarrow> rotatingFollower
     \<Rightarrow> sourceLine list \<Rightarrow> rotatingFollower \<Rightarrow> bool" for sha canon w f0 where
  world_start: "worldRun sha canon w f0 [] f0"
| world_step: "worldRun sha canon w f0 ls f \<Longrightarrow> worldStep w f env \<Longrightarrow> Next sha canon env f = (res, f') \<Longrightarrow>
     worldRun sha canon w f0 (ls @ returnedLines res) f'"

text \<open>The world, and the generation the follower starts in.\<close>

definition startsIn :: "sourceGeneration list \<Rightarrow> nat \<Rightarrow> rotatingFollower \<Rightarrow> bool" where
  "startsIn w start f \<longleftrightarrow>
     distinct (map sgIdentity w) \<and> zeroIdentity \<notin> sgIdentity ` set w \<and> start < length w \<and>
     ffIdentity (rfCurrent f) = sgIdentity (w ! start) \<and> ffGeneration (rfCurrent f) = 0"

text \<open>The generation the follower has got to is the one its counter says.\<close>

definition tracks :: "sourceGeneration list \<Rightarrow> nat \<Rightarrow> rotatingFollower \<Rightarrow> bool" where
  "tracks w start f \<longleftrightarrow>
     start + ffGeneration (rfCurrent f) < length w \<and>
     ffIdentity (rfCurrent f) = sgIdentity (w ! (start + ffGeneration (rfCurrent f)))"

section \<open>What the queue holds\<close>

lemma candidate_age:
  assumes "wellScanned inputPath excluded cs entries" and "c \<in> set cs"
    and "scCurrent c \<or> scNumber c \<noteq> 0" and "showsGenerations w inputPath m entries"
  shows "(if scCurrent c then 0 else scNumber c) < int m \<and>
     scIdentity c = sgIdentity (w ! (m - 1 - nat (if scCurrent c then 0 else scNumber c)))"
proof -
  obtain entry ident where e: "entry \<in> set entries" "deInfo entry = Some (True, ident)"
    and c: "c = candidateOf inputPath (pathDir inputPath) entry ident"
    using assms(1,2) unfolding wellScanned_def by blast
  have "entryAge inputPath (deName entry) = Some (if scCurrent c then 0 else scNumber c)"
    using assms(3) by (auto simp: entryAge_def c candidateOf_def split: option.splits)
  with assms(4) e c show ?thesis by (simp add: showsGenerations_def candidateOf_def)
qed

lemma chain_ages:
  assumes "validateGenerationChain (c # rest) = None" and "rest \<noteq> []" and "scCurrent (last rest)"
  shows "\<not> scCurrent c" and "scNumber c = int (length rest)"
    and "(if scCurrent (hd rest) then 0 else scNumber (hd rest)) = int (length rest - 1)"
    and "scCurrent (hd rest) \<or> scNumber (hd rest) \<noteq> 0"
proof -
  obtain olds cur where rest: "rest = olds @ [cur]" using assms(2) by (cases rest rule: rev_cases) auto
  have chain: "validateGenerationChain ((c # olds) @ [cur]) = None" and cur: "scCurrent cur" using assms by (simp_all add: rest)
  note numbers = validateGenerationChain_numbers [OF chain cur]
  show "\<not> scCurrent c" and "scNumber c = int (length rest)" using numbers by (simp_all add: rest)
  show "(if scCurrent (hd rest) then 0 else scNumber (hd rest)) = int (length rest - 1)"
    and "scCurrent (hd rest) \<or> scNumber (hd rest) \<noteq> 0"
    using numbers cur by (cases olds; simp add: rest)+
qed

text \<open>The first queued candidate is the generation after the open one.\<close>

lemma queued_next:
  assumes discovered: "discoverCandidates canon inputPath excludes (Some entries) = Inr cs"
    and current: "dropWhile (\<lambda>c. scIdentity c \<noteq> ident) cs = c # rest" and "rest \<noteq> []"
    and chain: "validateGenerationChain (c # rest) = None"
    and listed: "showsGenerations w inputPath m entries"
    and "distinct (map sgIdentity w)" and "g < length w" and "ident = sgIdentity (w ! g)"
  shows "scIdentity (hd rest) = sgIdentity (w ! (g + 1))" and "g + 1 < m"
proof -
  have names: "distinct (map deName entries)" and m: "m \<le> length w" using listed by (simp_all add: showsGenerations_def)
  note order = discoverCandidates_order [OF discovered names]
  obtain before where cs: "cs = before @ c # rest"
    using current by (metis takeWhile_dropWhile_id)
  have ident: "scIdentity c = ident" using hd_dropWhile [of "\<lambda>c. scIdentity c \<noteq> ident" cs] current by simp
  have "scCurrent (last rest)"
    using order(1) \<open>rest \<noteq> []\<close> unfolding generationOrder_def cs by (metis last_ConsR last_appendR last_snoc list.distinct(1))
  note ages = chain_ages [OF chain \<open>rest \<noteq> []\<close> this]
  have member: "c \<in> set cs" "hd rest \<in> set cs" using \<open>rest \<noteq> []\<close> by (auto simp: cs)
  have here: "length rest < m" "scIdentity c = sgIdentity (w ! (m - 1 - length rest))"
    using candidate_age [OF order(2) member(1) _ listed] ages(1,2) \<open>rest \<noteq> []\<close> by auto
  have there: "scIdentity (hd rest) = sgIdentity (w ! (m - 1 - (length rest - 1)))"
    using candidate_age [OF order(2) member(2) ages(4) listed] unfolding ages(3) nat_int by simp
  have "m - 1 - length rest < length w" using here(1) m by simp
  moreover have "sgIdentity (w ! g) = sgIdentity (w ! (m - 1 - length rest))" using ident here(2) assms(8) by simp
  ultimately have g: "g = m - 1 - length rest"
    using assms(6,7) by (metis length_map nth_eq_iff_index_eq nth_map)
  have "0 < length rest" using \<open>rest \<noteq> []\<close> by simp
  then have "m - 1 - (length rest - 1) = g + 1" "g + 1 < m" using g here(1) by linarith+
  with there show "scIdentity (hd rest) = sgIdentity (w ! (g + 1))" and "g + 1 < m" by simp_all
qed

section \<open>A switch\<close>

lemma refreshQueue_refreshed:
  assumes "refreshQueue canon listing f = (None, f1)" and "rfQueued f1 \<noteq> []"
  shows "\<exists>entries cs c. listing = Some entries \<and>
     discoverCandidates canon (rfInputPath f) (roExcludePaths (rfOptions f)) (Some entries) = Inr cs \<and>
     dropWhile (\<lambda>c. scIdentity c \<noteq> ffIdentity (rfCurrent f)) cs = c # rfQueued f1 \<and>
     validateGenerationChain (c # rfQueued f1) = None"
proof (cases listing)
  case None
  with assms show ?thesis by (simp add: refreshQueue_def discoverCandidates_def)
next
  case (Some entries)
  with assms show ?thesis
    by (auto simp: refreshQueue_def split: sum.splits list.splits option.splits if_splits)
qed

lemma refreshQueue_pending: "refreshQueue canon listing f = (e, f1) \<Longrightarrow> rfPendingIdentity f1 = rfPendingIdentity f"
  by (auto simp: refreshQueue_def split: sum.splits list.splits option.splits if_splits)

lemma afterIdle_switch:
  assumes "afterIdle sha canon env f = (res, f')" and "rfRotationCount f' \<noteq> rfRotationCount f"
  shows "\<exists>f1. refreshQueue canon (neListing env) f = (None, f1) \<and> switchWhenStable sha canon env f1 = (res, f')"
proof -
  obtain e f1 where r: "refreshQueue canon (neListing env) f = (e, f1)"
    by (cases "refreshQueue canon (neListing env) f")
  have "rfRotationCount f1 = rfRotationCount f" using refreshQueue_frame [OF r] by (simp add: stayed_def)
  with assms r show ?thesis
    by (cases e) (auto simp: afterIdle_def resetDrain_def Let_def split: if_splits pathStat.splits)
qed

lemma switchTo_identity:
  assumes "switchTo sha canon env candidate f = (None, f')"
  shows "ffIdentity (rfCurrent f') = scIdentity candidate"
proof -
  obtain c opened where o: "openNext sha canon env candidate f = Inr (c, opened)"
    using assms by (auto simp: switchTo_def split: sum.splits)
  obtain old new where t: "transferPartialTo (rfCurrent f) opened = Inr (old, new)" and new: "rfCurrent f' = new"
    using assms o by (auto simp: switchTo_def Let_def split: sum.splits if_splits)
  have "ffIdentity new = ffIdentity opened" using t by (auto simp: transferPartialTo_def split: if_splits)
  also have "\<dots> = scIdentity candidate" using openNext_opened(8) [OF o] openNext_result(2) [OF o] by simp
  finally show ?thesis using new by simp
qed

lemma switchTo_failed: "switchTo sha canon env candidate f = (Some e, f') \<Longrightarrow> rfRotationCount f' = rfRotationCount f"
  by (auto simp: switchTo_def Let_def split: sum.splits if_splits)

lemma switchWhenStable_switch:
  assumes "switchWhenStable sha canon env f = (res, f')" and "rfRotationCount f' \<noteq> rfRotationCount f"
  shows "rfQueued f \<noteq> [] \<and> ffIdentity (rfCurrent f') = scIdentity (hd (rfQueued f)) \<and>
     rfPendingIdentity f = scIdentity (hd (rfQueued f)) \<and> settled env f"
proof (cases "rfQueued f")
  case Nil
  with assms show ?thesis by (simp add: switchWhenStable_def)
next
  case (Cons candidate queued)
  obtain r f1 where st: "stableForSwitch (scIdentity candidate) (neDescriptorSize env) (neNow env) f = (r, f1)"
    by (cases "stableForSwitch (scIdentity candidate) (neDescriptorSize env) (neNow env) f")
  note frame = stableForSwitch_frame [OF st]
  have "r = Inr True"
    using assms Cons st frame(1) by (auto simp: switchWhenStable_def stayed_def split: sum.splits bool.splits)
  then have f1: "f1 = f" and ready: "settled env f" "rfPendingIdentity f = scIdentity candidate"
    using frame(2) st by (auto simp: settled_def stableForSwitch_def split: option.splits if_splits)
  obtain e f2 where sw: "switchTo sha canon env candidate f = (e, f2)" by (cases "switchTo sha canon env candidate f")
  have "e = None"
    using assms Cons st \<open>r = Inr True\<close> f1 sw switchTo_failed by (cases e) (auto simp: switchWhenStable_def)
  with assms(1) Cons st \<open>r = Inr True\<close> f1 sw have "f' = resetDrain (f2\<lparr>rfQueued := queued\<rparr>)"
    by (simp add: switchWhenStable_def)
  with switchTo_identity [OF sw [unfolded \<open>e = None\<close>]] ready Cons show ?thesis by (simp add: resetDrain_def)
qed

lemma NextSource_identity: "NextSource sha env f = (r, f') \<Longrightarrow> ffIdentity f' = ffIdentity f"
proof (induction sha env f arbitrary: r f' rule: NextSource.induct)
  case (1 sha env f)
  obtain fragment status where slice:
      "readSlice (reFault env) (drop (nat (ffReadOffset f)) (reContent env)) = (fragment, status)"
    by (cases "readSlice (reFault env) (drop (nat (ffReadOffset f)) (reContent env))")
  obtain e f1 where frag: "takeFragment fragment f = (e, f1)" by (cases "takeFragment fragment f")
  have frame: "ffIdentity f1 = ffIdentity f" using frag by (auto simp: takeFragment_def Let_def split: if_splits)
  have kept: "ffIdentity g = ffIdentity f1" if "completeLine sha content f1 = (q, g)" for content q g
    using that by (auto simp: completeLine_def Let_def split: sum.splits)
  note eq = "1.prems" [unfolded NextSource.simps [of sha env f] slice frag prod.case]
  show ?case
  proof (cases "\<not> reCancelled env \<and> e = None \<and> status = BufferFull")
    case True
    then have no: "\<not> reCancelled env" "e = None" "status = BufferFull" by auto
    with eq have again: "NextSource sha env f1 = (r, f')" by simp
    from "1.IH" [OF no(1) slice [symmetric] frag [symmetric] no(2,3) again] frame show ?thesis by simp
  next
    case False
    with eq frame kept show ?thesis by (auto split: if_split_asm readStatus.splits option.splits)
  qed
qed

text \<open>
  A step that switches has refreshed the queue from the listing, found the current size unchanged
  for the drain interval while the same generation was due, and opened that generation.
\<close>

lemma Next_switched:
  assumes step: "worldStep w f env" and nxt: "Next sha canon env f = (res, f')"
    and count: "rfRotationCount f' \<noteq> rfRotationCount f"
    and g: "g < length w" "ffIdentity (rfCurrent f) = sgIdentity (w ! g)"
    and w: "distinct (map sgIdentity w)" "zeroIdentity \<notin> sgIdentity ` set w"
  shows "g + 1 < length w \<and> ffIdentity (rfCurrent f') = sgIdentity (w ! (g + 1)) \<and>
     neDescriptorSize env = Some (int (length (sgContent (w ! g))))"
proof -
  obtain cur where n: "NextSource sha (neRead env) (rfCurrent f) = (Inr None, cur)"
    and after: "afterIdle sha canon env (f\<lparr>rfCurrent := cur\<rparr>) = (res, f')"
    using nxt count by (auto simp: Next_def split: prod.splits sum.splits option.splits)
  let ?f = "f\<lparr>rfCurrent := cur\<rparr>"
  have ident: "ffIdentity cur = sgIdentity (w ! g)" using NextSource_identity [OF n] g(2) by simp
  obtain f1 where r: "refreshQueue canon (neListing env) ?f = (None, f1)"
    and sw: "switchWhenStable sha canon env f1 = (res, f')"
    using afterIdle_switch [OF after] count by auto
  note frame = refreshQueue_frame [OF r] refreshQueue_pending [OF r]
  have "rfRotationCount f' \<noteq> rfRotationCount f1" using frame(1) count by (simp add: stayed_def)
  note due = switchWhenStable_switch [OF sw this]
  obtain entries cs c where listing: "neListing env = Some entries"
    and found: "discoverCandidates canon (rfInputPath ?f) (roExcludePaths (rfOptions ?f)) (Some entries) = Inr cs"
      "dropWhile (\<lambda>c. scIdentity c \<noteq> ffIdentity (rfCurrent ?f)) cs = c # rfQueued f1"
      "validateGenerationChain (c # rfQueued f1) = None"
    using refreshQueue_refreshed [OF r] due by blast
  obtain m where m: "m \<le> length w" and listed: "showsGenerations w (rfInputPath f) m entries"
    and final: "\<forall>g \<in> set (take (m - 1) w). sgIdentity g = ffIdentity (rfCurrent f) \<and> rfPendingIdentity f \<noteq> zeroIdentity \<and>
        neDescriptorSize env = Some (rfDrainSize f) \<and>
        roDrainInterval (rfOptions f) \<le> timeSub (neNow env) (rfDrainStarted f) \<longrightarrow>
        rfDrainSize f = int (length (sgContent g))"
    using step listing by (auto simp: worldStep_def)
  have ident': "ffIdentity (rfCurrent ?f) = sgIdentity (w ! g)" using ident by simp
  have listed': "showsGenerations w (rfInputPath ?f) m entries" using listed by simp
  have queued: "rfQueued f1 \<noteq> []" using due by simp
  note next_gen = queued_next [OF found(1,2) queued found(3) listed' w(1) g(1) ident']
  have new: "ffIdentity (rfCurrent f') = sgIdentity (w ! (g + 1))" using next_gen(1) due by simp
  have pending: "rfPendingIdentity f \<noteq> zeroIdentity"
  proof
    assume "rfPendingIdentity f = zeroIdentity"
    then have "zeroIdentity = sgIdentity (w ! (g + 1))" using due next_gen(1) frame(2) by simp
    with w(2) next_gen(2) m show False by auto
  qed
  have "g < m - 1" using next_gen(2) by simp
  then have "w ! g \<in> set (take (m - 1) w)" using m by (auto simp: in_set_conv_nth intro!: exI [of _ g])
  then have "rfDrainSize f = int (length (sgContent (w ! g)))"
    using final due pending g(2) frame by (auto simp: settled_def stayed_def)
  moreover have "neDescriptorSize env = Some (rfDrainSize f)" using due frame by (simp add: settled_def)
  ultimately show ?thesis using new next_gen(2) m by simp
qed

section \<open>A run in the world\<close>

text \<open>The contents from the starting generation on.\<close>

definition contentsFrom :: "sourceGeneration list \<Rightarrow> nat \<Rightarrow> string list" where
  "contentsFrom w start = map sgContent (drop start w)"

lemma Next_tracks:
  assumes start: "startsIn w start f0" and step: "worldStep w f env" and nxt: "Next sha canon env f = (res, f')"
    and tracks: "tracks w start f"
  shows "tracks w start f'" and "faithful (contentsFrom w start) f env"
    and "rfRotationCount f' \<noteq> rfRotationCount f \<Longrightarrow> leavesComplete (contentsFrom w start) f env"
proof -
  let ?g = "start + ffGeneration (rfCurrent f)"
  have g: "?g < length w" "ffIdentity (rfCurrent f) = sgIdentity (w ! ?g)" using tracks by (simp_all add: tracks_def)
  have w: "distinct (map sgIdentity w)" "zeroIdentity \<notin> sgIdentity ` set w" using start by (simp_all add: startsIn_def)
  have content: "contentsFrom w start ! ffGeneration (rfCurrent f) = sgContent (w ! ?g)"
    using g(1) by (simp add: contentsFrom_def)
  show "faithful (contentsFrom w start) f env"
    using step g content by (auto simp: faithful_def worldStep_def)
  note switch = Next_switched [OF step nxt _ g w]
  show "leavesComplete (contentsFrom w start) f env" if "rfRotationCount f' \<noteq> rfRotationCount f"
    using switch [OF that] content by (auto simp: leavesComplete_def contentsFrom_def)
  show "tracks w start f'"
    using nxt
  proof (cases rule: Next_outcome)
    case (returned line cur)
    with tracks NextSource_identity [OF returned(1)] NextSource_forward [OF returned(1)] show ?thesis
      by (simp add: tracks_def)
  next
    case (failed e cur)
    with tracks NextSource_identity [OF failed(1)] NextSource_forward [OF failed(1)] show ?thesis
      by (simp add: tracks_def)
  next
    case (idle cur)
    note same = NextSource_identity [OF idle(1)] NextSource_forward [OF idle(1)]
    from idle(2) step consider "stayed (f\<lparr>rfCurrent := cur\<rparr>) f'" | "switched env (f\<lparr>rfCurrent := cur\<rparr>) f'"
      by (auto simp: outcome_def worldStep_def)
    then show ?thesis
    proof cases
      case 1
      with tracks same show ?thesis by (simp add: tracks_def stayed_def)
    next
      case 2
      then have count: "rfRotationCount f' \<noteq> rfRotationCount f" and entered: "entered (f\<lparr>rfCurrent := cur\<rparr>) f'"
        by (simp_all add: switched_def entered_def)
      obtain opened old where "transferPartialTo cur opened = Inr (old, rfCurrent f')" "ffGeneration opened = ffGeneration cur + 1"
        using entered unfolding entered_def by auto
      then have "ffGeneration (rfCurrent f') = ffGeneration (rfCurrent f) + 1"
        using transferPartialTo_frame(2) same(2) by fastforce
      with switch [OF count] show ?thesis by (simp add: tracks_def)
    qed
  qed
qed

lemma worldRun_rotationRun:
  assumes "worldRun sha canon w f0 ls f" and "startsIn w start f0"
  shows "rotationRun sha canon (contentsFrom w start) f0 ls f \<and> tracks w start f"
  using assms
proof (induction rule: worldRun.induct)
  case world_start
  then show ?case by (simp add: run_start tracks_def startsIn_def)
next
  case (world_step ls f env res f')
  then have ih: "rotationRun sha canon (contentsFrom w start) f0 ls f" "tracks w start f" by simp_all
  note step = Next_tracks [OF world_step.prems world_step.hyps(2,3) ih(2)]
  from run_step [OF ih(1) step(2) world_step.hyps(3) step(3)] step(1) show ?case by blast
qed

end
