(* ===== verification/CollectorTheorems.thy ===== *)
theory CollectorTheorems
  imports RotationWorld
begin

text \<open>
  The properties of the collector (internal/collector), each with a concrete instance: two
  generations of one input, the second holding the end of a line begun in the first.
\<close>

section \<open>Lines are determined by the bytes\<close>

lemma physicalLines_unique:
  assumes "list_all physicalLine raws" and "list_all physicalLine raws'"
    and "newline \<notin> set rest" and "newline \<notin> set rest'"
    and "concat raws @ rest = concat raws' @ rest'"
  shows "raws = raws' \<and> rest = rest'"
  using assms
proof (induction raws arbitrary: raws')
  case Nil
  show ?case
  proof (cases raws')
    case Nil
    with Nil.prems show ?thesis by simp
  next
    case (Cons r rs)
    then have "newline \<in> set rest"
      using Nil.prems(2,5) by (auto simp: physicalLine_def)
    with Nil.prems(3) show ?thesis by simp
  qed
next
  case (Cons r rs)
  then obtain body where r: "r = body @ [newline]" "newline \<notin> set body" by (auto simp: physicalLine_def)
  show ?case
  proof (cases raws')
    case Nil
    then have "newline \<in> set rest'"
      using Cons.prems(5) r by (metis concat.simps(1,2) append.assoc append_Nil in_set_conv_decomp append_Cons)
    with Cons.prems(4) show ?thesis by simp
  next
    case (Cons r' rs')
    then obtain body' where r': "r' = body' @ [newline]" "newline \<notin> set body'"
      using Cons.prems(2) by (auto simp: physicalLine_def)
    have "body @ newline # (concat rs @ rest) = body' @ newline # (concat rs' @ rest')"
      using Cons.prems(5) Cons r(1) r'(1) by simp
    moreover from this have "length body = length body'"
      using indexByte_append [OF r(2)] indexByte_append [OF r'(2)] by (metis option.inject)
    ultimately have "body = body' \<and> concat rs @ rest = concat rs' @ rest'" by simp
    with Cons.IH [of rs'] Cons.prems Cons r(1) r'(1) show ?thesis by simp
  qed
qed

lemma presents_physical: "list_all2 (presents limit) ls raws \<Longrightarrow> list_all physicalLine raws"
  by (induction rule: list_all2_induct) (auto simp: presents_def)

lemma presents_texts: "list_all2 (presents limit) ls raws \<Longrightarrow> map slText ls = map (lineText limit) raws"
  by (induction rule: list_all2_induct) (auto simp: presents_def)

lemma presents_shape:
  "list_all2 (presents limit) ls raws \<Longrightarrow>
     map (\<lambda>l. (slText l, slSourceBytes l, slOmittedBytes l)) ls =
     map (\<lambda>raw. (lineText limit raw, length raw, length raw - limit)) raws"
  by (induction rule: list_all2_induct) (auto simp: presents_def)

section \<open>A switch\<close>

lemma Next_switch:
  assumes "Next sha canon env f = (res, f')" and "rfRotationCount f' \<noteq> rfRotationCount f"
    and "\<not> neCloseFails env"
  shows "\<exists>cur. NextSource sha (neRead env) (rfCurrent f) = (Inr None, cur) \<and>
     switched env (f\<lparr>rfCurrent := cur\<rparr>) f'"
  using assms(1)
proof (cases rule: Next_outcome)
  case (idle cur)
  then show ?thesis using assms(2,3) by (auto simp: outcome_def stayed_def)
qed (use assms(2) in auto)

lemma switch_state:
  assumes st: "lineState gens f rest" and before: "before @ rest = streamRead gens (rfCurrent f)"
    and env: "faithful gens f env" and n: "NextSource sha (neRead env) (rfCurrent f) = (Inr None, cur)"
    and sw: "switched env (f\<lparr>rfCurrent := cur\<rparr>) f'"
  shows "neDescriptorSize env = Some (int (length (reContent (neRead env)))) \<and>
     rfDrainSize f = int (length (reContent (neRead env))) \<and>
     roDrainInterval (rfOptions f) \<le> timeSub (neNow env) (rfDrainStarted f) \<and>
     ffGeneration (rfCurrent f') = ffGeneration (rfCurrent f) + 1 \<and> ffReadOffset (rfCurrent f') = 0 \<and>
     keeps (rfCurrent f') (rest @ drop (nat (ffReadOffset (rfCurrent f))) (reContent (neRead env)))"
proof -
  let ?cur = "rfCurrent f" and ?c = "reContent (neRead env)"
  note fields = lineState_fields [OF st]
  have q: "quiet (neRead env)" and pre: "prefix ?c (gens ! ffGeneration ?cur)"
    and le: "ffReadOffset ?cur \<le> int (length ?c)" and dr: "rfDrainSize f \<le> int (length ?c)"
    using env by (auto simp: faithful_def)
  note adm = lineState_admits [OF st pre before le]
  have set: "settled env (f\<lparr>rfCurrent := cur\<rparr>)" and ent: "entered (f\<lparr>rfCurrent := cur\<rparr>) f'"
    using sw by (simp_all add: switched_def)
  note dr' = switch_drained [OF n q fields(1,2,3) le dr adm set]
  have cur: "cur = grown ?cur (rest @ drop (nat (ffReadOffset ?cur)) ?c) (int (length ?c))"
    using NextSource_poll [OF _ _ _ fields(1,2,3) le adm, of sha] q n by (auto simp: quiet_def)
  obtain opened old where o: "transferPartialTo cur opened = Inr (old, rfCurrent f')"
      "ffPartial opened = []" "ffLineBytes opened = 0" "ffReadOffset opened = 0"
      "ffGeneration opened = ffGeneration cur + 1"
      "ffMaxLineBytes opened = nat (foMaxLineBytes (roFollower (rfOptions f)))"
    using ent unfolding entered_def by auto
  have max: "ffMaxLineBytes opened = ffMaxLineBytes cur" "0 < ffMaxLineBytes cur"
    using st o(6) cur fields(7) by (simp_all add: lineState_def Let_def)
  have kc: "keeps cur (rest @ drop (nat (ffReadOffset ?cur)) ?c)" by (subst cur) simp
  note t = transferPartialTo_keeps [OF o(1) kc max(2) o(2,3) max(1)]
  show ?thesis using dr' set t(1,2,4) o(4,5) cur by (simp add: settled_def)
qed

section \<open>A small input\<close>

definition sampleOptions :: rotationOptions where
  "sampleOptions = \<lparr>roFollower = \<lparr>foPollInterval = 1, foMaxLineBytes = 8, foGeneration = 0,
      foRecoverLineLimits = True\<rparr>, roDrainInterval = 10, roExcludePaths = []\<rparr>"

definition firstId :: fileIdentity where "firstId = \<lparr>fiDevice = 1, fiInode = 7\<rparr>"
definition secondId :: fileIdentity where "secondId = \<lparr>fiDevice = 1, fiInode = 8\<rparr>"

definition sampleGens :: "string list" where
  "sampleGens = [''a'' @ [newline] @ ''b'', ''c'' @ [newline, CHR ''d'']]"

definition sampleFile :: "fileIdentity \<Rightarrow> string \<Rightarrow> openedFile" where
  "sampleFile ident content = \<lparr>ofRegular = True, ofIdentity = ident, ofContent = content\<rparr>"

text \<open>The directory before and after the rotation.\<close>

definition beforeListing :: "dirEntry list" where
  "beforeListing = [\<lparr>deName = ''audit.log'', deSymlink = False, deInfo = Some (True, firstId)\<rparr>]"

definition afterListing :: "dirEntry list" where
  "afterListing = [\<lparr>deName = ''audit.log'', deSymlink = False, deInfo = Some (True, secondId)\<rparr>,
     \<lparr>deName = ''audit.log.1'', deSymlink = False, deInfo = Some (True, firstId)\<rparr>]"

definition sampleEnv :: "string \<Rightarrow> gotime \<Rightarrow> nextEnv" where
  "sampleEnv content now =
     \<lparr>neRead = \<lparr>reContent = content, reFault = False, reCancelled = False, reCancelledIdle = False\<rparr>,
      neStat = StatInfo secondId 3, neListing = Some afterListing,
      neDescriptorSize = Some (int (length content)), neNow = now,
      neOpen = (\<lambda>path. if path = ''/v/audit.log'' then Some (sampleFile secondId (sampleGens ! 1)) else None),
      neListingAgain = None, neOpenAgain = (\<lambda>path. None), neCloseFails = False\<rparr>"

text \<open>The hash of the samples keeps what it is given.\<close>

definition sampleHash :: "string \<Rightarrow> string" where
  "sampleHash s = s"

definition sampleStart :: rotatingFollower where
  "sampleStart =
     (case OpenRotatingFollower sampleHash Some ''/v/audit.log'' sampleOptions None None
        (\<lambda>path. Some (sampleFile firstId (sampleGens ! 0))) of
        Inr f \<Rightarrow> f
      | Inl e \<Rightarrow> undefined)"

definition sampleEnvs :: "nextEnv list" where
  "sampleEnvs = [sampleEnv (sampleGens ! 0) 100, sampleEnv (sampleGens ! 0) 100,
     sampleEnv (sampleGens ! 0) 110, sampleEnv (sampleGens ! 1) 120, sampleEnv (sampleGens ! 1) 130]"

fun sampleStates :: "nat \<Rightarrow> rotatingFollower" where
  "sampleStates 0 = sampleStart"
| "sampleStates (Suc n) = snd (Next sampleHash Some (sampleEnvs ! n) (sampleStates n))"

definition sampleResults :: "nextResult list" where
  "sampleResults = map (\<lambda>n. fst (Next sampleHash Some (sampleEnvs ! n) (sampleStates n))) [0..<5]"

lemma sampleResults_lines: "map slText (concat (map returnedLines sampleResults)) = [''a'', ''bc'']"
  by code_simp

lemma sampleStart_line: "lineState sampleGens sampleStart []"
  by code_simp

lemma sampleFaithful: "faithful sampleGens (sampleStates 2) (sampleEnvs ! 2)"
  by code_simp

text \<open>The world of the sample: three generations have existed, the oldest is gone.\<close>

definition sampleWorld :: "sourceGeneration list" where
  "sampleWorld = [\<lparr>sgIdentity = \<lparr>fiDevice = 1, fiInode = 6\<rparr>, sgContent = ''z''\<rparr>,
     \<lparr>sgIdentity = firstId, sgContent = sampleGens ! 0\<rparr>, \<lparr>sgIdentity = secondId, sgContent = sampleGens ! 1\<rparr>]"

lemma sampleContents: "contentsFrom sampleWorld 1 = sampleGens"
  by (simp add: contentsFrom_def sampleWorld_def sampleGens_def)

lemma sampleStarts: "startsIn sampleWorld 1 sampleStart"
  by code_simp

lemma afterShows: "showsGenerations sampleWorld ''/v/audit.log'' 3 afterListing"
proof -
  have ages: "entryAge ''/v/audit.log'' ''audit.log'' = Some 0" "entryAge ''/v/audit.log'' ''audit.log.1'' = Some 1"
    by code_simp+
  have "distinct (map deName afterListing)" by code_simp
  moreover have "sgIdentity (sampleWorld ! 2) = secondId" "sgIdentity (sampleWorld ! 1) = firstId"
    by (simp_all add: sampleWorld_def)
  ultimately show ?thesis by (auto simp: showsGenerations_def afterListing_def ages sampleWorld_def)
qed

text \<open>The fields of the states and environments of the sample that its world constrains.\<close>

lemma sampleFields:
  "\<forall>n \<in> {0, 1, 2, 3, 4}.
     neListing (sampleEnvs ! n) = Some afterListing \<and> quiet (neRead (sampleEnvs ! n)) \<and> \<not> neCloseFails (sampleEnvs ! n) \<and>
     rfInputPath (sampleStates n) = ''/v/audit.log'' \<and>
     list_all (\<lambda>g. sgIdentity g = ffIdentity (rfCurrent (sampleStates n)) \<longrightarrow>
        prefix (reContent (neRead (sampleEnvs ! n))) (sgContent g)) sampleWorld \<and>
     ffReadOffset (rfCurrent (sampleStates n)) \<le> int (length (reContent (neRead (sampleEnvs ! n)))) \<and>
     rfDrainSize (sampleStates n) \<le> int (length (reContent (neRead (sampleEnvs ! n)))) \<and>
     list_all (\<lambda>g. sgIdentity g = ffIdentity (rfCurrent (sampleStates n)) \<and> rfPendingIdentity (sampleStates n) \<noteq> zeroIdentity \<longrightarrow>
        rfDrainSize (sampleStates n) = int (length (sgContent g))) (take 2 sampleWorld)"
  by code_simp

lemma sampleWorldStep: "n \<in> {0, 1, 2, 3, 4} \<Longrightarrow> worldStep sampleWorld (sampleStates n) (sampleEnvs ! n)"
  using sampleFields [rule_format, of n] afterShows
  by (simp add: worldStep_def list_all_iff) (intro exI [of _ 3] conjI; simp add: sampleWorld_def)

lemma sampleRunUpTo:
  "n \<le> 5 \<Longrightarrow> worldRun sampleHash Some sampleWorld sampleStart
     (concat (map (\<lambda>n. returnedLines (fst (Next sampleHash Some (sampleEnvs ! n) (sampleStates n)))) [0..<n])) (sampleStates n)"
proof (induction n)
  case 0
  then show ?case by (simp add: world_start)
next
  case (Suc n)
  then have "n \<in> {0, 1, 2, 3, 4}" by auto
  moreover from Suc have "worldRun sampleHash Some sampleWorld sampleStart
     (concat (map (\<lambda>n. returnedLines (fst (Next sampleHash Some (sampleEnvs ! n) (sampleStates n)))) [0..<n])) (sampleStates n)"
    by simp
  moreover have "Next sampleHash Some (sampleEnvs ! n) (sampleStates n) =
      (fst (Next sampleHash Some (sampleEnvs ! n) (sampleStates n)), sampleStates (Suc n))"
    by simp
  ultimately have "worldRun sampleHash Some sampleWorld sampleStart
     (concat (map (\<lambda>n. returnedLines (fst (Next sampleHash Some (sampleEnvs ! n) (sampleStates n)))) [0..<n]) @
        returnedLines (fst (Next sampleHash Some (sampleEnvs ! n) (sampleStates n)))) (sampleStates (Suc n))"
    using world_step sampleWorldStep by blast
  then show ?case by (simp del: sampleStates.simps)
qed

lemma sampleRun:
  "worldRun sampleHash Some sampleWorld sampleStart (concat (map returnedLines sampleResults)) (sampleStates 5)"
  using sampleRunUpTo [of 5] by (simp add: sampleResults_def comp_def del: sampleStates.simps upt.simps)

section \<open>The properties\<close>

text \<open>
  C2: the rotated generations of an input are read as one stream. The generations are files of a
  world the follower does not control: a listing shows them under the names they have by then, any of
  them possibly missing, reads see an initial part of the file that is open, and a file that was
  rotated away does not grow any more once its size has not changed for the drain interval. In every
  run the follower is then at the generation its switch count says, counted from the one it started in;
  and the returned lines are, in order, the physical lines of the concatenated generations from there
  on, each with its text or its bounded prefix, none lost, doubled or split at a rotation. What is left
  is the unfinished line the follower holds.
\<close>

theorem generations_read_as_one_stream:
  assumes "worldRun sha canon w f0 ls f" and "startsIn w start f0" and "lineState (contentsFrom w start) f0 []"
  shows "\<exists>raws rest k. k = ffGeneration (rfCurrent f) \<and> start + k < length w \<and>
     ffIdentity (rfCurrent f) = sgIdentity (w ! (start + k)) \<and>
     keeps (rfCurrent f) rest \<and> newline \<notin> set rest \<and>
     list_all2 (presents (nat (foMaxLineBytes (roFollower (rfOptions f0))))) ls raws \<and>
     take (nat (ffReadOffset (rfCurrent f0))) (sgContent (w ! start)) @ concat raws @ rest =
       concat (map sgContent (take k (drop start w))) @
       take (nat (ffReadOffset (rfCurrent f))) (sgContent (w ! (start + k)))"
proof -
  have run: "rotationRun sha canon (contentsFrom w start) f0 ls f" and tracks: "tracks w start f"
    using worldRun_rotationRun [OF assms(1,2)] by simp_all
  obtain raws rest where r: "lineState (contentsFrom w start) f rest"
      "list_all2 (presents (nat (foMaxLineBytes (roFollower (rfOptions f0))))) ls raws"
      "streamRead (contentsFrom w start) (rfCurrent f0) @ concat raws @ rest = streamRead (contentsFrom w start) (rfCurrent f)"
    using rotationRun_stream [OF run assms(3)] by blast
  have "streamRead (contentsFrom w start) (rfCurrent f0) = take (nat (ffReadOffset (rfCurrent f0))) (sgContent (w ! start))"
    using assms(2) by (simp add: streamRead_def contentsFrom_def startsIn_def)
  moreover have "streamRead (contentsFrom w start) (rfCurrent f) =
      concat (map sgContent (take (ffGeneration (rfCurrent f)) (drop start w))) @
      take (nat (ffReadOffset (rfCurrent f))) (sgContent (w ! (start + ffGeneration (rfCurrent f))))"
    using tracks by (auto simp: streamRead_def contentsFrom_def tracks_def take_map)
  ultimately show ?thesis
    using r(2,3) lineState_fields(1,2) [OF r(1)] tracks unfolding tracks_def by metis
qed

theorem generations_read_as_one_stream_witness:
  "\<exists>raws rest. map slText (concat (map returnedLines sampleResults)) = map (lineText 8) raws \<and>
     concat raws @ rest = concat sampleGens \<and> rest = ''d''"
proof -
  have line: "lineState (contentsFrom sampleWorld 1) sampleStart []"
    unfolding sampleContents by (rule sampleStart_line)
  have limit: "nat (foMaxLineBytes (roFollower (rfOptions sampleStart))) = 8" "nat (ffReadOffset (rfCurrent sampleStart)) = 0"
    "nat (ffReadOffset (rfCurrent (sampleStates 5))) = 3" "ffGeneration (rfCurrent (sampleStates 5)) = 1"
    "ffPartial (rfCurrent (sampleStates 5)) = ''d''" "ffLineBytes (rfCurrent (sampleStates 5)) = 1"
    "ffMaxLineBytes (rfCurrent (sampleStates 5)) = 8"
    by code_simp+
  obtain raws rest where r: "keeps (rfCurrent (sampleStates 5)) rest"
      "list_all2 (presents 8) (concat (map returnedLines sampleResults)) raws"
      "take 0 (sgContent (sampleWorld ! 1)) @ concat raws @ rest =
         concat (map sgContent (take 1 (drop 1 sampleWorld))) @ take 3 (sgContent (sampleWorld ! (1 + 1)))"
    using generations_read_as_one_stream [OF sampleRun sampleStarts line] unfolding limit by blast
  have "concat (map sgContent (take 1 (drop 1 sampleWorld))) @ take 3 (sgContent (sampleWorld ! (1 + 1))) = concat sampleGens"
    by (simp add: sampleWorld_def sampleGens_def)
  moreover have "rest = ''d''" using r(1) limit(5-7) by (simp add: keeps_def)
  ultimately show ?thesis using r(3) presents_texts [OF r(2)] by auto
qed

text \<open>
  C28: a switch leaves nothing unread. When a step moves to the next generation, the old one has
  been read to its end, its size being the size the drain interval began with, and the
  unfinished line is held by the new generation, which is read from its first byte.
\<close>

theorem switch_leaves_nothing_unread:
  assumes "lineState gens f rest" and "before @ rest = streamRead gens (rfCurrent f)"
    and "faithful gens f env" and "Next sha canon env f = (res, f')"
    and "rfRotationCount f' \<noteq> rfRotationCount f"
  shows "neDescriptorSize env = Some (int (length (reContent (neRead env)))) \<and>
     rfDrainSize f = int (length (reContent (neRead env))) \<and>
     roDrainInterval (rfOptions f) \<le> timeSub (neNow env) (rfDrainStarted f) \<and>
     ffGeneration (rfCurrent f') = ffGeneration (rfCurrent f) + 1 \<and> ffReadOffset (rfCurrent f') = 0 \<and>
     keeps (rfCurrent f') (rest @ drop (nat (ffReadOffset (rfCurrent f))) (reContent (neRead env)))"
proof -
  obtain cur where n: "NextSource sha (neRead env) (rfCurrent f) = (Inr None, cur)"
    and sw: "switched env (f\<lparr>rfCurrent := cur\<rparr>) f'"
    using Next_switch [OF assms(4,5)] assms(3) unfolding faithful_def by metis
  show ?thesis using switch_state [OF assms(1,2,3) n sw] by blast
qed

theorem switch_leaves_nothing_unread_witness:
  "rfRotationCount (sampleStates 3) = 1 \<and>
   neDescriptorSize (sampleEnvs ! 2) = Some (int (length (reContent (neRead (sampleEnvs ! 2)))))"
proof -
  have st: "lineState sampleGens (sampleStates 2) ''b''" by code_simp
  have before: "(''a'' @ [newline]) @ ''b'' = streamRead sampleGens (rfCurrent (sampleStates 2))" by code_simp
  have env: "faithful sampleGens (sampleStates 2) (sampleEnvs ! 2)" by (rule sampleFaithful)
  have nxt: "Next sampleHash Some (sampleEnvs ! 2) (sampleStates 2) =
      (fst (Next sampleHash Some (sampleEnvs ! 2) (sampleStates 2)), sampleStates 3)"
    by (simp add: numeral_3_eq_3 numeral_2_eq_2)
  have count: "rfRotationCount (sampleStates 3) = 1 \<and> rfRotationCount (sampleStates 2) = 0" by code_simp
  show ?thesis
    using switch_leaves_nothing_unread [OF st before env nxt] count by simp
qed

text \<open>
  C29: the complete position never goes back, over any sequence of steps in any environment in
  which descriptors close: lines, idle polls, failed reads, retries and rotations.
\<close>

theorem complete_position_monotone:
  assumes "behindCurrent f" and "\<forall>env \<in> set envs. \<not> neCloseFails env"
  shows "behindCurrent (nextSteps sha canon envs f) \<and>
     \<not> completeBefore (rfComplete (nextSteps sha canon envs f)) (rfComplete f)"
  using assms by (rule nextSteps_forward)

theorem complete_position_monotone_witness:
  "\<not> completeBefore (rfComplete (nextSteps sampleHash Some sampleEnvs sampleStart)) (rfComplete sampleStart) \<and>
   completeBefore (rfComplete sampleStart) (rfComplete (nextSteps sampleHash Some sampleEnvs sampleStart))"
proof -
  have b: "behindCurrent sampleStart" by code_simp
  have c: "\<forall>env \<in> set sampleEnvs. \<not> neCloseFails env" by code_simp
  have d: "completeBefore (rfComplete sampleStart) (rfComplete (nextSteps sampleHash Some sampleEnvs sampleStart))"
    by code_simp
  show ?thesis using complete_position_monotone [OF b c] d by blast
qed

text \<open>
  How a file grows between polls does not matter. Two sequences of polls over append-only
  growths of the same file that have read equally far return lines of the same text, size and
  omission.
\<close>

theorem growth_schedule_irrelevant:
  assumes "\<forall>env \<in> set envs \<union> set envs'. quiet env"
    and "appendOnly (ffReadOffset f) envs final" and "appendOnly (ffReadOffset f) envs' final"
    and "keeps f raw" and "newline \<notin> set raw" and "0 \<le> ffReadOffset f"
    and "admits f (length raw + length (drop (nat (ffReadOffset f)) final))"
    and "followPolls sha envs f = Inr (ls, g)" and "followPolls sha envs' f = Inr (ls', g')"
    and "ffReadOffset g = ffReadOffset g'"
  shows "map (\<lambda>l. (slText l, slSourceBytes l, slOmittedBytes l)) ls =
         map (\<lambda>l. (slText l, slSourceBytes l, slOmittedBytes l)) ls'"
proof -
  obtain raws rest read where
    r: "list_all2 (presents (ffMaxLineBytes f)) ls raws" "newline \<notin> set rest"
      "ffReadOffset g = ffReadOffset f + int read"
      "raw @ take read (drop (nat (ffReadOffset f)) final) = concat raws @ rest"
    using followPolls_lines [OF _ assms(2,4,5,6,7), of sha] assms(1,8) by auto
  obtain raws' rest' read' where
    r': "list_all2 (presents (ffMaxLineBytes f)) ls' raws'" "newline \<notin> set rest'"
      "ffReadOffset g' = ffReadOffset f + int read'"
      "raw @ take read' (drop (nat (ffReadOffset f)) final) = concat raws' @ rest'"
    using followPolls_lines [OF _ assms(3,4,5,6,7), of sha] assms(1,9) by auto
  have "concat raws @ rest = concat raws' @ rest'" using r(3,4) r'(3,4) assms(10) by simp
  then have "raws = raws'"
    using physicalLines_unique [OF presents_physical [OF r(1)] presents_physical [OF r'(1)] r(2) r'(2)] by blast
  then show ?thesis using presents_shape [OF r(1)] presents_shape [OF r'(1)] by simp
qed

definition growingFile :: "string list \<Rightarrow> readEnv list" where
  "growingFile = map (\<lambda>c. \<lparr>reContent = c, reFault = False, reCancelled = False, reCancelledIdle = False\<rparr>)"

definition twoLines :: string where
  "twoLines = ''ab'' @ [newline] @ ''cd'' @ [newline]"

definition emptyFollower :: fileFollower where
  "emptyFollower = (case OpenFileFollower sampleHash ''/v/audit.log'' (roFollower sampleOptions)
     (Some (sampleFile firstId [])) of Inr f \<Rightarrow> f | Inl e \<Rightarrow> undefined)"

theorem growth_schedule_irrelevant_witness:
  "\<exists>ls g ls' g'.
     followPolls sampleHash (growingFile [''a'', ''ab'' @ [newline] @ ''c'', twoLines, twoLines]) emptyFollower = Inr (ls, g) \<and>
     followPolls sampleHash (growingFile [twoLines, twoLines]) emptyFollower = Inr (ls', g') \<and>
     map (\<lambda>l. (slText l, slSourceBytes l, slOmittedBytes l)) ls =
     map (\<lambda>l. (slText l, slSourceBytes l, slOmittedBytes l)) ls' \<and> map slText ls = [''ab'', ''cd'']"
proof -
  let ?e = "growingFile [''a'', ''ab'' @ [newline] @ ''c'', twoLines, twoLines]"
  let ?e' = "growingFile [twoLines, twoLines]"
  let ?p = "projr (followPolls sampleHash ?e emptyFollower)"
  let ?p' = "projr (followPolls sampleHash ?e' emptyFollower)"
  have r: "followPolls sampleHash ?e emptyFollower = Inr (fst ?p, snd ?p)" by code_simp
  have r': "followPolls sampleHash ?e' emptyFollower = Inr (fst ?p', snd ?p')" by code_simp
  have q: "\<forall>env \<in> set ?e \<union> set ?e'. quiet env" by code_simp
  have a: "appendOnly (ffReadOffset emptyFollower) ?e twoLines" by code_simp
  have a': "appendOnly (ffReadOffset emptyFollower) ?e' twoLines" by code_simp
  have k: "keeps emptyFollower []" by code_simp
  have n: "newline \<notin> set []" by simp
  have o: "0 \<le> ffReadOffset emptyFollower" by code_simp
  have d: "admits emptyFollower (length [] + length (drop (nat (ffReadOffset emptyFollower)) twoLines))" by code_simp
  have same: "ffReadOffset (snd ?p) = ffReadOffset (snd ?p')" by code_simp
  have texts: "map slText (fst ?p) = [''ab'', ''cd'']" by code_simp
  note agree = growth_schedule_irrelevant [OF q a a' k n o d r r' same]
  show ?thesis
    by (rule exI [of _ "fst ?p"], rule exI [of _ "snd ?p"], rule exI [of _ "fst ?p'"], rule exI [of _ "snd ?p'"])
      (intro conjI r r' agree texts)
qed

end
