(* ===== verification/ResumeTheorems.thy ===== *)
theory ResumeTheorems
  imports CollectorTheorems
begin

text \<open>
  The properties of discovery, of the start of a follower (fresh, from a checkpoint, after a
  gap) and of the state documents.
\<close>

section \<open>The gap ledger, specified\<close>

definition incidentOk :: "gapLedger \<Rightarrow> gapIncident \<Rightarrow> bool" where
  "incidentOk l g \<longleftrightarrow>
     fiDevice (giObservedIdentity g) \<noteq> 0 \<and> fiInode (giObservedIdentity g) \<noteq> 0 \<and>
     \<not> (giPrepared g \<and> giSuperseded g) \<and> giNumber g \<noteq> 0 \<and> giNumber g \<le> glTotal l \<and>
     giDetectedAt g \<noteq> 0 \<and> giReason g \<in> set gapReasons \<and>
     cpInputPath (giResume g) = glInputPath l \<and> cpOffset (giResume g) = 0 \<and>
     checkpointValidate (giResume g) = None \<and>
     (case giPrevious g of None \<Rightarrow> True
      | Some c \<Rightarrow> checkpointValidate c = None \<and> cpInputPath c = glInputPath l)"

text \<open>Numbers without a hole, and only the newest decision may be unfinished.\<close>

fun consecutive :: "nat \<Rightarrow> gapIncident list \<Rightarrow> bool" where
  "consecutive n [] \<longleftrightarrow> True"
| "consecutive n (g # gs) \<longleftrightarrow> giNumber g = n \<and> consecutive (n + 1) gs"

lemma validateIncident_ok:
  "validateIncident l previous later g = None \<longleftrightarrow>
     incidentOk l g \<and> (case previous of None \<Rightarrow> True | Some p \<Rightarrow> giNumber g = giNumber p + 1) \<and>
     \<not> (later \<and> giPrepared g)"
  by (auto simp: validateIncident_def incidentOk_def split: option.splits if_splits)

lemma validateIncidents_Cons:
  "validateIncidents l previous (g # gs) = None \<longleftrightarrow>
     validateIncident l previous (gs \<noteq> []) g = None \<and> validateIncidents l (Some g) gs = None"
  by (simp split: option.split)

lemma validateIncidents_ok:
  "validateIncidents l (Some p) gs = None \<longleftrightarrow>
     list_all (incidentOk l) gs \<and> consecutive (giNumber p + 1) gs \<and> list_all (\<lambda>g. \<not> giPrepared g) (butlast gs)"
  by (induction gs arbitrary: p)
    (auto simp: validateIncident_ok validateIncidents_Cons simp del: validateIncidents.simps(2))

lemma validateIncidents_start:
  "validateIncidents l None (g # gs) = None \<longleftrightarrow>
     list_all (incidentOk l) (g # gs) \<and> consecutive (giNumber g) (g # gs) \<and>
     list_all (\<lambda>g. \<not> giPrepared g) (butlast (g # gs))"
  by (auto simp: validateIncident_ok validateIncidents_ok validateIncidents_Cons
      simp del: validateIncidents.simps(2))

lemma ledgerValidate_ok:
  "ledgerValidate l = None \<longleftrightarrow>
     glVersion l = 1 \<and> glInputPath l \<noteq> [] \<and> 0 < glTotal l \<and> glIncidents l \<noteq> [] \<and>
     length (glIncidents l) \<le> 8 \<and> list_all (incidentOk l) (glIncidents l) \<and>
     consecutive (giNumber (hd (glIncidents l))) (glIncidents l) \<and>
     list_all (\<lambda>g. \<not> giPrepared g) (butlast (glIncidents l)) \<and>
     giNumber (last (glIncidents l)) = glTotal l"
proof (cases "glIncidents l")
  case Nil
  then show ?thesis by (simp add: ledgerValidate_def)
next
  case (Cons g gs)
  then show ?thesis
    using validateIncidents_start [of l g gs]
    by (auto simp: ledgerValidate_def split: option.splits)
qed

section \<open>Samples\<close>

definition sampleCheckpoint :: checkpoint where
  "sampleCheckpoint = \<lparr>cpVersion = 2, cpInputPath = ''/v/audit.log'', cpDevice = 1, cpInode = 7, cpOffset = 2,
     cpAnchor = hexEncode (sampleHash (''a'' @ [newline] @ ''a'' @ [newline])), cpUpdatedAt = 5\<rparr>"

definition sampleOpens :: "string \<Rightarrow> openedFile option" where
  "sampleOpens path =
     (if path = ''/v/audit.log.1'' then Some (sampleFile firstId (sampleGens ! 0))
      else if path = ''/v/audit.log'' then Some (sampleFile secondId (sampleGens ! 1)) else None)"

text \<open>The generation before the oldest retained one is gone: \<open>.3\<close> does not continue to \<open>.1\<close>.\<close>

definition brokenListing :: "dirEntry list" where
  "brokenListing = afterListing @
     [\<lparr>deName = ''audit.log.3'', deSymlink = False, deInfo = Some (True, \<lparr>fiDevice = 1, fiInode = 3\<rparr>)\<rparr>,
      \<lparr>deName = ''audit.log.4.gz'', deSymlink = False, deInfo = Some (True, \<lparr>fiDevice = 1, fiInode = 4\<rparr>)\<rparr>]"

section \<open>The properties\<close>

text \<open>
  C30: an accepted listing is unambiguous. The generations found are regular files, not links, not
  compressed, not excluded, pairwise distinct, in the order of falling rotation numbers with
  the configured path, exactly once, last.
\<close>

theorem discovery_orders_generations:
  assumes "discoverCandidates canon inputPath excludes (Some entries) = Inr cs"
    and "distinct (map deName entries)"
  shows "generationOrder cs \<and>
     wellScanned inputPath (List.map_filter canon (filter (\<lambda>p. p \<noteq> []) excludes)) cs entries"
  using discoverCandidates_order [OF assms] by blast

theorem discovery_orders_generations_witness:
  "\<exists>cs. discoverCandidates Some ''/v/audit.log'' [''/v/other''] (Some brokenListing) = Inr cs \<and>
     map scNumber cs = [3, 1, 0] \<and> generationOrder cs"
proof -
  let ?cs = "projr (discoverCandidates Some ''/v/audit.log'' [''/v/other''] (Some brokenListing))"
  have d: "discoverCandidates Some ''/v/audit.log'' [''/v/other''] (Some brokenListing) = Inr ?cs" by code_simp
  have "distinct (map deName brokenListing)" by code_simp
  with discovery_orders_generations [OF d] have "generationOrder ?cs" by blast
  moreover have "map scNumber ?cs = [3, 1, 0]" by code_simp
  ultimately show ?thesis by (intro exI [of _ ?cs] conjI d)
qed



text \<open>
  C31: after a gap the oldest usable record is found. Recovery resumes at the first byte of the
  oldest generation from which the numbering runs without a hole to the configured path;
  the generation before it, if there is one, would break the chain.
\<close>

theorem recovery_takes_longest_suffix:
  assumes "OpenRecoveryFollower sha canon inputPath options probes closeFails (Some entries) opens = Inr f"
    and "distinct (map deName entries)"
  shows "\<exists>candidates gone first.
     discoverCandidates canon (rfInputPath f) (roExcludePaths options) (Some entries) = Inr candidates \<and>
     candidates = gone @ first # rfQueued f \<and>
     validateGenerationChain (first # rfQueued f) = None \<and>
     (gone \<noteq> [] \<longrightarrow> validateGenerationChain (last gone # first # rfQueued f) \<noteq> None) \<and>
     ffIdentity (rfCurrent f) = scIdentity first \<and> ffReadOffset (rfCurrent f) = 0 \<and>
     rfCurrentAtPath f = scCurrent first \<and> gpOffset (rfComplete f) = 0"
  using assms by (rule OpenRecoveryFollower_start)

theorem recovery_takes_longest_suffix_witness:
  "\<exists>f. OpenRecoveryFollower sampleHash Some ''/v/audit.log'' sampleOptions sampleOpens False
       (Some brokenListing) sampleOpens = Inr f \<and>
     ffIdentity (rfCurrent f) = firstId \<and> ffReadOffset (rfCurrent f) = 0"
proof -
  let ?r = "OpenRecoveryFollower sampleHash Some ''/v/audit.log'' sampleOptions sampleOpens False
       (Some brokenListing) sampleOpens"
  have r: "?r = Inr (projr ?r)" by code_simp
  have "distinct (map deName brokenListing)" by code_simp
  from recovery_takes_longest_suffix [OF r this] have "ffReadOffset (rfCurrent (projr ?r)) = 0" by blast
  moreover have "ffIdentity (rfCurrent (projr ?r)) = firstId" by code_simp
  ultimately show ?thesis by (intro exI [of _ "projr ?r"] conjI r)
qed

text \<open>
  C32: the one way a step can index out of range. It panics exactly when the current generation is
  at the configured path, is read to its end, the path is then found to name another file, and
  the listing that follows finds the current generation back at the path.
\<close>

theorem next_panics_when_renamed_back:
  "fst (Next sha canon env f) = Panic \<longleftrightarrow>
     (\<exists>cur. NextSource sha (neRead env) (rfCurrent f) = (Inr None, cur) \<and>
        renamedBack canon env (f\<lparr>rfCurrent := cur\<rparr>))"
  by (rule Next_panic)

theorem next_panics_when_renamed_back_witness:
  "fst (Next sampleHash Some ((sampleEnv (sampleGens ! 0) 100)\<lparr>neListing := Some beforeListing\<rparr>) (sampleStates 1)) = Panic"
proof -
  let ?env = "(sampleEnv (sampleGens ! 0) 100)\<lparr>neListing := Some beforeListing\<rparr>"
  let ?n = "NextSource sampleHash (neRead ?env) (rfCurrent (sampleStates 1))"
  have "?n = (Inr None, snd ?n)" by code_simp
  moreover have "renamedBack Some ?env ((sampleStates 1)\<lparr>rfCurrent := snd ?n\<rparr>)"
    by (simp add: renamedBack_def, intro conjI exI) (code_simp+)
  ultimately show ?thesis using next_panics_when_renamed_back by blast
qed

text \<open>
  The ledger of gaps. \<open>Validate\<close> accepts exactly the ledgers with at most eight incidents,
  numbered without a hole up to the lifetime total, each resuming the same input at offset 0
  from a valid checkpoint, and of which only the newest may be a mere decision.
\<close>

theorem gap_ledger_valid:
  "ledgerValidate l = None \<longleftrightarrow>
     glVersion l = 1 \<and> glInputPath l \<noteq> [] \<and> 0 < glTotal l \<and> glIncidents l \<noteq> [] \<and>
     length (glIncidents l) \<le> 8 \<and> list_all (incidentOk l) (glIncidents l) \<and>
     consecutive (giNumber (hd (glIncidents l))) (glIncidents l) \<and>
     list_all (\<lambda>g. \<not> giPrepared g) (butlast (glIncidents l)) \<and>
     giNumber (last (glIncidents l)) = glTotal l"
  by (rule ledgerValidate_ok)

text \<open>
  C33: the checkpoint file is replaced atomically. Whatever call of a save fails, the file loads as
  it did before or as the new checkpoint, stamped and valid; a save that reports success has
  written the new one, and a temporary file is left only if removing it failed.
\<close>

theorem checkpoint_replaced_atomically:
  assumes "SaveCheckpoint encode calls now c d = (ok, d')"
    and "decode (encode (stampedCheckpoint now c)) = Some (stampedCheckpoint now c)"
    and "int (length (encode (stampedCheckpoint now c))) \<le> maxCheckpointBytes"
  shows "(sdTarget d' = sdTarget d \<and> \<not> ok \<or>
      LoadCheckpoint decode (sdTarget d') = Inr (Some (stampedCheckpoint now c)) \<and>
      checkpointValidate (stampedCheckpoint now c) = None) \<and>
     (sdLeftover d' \<longrightarrow> sdLeftover d \<or> \<not> svUnlink calls)"
  using SaveCheckpoint_target [OF assms(1)] assms(2,3) by (auto simp: LoadCheckpoint_def)

text \<open>A codec for the sample: the text is the offset, and the rest is known.\<close>

definition anchoredCheckpoint :: checkpoint where
  "anchoredCheckpoint = sampleCheckpoint\<lparr>cpAnchor := replicate 64 CHR ''0''\<rparr>"

definition sampleEncode :: "checkpoint \<Rightarrow> string" where
  "sampleEncode c = itoa (cpOffset c)"

definition sampleDecode :: "string \<Rightarrow> checkpoint option" where
  "sampleDecode s = map_option (\<lambda>n. anchoredCheckpoint\<lparr>cpOffset := n, cpUpdatedAt := 9\<rparr>) (parseInt10 s)"

text \<open>Every call succeeds but the sync of the directory.\<close>

definition unsyncedSave :: saveCalls where
  "unsyncedSave = \<lparr>svOpenDirectory = True, svCloseExisting = True, svRandom = True, svCreate = True,
     svTorn = [], svEncode = True, svSync = True, svClose = True, svRename = True, svUnlink = True,
     svSyncDirectory = False, svCloseDirectory = True\<rparr>"

theorem checkpoint_replaced_atomically_witness:
  "\<exists>d'. SaveCheckpoint sampleEncode unsyncedSave 9 anchoredCheckpoint \<lparr>sdTarget = Bytes ''7'', sdLeftover = False\<rparr> = (False, d') \<and>
     LoadCheckpoint sampleDecode (sdTarget d') = Inr (Some (stampedCheckpoint 9 anchoredCheckpoint))"
proof -
  let ?s = "SaveCheckpoint sampleEncode unsyncedSave 9 anchoredCheckpoint \<lparr>sdTarget = Bytes ''7'', sdLeftover = False\<rparr>"
  have s: "?s = (False, snd ?s)" by code_simp
  have codec: "sampleDecode (sampleEncode (stampedCheckpoint 9 anchoredCheckpoint)) = Some (stampedCheckpoint 9 anchoredCheckpoint)"
    by code_simp
  have short: "int (length (sampleEncode (stampedCheckpoint 9 anchoredCheckpoint))) \<le> maxCheckpointBytes"
    by code_simp
  have changed: "sdTarget (snd ?s) \<noteq> Bytes ''7''" by code_simp
  from checkpoint_replaced_atomically [where encode = sampleEncode and decode = sampleDecode, OF s codec short]
  have "LoadCheckpoint sampleDecode (sdTarget (snd ?s)) = Inr (Some (stampedCheckpoint 9 anchoredCheckpoint))"
    using changed by simp
  then show ?thesis by (intro exI [of _ "snd ?s"] conjI s)
qed

end
