(* ===== verification/Diagnostics.thy ===== *)
theory Diagnostics
  imports Rotation Assembler "HOL-Library.Word"
begin

text \<open>
  The command's diagnostics (cmd/ag-audit/operations.go): its counters, its structured log and
  the heartbeat. A log entry is a constructor with the fields the source puts into its map; the
  time stamp of an entry is left out. Encoding an entry can fail: the outcomes of successive
  entries are a script, and every entry succeeds when the script is used up.

  The theory also holds what all operations of the command share: their errors (\<open>Panicked\<close> is a
  run-time panic), and the
  sequencing \<open>if err := a(); err != nil { return err }; return b()\<close>.
\<close>

section \<open>Errors and sequencing\<close>

datatype commandError =
  LogFailed
| WriteFailed
| CommitFailed
| PositionRegressed
| CheckpointNotSaved
| CheckpointNotLoaded loadError
| CheckpointForOtherInput
| LedgerNotLoaded
| LedgerForOtherInput
| LedgerPathConflict
| LedgerNotSaved
| GapsExhausted
| PreparedMismatch
| CollectorFailed rotationError
| LagUnknown
| BadInput
| ReadError
| LineCounterExhausted
| Panicked

type_synonym 's action = "'s \<Rightarrow> commandError option \<times> 's"

definition andThen :: "'s action \<Rightarrow> 's action \<Rightarrow> 's action" where
  "andThen m k s = (case m s of (Some e, s') \<Rightarrow> (Some e, s') | (None, s') \<Rightarrow> k s')"

fun forEach :: "('a \<Rightarrow> 's action) \<Rightarrow> 'a list \<Rightarrow> 's action" where
  "forEach f [] s = (None, s)"
| "forEach f (x # xs) s = andThen (f x) (forEach f xs) s"

definition update :: "('s \<Rightarrow> 's) \<Rightarrow> 's action" where
  "update f s = (None, f s)"

section \<open>Counters\<close>

type_synonym uint64 = "64 word"

text \<open>\<open>type operationCounters struct\<close>.\<close>

record operationCounters =
  ocLineLimits :: uint64
  ocAssemblerLimits :: uint64
  ocInputLines :: uint64
  ocInputBytes :: uint64
  ocEmittedEvents :: uint64
  ocParseFailures :: uint64
  ocReplayCandidates :: uint64
  ocGaps :: uint64
  ocRotations :: uint64

definition zeroCounters :: operationCounters where
  "zeroCounters = \<lparr>ocLineLimits = 0, ocAssemblerLimits = 0, ocInputLines = 0, ocInputBytes = 0,
     ocEmittedEvents = 0, ocParseFailures = 0, ocReplayCandidates = 0, ocGaps = 0, ocRotations = 0\<rparr>"

section \<open>The log\<close>

text \<open>The fields of a heartbeat. \<open>hbUptime\<close> is the duration the source reports in whole seconds.\<close>

record heartbeatFields =
  hbUptime :: duration
  hbCounters :: operationCounters
  hbPendingEvents :: nat
  hbPendingBytes :: int
  hbPersistentGaps :: "uint64 option"
  hbLagBytes :: "int option"

datatype diagnostic =
  ConfigurationValid string
| CheckpointDisabled string
| SingletonActive string string
| Started bool string string
| Stopped operationCounters
| ParseFailureSeen string
| LineLimitExceeded int nat int sourcePosition
| AssemblerLimitExceeded limitError string sourcePosition "nat \<times> int \<times> bool"
| Heartbeat heartbeatFields
| InputRotation nat
| RecoveryStarted nat nat int
| RecoveryCaughtUp uint64
| SourceGapSeen rotationError
| GapHistory uint64 gapIncident
| GapIncident gapIncident
| ResumedWithGap nat checkpoint uint64

text \<open>The level and the event name each entry is logged with.\<close>

fun diagnosticKind :: "diagnostic \<Rightarrow> string \<times> string" where
  "diagnosticKind (ConfigurationValid c) = (''info'', ''configuration_valid'')"
| "diagnosticKind (CheckpointDisabled i) = (''warn'', ''checkpoint_disabled'')"
| "diagnosticKind (SingletonActive i l) = (''info'', ''singleton_active'')"
| "diagnosticKind (Started f i s) = (''info'', ''started'')"
| "diagnosticKind (Stopped c) = (''info'', ''stopped'')"
| "diagnosticKind (ParseFailureSeen e) = (''warn'', ''parse_failure'')"
| "diagnosticKind (LineLimitExceeded a b c d) = (''error'', ''physical_line_limit_exceeded'')"
| "diagnosticKind (AssemblerLimitExceeded l n s t) = (''error'', ''assembler_limit_exceeded'')"
| "diagnosticKind (Heartbeat h) = (''info'', ''heartbeat'')"
| "diagnosticKind (InputRotation n) = (''info'', ''input_rotation'')"
| "diagnosticKind (RecoveryStarted a b c) = (''info'', ''recovery_started'')"
| "diagnosticKind (RecoveryCaughtUp n) = (''info'', ''recovery_caught_up'')"
| "diagnosticKind (SourceGapSeen e) = (''error'', ''source_gap'')"
| "diagnosticKind (GapHistory n g) = (''warn'', ''source_gap_history'')"
| "diagnosticKind (GapIncident g) = (''error'', ''source_gap'')"
| "diagnosticKind (ResumedWithGap n c t) = (''warn'', ''recovery_resumed_with_gap'')"

text \<open>\<open>type operationalDiagnostics struct\<close>; \<open>dgLog\<close> is what was encoded, \<open>dgOutcomes\<close> the script.\<close>

record operationalDiagnostics =
  dgStarted :: gotime
  dgHeartbeatInterval :: duration
  dgNextHeartbeat :: gotime
  dgCounters :: operationCounters
  dgPersistentGaps :: uint64
  dgLog :: "diagnostic list"
  dgOutcomes :: "bool list"

definition newOperationalDiagnostics :: "gotime \<Rightarrow> duration \<Rightarrow> bool list \<Rightarrow> operationalDiagnostics" where
  "newOperationalDiagnostics now heartbeatInterval outcomes =
     \<lparr>dgStarted = now, dgHeartbeatInterval = heartbeatInterval, dgNextHeartbeat = now + heartbeatInterval,
      dgCounters = zeroCounters, dgPersistentGaps = 0, dgLog = [], dgOutcomes = outcomes\<rparr>"

definition logEntry :: "diagnostic \<Rightarrow> operationalDiagnostics action" where
  "logEntry entry d =
     (case dgOutcomes d of
        [] \<Rightarrow> (None, d\<lparr>dgLog := dgLog d @ [entry]\<rparr>)
      | ok # oks \<Rightarrow>
          if ok then (None, d\<lparr>dgLog := dgLog d @ [entry], dgOutcomes := oks\<rparr>)
          else (Some LogFailed, d\<lparr>dgOutcomes := oks\<rparr>))"

definition count :: "(operationCounters \<Rightarrow> operationCounters) \<Rightarrow> operationalDiagnostics \<Rightarrow> operationalDiagnostics" where
  "count f d = d\<lparr>dgCounters := f (dgCounters d)\<rparr>"

section \<open>Heartbeats\<close>

text \<open>\<open>heartbeatDue\<close> and \<open>heartbeat\<close>; the pending counts are those of the processor's assembler.\<close>

definition heartbeatDue :: "gotime \<Rightarrow> operationalDiagnostics \<Rightarrow> bool" where
  "heartbeatDue now d \<longleftrightarrow> 0 < dgHeartbeatInterval d \<and> \<not> now < dgNextHeartbeat d"

definition heartbeat :: "gotime \<Rightarrow> gotime \<Rightarrow> assembler \<Rightarrow> int \<Rightarrow> operationalDiagnostics action" where
  "heartbeat now later a lagBytes d0 =
     (let d = d0\<lparr>dgNextHeartbeat := now + dgHeartbeatInterval d0\<rparr>
      in logEntry (Heartbeat
           \<lparr>hbUptime = timeSub later (dgStarted d), hbCounters = dgCounters d,
            hbPendingEvents = Pending a, hbPendingBytes = PendingBytes a,
            hbPersistentGaps = (if 0 < dgPersistentGaps d then Some (dgPersistentGaps d) else None),
            hbLagBytes = (if 0 \<le> lagBytes then Some lagBytes else None)\<rparr>) d)"

section \<open>Relations kept by actions\<close>

text \<open>
  What an action may do to the state, whether it fails or not, is a reflexive and transitive
  relation; a sequence of such actions stays within it.
\<close>

definition within :: "('s \<Rightarrow> 's \<Rightarrow> bool) \<Rightarrow> 's action \<Rightarrow> bool" where
  "within R m \<longleftrightarrow> (\<forall>s. R s (snd (m s)))"

locale effect =
  fixes R :: "'s \<Rightarrow> 's \<Rightarrow> bool"
  assumes effect_refl: "R s s"
    and effect_trans: "R s t \<Longrightarrow> R t u \<Longrightarrow> R s u"
begin

lemma within_andThen: "within R m \<Longrightarrow> within R k \<Longrightarrow> within R (andThen m k)"
proof (unfold within_def, rule allI)
  fix s assume m: "\<forall>s. R s (snd (m s))" and k: "\<forall>s. R s (snd (k s))"
  obtain e t where res: "m s = (e, t)" by (cases "m s")
  with m have "R s t" by (metis snd_conv)
  with k effect_trans [of s t] res show "R s (snd (andThen m k s))"
    by (cases e) (simp_all add: andThen_def)
qed

lemma within_forEach: "(\<And>x. x \<in> set xs \<Longrightarrow> within R (f x)) \<Longrightarrow> within R (forEach f xs)"
proof (induction xs)
  case Nil
  then show ?case by (simp add: within_def effect_refl)
next
  case (Cons x xs)
  then have "within R (andThen (f x) (forEach f xs))" by (intro within_andThen) simp_all
  then show ?case by (simp add: within_def)
qed

lemma within_result: "within R m \<Longrightarrow> m s = (e, s') \<Longrightarrow> R s s'"
  by (auto simp: within_def dest: spec [of _ s])

end

lemma andThen_ok: "andThen m k s = (None, t) \<longleftrightarrow> (\<exists>u. m s = (None, u) \<and> k u = (None, t))"
  by (auto simp: andThen_def split: prod.splits option.splits)

lemma andThen_cases:
  assumes "andThen m k s = (e, t)"
  obtains (failed) c where "m s = (Some c, t)" and "e = Some c"
  | (passed) u where "m s = (None, u)" and "k u = (e, t)"
  using assms by (auto simp: andThen_def split: prod.splits option.splits)

lemma forEach_append: "forEach f (xs @ ys) s = andThen (forEach f xs) (forEach f ys) s"
  by (induction xs arbitrary: s) (auto simp: andThen_def split: prod.split option.split)

lemma forEach_concat: "forEach (forEach f) xss s = forEach f (concat xss) s"
  by (induction xss arbitrary: s) (auto simp: forEach_append andThen_def split: prod.split option.split)

lemma forEach_map: "forEach f (map g xs) s = forEach (\<lambda>x. f (g x)) xs s"
  by (induction xs arbitrary: s) (auto simp: andThen_def split: prod.split option.split)

lemma logEntry_counters: "logEntry entry d = (e, d') \<Longrightarrow> dgCounters d' = dgCounters d"
  by (auto simp: logEntry_def split: list.splits if_splits)

end
