(* ===== verification/Sink.thy ===== *)
theory Sink
  imports Canonical
begin

text \<open>
  The event sink (internal/output/sink.go). \<open>Sink\<close> is an interface of the source and a locale
  here: what the command may rely on of writing and committing canonical events. \<open>NDJSONSink\<close> is
  its one implementation, over a caller-owned writer or a managed file that is reopened when
  it has been rotated; its operations take the outcomes of their system calls from a script in
  the state, in order, every call succeeding when the script is used up.
\<close>

section \<open>The interface\<close>

text \<open>
  \<open>accepted\<close> are the events a sink has taken, \<open>durable\<close> those its commits have settled. A successful
  write appends one event, a failed one leaves at most that event and makes the sink refuse
  every later one; a successful commit settles whatever was accepted.
\<close>

locale event_sink =
  fixes put :: "'e \<Rightarrow> 's \<Rightarrow> bool \<times> 's" and commit :: "'s \<Rightarrow> bool \<times> 's"
    and accepted :: "'s \<Rightarrow> 'e list" and durable :: "'s \<Rightarrow> 'e list" and failed :: "'s \<Rightarrow> bool"
  assumes put_accepts: "put e s = (True, s') \<Longrightarrow> accepted s' = accepted s @ [e]"
    and put_refuses: "put e s = (False, s') \<Longrightarrow> failed s' \<and> prefix (accepted s) (accepted s') \<and> prefix (accepted s') (accepted s @ [e])"
    and failed_refuses: "failed s \<Longrightarrow> put e s = (False, s)"
    and put_durable: "put e s = (b, s') \<Longrightarrow> prefix (durable s) (durable s')"
    and commit_accepts: "commit s = (b, s') \<Longrightarrow> accepted s' = accepted s"
    and commit_durable: "commit s = (True, s') \<Longrightarrow> durable s' = accepted s'"
    and commit_grows: "commit s = (b, s') \<Longrightarrow> prefix (durable s) (durable s')"
    and failed_commit: "failed s \<Longrightarrow> fst (commit s) = False"
begin

lemma put_grows: "put e s = (b, s') \<Longrightarrow> prefix (accepted s) (accepted s')"
  using put_accepts put_refuses by (cases b) (auto simp: prefix_def)

lemma put_ok_not_failed: "put e s = (True, s') \<Longrightarrow> \<not> failed s"
  using failed_refuses by fastforce

end

section \<open>State of the NDJSON sink\<close>

text \<open>
  A managed output file: the events on it that are synced, those only written, and whether an
  interrupted write may have left an incomplete line at its end.
\<close>

record managedFile =
  mfSynced :: "canonicalEvent list"
  mfUnsynced :: "canonicalEvent list"
  mfTorn :: bool

text \<open>What \<open>openManagedFile\<close> meets: each call, the size of the file and its last byte, if readable.\<close>

record managedOpen =
  moOpen :: bool
  moLock :: bool
  moStat :: bool
  moSize :: nat
  moLastByte :: "char option"

datatype pathState = PathSame | PathMissing | PathSymlink | PathOther | PathFailed

text \<open>
  What became of the write of one line: all of it was written, none of it, a part of it, or all
  of it although the write reported an error.
\<close>

datatype encodeOutcome = LineWritten | NothingWritten | LineTorn | LineWrittenFailing

text \<open>The outcomes of the system calls of one operation.\<close>

record sinkCalls =
  siStat :: bool
  siLstat :: pathState
  siOpen :: managedOpen
  siSyncOld :: bool
  siCloseOld :: bool
  siEncode :: encodeOutcome
  siSync :: bool

definition cleanOpen :: managedOpen where
  "cleanOpen = \<lparr>moOpen = True, moLock = True, moStat = True, moSize = 0, moLastByte = None\<rparr>"

definition cleanCalls :: sinkCalls where
  "cleanCalls = \<lparr>siStat = True, siLstat = PathSame, siOpen = cleanOpen, siSyncOld = True, siCloseOld = True,
     siEncode = LineWritten, siSync = True\<rparr>"

text \<open>
  \<open>type NDJSONSink struct\<close>. \<open>snFile\<close> is None for a caller-owned writer, whose events are
  \<open>snWritten\<close>; \<open>snRotated\<close> are the files it has been moved away from; \<open>snCalls\<close> is the script.
\<close>

record ndjsonSink =
  snFile :: "managedFile option"
  snWritten :: "canonicalEvent list"
  snRotated :: "managedFile list"
  snPath :: string
  snSync :: bool
  snFailed :: bool
  snCalls :: "sinkCalls list"

definition newFile :: managedFile where
  "newFile = \<lparr>mfSynced = [], mfUnsynced = [], mfTorn = False\<rparr>"

definition NewWriterSink :: "sinkCalls list \<Rightarrow> ndjsonSink" where
  "NewWriterSink calls = \<lparr>snFile = None, snWritten = [], snRotated = [], snPath = [], snSync = False,
     snFailed = False, snCalls = calls\<rparr>"

section \<open>Operations\<close>

text \<open>\<open>openManagedFile\<close>: the file must be lockable and end with a complete line.\<close>

definition openManagedFile :: "managedOpen \<Rightarrow> bool" where
  "openManagedFile m \<longleftrightarrow>
     moOpen m \<and> moLock m \<and> moStat m \<and> (moSize m \<noteq> 0 \<longrightarrow> moLastByte m = Some CHR 0x0A)"

definition OpenFileSink :: "managedOpen \<Rightarrow> string \<Rightarrow> bool \<Rightarrow> sinkCalls list \<Rightarrow> ndjsonSink option" where
  "OpenFileSink m path syncEachWrite calls =
     (if openManagedFile m
      then Some ((NewWriterSink calls)\<lparr>snFile := Some newFile, snPath := path, snSync := syncEachWrite\<rparr>)
      else None)"

definition syncFile :: "managedFile \<Rightarrow> managedFile" where
  "syncFile f = f\<lparr>mfSynced := mfSynced f @ mfUnsynced f, mfUnsynced := []\<rparr>"

text \<open>\<open>reopenIfRotated\<close>; True is a nil error.\<close>

definition reopenIfRotated :: "sinkCalls \<Rightarrow> ndjsonSink \<Rightarrow> bool \<times> ndjsonSink" where
  "reopenIfRotated c s =
     (case snFile s of
        None \<Rightarrow> (True, s)
      | Some f \<Rightarrow>
          if snPath s = [] then (True, s)
          else if \<not> siStat c then (False, s)
          else (case siLstat c of
                  PathSymlink \<Rightarrow> (False, s)
                | PathSame \<Rightarrow> (True, s)
                | PathFailed \<Rightarrow> (False, s)
                | _ \<Rightarrow>
                    if \<not> openManagedFile (siOpen c) then (False, s)
                    else if \<not> siSyncOld c then (False, s)
                    else (siCloseOld c, s\<lparr>snRotated := snRotated s @ [syncFile f], snFile := Some newFile\<rparr>)))"

text \<open>The encoder's write of one line, to the current file or to the caller's writer.\<close>

definition appendEvent :: "canonicalEvent \<Rightarrow> ndjsonSink \<Rightarrow> ndjsonSink" where
  "appendEvent e s =
     (case snFile s of
        None \<Rightarrow> s\<lparr>snWritten := snWritten s @ [e]\<rparr>
      | Some f \<Rightarrow> s\<lparr>snFile := Some (f\<lparr>mfUnsynced := mfUnsynced f @ [e]\<rparr>)\<rparr>)"

definition encodeEvent :: "sinkCalls \<Rightarrow> canonicalEvent \<Rightarrow> ndjsonSink \<Rightarrow> bool \<times> ndjsonSink" where
  "encodeEvent c e s =
     (case siEncode c of
        LineWritten \<Rightarrow> (True, appendEvent e s)
      | LineWrittenFailing \<Rightarrow> (False, appendEvent e s)
      | NothingWritten \<Rightarrow> (False, s)
      | LineTorn \<Rightarrow> (False, s\<lparr>snFile := map_option (\<lambda>f. f\<lparr>mfTorn := True\<rparr>) (snFile s)\<rparr>))"

definition syncCurrent :: "sinkCalls \<Rightarrow> ndjsonSink \<Rightarrow> bool \<times> ndjsonSink" where
  "syncCurrent c s = (if siSync c then (True, s\<lparr>snFile := map_option syncFile (snFile s)\<rparr>) else (False, s))"

text \<open>The next outcomes of the script.\<close>

definition nextCalls :: "ndjsonSink \<Rightarrow> sinkCalls \<times> ndjsonSink" where
  "nextCalls s = (case snCalls s of [] \<Rightarrow> (cleanCalls, s) | c # cs \<Rightarrow> (c, s\<lparr>snCalls := cs\<rparr>))"

text \<open>\<open>Write\<close>: the first error is kept and returned by every later write.\<close>

definition tryWrite :: "sinkCalls \<Rightarrow> canonicalEvent \<Rightarrow> ndjsonSink \<Rightarrow> bool \<times> ndjsonSink" where
  "tryWrite c e s =
     (case reopenIfRotated c s of
        (False, s1) \<Rightarrow> (False, s1)
      | (True, s1) \<Rightarrow>
          (case encodeEvent c e s1 of
             (False, s2) \<Rightarrow> (False, s2)
           | (True, s2) \<Rightarrow> if snSync s2 \<and> snFile s2 \<noteq> None then syncCurrent c s2 else (True, s2)))"

definition Write :: "canonicalEvent \<Rightarrow> ndjsonSink \<Rightarrow> bool \<times> ndjsonSink" where
  "Write e s0 =
     (if snFailed s0 then (False, s0)
      else case nextCalls s0 of
        (c, s) \<Rightarrow>
          (case tryWrite c e s of
             (False, s') \<Rightarrow> (False, s'\<lparr>snFailed := True\<rparr>)
           | (True, s') \<Rightarrow> (True, s')))"

definition Commit :: "ndjsonSink \<Rightarrow> bool \<times> ndjsonSink" where
  "Commit s0 =
     (if snFailed s0 then (False, s0)
      else case nextCalls s0 of
        (c, s) \<Rightarrow>
          (case reopenIfRotated c s of
             (False, s1) \<Rightarrow> (False, s1)
           | (True, s1) \<Rightarrow> if snFile s1 = None then (True, s1) else syncCurrent c s1))"

text \<open>\<open>Close\<close>: the closed file is no longer current.\<close>

definition Close :: "ndjsonSink \<Rightarrow> bool \<times> ndjsonSink" where
  "Close s0 =
     (case snFile s0 of
        None \<Rightarrow> (True, s0)
      | Some f \<Rightarrow>
          (case nextCalls s0 of
             (c, s) \<Rightarrow>
               (let g = (if snSync s \<and> siSync c then syncFile f else f)
                in ((snSync s \<longrightarrow> siSync c) \<and> siCloseOld c, s\<lparr>snFile := None, snRotated := snRotated s @ [g]\<rparr>))))"

section \<open>The NDJSON sink is an event sink\<close>

definition fileEvents :: "managedFile \<Rightarrow> canonicalEvent list" where
  "fileEvents f = mfSynced f @ mfUnsynced f"

definition sinkAccepted :: "ndjsonSink \<Rightarrow> canonicalEvent list" where
  "sinkAccepted s = concat (map fileEvents (snRotated s)) @
     (case snFile s of None \<Rightarrow> snWritten s | Some f \<Rightarrow> fileEvents f)"

text \<open>
  The events that are sure to survive: of a managed file those that were synced, current or not. A
  caller-owned writer has no stronger operation than the write.
\<close>

definition sinkDurable :: "ndjsonSink \<Rightarrow> canonicalEvent list" where
  "sinkDurable s = concat (map mfSynced (snRotated s)) @
     (case snFile s of None \<Rightarrow> snWritten s | Some f \<Rightarrow> mfSynced f)"

text \<open>
  \<open>Commit\<close> syncs the current file only. What it has settled is therefore everything on the files
  moved away from and what is synced of the current one; that this is durable is an invariant of
  the sink, \<open>sinkSettled\<close>: no file is moved away from before it is synced.
\<close>

definition sinkCommitted :: "ndjsonSink \<Rightarrow> canonicalEvent list" where
  "sinkCommitted s = concat (map fileEvents (snRotated s)) @
     (case snFile s of None \<Rightarrow> snWritten s | Some f \<Rightarrow> mfSynced f)"

definition sinkSettled :: "ndjsonSink \<Rightarrow> bool" where
  "sinkSettled s \<longleftrightarrow> list_all (\<lambda>f. mfUnsynced f = []) (snRotated s)"

lemma settled_durable: "sinkSettled s \<Longrightarrow> sinkDurable s = sinkCommitted s"
proof -
  assume "sinkSettled s"
  then have "map mfSynced (snRotated s) = map fileEvents (snRotated s)"
    by (auto simp: sinkSettled_def fileEvents_def list_all_iff)
  then have "concat (map mfSynced (snRotated s)) = concat (map fileEvents (snRotated s))" by metis
  then show ?thesis by (simp add: sinkDurable_def sinkCommitted_def)
qed

lemma opened_settled:
  "sinkSettled (NewWriterSink calls)" "OpenFileSink m path sync calls = Some s \<Longrightarrow> sinkSettled s"
  by (auto simp: sinkSettled_def OpenFileSink_def NewWriterSink_def split: if_splits)

lemma fileEvents_sync [simp]: "fileEvents (syncFile f) = fileEvents f"
  by (simp add: fileEvents_def syncFile_def)

lemma nextCalls_frame:
  "nextCalls s = (c, s') \<Longrightarrow> sinkAccepted s' = sinkAccepted s \<and> sinkCommitted s' = sinkCommitted s \<and>
     snFailed s' = snFailed s"
  by (cases "snFile s") (auto simp: nextCalls_def sinkAccepted_def sinkCommitted_def split: list.splits)

lemma reopenIfRotated_frame:
  assumes "reopenIfRotated c s = (b, s')"
  shows "sinkAccepted s' = sinkAccepted s" and "prefix (sinkCommitted s) (sinkCommitted s')"
    and "snFailed s' = snFailed s"
  using assms
  by (auto simp: reopenIfRotated_def sinkAccepted_def sinkCommitted_def newFile_def fileEvents_def syncFile_def
      split: option.splits if_splits pathState.splits)

lemma appendEvent_frame:
  "sinkAccepted (appendEvent e s) = sinkAccepted s @ [e]" "prefix (sinkCommitted s) (sinkCommitted (appendEvent e s))"
  "snFailed (appendEvent e s) = snFailed s"
  by (auto simp: appendEvent_def sinkAccepted_def sinkCommitted_def fileEvents_def split: option.splits)

lemma encodeEvent_frame:
  assumes "encodeEvent c e s = (b, s')"
  shows "prefix (sinkAccepted s) (sinkAccepted s')" and "prefix (sinkAccepted s') (sinkAccepted s @ [e])"
    and "b \<Longrightarrow> sinkAccepted s' = sinkAccepted s @ [e]" and "prefix (sinkCommitted s) (sinkCommitted s')"
    and "snFailed s' = snFailed s"
  using assms appendEvent_frame [where e = e and s = s]
  by (auto simp: encodeEvent_def sinkAccepted_def sinkCommitted_def fileEvents_def split: option.splits encodeOutcome.splits)

lemma syncCurrent_frame:
  assumes "syncCurrent c s = (b, s')"
  shows "sinkAccepted s' = sinkAccepted s" and "prefix (sinkCommitted s) (sinkCommitted s')"
    and "b \<Longrightarrow> sinkCommitted s' = sinkAccepted s'" and "snFailed s' = snFailed s"
  using assms
  by (auto simp: syncCurrent_def sinkAccepted_def sinkCommitted_def fileEvents_def syncFile_def
      split: option.splits if_splits)

lemma tryWrite_frame:
  assumes "tryWrite c e s = (b, s')"
  shows "prefix (sinkAccepted s) (sinkAccepted s')" and "prefix (sinkAccepted s') (sinkAccepted s @ [e])"
    and "b \<Longrightarrow> sinkAccepted s' = sinkAccepted s @ [e]" and "prefix (sinkCommitted s) (sinkCommitted s')"
proof -
  obtain b1 s1 where r: "reopenIfRotated c s = (b1, s1)" by (cases "reopenIfRotated c s")
  obtain b2 s2 where w: "encodeEvent c e s1 = (b2, s2)" by (cases "encodeEvent c e s1")
  obtain b3 s3 where y: "syncCurrent c s2 = (b3, s3)" by (cases "syncCurrent c s2")
  note fr = reopenIfRotated_frame [OF r] encodeEvent_frame [OF w] syncCurrent_frame [OF y]
  have d: "prefix (sinkCommitted s) (sinkCommitted s2)" "prefix (sinkCommitted s) (sinkCommitted s3)"
    using fr by (meson prefix_order.trans)+
  consider "\<not> b1" "s' = s1" "\<not> b" | "b1" "\<not> b2" "s' = s2" "\<not> b" | "b1" "b2" "s' = s3" "b = b3"
    | "b1" "b2" "s' = s2" "b"
    using assms r w y by (auto simp: tryWrite_def split: bool.splits if_splits)
  then have "prefix (sinkAccepted s) (sinkAccepted s') \<and> prefix (sinkAccepted s') (sinkAccepted s @ [e]) \<and>
      (b \<longrightarrow> sinkAccepted s' = sinkAccepted s @ [e]) \<and> prefix (sinkCommitted s) (sinkCommitted s')"
    using fr d by cases auto
  then show "prefix (sinkAccepted s) (sinkAccepted s')" and "prefix (sinkAccepted s') (sinkAccepted s @ [e])"
    and "b \<Longrightarrow> sinkAccepted s' = sinkAccepted s @ [e]" and "prefix (sinkCommitted s) (sinkCommitted s')"
    by blast+
qed

lemma set_failed_frame [simp]:
  "sinkAccepted (s\<lparr>snFailed := b\<rparr>) = sinkAccepted s" "sinkCommitted (s\<lparr>snFailed := b\<rparr>) = sinkCommitted s"
  by (simp_all add: sinkAccepted_def sinkCommitted_def split: option.split)

text \<open>Both operations keep the files moved away from synced, and only add to what is durable.\<close>

definition durably :: "ndjsonSink \<Rightarrow> ndjsonSink \<Rightarrow> bool" where
  "durably s s' \<longleftrightarrow> (sinkSettled s \<longrightarrow> sinkSettled s') \<and> prefix (sinkDurable s) (sinkDurable s')"

lemma durably_refl [simp]: "durably s s"
  by (simp add: durably_def)

lemma durably_trans: "durably s t \<Longrightarrow> durably t u \<Longrightarrow> durably s u"
  by (auto simp: durably_def elim: prefix_order.trans)

lemma durably_failed [simp]: "durably s (t\<lparr>snFailed := b\<rparr>) = durably s t"
  by (simp add: durably_def sinkSettled_def sinkDurable_def split: option.split)

lemma reopen_durably: "reopenIfRotated c s = (b, s') \<Longrightarrow> durably s s'"
  by (auto simp: reopenIfRotated_def durably_def sinkSettled_def sinkDurable_def syncFile_def newFile_def
      split: option.splits if_splits pathState.splits)

lemma encode_durably: "encodeEvent c e s = (b, s') \<Longrightarrow> durably s s'"
  by (auto simp: encodeEvent_def appendEvent_def durably_def sinkSettled_def sinkDurable_def
      split: option.splits encodeOutcome.splits)

lemma sync_durably: "syncCurrent c s = (b, s') \<Longrightarrow> durably s s'"
  by (auto simp: syncCurrent_def durably_def sinkSettled_def sinkDurable_def syncFile_def split: option.splits if_splits)

lemma calls_durably: "nextCalls s = (c, s') \<Longrightarrow> durably s s'"
  by (cases "snFile s") (auto simp: nextCalls_def durably_def sinkSettled_def sinkDurable_def split: list.splits)

lemma tryWrite_durably: "tryWrite c e s = (b, s') \<Longrightarrow> durably s s'"
  by (auto simp: tryWrite_def split: prod.splits bool.splits if_splits
      dest!: reopen_durably encode_durably sync_durably intro: durably_trans)

lemma Write_durably:
  assumes "Write e s = (b, s')"
  shows "durably s s'"
proof -
  obtain c s1 where n: "nextCalls s = (c, s1)" by (cases "nextCalls s")
  obtain b2 s2 where t: "tryWrite c e s1 = (b2, s2)" by (cases "tryWrite c e s1")
  from durably_trans [OF calls_durably [OF n] tryWrite_durably [OF t]] assms n t show ?thesis
    by (auto simp: Write_def split: if_splits bool.splits)
qed

lemma Commit_durably:
  assumes "Commit s = (b, s')"
  shows "durably s s'"
proof -
  obtain c s1 where n: "nextCalls s = (c, s1)" by (cases "nextCalls s")
  obtain b2 s2 where r: "reopenIfRotated c s1 = (b2, s2)" by (cases "reopenIfRotated c s1")
  obtain b3 s3 where y: "syncCurrent c s2 = (b3, s3)" by (cases "syncCurrent c s2")
  note two = durably_trans [OF calls_durably [OF n] reopen_durably [OF r]]
  from two durably_trans [OF two sync_durably [OF y]] assms n r y show ?thesis
    by (auto simp: Commit_def split: if_splits bool.splits)
qed

lemma Close_durably:
  assumes "Close s = (b, s')" and "snSync s" and b
  shows "durably s s'"
  using assms calls_durably
  by (auto simp: Close_def Let_def durably_def sinkSettled_def sinkDurable_def syncFile_def nextCalls_def
      split: option.splits list.splits if_splits)

interpretation ndjson: event_sink Write Commit sinkAccepted sinkCommitted snFailed
proof
  fix e s s' b
  show "snFailed s \<Longrightarrow> Write e s = (False, s)" by (simp add: Write_def)
  obtain c s1 where n: "nextCalls s = (c, s1)" by (cases "nextCalls s")
  obtain b2 s2 where t: "tryWrite c e s1 = (b2, s2)" by (cases "tryWrite c e s1")
  note frame = nextCalls_frame [OF n] tryWrite_frame [OF t]
  have cases: "Write e s = (if snFailed s then (False, s) else if b2 then (True, s2) else (False, s2\<lparr>snFailed := True\<rparr>))"
    using n t by (simp add: Write_def split: bool.split)
  show "Write e s = (True, s') \<Longrightarrow> sinkAccepted s' = sinkAccepted s @ [e]"
    using cases frame by (auto split: if_splits)
  show "Write e s = (False, s') \<Longrightarrow>
      snFailed s' \<and> prefix (sinkAccepted s) (sinkAccepted s') \<and> prefix (sinkAccepted s') (sinkAccepted s @ [e])"
    using cases frame by (auto split: if_splits)
  show "Write e s = (b, s') \<Longrightarrow> prefix (sinkCommitted s) (sinkCommitted s')"
    using cases frame by (auto split: if_splits)
next
  fix s s' b
  obtain c s1 where n: "nextCalls s = (c, s1)" by (cases "nextCalls s")
  obtain b2 s2 where r: "reopenIfRotated c s1 = (b2, s2)" by (cases "reopenIfRotated c s1")
  obtain b3 s3 where y: "syncCurrent c s2 = (b3, s3)" by (cases "syncCurrent c s2")
  note frame = nextCalls_frame [OF n] reopenIfRotated_frame [OF r] syncCurrent_frame [OF y]
  have none: "snFile s2 = None \<Longrightarrow> sinkCommitted s2 = sinkAccepted s2"
    by (simp add: sinkCommitted_def sinkAccepted_def)
  have d: "prefix (sinkCommitted s) (sinkCommitted s3)" using frame by (metis prefix_order.trans)
  have cases: "Commit s = (if snFailed s then (False, s) else if \<not> b2 then (False, s2)
      else if snFile s2 = None then (True, s2) else (b3, s3))"
    using n r y by (simp add: Commit_def split: bool.split)
  show "Commit s = (b, s') \<Longrightarrow> sinkAccepted s' = sinkAccepted s"
    using cases frame by (auto split: if_splits)
  show "Commit s = (True, s') \<Longrightarrow> sinkCommitted s' = sinkAccepted s'"
    using cases frame none by (auto split: if_splits)
  show "Commit s = (b, s') \<Longrightarrow> prefix (sinkCommitted s) (sinkCommitted s')"
    using cases frame d by (auto split: if_splits)
  show "snFailed s \<Longrightarrow> fst (Commit s) = False" by (simp add: Commit_def)
qed

end
