(* ===== verification/Render.thy ===== *)
theory Render
  imports Classification
begin

text \<open>
  The optional human-readable message (internal/audit/render.go and the attribution text of
  login.go): a deterministic sentence built from fields of the canonical event only. The
  strings.Builder calls are concatenations in their order; the two tables of wordings are data.
\<close>

section \<open>Wordings\<close>

record actionWording =
  awSuccess :: string
  awFailure :: string
  awUnknown :: string

text \<open>\<open>securityActionWording\<close>.\<close>

definition securityActionWording :: "(string \<times> actionWording) list" where
  "securityActionWording =
     [
      (''authenticate'', actionWording.make ''authenticated'' ''failed to authenticate'' ''attempted to authenticate''),
      (''check_account'', actionWording.make ''validated'' ''failed to validate'' ''attempted to validate''),
      (''login'', actionWording.make ''logged in'' ''failed to log in'' ''attempted to log in''),
      (''logout'', actionWording.make ''logged out'' ''failed to log out'' ''attempted to log out''),
      (''start_session'', actionWording.make ''started a session'' ''failed to start a session'' ''attempted to start a session''),
      (''end_session'', actionWording.make ''ended a session'' ''failed to end a session'' ''attempted to end a session''),
      (''acquire_credentials'', actionWording.make ''acquired credentials'' ''failed to acquire credentials'' ''attempted to acquire credentials''),
      (''dispose_credentials'', actionWording.make ''disposed of credentials'' ''failed to dispose of credentials'' ''attempted to dispose of credentials''),
      (''refresh_credentials'', actionWording.make ''refreshed credentials'' ''failed to refresh credentials'' ''attempted to refresh credentials''),
      (''change_credentials'', actionWording.make ''changed credentials'' ''failed to change credentials'' ''attempted to change credentials''),
      (''change_group_credentials'', actionWording.make ''changed group credentials'' ''failed to change group credentials'' ''attempted to change group credentials''),
      (''modify_user'', actionWording.make ''modified a user'' ''failed to modify a user'' ''attempted to modify a user''),
      (''modify_group'', actionWording.make ''modified a group'' ''failed to modify a group'' ''attempted to modify a group''),
      (''create_user'', actionWording.make ''created a user'' ''failed to create a user'' ''attempted to create a user''),
      (''delete_user'', actionWording.make ''deleted a user'' ''failed to delete a user'' ''attempted to delete a user''),
      (''create_group'', actionWording.make ''created a group'' ''failed to create a group'' ''attempted to create a group''),
      (''delete_group'', actionWording.make ''deleted a group'' ''failed to delete a group'' ''attempted to delete a group''),
      (''lock_account'', actionWording.make ''locked an account'' ''failed to lock an account'' ''attempted to lock an account''),
      (''unlock_account'', actionWording.make ''unlocked an account'' ''failed to unlock an account'' ''attempted to unlock an account''),
      (''authentication_error'', actionWording.make ''reported an authentication error'' ''reported an authentication error'' ''reported an authentication error''),
      (''boot'', actionWording.make ''booted the system'' ''failed to boot the system'' ''attempted to boot the system''),
      (''shutdown'', actionWording.make ''shut down the system'' ''failed to shut down the system'' ''attempted to shut down the system''),
      (''change_runlevel'', actionWording.make ''changed the system runlevel'' ''failed to change the system runlevel'' ''attempted to change the system runlevel''),
      (''start_service'', actionWording.make ''started a service'' ''failed to start a service'' ''attempted to start a service''),
      (''stop_service'', actionWording.make ''stopped a service'' ''failed to stop a service'' ''attempted to stop a service''),
      (''update_software'', actionWording.make ''updated software'' ''failed to update software'' ''attempted to update software''),
      (''start_audit_daemon'', actionWording.make ''started the audit daemon'' ''failed to start the audit daemon'' ''attempted to start the audit daemon''),
      (''stop_audit_daemon'', actionWording.make ''stopped the audit daemon'' ''failed to stop the audit daemon'' ''attempted to stop the audit daemon''),
      (''abort_audit_daemon'', actionWording.make ''aborted the audit daemon'' ''the audit daemon aborted'' ''the audit daemon was aborted''),
      (''audit_daemon_error'', actionWording.make ''reported an audit daemon error'' ''reported an audit daemon error'' ''reported an audit daemon error''),
      (''configure_audit_daemon'', actionWording.make ''configured the audit daemon'' ''failed to configure the audit daemon'' ''attempted to configure the audit daemon''),
      (''rotate_audit_log'', actionWording.make ''rotated the audit log'' ''failed to rotate the audit log'' ''attempted to rotate the audit log''),
      (''resume_audit_logging'', actionWording.make ''resumed audit logging'' ''failed to resume audit logging'' ''attempted to resume audit logging''),
      (''change_audit_feature'', actionWording.make ''changed an audit feature'' ''failed to change an audit feature'' ''attempted to change an audit feature''),
      (''policy_error'', actionWording.make ''reported an access-control policy error'' ''reported an access-control policy error'' ''reported an access-control policy error''),
      (''terminate_by_policy'', actionWording.make ''was terminated by access-control policy'' ''could not be terminated by access-control policy'' ''was selected for termination by access-control policy''),
      (''change_policy_status'', actionWording.make ''changed access-control policy status'' ''failed to change access-control policy status'' ''attempted to change access-control policy status''),
      (''load_mac_policy'', actionWording.make ''loaded mandatory access-control policy'' ''failed to load mandatory access-control policy'' ''attempted to load mandatory access-control policy''),
      (''block_syscall'', actionWording.make ''blocked a system call'' ''failed to block a system call'' ''attempted to block a system call''),
      (''bpf_operation'', actionWording.make ''performed a BPF operation'' ''failed to perform a BPF operation'' ''attempted a BPF operation''),
      (''change_capabilities'', actionWording.make ''changed process capabilities'' ''failed to change process capabilities'' ''attempted to change process capabilities''),
      (''apply_file_capabilities'', actionWording.make ''applied file capabilities'' ''failed to apply file capabilities'' ''attempted to apply file capabilities''),
      (''kernel_module_operation'', actionWording.make ''performed a kernel module operation'' ''failed to perform a kernel module operation'' ''attempted a kernel module operation''),
      (''detect_anomaly'', actionWording.make ''reported a security anomaly'' ''reported a security anomaly'' ''reported a security anomaly''),
      (''check_integrity'', actionWording.make ''reported an integrity event'' ''reported an integrity failure'' ''reported an integrity event'')]"

text \<open>The actions of the switch that end in \<open>renderMappedAction\<close>, with its constant arguments.\<close>

definition mappedActions :: "(string \<times> actionWording \<times> string \<times> bool) list" where
  "mappedActions =
     [
      (''change_privilege_scope'', (actionWording.make ''changed sudo privilege scope'' ''failed to change sudo privilege scope'' ''attempted to change sudo privilege scope'', ''at'', False)),
      (''write_sudo_log'', (actionWording.make ''modified the sudo log'' ''failed to modify the sudo log'' ''attempted to modify the sudo log'', ''at'', True)),
      (''change_time'', (actionWording.make ''changed system time'' ''failed to change system time'' ''attempted to change system time'', ''at'', True)),
      (''change_network_configuration'', (actionWording.make ''changed network configuration'' ''failed to change network configuration'' ''attempted to change network configuration'', ''at'', True)),
      (''access'', (actionWording.make ''accessed a file'' ''failed to access a file'' ''attempted to access a file'', ''at'', True)),
      (''change_identity_configuration'', (actionWording.make ''changed user or group configuration'' ''failed to change user or group configuration'' ''attempted to change user or group configuration'', ''at'', True)),
      (''change_permissions'', (actionWording.make ''changed file permissions or ownership'' ''failed to change file permissions or ownership'' ''attempted to change file permissions or ownership'', ''on'', True)),
      (''mount_filesystem'', (actionWording.make ''mounted a filesystem'' ''failed to mount a filesystem'' ''attempted to mount a filesystem'', ''at'', True)),
      (''update_session_record'', (actionWording.make ''updated session records'' ''failed to update session records'' ''attempted to update session records'', ''at'', False)),
      (''update_login_record'', (actionWording.make ''updated login records'' ''failed to update login records'' ''attempted to update login records'', ''at'', False)),
      (''delete'', (actionWording.make ''deleted a file'' ''failed to delete a file'' ''attempted to delete a file'', ''at'', False)),
      (''change_mac_policy'', (actionWording.make ''changed mandatory access control policy'' ''failed to change mandatory access control policy'' ''attempted to change mandatory access control policy'', ''at'', False)),
      (''load_kernel_module'', (actionWording.make ''loaded a kernel module'' ''failed to load a kernel module'' ''attempted to load a kernel module'', ''from'', True)),
      (''unload_kernel_module'', (actionWording.make ''unloaded a kernel module'' ''failed to unload a kernel module'' ''attempted to unload a kernel module'', ''from'', True)),
      (''query_kernel_module'', (actionWording.make ''queried kernel modules'' ''failed to query kernel modules'' ''attempted to query kernel modules'', ''at'', True)),
      (''change_audit_configuration'', (actionWording.make ''changed audit configuration'' ''failed to change audit configuration'' ''attempted to change audit configuration'', ''at'', False))]"

definition HumanRendererVersion :: string where
  "HumanRendererVersion = ''5''"

text \<open>The wording for what is known of the result.\<close>

definition wordingFor :: "canonicalEvent \<Rightarrow> actionWording \<Rightarrow> string" where
  "wordingFor e w =
     (case mtSuccess (evMeta e) of
        None \<Rightarrow> awUnknown w | Some True \<Rightarrow> awSuccess w | Some False \<Rightarrow> awFailure w)"

section \<open>Parts of a sentence\<close>

definition renderedIdentity :: "string \<Rightarrow> string \<Rightarrow> string" where
  "renderedIdentity name ident =
     (if name \<noteq> [] then name else if ident \<noteq> [] then ''user ID '' @ ident else ''an unknown user'')"

definition renderedActor :: "canonicalEvent \<Rightarrow> string" where
  "renderedActor e =
     (case evActor e of Some a \<Rightarrow> renderedIdentity (acUser a) (acUserID a) | None \<Rightarrow> ''A process'')"

text \<open>\<open>strings.ContainsAny\<close> with the bytes that make an argument ambiguous.\<close>

definition ambiguousBytes :: "char list" where
  "ambiguousBytes = [CHR 0x20, CHR 0x09, CHR 0x0D, CHR 0x0A, CHR 0x22, CHR 0x5C]"

definition renderedArgument :: "(nat \<Rightarrow> bool) \<Rightarrow> string \<Rightarrow> string" where
  "renderedArgument pr argument =
     (if argument = [] \<or> (\<exists>c \<in> set argument. c \<in> set ambiguousBytes) then goQuote pr argument else argument)"

text \<open>\<open>strings.Join\<close>.\<close>

fun joinWith :: "string \<Rightarrow> string list \<Rightarrow> string" where
  "joinWith sep [] = []"
| "joinWith sep [s] = s"
| "joinWith sep (s # t # ss) = s @ sep @ joinWith sep (t # ss)"

fun targetNames :: "string list \<Rightarrow> canonicalPath list \<Rightarrow> string list" where
  "targetNames seen [] = []"
| "targetNames seen (p # ps) =
     (if paName p = [] \<or> equalFold (paNameType p) ''PARENT'' \<or> paName p \<in> set seen then targetNames seen ps
      else paName p # targetNames (paName p # seen) ps)"

definition renderedTargets :: "(nat \<Rightarrow> bool) \<Rightarrow> canonicalPath list \<Rightarrow> string" where
  "renderedTargets pr paths = joinWith '', '' (map (renderedArgument pr) (targetNames [] paths))"

text \<open>\<open>path.Base\<close>.\<close>

definition goPathBase :: "string \<Rightarrow> string" where
  "goPathBase p =
     (if p = [] then ''.''
      else let trimmed = rev (dropWhile (\<lambda>c. c = CHR ''/'') (rev p));
               name = rev (takeWhile (\<lambda>c. c \<noteq> CHR ''/'') (rev trimmed))
           in if name = [] then ''/'' else name)"

definition sameExecutable :: "string \<Rightarrow> string \<Rightarrow> bool" where
  "sameExecutable argument executable \<longleftrightarrow> argument = executable \<or> goPathBase executable = argument"

text \<open>\<open>appendRenderedTarget\<close> and \<open>appendRenderedOrigin\<close>: what they append.\<close>

definition appendRenderedTarget :: "(nat \<Rightarrow> bool) \<Rightarrow> canonicalEvent \<Rightarrow> string" where
  "appendRenderedTarget pr e =
     (case evTarget e of
        None \<Rightarrow> (let targets = renderedTargets pr (evPaths e) in if targets \<noteq> [] then '' on '' @ targets else [])
      | Some t \<Rightarrow>
          (if tgUser t \<noteq> [] \<or> tgUserID t \<noteq> [] then '' for account '' @ renderedIdentity (tgUser t) (tgUserID t) else []) @
          (if tgService t \<noteq> [] then '' '' @ renderedArgument pr (tgService t) else []) @
          (if tgName t \<noteq> [] then '' on '' @ renderedArgument pr (tgName t) else []))"

definition appendRenderedOrigin :: "(nat \<Rightarrow> bool) \<Rightarrow> canonicalEvent \<Rightarrow> string" where
  "appendRenderedOrigin pr e =
     (case evOrigin e of
        None \<Rightarrow> []
      | Some r \<Rightarrow>
          (let remote = (if orAddress r = [] then orHost r else orAddress r)
           in (if remote \<noteq> [] then '' from '' @ renderedArgument pr remote else []) @
              (if orTerminal r \<noteq> [] then '' via '' @ renderedArgument pr (orTerminal r) else [])))"

section \<open>Sentences\<close>

definition renderMappedAction ::
    "(nat \<Rightarrow> bool) \<Rightarrow> canonicalEvent \<Rightarrow> actionWording \<Rightarrow> string \<Rightarrow> bool \<Rightarrow> string" where
  "renderMappedAction pr e w pathPreposition includeSyscall =
     renderedActor e @ '' '' @ wordingFor e w @
     (let targets = renderedTargets pr (evPaths e)
      in if targets \<noteq> [] then '' '' @ pathPreposition @ '' '' @ targets else []) @
     (case evProcess e of
        Some p \<Rightarrow> if includeSyscall \<and> prSyscall p \<noteq> [] then '' using '' @ prSyscall p else []
      | None \<Rightarrow> [])"

definition renderSecurityFamilyMessage :: "(nat \<Rightarrow> bool) \<Rightarrow> canonicalEvent \<Rightarrow> actionWording \<Rightarrow> string" where
  "renderSecurityFamilyMessage pr e w =
     renderedActor e @ '' '' @ wordingFor e w @ appendRenderedTarget pr e @ appendRenderedOrigin pr e @
     (if mtOriginalAction (evMeta e) \<noteq> [] \<and> mtCategory (evMeta e) \<in> {''authentication'', ''identity''}
      then '' during '' @ renderedArgument pr (mtOriginalAction (evMeta e)) else [])"

definition accessDecision :: "canonicalSecurity option \<Rightarrow> string" where
  "accessDecision security =
     (case security of
        None \<Rightarrow> ''triggered an access-control decision''
      | Some s \<Rightarrow>
          if toLower (csDecision s) \<in> {''denied'', ''deny''} then
            (if csPermissive s = Some True
             then ''triggered a policy denial that was not enforced in permissive mode''
             else ''was denied access by mandatory access-control policy'')
          else if toLower (csDecision s) \<in> {''allowed'', ''allow'', ''granted''}
            then ''was allowed access by mandatory access-control policy''
          else ''triggered an access-control decision'')"

definition renderAccessControlMessage :: "(nat \<Rightarrow> bool) \<Rightarrow> canonicalEvent \<Rightarrow> string" where
  "renderAccessControlMessage pr e =
     renderedActor e @ '' '' @ accessDecision (evSecurity e) @
     (case evSecurity e of
        Some s \<Rightarrow> if csPermissions s \<noteq> [] then '' for '' @ joinWith '', '' (csPermissions s) else []
      | None \<Rightarrow> []) @
     appendRenderedTarget pr e"

text \<open>The executable a message names, and the arguments after a repeated program name.\<close>

definition renderedExecutable :: "canonicalProcess \<Rightarrow> string" where
  "renderedExecutable p =
     (let executable = (if prExecutable p = [] \<and> prArgv p \<noteq> [] then hd (prArgv p) else prExecutable p)
      in if executable = [] then prName p else executable)"

definition renderedArguments :: "canonicalProcess \<Rightarrow> string list" where
  "renderedArguments p =
     (case prArgv p of
        [] \<Rightarrow> []
      | a # as \<Rightarrow> if sameExecutable a (renderedExecutable p) then as else a # as)"

definition executionWording :: actionWording where
  "executionWording = actionWording.make '' executed '' '' failed to execute '' '' attempted to execute ''"

definition renderProcessMessage :: "(nat \<Rightarrow> bool) \<Rightarrow> canonicalEvent \<Rightarrow> string option" where
  "renderProcessMessage pr e =
     (case evProcess e of
        None \<Rightarrow> None
      | Some p \<Rightarrow>
          if prSyscall p \<noteq> ''execve'' \<and> prSyscall p \<noteq> ''execveat'' \<and> prArgvSource p \<noteq> ''execve'' \<and>
             mtAction (evMeta e) \<noteq> ''execute'' then None
          else if renderedExecutable p = [] then None
          else Some
            (renderedActor e @ wordingFor e executionWording @ renderedExecutable p @
             (if prUser p \<noteq> [] \<or> prUserID p \<noteq> [] then '' as '' @ renderedIdentity (prUser p) (prUserID p) else []) @
             (if renderedArguments p \<noteq> []
              then '' with arguments: '' @ joinWith '' '' (map (renderedArgument pr) (renderedArguments p)) else [])))"

text \<open>
  \<open>strings.ToUpper\<close> compared with DELETE and CREATE: no rune outside ASCII has one of their
  letters as its upper case.
\<close>

definition upperByte :: "char \<Rightarrow> char" where
  "upperByte c = (if 97 \<le> byte c \<and> byte c \<le> 122 then char_of (byte c - 32) else c)"

definition firstNamed :: "string \<Rightarrow> canonicalPath list \<Rightarrow> string" where
  "firstNamed nametype paths = firstNonempty (map paName (filter (\<lambda>p. map upperByte (paNameType p) = nametype) paths))"

definition renameWording :: actionWording where
  "renameWording = actionWording.make ''renamed a file'' ''failed to rename a file'' ''attempted to rename a file''"

definition renderRenameMessage :: "(nat \<Rightarrow> bool) \<Rightarrow> canonicalEvent \<Rightarrow> string" where
  "renderRenameMessage pr e =
     (let source = firstNamed ''DELETE'' (evPaths e);
          destination = firstNamed ''CREATE'' (evPaths e);
          targets = renderedTargets pr (evPaths e)
      in renderedActor e @ '' '' @ wordingFor e renameWording @
         (if source \<noteq> [] \<and> destination \<noteq> []
          then '' from '' @ renderedArgument pr source @ '' to '' @ renderedArgument pr destination
          else if targets \<noteq> [] then '' at '' @ targets else []))"

text \<open>\<open>renderAuditAttribution\<close> of login.go.\<close>

definition attributionPart :: "(nat \<Rightarrow> bool) \<Rightarrow> canonicalAuditAttributionIdentity option \<Rightarrow> string" where
  "attributionPart pr ident =
     (case ident of
        None \<Rightarrow> ''loginuid unknown, session unknown''
      | Some i \<Rightarrow>
          (let uid = (if aiLoginUIDUnset i then ''unset'' else if aiLoginUID i \<noteq> [] then aiLoginUID i else ''unknown'');
               login = (if aiUser i \<noteq> [] then goQuote pr (aiUser i) @ '' ('' @ uid @ '')'' else uid);
               session = (if aiSessionUnset i then ''unset''
                          else if aiSessionID i \<noteq> [] then aiSessionID i else ''unknown'')
           in ''loginuid '' @ login @ '', session '' @ session))"

definition attributionWording :: actionWording where
  "attributionWording =
     actionWording.make '' changed Audit attribution'' '' failed to change Audit attribution''
       '' attempted to change Audit attribution''"

definition renderAuditAttribution :: "(nat \<Rightarrow> bool) \<Rightarrow> canonicalEvent \<Rightarrow> string" where
  "renderAuditAttribution pr e =
     (let subject = (case evProcess e of
                       Some p \<Rightarrow> if prPID p \<noteq> [] then ''Process '' @ prPID p else ''A process''
                     | None \<Rightarrow> ''A process'');
          message = subject @ wordingFor e attributionWording
      in case Option.bind (evProcess e) prAuditAttribution of
           None \<Rightarrow> message
         | Some t \<Rightarrow> message @ '' from ['' @ attributionPart pr (aaOld t) @ ''] to ['' @ attributionPart pr (aaNew t) @ '']'')"

definition renderUserCommand :: "(nat \<Rightarrow> bool) \<Rightarrow> canonicalEvent \<Rightarrow> string" where
  "renderUserCommand pr e =
     renderedActor e @ '' generated a USER_CMD record'' @
     (case evProcess e of
        Some p \<Rightarrow> if prCommand p \<noteq> [] then '' for '' @ goQuote pr (prCommand p) else []
      | None \<Rightarrow> []) @
     (case mtSuccess (evMeta e) of
        None \<Rightarrow> []
      | Some s \<Rightarrow> if s then '' (USER_CMD operation succeeded)'' else '' (USER_CMD operation failed)'')"

definition renderSeccomp :: "canonicalEvent \<Rightarrow> string" where
  "renderSeccomp e =
     renderedActor e @ '' triggered seccomp filtering'' @
     (case Option.bind (evSecurity e) csSeccomp of
        Some s \<Rightarrow> if scAction s \<noteq> ''unknown'' then '' with action '' @ scAction s else []
      | None \<Rightarrow> []) @
     (case evProcess e of
        Some p \<Rightarrow>
          (let name = (if prSyscall p = [] then prSyscallNumber p else prSyscall p)
           in if name \<noteq> [] then '' for syscall '' @ name else [])
      | None \<Rightarrow> [])"

text \<open>The wording of an observed activity names its category.\<close>

definition observationWording :: "string \<Rightarrow> actionWording" where
  "observationWording category =
     actionWording.make (''generated '' @ category @ '' activity'') (''generated failed '' @ category @ '' activity'')
       (''generated '' @ category @ '' activity'')"

section \<open>The message\<close>

text \<open>\<open>renderCanonicalMessage\<close>; None stands for a false second result.\<close>

definition renderCanonicalMessage :: "(nat \<Rightarrow> bool) \<Rightarrow> canonicalEvent \<Rightarrow> string option" where
  "renderCanonicalMessage pr e =
     (let type = mtType (evMeta e); action = mtAction (evMeta e)
      in if type = ''LOGIN'' then Some (renderAuditAttribution pr e)
         else if type = ''USER_CMD'' then Some (renderUserCommand pr e)
         else if type = ''SECCOMP'' then Some (renderSeccomp e)
         else if hasPrefix action ''observe_''
           then Some (renderMappedAction pr e (observationWording (mtCategory (evMeta e))) ''at'' True)
         else if action = ''execute'' then renderProcessMessage pr e
         else case map_of mappedActions action of
           Some (w, pathPreposition, includeSyscall) \<Rightarrow> Some (renderMappedAction pr e w pathPreposition includeSyscall)
         | None \<Rightarrow>
             if action = ''rename'' then Some (renderRenameMessage pr e)
             else if action = ''enforce_access_control'' then Some (renderAccessControlMessage pr e)
             else case map_of securityActionWording action of
               Some w \<Rightarrow> Some (renderSecurityFamilyMessage pr e w)
             | None \<Rightarrow> renderProcessMessage pr e)"

text \<open>\<open>WithHumanMessage\<close>.\<close>

definition WithHumanMessage :: "(nat \<Rightarrow> bool) \<Rightarrow> canonicalEvent \<Rightarrow> canonicalEvent" where
  "WithHumanMessage pr e =
     (case renderCanonicalMessage pr e of
        None \<Rightarrow> e
      | Some message \<Rightarrow> e\<lparr>evMessage := message, evRenderer := HumanRendererVersion\<rparr>)"

end
