(* ===== verification/Processor.thy ===== *)
theory Processor
  imports Diagnostics Sink Isolation Classification Render
begin

text \<open>
  The event processor (cmd/ag-audit/main.go, line_limit.go): it parses a physical line, feeds the
  assembler, turns the events it gives back into canonical events and writes them to the sink.
  \<open>put\<close> and \<open>commit\<close> are the operations of the sink, \<open>lo\<close> is \<open>strings.ToLower\<close> and \<open>pr\<close>
  \<open>strconv.IsPrint\<close>. Clock readings are arguments, in the order the code takes them.
\<close>

section \<open>State\<close>

text \<open>\<open>type eventProcessor struct\<close>; \<open>epHost\<close> is \<open>CanonicalOptions.Host\<close>.\<close>

record 's eventProcessor =
  epAssembler :: assembler
  epSink :: 's
  epHost :: string
  epRenderMessage :: bool
  epDiagnostics :: operationalDiagnostics
  epReplayWindow :: bool

definition tally :: "(operationCounters \<Rightarrow> operationCounters) \<Rightarrow> 's eventProcessor action" where
  "tally f = update (\<lambda>p. p\<lparr>epDiagnostics := count f (epDiagnostics p)\<rparr>)"

definition report :: "diagnostic \<Rightarrow> 's eventProcessor action" where
  "report entry p = (case logEntry entry (epDiagnostics p) of (e, d) \<Rightarrow> (e, p\<lparr>epDiagnostics := d\<rparr>))"

section \<open>Writing events\<close>

definition emitCanonical ::
  "(canonicalEvent \<Rightarrow> 's \<Rightarrow> bool \<times> 's) \<Rightarrow> canonicalEvent \<Rightarrow> 's eventProcessor action" where
  "emitCanonical put event p =
     (case put event (epSink p) of
        (False, s) \<Rightarrow> (Some WriteFailed, p\<lparr>epSink := s\<rparr>)
      | (True, s) \<Rightarrow>
          tally (\<lambda>c. c\<lparr>ocEmittedEvents := ocEmittedEvents c + 1,
              ocReplayCandidates := ocReplayCandidates c + (if epReplayWindow p then 1 else 0)\<rparr>)
            (p\<lparr>epSink := s\<rparr>))"

text \<open>The body of the loop of \<open>emit\<close>: one event of the assembler.\<close>

definition emitEvent ::
  "(canonicalEvent \<Rightarrow> 's \<Rightarrow> bool \<times> 's) \<Rightarrow> (string \<Rightarrow> string) \<Rightarrow> (nat \<Rightarrow> bool)
     \<Rightarrow> assembledEvent \<Rightarrow> 's eventProcessor action" where
  "emitEvent put lo pr event p =
     (if aeExceptional event
      then forEach (\<lambda>r. emitCanonical put (BuildAssemblyException r (epHost p))) (aeRecords event) p
      else let output = BuildCanonicalEvent lo event (epHost p)
           in emitCanonical put (if epRenderMessage p then WithHumanMessage pr output else output) p)"

definition emit ::
  "(canonicalEvent \<Rightarrow> 's \<Rightarrow> bool \<times> 's) \<Rightarrow> (string \<Rightarrow> string) \<Rightarrow> (nat \<Rightarrow> bool)
     \<Rightarrow> assembledEvent list \<Rightarrow> 's eventProcessor action" where
  "emit put lo pr events = forEach (emitEvent put lo pr) events"

text \<open>\<open>processor.emit(processor.assembler.FlushExpired(time.Now()))\<close>.\<close>

definition emitExpired ::
  "(canonicalEvent \<Rightarrow> 's \<Rightarrow> bool \<times> 's) \<Rightarrow> (string \<Rightarrow> string) \<Rightarrow> (nat \<Rightarrow> bool)
     \<Rightarrow> gotime \<Rightarrow> 's eventProcessor action" where
  "emitExpired put lo pr now p =
     (case FlushExpired now (epAssembler p) of
        (a, events) \<Rightarrow> emit put lo pr events (p\<lparr>epAssembler := a\<rparr>))"

definition flushAll ::
  "(canonicalEvent \<Rightarrow> 's \<Rightarrow> bool \<times> 's) \<Rightarrow> (string \<Rightarrow> string) \<Rightarrow> (nat \<Rightarrow> bool)
     \<Rightarrow> completion \<Rightarrow> 's eventProcessor action" where
  "flushAll put lo pr completion p =
     (case FlushAllWith completion (epAssembler p) of
        (a, events) \<Rightarrow> emit put lo pr events (p\<lparr>epAssembler := a\<rparr>))"

section \<open>Lines\<close>

text \<open>The name of a limit in the diagnostic; a name that is not in the table gives none.\<close>

definition limitName :: "string \<Rightarrow> string" where
  "limitName limit =
     (case map_of [(''records per event'', ''max_records_per_event''),
                   (''pending events'', ''max_pending_events''),
                   (''pending bytes'', ''max_pending_bytes'')] limit of
        None \<Rightarrow> [] | Some n \<Rightarrow> n)"

definition sourcedRecord :: "sourcePosition \<Rightarrow> auditRecord \<Rightarrow> auditRecord" where
  "sourcedRecord source r =
     (if \<not> spValid source then r
      else r\<lparr>rSource := source,
             rSourceBytes := (if 0 < spBytes source then spBytes source else spEnd source - spStart source)\<rparr>)"

text \<open>The branch of a line that parses.\<close>

definition addRecord ::
  "(canonicalEvent \<Rightarrow> 's \<Rightarrow> bool \<times> 's) \<Rightarrow> (string \<Rightarrow> string) \<Rightarrow> (nat \<Rightarrow> bool)
     \<Rightarrow> gotime \<Rightarrow> sourcePosition \<Rightarrow> auditRecord \<Rightarrow> 's eventProcessor action" where
  "addRecord put lo pr now source r p0 =
     (case AddRecovering r now (epAssembler p0) of
        (a, events, limit) \<Rightarrow>
          let p = p0\<lparr>epAssembler := a\<rparr>
          in (case limit of
                None \<Rightarrow> emit put lo pr events p
              | Some l \<Rightarrow>
                  andThen (tally (\<lambda>c. c\<lparr>ocAssemblerLimits := ocAssemblerLimits c + 1\<rparr>))
                    (andThen (report (AssemblerLimitExceeded l (limitName (leLimit l)) source (RejectionTracking a)))
                      (emit put lo pr events)) p))"

text \<open>The branch of a line that does not: pending evidence still expires before it.\<close>

definition addMalformed ::
  "(canonicalEvent \<Rightarrow> 's \<Rightarrow> bool \<times> 's) \<Rightarrow> (string \<Rightarrow> string) \<Rightarrow> (nat \<Rightarrow> bool)
     \<Rightarrow> gotime \<Rightarrow> string \<Rightarrow> parseError \<Rightarrow> 's eventProcessor action" where
  "addMalformed put lo pr now line err =
     andThen (emitExpired put lo pr now)
       (andThen (tally (\<lambda>c. c\<lparr>ocParseFailures := ocParseFailures c + 1\<rparr>))
         (andThen (report (ParseFailureSeen (parseErrorText pr err)))
           (\<lambda>p. emitCanonical put (BuildParseFailureEvent line (parseErrorText pr err) (epHost p)) p)))"

definition addSourceLine ::
  "(canonicalEvent \<Rightarrow> 's \<Rightarrow> bool \<times> 's) \<Rightarrow> (string \<Rightarrow> string) \<Rightarrow> (nat \<Rightarrow> bool)
     \<Rightarrow> gotime \<Rightarrow> string \<Rightarrow> sourcePosition \<Rightarrow> 's eventProcessor action" where
  "addSourceLine put lo pr now line source =
     (let lineBytes = (if spValid source \<and> 0 < spBytes source then spBytes source else int (length line) + 1)
      in andThen (tally (\<lambda>c. c\<lparr>ocInputLines := ocInputLines c + 1,
                              ocInputBytes := ocInputBytes c + word_of_int lineBytes\<rparr>))
           (case ParseRecord pr line of
              Inl err \<Rightarrow> addMalformed put lo pr now line err
            | Inr r \<Rightarrow> addRecord put lo pr now source (sourcedRecord source r)))"

definition addLine ::
  "(canonicalEvent \<Rightarrow> 's \<Rightarrow> bool \<times> 's) \<Rightarrow> (string \<Rightarrow> string) \<Rightarrow> (nat \<Rightarrow> bool)
     \<Rightarrow> gotime \<Rightarrow> string \<Rightarrow> 's eventProcessor action" where
  "addLine put lo pr now line = addSourceLine put lo pr now line noPosition"

section \<open>Lines over the limit\<close>

definition lineLimitText :: "int \<Rightarrow> string" where
  "lineLimitText omitted =
     ''physical line exceeds byte limit; retained prefix only; omitted_bytes='' @ itoa omitted"

definition lineException :: "string \<Rightarrow> int \<Rightarrow> string \<Rightarrow> canonicalEvent" where
  "lineException pre omitted host =
     (let e = BuildParseFailureEvent pre (lineLimitText omitted) host;
          issues = (case mtIssues (evMeta e) of [] \<Rightarrow> [] | i # is \<Rightarrow> i\<lparr>ciCode := ''physical_line_limit''\<rparr> # is)
      in e\<lparr>evMeta := (evMeta e)\<lparr>mtType := ''LINE_EXCEPTION'', mtAction := ''line_limit'', mtIssues := issues,
             mtIntegrity := Some \<lparr>inState = ''incomplete'', inReason = CompletionLineLimit\<rparr>\<rparr>\<rparr>)"

definition rejectPending ::
  "(canonicalEvent \<Rightarrow> 's \<Rightarrow> bool \<times> 's) \<Rightarrow> (string \<Rightarrow> string) \<Rightarrow> (nat \<Rightarrow> bool)
     \<Rightarrow> gotime \<Rightarrow> string \<Rightarrow> sourcePosition \<Rightarrow> 's eventProcessor action" where
  "rejectPending put lo pr now pre source p =
     (case RejectPhysicalLine pr pre source now (epAssembler p) of
        (a, events) \<Rightarrow> emit put lo pr events (p\<lparr>epAssembler := a\<rparr>))"

definition rejectLine ::
  "(canonicalEvent \<Rightarrow> 's \<Rightarrow> bool \<times> 's) \<Rightarrow> (string \<Rightarrow> string) \<Rightarrow> (nat \<Rightarrow> bool)
     \<Rightarrow> gotime \<Rightarrow> gotime \<Rightarrow> string \<Rightarrow> int \<Rightarrow> sourcePosition \<Rightarrow> 's eventProcessor action" where
  "rejectLine put lo pr now later pre totalBytes source =
     (let omitted = totalBytes - int (length pre)
      in andThen (emitExpired put lo pr now)
           (andThen (tally (\<lambda>c. c\<lparr>ocInputLines := ocInputLines c + 1,
                                 ocInputBytes := ocInputBytes c + word_of_int totalBytes,
                                 ocLineLimits := ocLineLimits c + 1\<rparr>))
             (andThen (report (LineLimitExceeded totalBytes (length pre) omitted source))
               (andThen (rejectPending put lo pr later pre source)
                 (\<lambda>p. emitCanonical put (lineException pre omitted (epHost p)) p)))))"

end
