(* ===== verification/CheckpointWriter.thy ===== *)
theory CheckpointWriter
  imports Processor PositionOrder
begin

text \<open>
  The durable progress of the command (cmd/ag-audit/main.go): the checkpoint writer, which commits
  the sink before it saves a position, and the loading of the configured checkpoint.
\<close>

section \<open>Positions\<close>

text \<open>\<open>sourcePosition\<close>: a position of the collector as one of the assembler.\<close>

definition auditPosition :: "generationPosition \<Rightarrow> sourcePosition" where
  "auditPosition p =
     \<lparr>spAnchor = gpAnchor p, spDevice = fiDevice (gpIdentity p), spInode = fiInode (gpIdentity p),
      spGeneration = gpGeneration p, spStart = gpOffset p, spEnd = gpOffset p, spBytes = 0, spValid = True\<rparr>"

text \<open>\<open>sourcePositionBefore\<close> of main.go compares ends, that of the assembler starts.\<close>

definition checkpointBefore :: "sourcePosition \<Rightarrow> sourcePosition \<Rightarrow> bool" where
  "checkpointBefore l r \<longleftrightarrow>
     (if spGeneration l \<noteq> spGeneration r then spGeneration l < spGeneration r else spEnd l < spEnd r)"

definition sameSourcePosition :: "sourcePosition \<Rightarrow> sourcePosition \<Rightarrow> bool" where
  "sameSourcePosition l r \<longleftrightarrow> spDevice l = spDevice r \<and> spInode l = spInode r \<and> spEnd l = spEnd r"

interpretation endOrder: position_order checkpointBefore "\<lambda>p. True"
  by unfold_locales (auto simp: checkpointBefore_def split: if_splits)

section \<open>The writer\<close>

text \<open>\<open>type checkpointWriter struct\<close>; its sink is the processor's.\<close>

record checkpointWriter =
  cwPath :: string
  cwInputPath :: string
  cwInterval :: duration
  cwLast :: sourcePosition
  cwLastAttempt :: gotime
  cwInitialized :: bool

definition newCheckpointWriter ::
  "string \<Rightarrow> duration \<Rightarrow> string \<Rightarrow> sourcePosition \<Rightarrow> bool \<Rightarrow> gotime \<Rightarrow> checkpointWriter" where
  "newCheckpointWriter path interval inputPath position initialized now =
     \<lparr>cwPath = path, cwInputPath = inputPath, cwInterval = interval, cwLast = position,
      cwLastAttempt = now, cwInitialized = initialized\<rparr>"

text \<open>The clock readings and the calls of one \<open>persist\<close>.\<close>

record persistEnv =
  pvSince :: gotime
  pvAttempt :: gotime
  pvStamp :: gotime
  pvCalls :: saveCalls

definition checkpointAt :: "string \<Rightarrow> sourcePosition \<Rightarrow> checkpoint" where
  "checkpointAt inputPath position =
     \<lparr>cpVersion = 0, cpInputPath = inputPath, cpDevice = spDevice position, cpInode = spInode position,
      cpOffset = spEnd position, cpAnchor = spAnchor position, cpUpdatedAt = 0\<rparr>"

text \<open>What \<open>persist\<close> works on: the writer, the sink and the directory of the checkpoint file.\<close>

record 's persistState =
  psWriter :: checkpointWriter
  psSink :: 's
  psDirectory :: stateDirectory

definition persist ::
  "('s \<Rightarrow> bool \<times> 's) \<Rightarrow> (checkpoint \<Rightarrow> string) \<Rightarrow> persistEnv \<Rightarrow> sourcePosition \<Rightarrow> bool \<Rightarrow> 's persistState action" where
  "persist commit encode env position force s =
     (let w = psWriter s
      in if cwPath w = [] then (None, s)
         else if checkpointBefore position (cwLast w) then (Some PositionRegressed, s)
         else if cwInitialized w \<and> sameSourcePosition position (cwLast w) then (None, s)
         else if \<not> force \<and> timeSub (pvSince env) (cwLastAttempt w) < cwInterval w then (None, s)
         else let w1 = w\<lparr>cwLastAttempt := pvAttempt env\<rparr>
              in (case commit (psSink s) of
                    (False, sink) \<Rightarrow> (Some CommitFailed, s\<lparr>psWriter := w1, psSink := sink\<rparr>)
                  | (True, sink) \<Rightarrow>
                      (case SaveCheckpoint encode (pvCalls env) (pvStamp env)
                              (checkpointAt (cwInputPath w) position) (psDirectory s) of
                         (False, d) \<Rightarrow>
                           (Some CheckpointNotSaved, s\<lparr>psWriter := w1, psSink := sink, psDirectory := d\<rparr>)
                       | (True, d) \<Rightarrow>
                           (None, s\<lparr>psWriter := w1\<lparr>cwLast := position, cwInitialized := True\<rparr>,
                                    psSink := sink, psDirectory := d\<rparr>))))"

text \<open>\<open>loadConfiguredCheckpoint\<close>.\<close>

definition loadConfiguredCheckpoint ::
  "(string \<Rightarrow> checkpoint option) \<Rightarrow> string \<Rightarrow> string \<Rightarrow> stateFile \<Rightarrow> commandError + checkpoint option" where
  "loadConfiguredCheckpoint decode path inputPath file =
     (if path = [] then Inr None
      else case LoadCheckpoint decode file of
             Inl e \<Rightarrow> Inl (CheckpointNotLoaded e)
           | Inr None \<Rightarrow> Inr None
           | Inr (Some c) \<Rightarrow> if cpInputPath c \<noteq> inputPath then Inl CheckpointForOtherInput else Inr (Some c))"

section \<open>What persisting does\<close>

text \<open>The three ways out of \<open>persist\<close> that leave the checkpoint file alone, and the save.\<close>

lemma persist_cases [consumes 1, case_names idle regressed uncommitted saved]:
  assumes "persist commit encode env position force s = (e, s')"
  obtains (idle) "e = None" "s' = s"
  | (regressed) "e = Some PositionRegressed" "s' = s" "checkpointBefore position (cwLast (psWriter s))"
  | (uncommitted) sink where "commit (psSink s) = (False, sink)" "e = Some CommitFailed"
      "s' = s\<lparr>psWriter := (psWriter s)\<lparr>cwLastAttempt := pvAttempt env\<rparr>, psSink := sink\<rparr>"
  | (saved) sink ok d where "\<not> checkpointBefore position (cwLast (psWriter s))"
      "commit (psSink s) = (True, sink)"
      "SaveCheckpoint encode (pvCalls env) (pvStamp env) (checkpointAt (cwInputPath (psWriter s)) position)
         (psDirectory s) = (ok, d)"
      "e = (if ok then None else Some CheckpointNotSaved)" "psSink s' = sink" "psDirectory s' = d"
      "psWriter s' = (if ok then (psWriter s)\<lparr>cwLastAttempt := pvAttempt env, cwLast := position, cwInitialized := True\<rparr>
         else (psWriter s)\<lparr>cwLastAttempt := pvAttempt env\<rparr>)"
      "cwPath (psWriter s) \<noteq> []"
proof -
  let ?w = "psWriter s" and ?save = "SaveCheckpoint encode (pvCalls env) (pvStamp env)
      (checkpointAt (cwInputPath (psWriter s)) position) (psDirectory s)"
  note def = persist_def [of commit encode env position force s, unfolded Let_def assms]
  consider (a) "cwPath ?w = []" | (b) "cwPath ?w \<noteq> []" "checkpointBefore position (cwLast ?w)"
    | (c) "cwPath ?w \<noteq> []" "\<not> checkpointBefore position (cwLast ?w)"
        "cwInitialized ?w \<and> sameSourcePosition position (cwLast ?w) \<or>
         \<not> force \<and> timeSub (pvSince env) (cwLastAttempt ?w) < cwInterval ?w"
    | (writing) "cwPath ?w \<noteq> []" "\<not> checkpointBefore position (cwLast ?w)"
        "\<not> (cwInitialized ?w \<and> sameSourcePosition position (cwLast ?w))"
        "\<not> (\<not> force \<and> timeSub (pvSince env) (cwLastAttempt ?w) < cwInterval ?w)"
    by blast
  then show thesis
  proof cases
    case writing
    obtain committed sink where c: "commit (psSink s) = (committed, sink)" by (cases "commit (psSink s)")
    obtain ok d where v: "?save = (ok, d)" by (cases ?save)
    note out = def [unfolded if_not_P [OF writing(1)] if_not_P [OF writing(2)] if_not_P [OF writing(3)]
        if_not_P [OF writing(4)] c prod.case]
    show ?thesis
    proof (cases committed)
      case False
      with out c show ?thesis by (intro uncommitted [of sink]) simp_all
    next
      case True
      with out v writing(1,2) c show ?thesis by (intro saved [of sink ok d]) (cases ok; simp)+
    qed
  qed (use def in \<open>auto intro: idle regressed split: if_splits\<close>)
qed

end
