(* ===== verification/Paths.thy ===== *)
theory Paths
  imports GoStrings
begin

text \<open>
  The lexical path functions of package filepath on Unix that the program uses: \<open>Clean\<close>, \<open>Base\<close>,
  \<open>Dir\<close> and \<open>Abs\<close>. The working directory is an argument, absent when \<open>Getwd\<close> fails.
\<close>

abbreviation slashChar :: char where
  "slashChar \<equiv> CHR ''/''"

fun joinSlash :: "string list \<Rightarrow> string" where
  "joinSlash [] = []"
| "joinSlash [c] = c"
| "joinSlash (c # d # ds) = c @ slashChar # joinSlash (d # ds)"

text \<open>The components kept so far are in reverse order.\<close>

fun cleanComponents :: "bool \<Rightarrow> string list \<Rightarrow> string list \<Rightarrow> string list" where
  "cleanComponents rooted kept [] = rev kept"
| "cleanComponents rooted kept (c # cs) =
     (if c = [] \<or> c = ''.'' then cleanComponents rooted kept cs
      else if c = ''..'' then
        (case kept of
           [] \<Rightarrow> cleanComponents rooted (if rooted then [] else [''..'']) cs
         | k # ks \<Rightarrow> cleanComponents rooted (if k = ''..'' then ''..'' # kept else ks) cs)
      else cleanComponents rooted (c # kept) cs)"

definition isRooted :: "string \<Rightarrow> bool" where
  "isRooted path \<longleftrightarrow> path \<noteq> [] \<and> hd path = slashChar"

definition pathComponents :: "string \<Rightarrow> string list" where
  "pathComponents path = cleanComponents (isRooted path) [] (splitByte slashChar path)"

definition cleanPath :: "string \<Rightarrow> string" where
  "cleanPath path =
     (let cs = pathComponents path
      in if isRooted path then slashChar # joinSlash cs else if cs = [] then ''.'' else joinSlash cs)"

definition trimSlashes :: "string \<Rightarrow> string" where
  "trimSlashes path = rev (dropWhile (\<lambda>c. c = slashChar) (rev path))"

definition baseName :: "string \<Rightarrow> string" where
  "baseName path =
     (if path = [] then ''.''
      else if trimSlashes path = [] then ''/''
      else rev (takeWhile (\<lambda>c. c \<noteq> slashChar) (rev (trimSlashes path))))"

definition dirName :: "string \<Rightarrow> string" where
  "dirName path = cleanPath (rev (dropWhile (\<lambda>c. c \<noteq> slashChar) (rev path)))"

definition absPath :: "string option \<Rightarrow> string \<Rightarrow> string option" where
  "absPath cwd path =
     (if isRooted path then Some (cleanPath path)
      else map_option (\<lambda>wd. cleanPath (wd @ slashChar # path)) cwd)"

text \<open>\<open>CanonicalPath\<close> of checkpoint.go.\<close>

definition CanonicalPath :: "string option \<Rightarrow> string \<Rightarrow> string option" where
  "CanonicalPath cwd path = map_option cleanPath (absPath cwd path)"

section \<open>Clean paths\<close>

text \<open>A clean component names an entry of its directory.\<close>

definition plainComponent :: "string \<Rightarrow> bool" where
  "plainComponent c \<longleftrightarrow> c \<noteq> [] \<and> c \<noteq> ''.'' \<and> c \<noteq> ''..'' \<and> slashChar \<notin> set c"

lemma cleanComponents_plain:
  "list_all plainComponent kept \<Longrightarrow> \<forall>c \<in> set cs. slashChar \<notin> set c \<Longrightarrow>
     list_all plainComponent (cleanComponents True kept cs)"
  by (induction "True" kept cs rule: cleanComponents.induct) (auto simp: plainComponent_def split: list.splits)

lemma pathComponents_plain:
  assumes "isRooted path"
  shows "list_all plainComponent (pathComponents path)"
proof -
  have "\<forall>c \<in> set (splitByte slashChar path). slashChar \<notin> set c"
    using splitByte_parts [of _ slashChar path] by (auto simp: list_all_iff)
  with assms show ?thesis by (simp add: pathComponents_def cleanComponents_plain)
qed

lemma splitByte_joinSlash:
  "cs \<noteq> [] \<Longrightarrow> \<forall>c \<in> set cs. slashChar \<notin> set c \<Longrightarrow> splitByte slashChar (joinSlash cs) = cs"
proof (induction cs rule: joinSlash.induct)
  case (2 c)
  then show ?case by (simp add: splitByte_single)
next
  case (3 c d ds)
  then show ?case by (simp add: splitByte_sep)
qed simp

lemma cleanComponents_id:
  "list_all plainComponent cs \<Longrightarrow> cleanComponents rooted kept cs = rev kept @ cs"
  by (induction cs arbitrary: kept) (auto simp: plainComponent_def)

text \<open>Cleaning is idempotent on rooted paths, and an absolute path is clean.\<close>

lemma pathComponents_rooted:
  assumes "list_all plainComponent cs"
  shows "pathComponents (slashChar # joinSlash cs) = cs"
proof (cases "cs = []")
  case True
  then show ?thesis by (simp add: pathComponents_def isRooted_def)
next
  case False
  have "\<forall>c \<in> set cs. slashChar \<notin> set c" using assms by (auto simp: list_all_iff plainComponent_def)
  with False have "splitByte slashChar (slashChar # joinSlash cs) = [] # cs" by (simp add: splitByte_joinSlash)
  then show ?thesis using cleanComponents_id [OF assms, of True "[]"] by (simp add: pathComponents_def isRooted_def)
qed

lemma cleanPath_idem:
  assumes "isRooted path"
  shows "cleanPath (cleanPath path) = cleanPath path" and "isRooted (cleanPath path)"
    and "pathComponents (cleanPath path) = pathComponents path"
proof -
  have c: "cleanPath path = slashChar # joinSlash (pathComponents path)"
    using assms by (simp add: cleanPath_def Let_def)
  show r: "isRooted (cleanPath path)" by (simp add: c isRooted_def)
  show p: "pathComponents (cleanPath path) = pathComponents path"
    using pathComponents_rooted [OF pathComponents_plain [OF assms]] by (simp add: c)
  show "cleanPath (cleanPath path) = cleanPath path"
    using r p c by (metis cleanPath_def)
qed

end
