(* ===== verification/Options.thy ===== *)
theory Options
  imports Diagnostics Paths
begin

text \<open>
  The options of the command (cmd/ag-audit/main.go, config.go): the search for the configuration
  file, the file's settings, the command line over them, and the validation of the result. The
  flag syntax is that of package flag, written out; the syntax of integers and durations
  (strconv, time), the JSON decoder and what the file system answers are arguments.
\<close>

section \<open>Options\<close>

text \<open>\<open>type commandOptions struct\<close>.\<close>

record commandOptions =
  opInputPath :: string
  opSourceHost :: string
  opOutputPath :: string
  opLockPath :: string
  opCheckpointPath :: string
  opFollow :: bool
  opRenderMessage :: bool
  opSyncOutput :: bool
  opPollInterval :: duration
  opEventTimeout :: duration
  opMaxLineBytes :: int
  opMaxPendingEvents :: int
  opMaxRecordsPerEvent :: int
  opMaxPendingBytes :: int
  opCheckpointInterval :: duration
  opRotationDrain :: duration
  opHeartbeatInterval :: duration
  opConfigPath :: string
  opCheckConfig :: bool
  opShowVersion :: bool

definition millisecond :: duration where
  "millisecond = 1000000"

definition defaultOptions :: "string \<Rightarrow> commandOptions" where
  "defaultOptions configPath =
     \<lparr>opInputPath = [], opSourceHost = [], opOutputPath = [], opLockPath = [], opCheckpointPath = [],
      opFollow = False, opRenderMessage = False, opSyncOutput = False,
      opPollInterval = 200 * millisecond, opEventTimeout = 2 * second,
      opMaxLineBytes = 1024 * 1024, opMaxPendingEvents = 4096, opMaxRecordsPerEvent = 256,
      opMaxPendingBytes = 64 * 1024 * 1024, opCheckpointInterval = second,
      opRotationDrain = 500 * millisecond, opHeartbeatInterval = 10 * minute,
      opConfigPath = configPath, opCheckConfig = False, opShowVersion = False\<rparr>"

datatype optionError =
  HelpRequested
| BadFlagSyntax string
| UnknownFlag string
| FlagNeedsArgument string
| InvalidFlagValue string
| ConfigNeedsPath
| ConfigRepeated
| ConfigUnreadable
| ConfigVersion int
| BadConfigDuration string
| TooManyArguments
| CheckNeedsConfig
| FollowNeedsInput
| LockNeedsFollow
| CheckpointNeedsFollow
| SyncNeedsOutput
| IntervalNotPositive
| HeartbeatNegative
| LimitNotPositive
| SamePath string string

section \<open>The configuration file\<close>

text \<open>\<open>bootstrapConfigPath\<close>: \<open>path\<close> is what has been found so far.\<close>

fun prefixedPath :: "string \<Rightarrow> string option" where
  "prefixedPath argument =
     (if prefix ''--config='' argument then Some (drop 9 argument)
      else if prefix ''-config='' argument then Some (drop 8 argument)
      else None)"

fun bootstrapConfigPath :: "string \<Rightarrow> string list \<Rightarrow> optionError + string" where
  "bootstrapConfigPath path [] = Inr path"
| "bootstrapConfigPath path (argument # args) =
     (if argument = ''--'' then Inr path
      else if argument = ''--config'' \<or> argument = ''-config'' then
        (case args of
           [] \<Rightarrow> Inl ConfigNeedsPath
         | v # args' \<Rightarrow>
             if path \<noteq> [] then Inl ConfigRepeated
             else if v = [] then Inl ConfigNeedsPath
             else bootstrapConfigPath v args')
      else case prefixedPath argument of
             None \<Rightarrow> bootstrapConfigPath path args
           | Some v \<Rightarrow>
               if path \<noteq> [] then Inl ConfigRepeated
               else if v = [] then Inl ConfigNeedsPath
               else bootstrapConfigPath v args)"

text \<open>\<open>type fileConfig struct\<close>, its sections flattened.\<close>

record fileConfig =
  fcVersion :: int
  fcInputPath :: string
  fcInputFollow :: bool
  fcSourceHost :: string
  fcLockFile :: string
  fcSinkFile :: string
  fcSinkSync :: bool
  fcCheckpointFile :: string
  fcCheckpointInterval :: string
  fcPollInterval :: string
  fcEventTimeout :: string
  fcRotationDrainInterval :: string
  fcMaxLineBytes :: int
  fcMaxPendingEvents :: int
  fcMaxRecordsPerEvent :: int
  fcMaxPendingBytes :: int
  fcRenderMessage :: bool
  fcHeartbeatInterval :: string

definition configVersion :: int where
  "configVersion = 1"

text \<open>\<open>loadFileConfig\<close>: the file, if it can be opened safely, holds one strict JSON document.\<close>

definition loadFileConfig :: "(string \<Rightarrow> fileConfig option) \<Rightarrow> string option \<Rightarrow> optionError + fileConfig" where
  "loadFileConfig decode file =
     (case Option.bind file decode of
        None \<Rightarrow> Inl ConfigUnreadable
      | Some config \<Rightarrow>
          if fcVersion config \<noteq> configVersion then Inl (ConfigVersion (fcVersion config)) else Inr config)"

definition configuredDuration :: "(string \<Rightarrow> duration option) \<Rightarrow> string \<Rightarrow> duration \<Rightarrow> duration option" where
  "configuredDuration parseDuration v fallback = (if v = [] then Some fallback else parseDuration v)"

definition positiveInt :: "int \<Rightarrow> int \<Rightarrow> int" where
  "positiveInt v target = (if v \<noteq> 0 then v else target)"

text \<open>\<open>fileConfig.apply\<close>.\<close>

definition applyConfig ::
  "(string \<Rightarrow> duration option) \<Rightarrow> fileConfig \<Rightarrow> commandOptions \<Rightarrow> optionError + commandOptions" where
  "applyConfig parseDuration c o0 =
     (let op = o0\<lparr>opInputPath := fcInputPath c, opFollow := fcInputFollow c, opSourceHost := fcSourceHost c,
                 opLockPath := fcLockFile c, opOutputPath := fcSinkFile c, opSyncOutput := fcSinkSync c,
                 opCheckpointPath := fcCheckpointFile c, opRenderMessage := fcRenderMessage c\<rparr>
      in case configuredDuration parseDuration (fcCheckpointInterval c) (opCheckpointInterval op) of
           None \<Rightarrow> Inl (BadConfigDuration ''checkpoint.interval'')
         | Some checkpoint \<Rightarrow>
         (case configuredDuration parseDuration (fcPollInterval c) (opPollInterval op) of
            None \<Rightarrow> Inl (BadConfigDuration ''collection.poll_interval'')
          | Some poll \<Rightarrow>
          (case configuredDuration parseDuration (fcEventTimeout c) (opEventTimeout op) of
             None \<Rightarrow> Inl (BadConfigDuration ''collection.event_timeout'')
           | Some timeout \<Rightarrow>
           (case configuredDuration parseDuration (fcRotationDrainInterval c) (opRotationDrain op) of
              None \<Rightarrow> Inl (BadConfigDuration ''collection.rotation_drain_interval'')
            | Some drain \<Rightarrow>
            (case configuredDuration parseDuration (fcHeartbeatInterval c) (opHeartbeatInterval op) of
               None \<Rightarrow> Inl (BadConfigDuration ''operations.heartbeat_interval'')
             | Some beat \<Rightarrow>
                 Inr (op\<lparr>opCheckpointInterval := checkpoint, opPollInterval := poll, opEventTimeout := timeout,
                         opRotationDrain := drain, opHeartbeatInterval := beat,
                         opMaxLineBytes := positiveInt (fcMaxLineBytes c) (opMaxLineBytes op),
                         opMaxPendingEvents := positiveInt (fcMaxPendingEvents c) (opMaxPendingEvents op),
                         opMaxRecordsPerEvent := positiveInt (fcMaxRecordsPerEvent c) (opMaxRecordsPerEvent op),
                         opMaxPendingBytes := positiveInt (fcMaxPendingBytes c) (opMaxPendingBytes op)\<rparr>))))))"

section \<open>The command line\<close>

text \<open>How a flag takes its value, and the flags of \<open>parseOptions\<close>.\<close>

datatype flagKind =
  BoolFlag "bool \<Rightarrow> commandOptions \<Rightarrow> commandOptions"
| StringFlag "string \<Rightarrow> commandOptions \<Rightarrow> commandOptions"
| IntFlag "int \<Rightarrow> commandOptions \<Rightarrow> commandOptions"
| DurationFlag "duration \<Rightarrow> commandOptions \<Rightarrow> commandOptions"

definition flagTable :: "(string \<times> flagKind) list" where
  "flagTable =
     [(''config'', StringFlag (\<lambda>v op. op\<lparr>opConfigPath := v\<rparr>)),
      (''check-config'', BoolFlag (\<lambda>v op. op\<lparr>opCheckConfig := v\<rparr>)),
      (''version'', BoolFlag (\<lambda>v op. op\<lparr>opShowVersion := v\<rparr>)),
      (''source-host'', StringFlag (\<lambda>v op. op\<lparr>opSourceHost := v\<rparr>)),
      (''output-file'', StringFlag (\<lambda>v op. op\<lparr>opOutputPath := v\<rparr>)),
      (''lock-file'', StringFlag (\<lambda>v op. op\<lparr>opLockPath := v\<rparr>)),
      (''checkpoint-file'', StringFlag (\<lambda>v op. op\<lparr>opCheckpointPath := v\<rparr>)),
      (''follow'', BoolFlag (\<lambda>v op. op\<lparr>opFollow := v\<rparr>)),
      (''render-message'', BoolFlag (\<lambda>v op. op\<lparr>opRenderMessage := v\<rparr>)),
      (''sync-output'', BoolFlag (\<lambda>v op. op\<lparr>opSyncOutput := v\<rparr>)),
      (''poll-interval'', DurationFlag (\<lambda>v op. op\<lparr>opPollInterval := v\<rparr>)),
      (''event-timeout'', DurationFlag (\<lambda>v op. op\<lparr>opEventTimeout := v\<rparr>)),
      (''max-line-bytes'', IntFlag (\<lambda>v op. op\<lparr>opMaxLineBytes := v\<rparr>)),
      (''max-pending-events'', IntFlag (\<lambda>v op. op\<lparr>opMaxPendingEvents := v\<rparr>)),
      (''max-records-per-event'', IntFlag (\<lambda>v op. op\<lparr>opMaxRecordsPerEvent := v\<rparr>)),
      (''max-pending-bytes'', IntFlag (\<lambda>v op. op\<lparr>opMaxPendingBytes := v\<rparr>)),
      (''checkpoint-interval'', DurationFlag (\<lambda>v op. op\<lparr>opCheckpointInterval := v\<rparr>)),
      (''rotation-drain-interval'', DurationFlag (\<lambda>v op. op\<lparr>opRotationDrain := v\<rparr>)),
      (''heartbeat-interval'', DurationFlag (\<lambda>v op. op\<lparr>opHeartbeatInterval := v\<rparr>))]"

text \<open>\<open>strconv.ParseBool\<close>.\<close>

definition parseBool :: "string \<Rightarrow> bool option" where
  "parseBool s =
     (if s \<in> set [''1'', ''t'', ''T'', ''TRUE'', ''true'', ''True''] then Some True
      else if s \<in> set [''0'', ''f'', ''F'', ''FALSE'', ''false'', ''False''] then Some False
      else None)"

fun setFlag ::
  "(string \<Rightarrow> int option) \<Rightarrow> (string \<Rightarrow> duration option) \<Rightarrow> flagKind \<Rightarrow> string \<Rightarrow> commandOptions \<Rightarrow> commandOptions option" where
  "setFlag parseInt parseDuration (BoolFlag f) v op = map_option (\<lambda>b. f b op) (parseBool v)"
| "setFlag parseInt parseDuration (StringFlag f) v op = Some (f v op)"
| "setFlag parseInt parseDuration (IntFlag f) v op = map_option (\<lambda>i. f i op) (parseInt v)"
| "setFlag parseInt parseDuration (DurationFlag f) v op = map_option (\<lambda>d. f d op) (parseDuration v)"

fun isBoolFlag :: "flagKind \<Rightarrow> bool" where
  "isBoolFlag (BoolFlag f) = True"
| "isBoolFlag _ = False"

text \<open>A flag argument without its dashes is split at the first \<open>=\<close> after its first character.\<close>

definition splitFlag :: "string \<Rightarrow> string \<times> string option" where
  "splitFlag name =
     (let n = take 1 name @ takeWhile (\<lambda>c. c \<noteq> CHR ''='') (drop 1 name)
      in (n, if length n < length name then Some (drop (length n + 1) name) else None))"

text \<open>\<open>FlagSet.Parse\<close>: the options and the arguments that are no flags.\<close>

fun parseFlags ::
  "(string \<Rightarrow> int option) \<Rightarrow> (string \<Rightarrow> duration option) \<Rightarrow> string list \<Rightarrow> commandOptions
     \<Rightarrow> optionError + commandOptions \<times> string list" where
  "parseFlags parseInt parseDuration [] op = Inr (op, [])"
| "parseFlags parseInt parseDuration (s # args) op =
     (if length s < 2 \<or> hd s \<noteq> CHR ''-'' then Inr (op, s # args)
      else if s = ''--'' then Inr (op, args)
      else let body = drop (if s ! 1 = CHR ''-'' then 2 else 1) s
           in if body = [] \<or> hd body \<in> {CHR ''-'', CHR ''=''} then Inl (BadFlagSyntax s)
              else case splitFlag body of (name, v) \<Rightarrow>
                (case map_of flagTable name of
                   None \<Rightarrow> Inl (if name \<in> {''help'', ''h''} then HelpRequested else UnknownFlag name)
                 | Some kind \<Rightarrow>
                     (case (if isBoolFlag kind \<and> v = None then Some ''true'' else v) of
                        Some given \<Rightarrow>
                          (case setFlag parseInt parseDuration kind given op of
                             None \<Rightarrow> Inl (InvalidFlagValue name)
                           | Some op' \<Rightarrow> parseFlags parseInt parseDuration args op')
                      | None \<Rightarrow>
                          (case args of
                             [] \<Rightarrow> Inl (FlagNeedsArgument name)
                           | given # args' \<Rightarrow>
                               (case setFlag parseInt parseDuration kind given op of
                                  None \<Rightarrow> Inl (InvalidFlagValue name)
                                | Some op' \<Rightarrow> parseFlags parseInt parseDuration args' op')))))"

section \<open>Validation\<close>

text \<open>\<open>sameConfiguredPath\<close>: the same file, or else the same cleaned absolute path.\<close>

definition sameConfiguredPath ::
  "(string \<Rightarrow> fileIdentity option) \<Rightarrow> string option \<Rightarrow> string \<Rightarrow> string \<Rightarrow> bool" where
  "sameConfiguredPath stat cwd l r =
     (if stat l \<noteq> None \<and> stat l = stat r then True
      else case (absPath cwd l, absPath cwd r) of
             (Some l', Some r') \<Rightarrow> cleanPath l' = cleanPath r'
           | _ \<Rightarrow> cleanPath l = cleanPath r)"

text \<open>The checks of \<open>parseOptions\<close> after the flags, in their order; None is a nil error.\<close>

fun pathConflict :: "(string \<Rightarrow> string \<Rightarrow> bool) \<Rightarrow> (string \<times> string \<times> string \<times> string) list \<Rightarrow> optionError option" where
  "pathConflict same [] = None"
| "pathConflict same ((leftName, l, rightName, r) # conflicts) =
     (if l \<noteq> [] \<and> r \<noteq> [] \<and> same l r then Some (SamePath leftName rightName) else pathConflict same conflicts)"

definition validateOptions :: "(string \<Rightarrow> string \<Rightarrow> bool) \<Rightarrow> commandOptions \<Rightarrow> optionError option" where
  "validateOptions same op =
     (if opCheckConfig op \<and> opConfigPath op = [] then Some CheckNeedsConfig
      else if opFollow op \<and> opInputPath op = [] then Some FollowNeedsInput
      else if opLockPath op \<noteq> [] \<and> \<not> opFollow op then Some LockNeedsFollow
      else if opCheckpointPath op \<noteq> [] \<and> \<not> opFollow op then Some CheckpointNeedsFollow
      else if opSyncOutput op \<and> opOutputPath op = [] then Some SyncNeedsOutput
      else if opPollInterval op \<le> 0 \<or> opEventTimeout op \<le> 0 \<or> opCheckpointInterval op \<le> 0 \<or> opRotationDrain op \<le> 0
        then Some IntervalNotPositive
      else if opHeartbeatInterval op < 0 then Some HeartbeatNegative
      else if opMaxLineBytes op \<le> 0 \<or> opMaxPendingEvents op \<le> 0 \<or> opMaxRecordsPerEvent op \<le> 0 \<or> opMaxPendingBytes op \<le> 0
        then Some LimitNotPositive
      else if opInputPath op \<noteq> [] \<and> opOutputPath op \<noteq> [] \<and> same (opInputPath op) (opOutputPath op)
        then Some (SamePath ''input'' ''output'')
      else if opLockPath op \<noteq> [] \<and> same (opInputPath op) (opLockPath op) then Some (SamePath ''input'' ''lock'')
      else if opLockPath op \<noteq> [] \<and> opOutputPath op \<noteq> [] \<and> same (opOutputPath op) (opLockPath op)
        then Some (SamePath ''output'' ''lock'')
      else pathConflict same
        [(''input'', opInputPath op, ''checkpoint'', opCheckpointPath op),
         (''output'', opOutputPath op, ''checkpoint'', opCheckpointPath op),
         (''lock'', opLockPath op, ''checkpoint'', opCheckpointPath op)])"

section \<open>Parsing\<close>

text \<open>What the environment and the libraries supply.\<close>

record optionEnv =
  oeParseInt :: "string \<Rightarrow> int option"
  oeParseDuration :: "string \<Rightarrow> duration option"
  oeDecode :: "string \<Rightarrow> fileConfig option"
  oeRead :: "string \<Rightarrow> string option"
  oeStat :: "string \<Rightarrow> fileIdentity option"
  oeCwd :: "string option"

definition configuredOptions :: "optionEnv \<Rightarrow> string \<Rightarrow> optionError + commandOptions" where
  "configuredOptions env configPath =
     (if configPath = [] then Inr (defaultOptions configPath)
      else case loadFileConfig (oeDecode env) (oeRead env configPath) of
             Inl e \<Rightarrow> Inl e
           | Inr config \<Rightarrow> applyConfig (oeParseDuration env) config (defaultOptions configPath))"

definition parseOptions :: "optionEnv \<Rightarrow> string list \<Rightarrow> optionError + commandOptions" where
  "parseOptions env args =
     (case bootstrapConfigPath [] args of
        Inl e \<Rightarrow> Inl e
      | Inr configPath \<Rightarrow>
          (case configuredOptions env configPath of
             Inl e \<Rightarrow> Inl e
           | Inr configured \<Rightarrow>
               (case parseFlags (oeParseInt env) (oeParseDuration env) args
                       (configured\<lparr>opConfigPath := configPath, opCheckConfig := False, opShowVersion := False\<rparr>) of
                  Inl e \<Rightarrow> Inl e
                | Inr (op, rest) \<Rightarrow>
                    if 1 < length rest then Inl TooManyArguments
                    else let op' = (case rest of [] \<Rightarrow> op | a # as \<Rightarrow> op\<lparr>opInputPath := a\<rparr>)
                         in (case validateOptions (sameConfiguredPath (oeStat env) (oeCwd env)) op' of
                               Some e \<Rightarrow> Inl e
                             | None \<Rightarrow> Inr op'))))"

end
