(* ===== verification/GapRecovery.thy ===== *)
theory GapRecovery
  imports CheckpointWriter Options
begin

text \<open>
  Recovery over a gap of the source (cmd/ag-audit/gap_recovery.go, and the storage of the ledger in
  internal/collector/recovery.go): the loss is recorded in a ledger before anything else changes,
  then the pending evidence is flushed and committed, then the checkpoint is replaced, and only
  then the ledger entry is completed. What the command calls outside itself is collected in the
  record \<open>services\<close>; the outcomes of system calls are arguments.
\<close>

section \<open>Services\<close>

text \<open>
  The sink's operations, the standard library's character tables and hash, the working directory
  and \<open>os.Stat\<close>, and the JSON codecs of the two state documents.
\<close>

record 's services =
  svcPut :: "canonicalEvent \<Rightarrow> 's \<Rightarrow> bool \<times> 's"
  svcCommit :: "'s \<Rightarrow> bool \<times> 's"
  svcLower :: "string \<Rightarrow> string"
  svcPrint :: "nat \<Rightarrow> bool"
  svcHash :: "string \<Rightarrow> string"
  svcCwd :: "string option"
  svcStat :: "string \<Rightarrow> fileIdentity option"
  svcEncodeCheckpoint :: "checkpoint \<Rightarrow> string"
  svcDecodeCheckpoint :: "string \<Rightarrow> checkpoint option"
  svcMarshalLedger :: "gapLedger \<Rightarrow> string"
  svcEncodeLedger :: "gapLedger \<Rightarrow> string"
  svcDecodeLedger :: "string \<Rightarrow> gapLedger option"

section \<open>The ledger file\<close>

definition maxLedgerBytes :: int where
  "maxLedgerBytes = 64 * 1024"

datatype ledgerLoadError =
  LedgerUnsafe
| LedgerTooLarge
| LedgerMalformed
| LedgerRefused ledgerError

text \<open>\<open>LoadGapLedger\<close>; the decoder stands for one strict JSON document.\<close>

definition LoadGapLedger :: "(string \<Rightarrow> gapLedger option) \<Rightarrow> stateFile \<Rightarrow> ledgerLoadError + gapLedger option" where
  "LoadGapLedger decode file =
     (case file of
        Absent \<Rightarrow> Inr None
      | Unsafe \<Rightarrow> Inl LedgerUnsafe
      | Bytes content \<Rightarrow>
          if maxLedgerBytes < int (length content) then Inl LedgerTooLarge
          else case decode content of
                 None \<Rightarrow> Inl LedgerMalformed
               | Some l \<Rightarrow> (case ledgerValidate l of
                             Some e \<Rightarrow> Inl (LedgerRefused e)
                           | None \<Rightarrow> Inr (Some l)))"

text \<open>\<open>SaveGapLedger\<close>; True is a nil error.\<close>

definition SaveGapLedger ::
  "(gapLedger \<Rightarrow> string) \<Rightarrow> (gapLedger \<Rightarrow> string) \<Rightarrow> saveCalls \<Rightarrow> gapLedger \<Rightarrow> stateDirectory \<Rightarrow> bool \<times> stateDirectory" where
  "SaveGapLedger marshal encode calls l d =
     (if ledgerValidate l \<noteq> None then (False, d)
      else if maxLedgerBytes < int (length (marshal l)) + 1 then (False, d)
      else saveState encode calls l d)"

section \<open>The recovery manager\<close>

text \<open>\<open>type gapRecovery struct\<close>; its function fields are \<open>SaveGapLedger\<close> and \<open>SaveCheckpoint\<close>.\<close>

record gapRecovery =
  grPath :: string
  grInput :: string
  grCheckpointPath :: string
  grLedger :: "gapLedger option"

text \<open>The configured paths: checkpoint, lock and output.\<close>

record recoveryPaths =
  rpCheckpoint :: string
  rpLock :: string
  rpOutput :: string

definition sidecarPath :: "recoveryPaths \<Rightarrow> string \<Rightarrow> string" where
  "sidecarPath paths defaultLock =
     (if rpCheckpoint paths \<noteq> [] then rpCheckpoint paths
      else if rpLock paths \<noteq> [] then rpLock paths else defaultLock) @ ''.recovery''"

definition openGapRecovery ::
  "'s services \<Rightarrow> recoveryPaths \<Rightarrow> string \<Rightarrow> string \<Rightarrow> stateFile \<Rightarrow> operationalDiagnostics
     \<Rightarrow> (commandError + gapRecovery) \<times> operationalDiagnostics" where
  "openGapRecovery svc paths defaultLock input file d =
     (let path = sidecarPath paths defaultLock
      in if list_ex (\<lambda>other. other \<noteq> [] \<and> sameConfiguredPath (svcStat svc) (svcCwd svc) path other)
              [input, rpOutput paths, rpLock paths, rpCheckpoint paths]
         then (Inl LedgerPathConflict, d)
         else case LoadGapLedger (svcDecodeLedger svc) file of
           Inl e \<Rightarrow> (Inl LedgerNotLoaded, d)
         | Inr loaded \<Rightarrow>
             let manager = \<lparr>grPath = cleanPath path, grInput = input,
                   grCheckpointPath = rpCheckpoint paths, grLedger = loaded\<rparr>
             in (case loaded of
                   None \<Rightarrow> (Inr manager, d)
                 | Some l \<Rightarrow>
                     if glInputPath l \<noteq> input then (Inl LedgerForOtherInput, d)
                     else (case logEntry (GapHistory (word_of_nat (glTotal l)) (last (glIncidents l)))
                                   (d\<lparr>dgPersistentGaps := word_of_nat (glTotal l)\<rparr>) of
                             (Some e, d') \<Rightarrow> (Inl e, d')
                           | (None, d') \<Rightarrow> (Inr manager, d'))))"

definition sameCheckpoint :: "checkpoint option \<Rightarrow> checkpoint option \<Rightarrow> bool" where
  "sameCheckpoint a b \<longleftrightarrow>
     (case (a, b) of
        (Some c, Some d) \<Rightarrow>
          cpInputPath c = cpInputPath d \<and> cpDevice c = cpDevice d \<and> cpInode c = cpInode d \<and>
          cpOffset c = cpOffset d \<and> cpAnchor c = cpAnchor d
      | _ \<Rightarrow> a = None \<and> b = None)"

text \<open>\<open>pending\<close>: the position a prepared but unfinished recovery resumes at.\<close>

definition pendingRecovery :: "gapRecovery \<Rightarrow> checkpoint option \<Rightarrow> commandError + checkpoint option" where
  "pendingRecovery r c =
     (case grLedger r of
        None \<Rightarrow> Inr None
      | Some l \<Rightarrow>
          if glIncidents l = [] then Inl Panicked
          else let g = last (glIncidents l)
               in if \<not> giPrepared g then Inr None
                  else if \<not> sameCheckpoint c (giPrevious g) \<and> \<not> sameCheckpoint c (Some (giResume g))
                       then Inl PreparedMismatch
                  else Inr (Some (giResume g)))"

section \<open>Preparing\<close>

text \<open>What \<open>errors.As\<close> finds of the cause.\<close>

fun truncatedOf :: "rotationError \<Rightarrow> (fileIdentity \<times> int \<times> int) option" where
  "truncatedOf (SourceTruncated ident offset sz) = Some (ident, offset, sz)"
| "truncatedOf (Joined d e) = (case truncatedOf d of Some t \<Rightarrow> Some t | None \<Rightarrow> truncatedOf e)"
| "truncatedOf _ = None"

fun gapOf :: "rotationError \<Rightarrow> fileIdentity option" where
  "gapOf (SourceGap ident reason) = Some ident"
| "gapOf (FollowerFailed (AnchorMismatch ident)) = Some ident"
| "gapOf (Joined d e) = (case gapOf d of Some g \<Rightarrow> Some g | None \<Rightarrow> gapOf e)"
| "gapOf _ = None"

definition observedEvidence :: "rotationError \<Rightarrow> fileIdentity \<times> int option \<times> int option" where
  "observedEvidence cause =
     (case truncatedOf cause of
        Some (ident, offset, sz) \<Rightarrow> (ident, Some offset, Some sz)
      | None \<Rightarrow> (case gapOf cause of Some ident \<Rightarrow> (ident, None, None) | None \<Rightarrow> (zeroIdentity, None, None)))"

text \<open>A newer gap supersedes a decision that was never completed.\<close>

definition supersede :: "gapIncident \<Rightarrow> gapIncident" where
  "supersede g = (if giPrepared g then g\<lparr>giPrepared := False, giSuperseded := True\<rparr> else g)"

fun onLast :: "('a \<Rightarrow> 'a) \<Rightarrow> 'a list \<Rightarrow> 'a list" where
  "onLast f [] = []"
| "onLast f [x] = [f x]"
| "onLast f (x # y # ys) = x # onLast f (y # ys)"

record prepareEnv =
  prDetected :: gotime
  prStamp :: gotime
  prCalls :: saveCalls

definition newIncident ::
  "prepareEnv \<Rightarrow> string \<Rightarrow> nat \<Rightarrow> checkpoint option \<Rightarrow> generationPosition \<Rightarrow> rotationError \<Rightarrow> gapIncident" where
  "newIncident env input number previous position cause =
     (case observedEvidence cause of
        (ident, offset, sz) \<Rightarrow>
          \<lparr>giNumber = number, giDetectedAt = prDetected env, giReason = SourceGapReason cause,
           giObservedIdentity = ident, giObservedOffset = offset, giObservedSize = sz,
           giPrevious = previous,
           giResume = \<lparr>cpVersion = CheckpointVersion, cpInputPath = input,
             cpDevice = fiDevice (gpIdentity position), cpInode = fiInode (gpIdentity position),
             cpOffset = gpOffset position, cpAnchor = gpAnchor position, cpUpdatedAt = prStamp env\<rparr>,
           giPrepared = True, giSuperseded = False\<rparr>)"

text \<open>The ledger with the incident appended, of which the newest eight are kept.\<close>

definition appendIncident :: "gapIncident \<Rightarrow> gapLedger \<Rightarrow> gapLedger" where
  "appendIncident g l =
     (let incidents = onLast supersede (glIncidents l) @ [g]
      in l\<lparr>glTotal := glTotal l + 1,
           glIncidents := (if 8 < length incidents then drop (length incidents - 8) incidents else incidents)\<rparr>)"

text \<open>\<open>prepare\<close>, on the manager and the directory of the ledger.\<close>

definition prepareRecovery ::
  "'s services \<Rightarrow> prepareEnv \<Rightarrow> checkpoint option \<Rightarrow> generationPosition \<Rightarrow> rotationError
     \<Rightarrow> (gapRecovery \<times> stateDirectory) action" where
  "prepareRecovery svc env previous position cause = (\<lambda>(r, d).
     (let l = (case grLedger r of
                 Some l \<Rightarrow> l
               | None \<Rightarrow> \<lparr>glVersion = 1, glInputPath = grInput r, glTotal = 0, glIncidents = []\<rparr>)
      in if glTotal l = 2 ^ 64 - 1 then (Some GapsExhausted, (r\<lparr>grLedger := Some l\<rparr>, d))
         else let l' = appendIncident (newIncident env (grInput r) (glTotal l + 1) previous position cause) l
              in (case SaveGapLedger (svcMarshalLedger svc) (svcEncodeLedger svc) (prCalls env) l' d of
                    (ok, d') \<Rightarrow> (if ok then None else Some LedgerNotSaved, (r\<lparr>grLedger := Some l'\<rparr>, d')))))"

section \<open>Committing\<close>

record recoveryEnv =
  reCheckpointCalls :: saveCalls
  reStamp :: gotime
  reLedgerCalls :: saveCalls

record 's recoveryState =
  rsRecovery :: gapRecovery
  rsProcessor :: "'s eventProcessor"
  rsCheckpoint :: stateDirectory
  rsLedger :: stateDirectory

definition onProcessor :: "'s eventProcessor action \<Rightarrow> 's recoveryState action" where
  "onProcessor m s = (case m (rsProcessor s) of (e, p) \<Rightarrow> (e, s\<lparr>rsProcessor := p\<rparr>))"

definition commitSink :: "('s \<Rightarrow> bool \<times> 's) \<Rightarrow> 's eventProcessor action" where
  "commitSink commit p =
     (case commit (epSink p) of (ok, s) \<Rightarrow> (if ok then None else Some CommitFailed, p\<lparr>epSink := s\<rparr>))"

definition saveResume :: "'s services \<Rightarrow> recoveryEnv \<Rightarrow> checkpoint \<Rightarrow> 's recoveryState action" where
  "saveResume svc env resume s =
     (if grCheckpointPath (rsRecovery s) = [] then (None, s)
      else case SaveCheckpoint (svcEncodeCheckpoint svc) (reCheckpointCalls env) (reStamp env) resume (rsCheckpoint s) of
             (ok, d) \<Rightarrow> (if ok then None else Some CheckpointNotSaved, s\<lparr>rsCheckpoint := d\<rparr>))"

text \<open>The last incident is marked complete, in memory and then on disk.\<close>

definition completeIncident :: "gapLedger \<Rightarrow> gapLedger" where
  "completeIncident l = l\<lparr>glIncidents := onLast (\<lambda>g. g\<lparr>giPrepared := False\<rparr>) (glIncidents l)\<rparr>"

definition completeLedger :: "'s services \<Rightarrow> recoveryEnv \<Rightarrow> gapLedger \<Rightarrow> 's recoveryState action" where
  "completeLedger svc env l s =
     (let l' = completeIncident l
      in case SaveGapLedger (svcMarshalLedger svc) (svcEncodeLedger svc) (reLedgerCalls env) l' (rsLedger s) of
           (ok, d) \<Rightarrow> (if ok then None else Some LedgerNotSaved,
                        s\<lparr>rsLedger := d, rsRecovery := (rsRecovery s)\<lparr>grLedger := Some l'\<rparr>\<rparr>))"

text \<open>\<open>commit\<close>. Without a ledger or an incident the source would dereference nil or index out of range.\<close>

definition commitRecovery :: "'s services \<Rightarrow> recoveryEnv \<Rightarrow> 's recoveryState action" where
  "commitRecovery svc env s =
     (case grLedger (rsRecovery s) of
        None \<Rightarrow> (Some Panicked, s)
      | Some l \<Rightarrow>
          if glIncidents l = [] then (Some Panicked, s)
          else let g = last (glIncidents l); total = word_of_nat (glTotal l)
               in andThen (onProcessor (update (\<lambda>p. p\<lparr>epDiagnostics :=
                          (count (\<lambda>c. c\<lparr>ocGaps := ocGaps c + 1\<rparr>) (epDiagnostics p))\<lparr>dgPersistentGaps := total\<rparr>\<rparr>)))
                   (andThen (onProcessor (report (GapIncident g)))
                    (andThen (onProcessor (flushAll (svcPut svc) (svcLower svc) (svcPrint svc) CompletionSourceGap))
                     (andThen (onProcessor (commitSink (svcCommit svc)))
                      (andThen (saveResume svc env (giResume g))
                       (andThen (completeLedger svc env l)
                        (onProcessor (report (ResumedWithGap (giNumber g) (giResume g) total)))))))) s)"

end
