(* ===== verification/FollowLoop.thy ===== *)
theory FollowLoop
  imports GapRecovery
begin

text \<open>
  Follow mode (\<open>runFollower\<close> in cmd/ag-audit/main.go): the start from the checkpoint or the prepared
  recovery, and one iteration of the loop: a line, an idle poll, a cancellation, a recoverable gap or
  an error. Every clock reading and every system call has its outcome in the environment of the
  iteration, in the order the code meets them.
\<close>

section \<open>State\<close>

text \<open>The local variables of \<open>runFollower\<close>; the processor and the state files are in \<open>fsRecovery\<close>.\<close>

record 's followState =
  fsFollower :: rotatingFollower
  fsWriter :: checkpointWriter
  fsRotationCount :: nat
  fsRecovery :: "'s recoveryState"

datatype followResult = GoOn | Stop "commandError option"

definition onState :: "'s eventProcessor action \<Rightarrow> 's followState action" where
  "onState m s = (case onProcessor m (fsRecovery s) of (e, r) \<Rightarrow> (e, s\<lparr>fsRecovery := r\<rparr>))"

abbreviation fsProcessor :: "'s followState \<Rightarrow> 's eventProcessor" where
  "fsProcessor s \<equiv> rsProcessor (fsRecovery s)"

text \<open>\<open>checkpointWriter.persist\<close> on the loop's state.\<close>

definition persistFollow :: "'s services \<Rightarrow> persistEnv \<Rightarrow> bool \<Rightarrow> sourcePosition \<Rightarrow> 's followState action" where
  "persistFollow svc env force position s =
     (case persist (svcCommit svc) (svcEncodeCheckpoint svc) env position force
             \<lparr>psWriter = fsWriter s, psSink = epSink (fsProcessor s), psDirectory = rsCheckpoint (fsRecovery s)\<rparr> of
        (e, t) \<Rightarrow>
          (e, s\<lparr>fsWriter := psWriter t,
                fsRecovery := (fsRecovery s)\<lparr>rsProcessor := (fsProcessor s)\<lparr>epSink := psSink t\<rparr>,
                                             rsCheckpoint := psDirectory t\<rparr>\<rparr>))"

text \<open>The position that is safe to save.\<close>

definition safePosition :: "'s followState \<Rightarrow> sourcePosition" where
  "safePosition s =
     SafeSourcePosition (auditPosition (rfComplete (fsFollower s))) (epAssembler (fsProcessor s))"

section \<open>Environment\<close>

record recoverEnv =
  rvProbes :: "string \<Rightarrow> openedFile option"
  rvProbeCloseFails :: bool
  rvListing :: "dirEntry list option"
  rvOpens :: "string \<Rightarrow> openedFile option"
  rvLoadFails :: bool
  rvPrepare :: prepareEnv
  rvCommit :: recoveryEnv
  rvCloseFails :: bool
  rvWriterNow :: gotime

record iterationEnv =
  ieNext :: nextEnv
  ieNow :: gotime
  ieLater :: gotime
  ieCaughtUpSize :: "int option"
  iePersist :: persistEnv
  ieBeatDue :: gotime
  ieBeatNow :: gotime
  ieBeatLater :: gotime
  ieLagSize :: "int option"
  ieLagListing :: "dirEntry list option"
  ieLagStat :: "string \<Rightarrow> int option"
  ieRecover :: recoverEnv

section \<open>Parts of the loop\<close>

definition rotationOptionsOf :: "commandOptions \<Rightarrow> string \<Rightarrow> rotationOptions" where
  "rotationOptionsOf op recoveryPath =
     \<lparr>roFollower = \<lparr>foPollInterval = opPollInterval op, foMaxLineBytes = opMaxLineBytes op,
        foGeneration = 0, foRecoverLineLimits = True\<rparr>,
      roDrainInterval = opRotationDrain op,
      roExcludePaths = [opOutputPath op, opCheckpointPath op, opLockPath op, recoveryPath]\<rparr>"

definition emitHeartbeat :: "'s services \<Rightarrow> iterationEnv \<Rightarrow> 's followState action" where
  "emitHeartbeat svc env s =
     (if \<not> heartbeatDue (ieBeatDue env) (epDiagnostics (fsProcessor s)) then (None, s)
      else let lag = (case LagBytes (CanonicalPath (svcCwd svc)) (ieLagSize env) (ieLagListing env) (ieLagStat env) (fsFollower s) of
                        Inr n \<Rightarrow> n | Inl e \<Rightarrow> -1)
           in onState (\<lambda>p. case heartbeat (ieBeatNow env) (ieBeatLater env) (epAssembler p) lag (epDiagnostics p) of
                             (e, d) \<Rightarrow> (e, p\<lparr>epDiagnostics := d\<rparr>)) s)"

text \<open>\<open>recordSourceGap\<close>: only a gap or a truncation is logged.\<close>

definition recordSourceGap :: "rotationError \<Rightarrow> 's eventProcessor action" where
  "recordSourceGap e =
     (if gapOf e = None \<and> truncatedOf e = None then update id
      else andThen (tally (\<lambda>c. c\<lparr>ocGaps := ocGaps c + 1\<rparr>)) (report (SourceGapSeen e)))"

text \<open>\<open>errors.Is(err, context.Canceled)\<close> or \<open>DeadlineExceeded\<close>.\<close>

fun cancelled :: "rotationError \<Rightarrow> bool" where
  "cancelled (FollowerFailed ContextDone) = True"
| "cancelled (Joined d e) = (cancelled d \<or> cancelled e)"
| "cancelled _ = False"

text \<open>The position of a line, as the processor is told it.\<close>

definition lineSource :: "sourceLine \<Rightarrow> sourcePosition" where
  "lineSource l =
     \<lparr>spAnchor = slStartAnchor l, spDevice = fiDevice (slStartIdentity l), spInode = fiInode (slStartIdentity l),
      spGeneration = slStartGeneration l, spStart = slStart l, spEnd = slStart l,
      spBytes = int (slSourceBytes l), spValid = True\<rparr>"

definition processLine :: "'s services \<Rightarrow> gotime \<Rightarrow> gotime \<Rightarrow> sourceLine \<Rightarrow> 's eventProcessor action" where
  "processLine svc now later l =
     (if 0 < slOmittedBytes l
      then rejectLine (svcPut svc) (svcLower svc) (svcPrint svc) now later (slText l) (int (slSourceBytes l)) (lineSource l)
      else addSourceLine (svcPut svc) (svcLower svc) (svcPrint svc) now (slText l) (lineSource l))"

definition saveProgress :: "'s services \<Rightarrow> iterationEnv \<Rightarrow> 's followState action" where
  "saveProgress svc env s = persistFollow svc (iePersist env) False (safePosition s) s"

text \<open>The branch of a line.\<close>

definition lineIteration :: "'s services \<Rightarrow> iterationEnv \<Rightarrow> sourceLine \<Rightarrow> 's followState action" where
  "lineIteration svc env l =
     andThen (onState (processLine svc (ieNow env) (ieLater env) l))
       (andThen (saveProgress svc env) (emitHeartbeat svc env))"

text \<open>The branch of an idle poll.\<close>

definition noticeRotation :: "'s followState action" where
  "noticeRotation s =
     (let n = rfRotationCount (fsFollower s)
      in if n = fsRotationCount s then (None, s)
         else onState (andThen (tally (\<lambda>c. c\<lparr>ocRotations := word_of_nat n\<rparr>)) (report (InputRotation n)))
                (s\<lparr>fsRotationCount := n\<rparr>))"

definition noticeCaughtUp :: "iterationEnv \<Rightarrow> 's followState action" where
  "noticeCaughtUp env s =
     (if \<not> (epReplayWindow (fsProcessor s) \<and> CaughtUp (ieCaughtUpSize env) (fsFollower s)) then (None, s)
      else onState (\<lambda>p. report (RecoveryCaughtUp (ocReplayCandidates (dgCounters (epDiagnostics p))))
                          (p\<lparr>epReplayWindow := False\<rparr>)) s)"

definition idleIteration :: "'s services \<Rightarrow> iterationEnv \<Rightarrow> 's followState action" where
  "idleIteration svc env =
     andThen noticeRotation
       (andThen (onState (emitExpired (svcPut svc) (svcLower svc) (svcPrint svc) (ieNow env)))
         (andThen (noticeCaughtUp env)
           (andThen (saveProgress svc env) (emitHeartbeat svc env))))"

text \<open>The branch of a cancellation: the end of the loop.\<close>

definition shutdownIteration :: "'s services \<Rightarrow> iterationEnv \<Rightarrow> 's followState action" where
  "shutdownIteration svc env =
     andThen (onState (flushAll (svcPut svc) (svcLower svc) (svcPrint svc) CompletionShutdown))
       (\<lambda>s. persistFollow svc (iePersist env) True (auditPosition (rfComplete (fsFollower s))) s)"

text \<open>Preparing and committing on the loop's state.\<close>

definition prepareFollow ::
  "'s services \<Rightarrow> prepareEnv \<Rightarrow> checkpoint option \<Rightarrow> generationPosition \<Rightarrow> rotationError \<Rightarrow> 's recoveryState action" where
  "prepareFollow svc env previous position cause s =
     (case prepareRecovery svc env previous position cause (rsRecovery s, rsLedger s) of
        (e, r, d) \<Rightarrow> (e, s\<lparr>rsRecovery := r, rsLedger := d\<rparr>))"

definition readState :: "bool \<Rightarrow> stateDirectory \<Rightarrow> stateFile" where
  "readState fails d = (if fails then Unsafe else sdTarget d)"

text \<open>The branch of a recoverable gap: a new follower over the retained suffix.\<close>

definition gapIteration ::
  "'s services \<Rightarrow> commandOptions \<Rightarrow> string \<Rightarrow> recoverEnv \<Rightarrow> rotationError \<Rightarrow> 's followState action" where
  "gapIteration svc op inputPath env cause s =
     (case OpenRecoveryFollower (svcHash svc) (CanonicalPath (svcCwd svc)) (opInputPath op)
             (rotationOptionsOf op (grPath (rsRecovery (fsRecovery s))))
             (rvProbes env) (rvProbeCloseFails env) (rvListing env) (rvOpens env) of
        Inl e \<Rightarrow> (Some (CollectorFailed e), s)
      | Inr new \<Rightarrow>
          (case loadConfiguredCheckpoint (svcDecodeCheckpoint svc) (opCheckpointPath op) inputPath
                  (readState (rvLoadFails env) (rsCheckpoint (fsRecovery s))) of
             Inl e \<Rightarrow> (Some e, s)
           | Inr previous \<Rightarrow>
               (case andThen (prepareFollow svc (rvPrepare env) previous (rfComplete new) cause)
                       (commitRecovery svc (rvCommit env)) (fsRecovery s) of
                  (Some e, r) \<Rightarrow> (Some e, s\<lparr>fsRecovery := r\<rparr>)
                | (None, r) \<Rightarrow>
                    if rvCloseFails env then (Some (CollectorFailed CallFailed), s\<lparr>fsRecovery := r\<rparr>)
                    else (None, s\<lparr>fsRecovery := r\<lparr>rsProcessor := (rsProcessor r)\<lparr>epReplayWindow := True\<rparr>\<rparr>,
                            fsFollower := new, fsRotationCount := rfRotationCount new,
                            fsWriter := newCheckpointWriter (opCheckpointPath op) (opCheckpointInterval op)
                              inputPath (auditPosition (rfComplete new)) True (rvWriterNow env)\<rparr>))))"

section \<open>The loop\<close>

definition continuing :: "commandError option \<times> 's \<Rightarrow> followResult \<times> 's" where
  "continuing res = (case res of (None, s) \<Rightarrow> (GoOn, s) | (Some e, s) \<Rightarrow> (Stop (Some e), s))"

definition stopping :: "commandError option \<times> 's \<Rightarrow> followResult \<times> 's" where
  "stopping res = (case res of (e, s) \<Rightarrow> (Stop e, s))"

text \<open>One iteration. An error that is no recoverable gap is returned, joined with that of its report.\<close>

definition followIteration ::
  "'s services \<Rightarrow> commandOptions \<Rightarrow> string \<Rightarrow> iterationEnv \<Rightarrow> 's followState \<Rightarrow> followResult \<times> 's followState" where
  "followIteration svc op inputPath env s0 =
     (case Next (svcHash svc) (CanonicalPath (svcCwd svc)) (ieNext env) (fsFollower s0) of
        (res, f) \<Rightarrow>
          let s = s0\<lparr>fsFollower := f\<rparr>
          in (case res of
                Returned line \<Rightarrow> continuing (lineIteration svc env line s)
              | Idle \<Rightarrow> continuing (idleIteration svc env s)
              | Panic \<Rightarrow> (Stop (Some Panicked), s)
              | Failed e \<Rightarrow>
                  if cancelled e then stopping (shutdownIteration svc env s)
                  else if RecoverableSourceGap e then continuing (gapIteration svc op inputPath (ieRecover env) e s)
                  else (Stop (Some (CollectorFailed e)), snd (onState (recordSourceGap e) s))))"

fun followLoop ::
  "'s services \<Rightarrow> commandOptions \<Rightarrow> string \<Rightarrow> iterationEnv list \<Rightarrow> 's followState \<Rightarrow> followResult \<times> 's followState" where
  "followLoop svc op inputPath [] s = (GoOn, s)"
| "followLoop svc op inputPath (env # envs) s =
     (case followIteration svc op inputPath env s of
        (GoOn, s') \<Rightarrow> followLoop svc op inputPath envs s'
      | (Stop e, s') \<Rightarrow> (Stop e, s'))"

section \<open>Starting\<close>

record startEnv =
  seCheckpointFails :: bool
  seLedgerFails :: bool
  seDefaultLock :: string
  seListing :: "dirEntry list option"
  seOpens :: "string \<Rightarrow> openedFile option"
  seRecover :: recoverEnv
  seNow :: gotime
  sePersist :: persistEnv

text \<open>The follower to begin with, and whether a recovery has still to be committed.\<close>

definition startRecovered ::
  "'s services \<Rightarrow> commandOptions \<Rightarrow> startEnv \<Rightarrow> checkpoint option \<Rightarrow> rotationError \<Rightarrow> 's recoveryState
     \<Rightarrow> (commandError + rotatingFollower) \<times> 's recoveryState" where
  "startRecovered svc op env saved cause r =
     (let v = seRecover env
      in case OpenRecoveryFollower (svcHash svc) (CanonicalPath (svcCwd svc)) (opInputPath op)
                (rotationOptionsOf op (grPath (rsRecovery r)))
                (rvProbes v) (rvProbeCloseFails v) (rvListing v) (rvOpens v) of
           Inl e \<Rightarrow> (Inl (CollectorFailed e), r)
         | Inr f \<Rightarrow>
             (case prepareFollow svc (rvPrepare v) saved (rfComplete f) cause r of
                (Some e, r') \<Rightarrow> (Inl e, r')
              | (None, r') \<Rightarrow> (Inr f, r')))"

definition startFollowing ::
  "'s services \<Rightarrow> commandOptions \<Rightarrow> startEnv \<Rightarrow> checkpoint option \<Rightarrow> 's recoveryState
     \<Rightarrow> (commandError + rotatingFollower \<times> bool) \<times> 's recoveryState" where
  "startFollowing svc op env saved r =
     (case pendingRecovery (rsRecovery r) saved of
        Inl e \<Rightarrow> (Inl e, r)
      | Inr pending \<Rightarrow>
          (case OpenRotatingFollower (svcHash svc) (CanonicalPath (svcCwd svc)) (opInputPath op)
                  (rotationOptionsOf op (grPath (rsRecovery r)))
                  (if pending \<noteq> None then pending else saved) (seListing env) (seOpens env) of
             Inr f \<Rightarrow> (Inr (f, pending \<noteq> None), r)
           | Inl cause \<Rightarrow>
               if RecoverableSourceGap cause
               then (case startRecovered svc op env saved cause r of
                       (Inl e, r') \<Rightarrow> (Inl e, r')
                     | (Inr f, r') \<Rightarrow> (Inr (f, True), r'))
               else (Inl (CollectorFailed cause), snd (onProcessor (recordSourceGap cause) r))))"

text \<open>From the opened follower to the loop.\<close>

definition enterLoop ::
  "'s services \<Rightarrow> commandOptions \<Rightarrow> string \<Rightarrow> startEnv \<Rightarrow> bool \<Rightarrow> rotatingFollower \<Rightarrow> bool
     \<Rightarrow> 's recoveryState \<Rightarrow> commandError option \<times> 's followState" where
  "enterLoop svc op inputPath env resumed f recovering r =
     (let position = auditPosition (rfComplete f);
          writer = newCheckpointWriter (opCheckpointPath op) (opCheckpointInterval op) inputPath position
            (resumed \<or> recovering) (seNow env);
          begin_replay = (\<lambda>s. if resumed \<or> recovering
            then onState (\<lambda>p. report (RecoveryStarted (spDevice position) (spInode position) (spEnd position))
                                (p\<lparr>epReplayWindow := True\<rparr>)) s
            else onState (update (\<lambda>p. p\<lparr>epReplayWindow := False\<rparr>)) s)
      in case (if recovering then commitRecovery svc (rvCommit (seRecover env)) r else (None, r)) of
           (e, r') \<Rightarrow>
             let s = \<lparr>fsFollower = f, fsWriter = writer, fsRotationCount = rfRotationCount f, fsRecovery = r'\<rparr>
             in (case e of
                   Some c \<Rightarrow> (Some c, s)
                 | None \<Rightarrow> andThen (persistFollow svc (sePersist env) True position) begin_replay s))"

text \<open>
  \<open>runFollower\<close> up to the loop. \<open>Inl\<close> is an error before a follower is open, with the processor
  and the directory of the ledger it leaves.
\<close>

definition openFollow ::
  "'s services \<Rightarrow> commandOptions \<Rightarrow> startEnv \<Rightarrow> 's eventProcessor \<Rightarrow> stateDirectory \<Rightarrow> stateDirectory
     \<Rightarrow> (commandError \<times> 's eventProcessor \<times> stateDirectory) + (string \<times> commandError option \<times> 's followState)" where
  "openFollow svc op env p checkpoints ledgers =
     (case CanonicalPath (svcCwd svc) (opInputPath op) of
        None \<Rightarrow> Inl (BadInput, p, ledgers)
      | Some inputPath \<Rightarrow>
          (case loadConfiguredCheckpoint (svcDecodeCheckpoint svc) (opCheckpointPath op) inputPath
                  (readState (seCheckpointFails env) checkpoints) of
             Inl e \<Rightarrow> Inl (e, p, ledgers)
           | Inr saved \<Rightarrow>
               (case openGapRecovery svc
                       \<lparr>rpCheckpoint = opCheckpointPath op, rpLock = opLockPath op, rpOutput = opOutputPath op\<rparr>
                       (seDefaultLock env) inputPath (readState (seLedgerFails env) ledgers) (epDiagnostics p) of
                  (Inl e, d) \<Rightarrow> Inl (e, p\<lparr>epDiagnostics := d\<rparr>, ledgers)
                | (Inr manager, d) \<Rightarrow>
                    (case startFollowing svc op env saved
                            \<lparr>rsRecovery = manager, rsProcessor = p\<lparr>epDiagnostics := d\<rparr>,
                             rsCheckpoint = checkpoints, rsLedger = ledgers\<rparr> of
                       (Inl e, r) \<Rightarrow> Inl (e, rsProcessor r, rsLedger r)
                     | (Inr (f, recovering), r) \<Rightarrow>
                         Inr (inputPath, enterLoop svc op inputPath env (saved \<noteq> None) f recovering r)))))"

text \<open>\<open>runFollower\<close>, over the iterations that the environments describe.\<close>

definition runFollower ::
  "'s services \<Rightarrow> commandOptions \<Rightarrow> startEnv \<Rightarrow> iterationEnv list \<Rightarrow> 's eventProcessor \<Rightarrow> stateDirectory
     \<Rightarrow> stateDirectory \<Rightarrow> followResult \<times> 's eventProcessor" where
  "runFollower svc op env envs p checkpoints ledgers =
     (case openFollow svc op env p checkpoints ledgers of
        Inl (e, p', d) \<Rightarrow> (Stop (Some e), p')
      | Inr (inputPath, Some e, s) \<Rightarrow> (Stop (Some e), fsProcessor s)
      | Inr (inputPath, None, s) \<Rightarrow>
          (case followLoop svc op inputPath envs s of (res, s') \<Rightarrow> (res, fsProcessor s')))"

end
