(* ===== verification/FollowAligned.thy ===== *)
theory FollowAligned
  imports RotationStream FollowLoop
begin

text \<open>
  Where the unfinished line of a rotating follower begins: exactly at the complete position. It is
  kept by every step, so a returned line starts at the complete position before it, and
  the one after it is no earlier.
\<close>

section \<open>The origin of a line\<close>

definition originOf :: "fileFollower \<Rightarrow> nat \<times> int" where
  "originOf f = (ffOriginGen f, ffOriginOffset f)"

lemma takeFragment_origin: "takeFragment fragment f = (e, f') \<Longrightarrow> originOf f' = originOf f"
  by (auto simp: takeFragment_def originOf_def Let_def split: if_splits)

text \<open>A read leaves the origin alone until it completes a line, which then carries it.\<close>

lemma NextSource_origin:
  "NextSource sha env f = (r, f') \<Longrightarrow>
     (case r of
        Inr (Some l) \<Rightarrow> (slStartGeneration l, slStart l) = originOf f \<and> originOf f' = (slGeneration l, slEnd l)
      | _ \<Rightarrow> originOf f' = originOf f)"
proof (induction sha env f arbitrary: r f' rule: NextSource.induct)
  case (1 sha env f)
  obtain fragment status where slice:
      "readSlice (reFault env) (drop (nat (ffReadOffset f)) (reContent env)) = (fragment, status)"
    by (cases "readSlice (reFault env) (drop (nat (ffReadOffset f)) (reContent env))")
  obtain e f1 where frag: "takeFragment fragment f = (e, f1)" by (cases "takeFragment fragment f")
  note frame = takeFragment_origin [OF frag]
  note eq = "1.prems" [unfolded NextSource.simps [of sha env f] slice frag prod.case]
  show ?case
  proof (cases "reCancelled env \<or> e \<noteq> None")
    case True
    with eq frame show ?thesis by (auto split: if_split_asm)
  next
    case False
    then have no: "\<not> reCancelled env" "e = None" by auto
    show ?thesis
    proof (cases status)
      case ReadLine
      with eq no have line: "completeLine sha (reContent env) f1 = (r, f')" by simp
      have "ffOriginGen f1 = ffOriginGen f" "ffOriginOffset f1 = ffOriginOffset f"
        using frame by (simp_all add: originOf_def)
      with line show ?thesis
        by (auto simp: completeLine_def Let_def originOf_def split: sum.splits)
    next
      case BufferFull
      with eq no have again: "NextSource sha env f1 = (r, f')" by simp
      from "1.IH" [OF no(1) slice [symmetric] frag [symmetric] no(2) BufferFull again]
      show ?thesis unfolding frame .
    qed (use eq no frame in \<open>auto split: if_splits\<close>)
  qed
qed

section \<open>Alignment\<close>

definition aligned :: "rotatingFollower \<Rightarrow> bool" where
  "aligned f \<longleftrightarrow> originOf (rfCurrent f) = (gpGeneration (rfComplete f), gpOffset (rfComplete f))"

lemma transferPartialTo_origin:
  "transferPartialTo f opened = Inr (old, new) \<Longrightarrow> originOf new = (if HasPartial f then originOf f else originOf opened)"
  by (auto simp: transferPartialTo_def originOf_def HasPartial_def split: if_splits)

lemma aligned_entered:
  assumes "aligned f" and "entered f f'"
  shows "aligned f'"
proof -
  let ?g = "ffGeneration (rfCurrent f)"
  obtain opened old where o: "transferPartialTo (rfCurrent f) opened = Inr (old, rfCurrent f')"
      "ffOriginOffset opened = 0" "ffOriginGen opened = ffGeneration opened" "ffGeneration opened = ?g + 1"
      "rfComplete f' = (if HasPartial (rfCurrent f) then rfComplete f
          else \<lparr>gpIdentity = ffIdentity opened, gpGeneration = ?g + 1,
                gpAnchor = ffOriginAnchor (rfCurrent f'), gpOffset = 0\<rparr>)"
    using assms(2) unfolding entered_def by blast
  from transferPartialTo_origin [OF o(1)] o(2-5) assms(1) show ?thesis
    by (simp add: aligned_def originOf_def [of opened])
qed

text \<open>The follower's invariant and what a step does to it; only a failing close may break it.\<close>

definition followerInv :: "rotatingFollower \<Rightarrow> bool" where
  "followerInv f \<longleftrightarrow> aligned f \<and> behindCurrent f"

definition advancedTo :: "rotatingFollower \<Rightarrow> rotatingFollower \<Rightarrow> bool" where
  "advancedTo f f' \<longleftrightarrow> followerInv f' \<and> \<not> completeBefore (rfComplete f') (rfComplete f)"

text \<open>The start of a line is the complete position before it.\<close>

definition startsAt :: "generationPosition \<Rightarrow> sourceLine \<Rightarrow> bool" where
  "startsAt p l \<longleftrightarrow> slStartGeneration l = gpGeneration p \<and> slStart l = gpOffset p"

lemma stayed_advanced: "followerInv f \<Longrightarrow> stayed f f' \<Longrightarrow> advancedTo f f'"
  by (simp add: advancedTo_def followerInv_def stayed_def aligned_def behindCurrent_def completeOrder.before_irrefl)

lemma Next_aligned:
  assumes inv: "followerInv f" and step: "Next sha canon env f = (res, f')"
  shows "advancedTo f f' \<and> (\<forall>l. res = Returned l \<longrightarrow> startsAt (rfComplete f) l) \<or> res = Failed CallFailed"
  using step
proof (cases rule: Next_outcome)
  case (returned line cur)
  have fw: "ffGeneration cur = ffGeneration (rfCurrent f)" "ffReadOffset (rfCurrent f) \<le> ffReadOffset cur"
      "slEnd line = ffReadOffset cur" "slGeneration line = ffGeneration (rfCurrent f)"
    using NextSource_forward [OF returned(1)] by auto
  have origin: "(slStartGeneration line, slStart line) = originOf (rfCurrent f)"
      "originOf cur = (slGeneration line, slEnd line)"
    using NextSource_origin [OF returned(1)] by simp_all
  have "aligned f'" using origin(2) returned(3) by (simp add: aligned_def)
  moreover have "behindCurrent f'" using fw returned(3) by (simp add: behindCurrent_def)
  moreover have "\<not> completeBefore (rfComplete f') (rfComplete f)"
    using fw inv returned(3)
    by (auto simp: followerInv_def behindCurrent_def completeBefore_def lexBefore_def)
  moreover have "startsAt (rfComplete f) line"
    using origin(1) inv by (simp add: startsAt_def followerInv_def aligned_def)
  ultimately show ?thesis using returned(2) by (simp add: advancedTo_def followerInv_def)
next
  case (failed e cur)
  have "followerInv (f\<lparr>rfCurrent := cur\<rparr>)"
    using inv NextSource_forward [OF failed(1)] NextSource_origin [OF failed(1)]
    by (auto simp: followerInv_def aligned_def behindCurrent_def)
  then show ?thesis
    using failed(2,3) completeOrder.before_irrefl by (simp add: advancedTo_def)
next
  case (idle cur)
  let ?f = "f\<lparr>rfCurrent := cur\<rparr>"
  have base: "followerInv ?f"
    using inv NextSource_forward [OF idle(1)] NextSource_origin [OF idle(1)]
    by (auto simp: followerInv_def aligned_def behindCurrent_def)
  have "stayed ?f f' \<or> entered ?f f' \<or> res = Failed CallFailed"
    using idle(2) by (auto simp: outcome_def switched_def)
  then have "advancedTo ?f f' \<or> res = Failed CallFailed"
    using base stayed_advanced [OF base] aligned_entered [of ?f f'] behindCurrent_switched [of ?f f']
    by (auto simp: advancedTo_def followerInv_def)
  moreover have "\<forall>l. res \<noteq> Returned l" using idle(2) by (simp add: outcome_def)
  ultimately show ?thesis by (simp add: advancedTo_def)
qed

section \<open>Where a follower starts\<close>

lemma startFollower_inv:
  assumes "OpenFileFollowerAt sha path options offset expected anchor opened = Inr cur"
    and "foGeneration options = 0"
  shows "followerInv (startFollower input ro cur atPath queued
     \<lparr>gpIdentity = ident, gpGeneration = 0, gpAnchor = a, gpOffset = offset\<rparr>)"
  using OpenFileFollowerAt_result [OF assms(1)] assms(2)
  by (simp add: followerInv_def aligned_def behindCurrent_def originOf_def startFollower_def)

lemma OpenRotatingFollower_inv:
  assumes "OpenRotatingFollower sha canon inputPath options saved listing opens = Inr f"
    and "foGeneration (roFollower options) = 0"
  shows "followerInv f"
  using assms
  by (auto simp: OpenRotatingFollower_def followerOptionsAt_def Let_def intro!: startFollower_inv
      split: option.splits sum.splits list.splits if_splits)

lemma OpenRecoveryFollower_inv:
  assumes "OpenRecoveryFollower sha canon inputPath options probes closeFails listing opens = Inr f"
  shows "followerInv f"
  using assms
  by (auto simp: OpenRecoveryFollower_def followerOptionsAt_def intro!: startFollower_inv
      split: option.splits sum.splits list.splits if_splits)

end
