(* ===== verification/ProcessorProperties.thy ===== *)
theory ProcessorProperties
  imports Processor AssemblerRecords
begin

text \<open>
  What the processor delivers to the sink: after any operation the accepted events have grown by a
  prefix of the events the operation stands for, by all of them if it returned no error. The
  facts are proved over the interface of a sink and hold for the NDJSON sink by interpretation.
\<close>

section \<open>The events an operation stands for\<close>

definition eventOutputs ::
  "(string \<Rightarrow> string) \<Rightarrow> (nat \<Rightarrow> bool) \<Rightarrow> string \<Rightarrow> bool \<Rightarrow> assembledEvent \<Rightarrow> canonicalEvent list" where
  "eventOutputs lo pr host render e =
     (if aeExceptional e then map (\<lambda>r. BuildAssemblyException r host) (aeRecords e)
      else [if render then WithHumanMessage pr (BuildCanonicalEvent lo e host) else BuildCanonicalEvent lo e host])"

definition eventsOutputs ::
  "(string \<Rightarrow> string) \<Rightarrow> (nat \<Rightarrow> bool) \<Rightarrow> string \<Rightarrow> bool \<Rightarrow> assembledEvent list \<Rightarrow> canonicalEvent list" where
  "eventsOutputs lo pr host render es = concat (map (eventOutputs lo pr host render) es)"

text \<open>A line, as a function of the assembler: its next state and the events to write.\<close>

definition lineOutputs ::
  "(string \<Rightarrow> string) \<Rightarrow> (nat \<Rightarrow> bool) \<Rightarrow> string \<Rightarrow> bool \<Rightarrow> gotime \<Rightarrow> string \<Rightarrow> sourcePosition
     \<Rightarrow> assembler \<Rightarrow> assembler \<times> canonicalEvent list" where
  "lineOutputs lo pr host render now line source a =
     (case ParseRecord pr line of
        Inl err \<Rightarrow>
          (case FlushExpired now a of (a', es) \<Rightarrow>
             (a', eventsOutputs lo pr host render es @ [BuildParseFailureEvent line (parseErrorText pr err) host]))
      | Inr r \<Rightarrow>
          (case AddRecovering (sourcedRecord source r) now a of (a', es, limit) \<Rightarrow>
             (a', eventsOutputs lo pr host render es)))"

definition rejectedOutputs ::
  "(string \<Rightarrow> string) \<Rightarrow> (nat \<Rightarrow> bool) \<Rightarrow> string \<Rightarrow> bool \<Rightarrow> gotime \<Rightarrow> gotime \<Rightarrow> string \<Rightarrow> int \<Rightarrow> sourcePosition
     \<Rightarrow> assembler \<Rightarrow> assembler \<times> canonicalEvent list" where
  "rejectedOutputs lo pr host render now later pre totalBytes source a =
     (case FlushExpired now a of (a1, es1) \<Rightarrow>
        (case RejectPhysicalLine pr pre source later a1 of (a2, es2) \<Rightarrow>
           (a2, eventsOutputs lo pr host render es1 @ eventsOutputs lo pr host render es2 @
                  [lineException pre (totalBytes - int (length pre)) host])))"

section \<open>Delivery\<close>

definition delivered ::
  "('s \<Rightarrow> 'e list) \<Rightarrow> ('s \<Rightarrow> 'e list) \<Rightarrow> 'e list \<Rightarrow> commandError option \<Rightarrow> 's \<Rightarrow> 's \<Rightarrow> bool" where
  "delivered acc dur outs e s s' \<longleftrightarrow>
     prefix (acc s) (acc s') \<and> prefix (acc s') (acc s @ outs) \<and> prefix (dur s) (dur s') \<and>
     (e = None \<longrightarrow> acc s' = acc s @ outs)"

text \<open>The same for a processor, whose settings do not change.\<close>

definition wrote ::
  "('s \<Rightarrow> canonicalEvent list) \<Rightarrow> ('s \<Rightarrow> canonicalEvent list) \<Rightarrow> canonicalEvent list \<Rightarrow> commandError option
     \<Rightarrow> 's eventProcessor \<Rightarrow> 's eventProcessor \<Rightarrow> bool" where
  "wrote acc dur outs e p p' \<longleftrightarrow>
     delivered acc dur outs e (epSink p) (epSink p') \<and>
     epHost p' = epHost p \<and> epRenderMessage p' = epRenderMessage p"

lemma wrote_refl [simp]: "wrote acc dur [] e p p"
  by (simp add: wrote_def delivered_def)

lemma wrote_trans:
  assumes "wrote acc dur outs None p q" and "wrote acc dur outs2 e q r"
  shows "wrote acc dur (outs @ outs2) e p r"
  using assms
  by (auto simp: wrote_def delivered_def elim: prefix_order.trans [rotated])

lemma wrote_stopped:
  assumes "wrote acc dur outs (Some c) p q"
  shows "wrote acc dur (outs @ outs2) (Some c) p q"
  using assms by (auto simp: wrote_def delivered_def prefix_def)

lemma wrote_andThen:
  assumes "andThen m k p = (e, r)" and "\<And>e q. m p = (e, q) \<Longrightarrow> wrote acc dur outs e p q"
    and "\<And>q. m p = (None, q) \<Longrightarrow> k q = (e, r) \<Longrightarrow> wrote acc dur outs2 e q r"
  shows "wrote acc dur (outs @ outs2) e p r"
  using assms(1)
proof (cases rule: andThen_cases)
  case (failed c)
  with assms(2) show ?thesis by (auto intro: wrote_stopped)
next
  case (passed u)
  show ?thesis using assms(2) [OF passed(1)] assms(3) [OF passed] by (rule wrote_trans)
qed

text \<open>Only the sink, the settings and the diagnostics matter to delivery.\<close>

lemma wrote_assembler [simp]:
  "wrote acc dur outs e (p\<lparr>epAssembler := a\<rparr>) q = wrote acc dur outs e p q"
  "wrote acc dur outs e p (q\<lparr>epAssembler := a\<rparr>) = wrote acc dur outs e p q"
  by (simp_all add: wrote_def)

lemma tally_result: "tally f p = (e, p') \<Longrightarrow> e = None \<and> p' = p\<lparr>epDiagnostics := count f (epDiagnostics p)\<rparr>"
  by (auto simp: tally_def update_def)

lemma report_result:
  "report entry p = (e, p') \<Longrightarrow> \<exists>d. p' = p\<lparr>epDiagnostics := d\<rparr> \<and> (e = None \<or> e = Some LogFailed)"
  by (auto simp: report_def logEntry_def split: list.splits if_splits)

lemma tally_wrote: "tally f p = (e, p') \<Longrightarrow> wrote acc dur [] e p p'"
  by (auto simp: tally_def update_def wrote_def delivered_def)

lemma report_wrote: "report entry p = (e, p') \<Longrightarrow> wrote acc dur [] e p p'"
  by (auto simp: wrote_def delivered_def dest!: report_result)

section \<open>Over any sink\<close>

context event_sink
begin

lemma put_delivered:
  assumes "put ev s = (ok, s')"
  shows "delivered accepted durable [ev] (if ok then None else Some WriteFailed) s s'"
  using assms put_accepts [of ev s s'] put_refuses [of ev s s'] put_durable [of ev s ok s']
  by (cases ok) (auto simp: delivered_def)

lemma commit_delivered:
  assumes "commit s = (ok, s')"
  shows "delivered accepted durable [] e s s'"
  using assms commit_accepts [of s ok s'] commit_grows [of s ok s'] by (auto simp: delivered_def)

end

text \<open>Canonical events are what the processor writes; \<open>put\<close> and \<open>commit\<close> are any sink's.\<close>

locale canonical_sink = event_sink put commit accepted durable failed
  for put :: "canonicalEvent \<Rightarrow> 's \<Rightarrow> bool \<times> 's" and commit accepted durable failed +
  fixes lo :: "string \<Rightarrow> string" and pr :: "nat \<Rightarrow> bool"
begin

lemma emitCanonical_wrote:
  assumes "emitCanonical put ev p = (e, p')"
  shows "wrote accepted durable [ev] e p p'" and "epAssembler p' = epAssembler p"
    and "epReplayWindow p' = epReplayWindow p"
proof -
  obtain ok s where w: "put ev (epSink p) = (ok, s)" by (cases "put ev (epSink p)")
  have "epSink p' = s \<and> e = (if ok then None else Some WriteFailed) \<and> epHost p' = epHost p \<and>
      epRenderMessage p' = epRenderMessage p \<and> epAssembler p' = epAssembler p \<and> epReplayWindow p' = epReplayWindow p"
    using assms w by (cases ok) (auto simp: emitCanonical_def tally_def update_def)
  with put_delivered [OF w]
  show "wrote accepted durable [ev] e p p'" and "epAssembler p' = epAssembler p"
    and "epReplayWindow p' = epReplayWindow p"
    by (simp_all add: wrote_def)
qed

lemma forEach_emit:
  assumes "forEach (emitCanonical put) evs p = (e, p')"
  shows "wrote accepted durable evs e p p' \<and> epAssembler p' = epAssembler p \<and> epReplayWindow p' = epReplayWindow p"
  using assms
proof (induction evs arbitrary: p)
  case Nil
  then show ?case by simp
next
  case (Cons ev evs)
  have step: "andThen (emitCanonical put ev) (forEach (emitCanonical put) evs) p = (e, p')"
    using Cons.prems by simp
  then have "wrote accepted durable ([ev] @ evs) e p p'"
    by (rule wrote_andThen) (use emitCanonical_wrote(1) Cons.IH in blast)+
  moreover from step have "epAssembler p' = epAssembler p \<and> epReplayWindow p' = epReplayWindow p"
    by (cases rule: andThen_cases) (use emitCanonical_wrote(2,3) Cons.IH in fastforce)+
  ultimately show ?case by simp
qed

text \<open>Emitting events is writing their outputs one after the other.\<close>

lemma emitEvent_outputs:
  "emitEvent put lo pr e p = forEach (emitCanonical put) (eventOutputs lo pr (epHost p) (epRenderMessage p) e) p"
  by (auto simp: emitEvent_def eventOutputs_def forEach_map Let_def andThen_def split: prod.split option.split)

lemma emit_outputs:
  "emit put lo pr es p = forEach (emitCanonical put) (eventsOutputs lo pr (epHost p) (epRenderMessage p) es) p"
proof (induction es arbitrary: p)
  case Nil
  then show ?case by (simp add: emit_def eventsOutputs_def)
next
  case (Cons x es)
  let ?out = "\<lambda>p. eventOutputs lo pr (epHost p) (epRenderMessage p) x"
  obtain e q where x: "forEach (emitCanonical put) (?out p) p = (e, q)"
    by (cases "forEach (emitCanonical put) (?out p) p")
  have same: "epHost q = epHost p" "epRenderMessage q = epRenderMessage p"
    using forEach_emit [OF x] by (simp_all add: wrote_def)
  have "emit put lo pr (x # es) p = andThen (emitEvent put lo pr x) (emit put lo pr es) p"
    by (simp add: emit_def)
  also have "\<dots> = andThen (forEach (emitCanonical put) (?out p))
      (forEach (emitCanonical put) (eventsOutputs lo pr (epHost p) (epRenderMessage p) es)) p"
    using x same Cons.IH by (simp add: andThen_def emitEvent_outputs split: option.split)
  finally show ?case by (simp add: eventsOutputs_def forEach_append)
qed

lemma emit_wrote:
  assumes "emit put lo pr es p = (e, p')"
  shows "wrote accepted durable (eventsOutputs lo pr (epHost p) (epRenderMessage p) es) e p p'"
    and "epAssembler p' = epAssembler p" and "epReplayWindow p' = epReplayWindow p"
  using forEach_emit assms unfolding emit_outputs by blast+

lemma emitExpired_wrote:
  assumes "emitExpired put lo pr now p = (e, p')"
  shows "wrote accepted durable (eventsOutputs lo pr (epHost p) (epRenderMessage p) (snd (FlushExpired now (epAssembler p)))) e p p'"
    and "epAssembler p' = fst (FlushExpired now (epAssembler p))"
  using assms emit_wrote [of "snd (FlushExpired now (epAssembler p))" "p\<lparr>epAssembler := fst (FlushExpired now (epAssembler p))\<rparr>" e p']
  by (simp_all add: emitExpired_def split: prod.splits)

lemma flushAll_wrote:
  assumes "flushAll put lo pr c p = (e, p')"
  shows "wrote accepted durable (eventsOutputs lo pr (epHost p) (epRenderMessage p) (snd (FlushAllWith c (epAssembler p)))) e p p'"
    and "epAssembler p' = fst (FlushAllWith c (epAssembler p))"
  using assms emit_wrote [of "snd (FlushAllWith c (epAssembler p))" "p\<lparr>epAssembler := fst (FlushAllWith c (epAssembler p))\<rparr>" e p']
  by (simp_all add: flushAll_def split: prod.splits)

lemma rejectPending_wrote:
  assumes "rejectPending put lo pr now pre source p = (e, p')"
  shows "wrote accepted durable (eventsOutputs lo pr (epHost p) (epRenderMessage p)
       (snd (RejectPhysicalLine pr pre source now (epAssembler p)))) e p p'"
    and "epAssembler p' = fst (RejectPhysicalLine pr pre source now (epAssembler p))"
  using assms emit_wrote [of "snd (RejectPhysicalLine pr pre source now (epAssembler p))"
      "p\<lparr>epAssembler := fst (RejectPhysicalLine pr pre source now (epAssembler p))\<rparr>" e p']
  by (simp_all add: rejectPending_def split: prod.splits)

section \<open>Lines\<close>

text \<open>Reporting and writing one event at the end of an operation.\<close>

lemma report_emit:
  assumes "andThen (report entry) (\<lambda>p. emitCanonical put (ev p) p) p = (e, p')" and "\<And>d. ev (p\<lparr>epDiagnostics := d\<rparr>) = ev p"
  shows "wrote accepted durable [ev p] e p p' \<and> epAssembler p' = epAssembler p"
  using assms(1)
proof (cases rule: andThen_cases)
  case (failed c)
  with wrote_stopped [OF report_wrote [OF failed(1)], of accepted durable "[ev p]"] report_result [OF failed(1)]
  show ?thesis by auto
next
  case (passed u)
  from report_result [OF passed(1)] obtain d where u: "u = p\<lparr>epDiagnostics := d\<rparr>" by blast
  with emitCanonical_wrote [OF passed(2)] wrote_trans [OF report_wrote [OF passed(1)]] assms(2)
  show ?thesis by fastforce
qed

lemma addRecord_wrote:
  assumes "addRecord put lo pr now source r p = (e, p')" and "AddRecovering r now (epAssembler p) = (a, es, limit)"
  shows "wrote accepted durable (eventsOutputs lo pr (epHost p) (epRenderMessage p) es) e p p' \<and> epAssembler p' = a"
proof (cases limit)
  case None
  with assms have "emit put lo pr es (p\<lparr>epAssembler := a\<rparr>) = (e, p')" by (simp add: addRecord_def)
  from emit_wrote [OF this] show ?thesis by simp
next
  case (Some l)
  let ?p = "p\<lparr>epAssembler := a\<rparr>"
  let ?entry = "AssemblerLimitExceeded l (limitName (leLimit l)) source (RejectionTracking a)"
  from assms Some obtain q where t: "tally (\<lambda>c. c\<lparr>ocAssemblerLimits := ocAssemblerLimits c + 1\<rparr>) ?p = (None, q)"
    and rest: "andThen (report ?entry) (emit put lo pr es) q = (e, p')"
    by (auto simp: addRecord_def andThen_def tally_def update_def split: prod.splits option.splits)
  have q: "epHost q = epHost p" "epRenderMessage q = epRenderMessage p" "epAssembler q = a"
    using tally_result [OF t] by simp_all
  have w: "wrote accepted durable [] None p q" using tally_wrote [OF t] by simp
  from rest show ?thesis
  proof (cases rule: andThen_cases)
    case (failed c)
    then have "wrote accepted durable [] e p p'" using wrote_trans [OF w report_wrote] by fastforce
    then show ?thesis
      using wrote_stopped [of accepted durable "[]" c p p'] failed q(3) report_result [OF failed(1)] by auto
  next
    case (passed u)
    have u: "epHost u = epHost p" "epRenderMessage u = epRenderMessage p" "epAssembler u = a"
      using report_result [OF passed(1)] q by auto
    have "wrote accepted durable [] None p u"
      using wrote_trans [OF w report_wrote [OF passed(1)]] by simp
    from wrote_trans [OF this emit_wrote(1) [OF passed(2)]] emit_wrote(2) [OF passed(2)] u
    show ?thesis by simp
  qed
qed

lemma addMalformed_wrote:
  assumes "addMalformed put lo pr now line err p = (e, p')" and "FlushExpired now (epAssembler p) = (a, es)"
  shows "wrote accepted durable (eventsOutputs lo pr (epHost p) (epRenderMessage p) es @
       [BuildParseFailureEvent line (parseErrorText pr err) (epHost p)]) e p p' \<and> epAssembler p' = a"
  using assms(1) unfolding addMalformed_def
proof (cases rule: andThen_cases)
  case (failed c)
  with emitExpired_wrote [OF failed(1)] assms(2) show ?thesis by (simp add: wrote_stopped)
next
  case (passed u)
  have w: "wrote accepted durable (eventsOutputs lo pr (epHost p) (epRenderMessage p) es) None p u" "epAssembler u = a"
    using emitExpired_wrote [OF passed(1)] assms(2) by simp_all
  obtain v where v: "tally (\<lambda>c. c\<lparr>ocParseFailures := ocParseFailures c + 1\<rparr>) u = (None, v)"
    and rest: "andThen (report (ParseFailureSeen (parseErrorText pr err)))
       (\<lambda>p. emitCanonical put (BuildParseFailureEvent line (parseErrorText pr err) (epHost p)) p) v = (e, p')"
    using passed(2) by (auto simp: andThen_def tally_def update_def split: prod.splits option.splits)
  have same: "epHost v = epHost p" "epAssembler v = a"
    using tally_result [OF v] w by (simp_all add: wrote_def)
  from report_emit [OF rest] same
  have "wrote accepted durable [BuildParseFailureEvent line (parseErrorText pr err) (epHost p)] e v p'" "epAssembler p' = a"
    by simp_all
  with wrote_trans [OF w(1) wrote_trans [OF tally_wrote [OF v]]] show ?thesis by simp
qed

lemma addSourceLine_wrote:
  assumes "addSourceLine put lo pr now line source p = (e, p')"
  shows "wrote accepted durable (snd (lineOutputs lo pr (epHost p) (epRenderMessage p) now line source (epAssembler p))) e p p'"
    and "epAssembler p' = fst (lineOutputs lo pr (epHost p) (epRenderMessage p) now line source (epAssembler p))"
proof -
  let ?bytes = "if spValid source \<and> 0 < spBytes source then spBytes source else int (length line) + 1"
  let ?f = "\<lambda>c. c\<lparr>ocInputLines := ocInputLines c + 1, ocInputBytes := ocInputBytes c + word_of_int ?bytes\<rparr>"
  obtain q where q: "tally ?f p = (None, q)"
    and rest: "(case ParseRecord pr line of
              Inl err \<Rightarrow> addMalformed put lo pr now line err
            | Inr r \<Rightarrow> addRecord put lo pr now source (sourcedRecord source r)) q = (e, p')"
    using assms by (auto simp: addSourceLine_def Let_def andThen_def tally_def update_def)
  have same: "epHost q = epHost p" "epRenderMessage q = epRenderMessage p" "epAssembler q = epAssembler p"
    using tally_result [OF q] by simp_all
  have "wrote accepted durable (snd (lineOutputs lo pr (epHost p) (epRenderMessage p) now line source (epAssembler p))) e q p' \<and>
      epAssembler p' = fst (lineOutputs lo pr (epHost p) (epRenderMessage p) now line source (epAssembler p))"
  proof (cases "ParseRecord pr line")
    case (Inl err)
    obtain a es where f: "FlushExpired now (epAssembler p) = (a, es)" by (cases "FlushExpired now (epAssembler p)")
    with addMalformed_wrote [of now line err q e p' a es] rest Inl same show ?thesis by (simp add: lineOutputs_def)
  next
    case (Inr r)
    obtain a es limit where f: "AddRecovering (sourcedRecord source r) now (epAssembler p) = (a, es, limit)"
      by (cases "AddRecovering (sourcedRecord source r) now (epAssembler p)")
    with addRecord_wrote [of now source "sourcedRecord source r" q e p' a es limit] rest Inr same
    show ?thesis by (simp add: lineOutputs_def)
  qed
  with wrote_trans [OF tally_wrote [OF q]]
  show "wrote accepted durable (snd (lineOutputs lo pr (epHost p) (epRenderMessage p) now line source (epAssembler p))) e p p'"
    and "epAssembler p' = fst (lineOutputs lo pr (epHost p) (epRenderMessage p) now line source (epAssembler p))"
    by fastforce+
qed

lemma rejectLine_wrote:
  assumes "rejectLine put lo pr now later pre totalBytes source p = (e, p')"
  shows "wrote accepted durable (snd (rejectedOutputs lo pr (epHost p) (epRenderMessage p) now later pre totalBytes source (epAssembler p))) e p p'"
    and "e = None \<Longrightarrow> epAssembler p' = fst (rejectedOutputs lo pr (epHost p) (epRenderMessage p) now later pre totalBytes source (epAssembler p))"
proof -
  let ?omitted = "totalBytes - int (length pre)"
  let ?f = "\<lambda>c. c\<lparr>ocInputLines := ocInputLines c + 1, ocInputBytes := ocInputBytes c + word_of_int totalBytes,
                   ocLineLimits := ocLineLimits c + 1\<rparr>"
  let ?last = "\<lambda>p. emitCanonical put (lineException pre ?omitted (epHost p)) p"
  obtain a1 es1 where f1: "FlushExpired now (epAssembler p) = (a1, es1)" by (cases "FlushExpired now (epAssembler p)")
  obtain a2 es2 where f2: "RejectPhysicalLine pr pre source later a1 = (a2, es2)" by (cases "RejectPhysicalLine pr pre source later a1")
  have outs: "rejectedOutputs lo pr (epHost p) (epRenderMessage p) now later pre totalBytes source (epAssembler p) =
      (a2, eventsOutputs lo pr (epHost p) (epRenderMessage p) es1 @ eventsOutputs lo pr (epHost p) (epRenderMessage p) es2 @
        [lineException pre ?omitted (epHost p)])"
    by (simp add: rejectedOutputs_def f1 f2)
  have "wrote accepted durable (eventsOutputs lo pr (epHost p) (epRenderMessage p) es1 @ ([] @ ([] @
      (eventsOutputs lo pr (epHost p) (epRenderMessage p) es2 @ [lineException pre ?omitted (epHost p)])))) e p p' \<and>
      (e = None \<longrightarrow> epAssembler p' = a2)"
    using assms unfolding rejectLine_def Let_def
  proof (cases rule: andThen_cases)
    case (failed c)
    with emitExpired_wrote(1) [OF failed(1)] f1 show ?thesis by (auto intro: wrote_stopped)
  next
    case (passed u)
    have w1: "wrote accepted durable (eventsOutputs lo pr (epHost p) (epRenderMessage p) es1) None p u" "epAssembler u = a1"
      using emitExpired_wrote [OF passed(1)] f1 by simp_all
    obtain v where v: "tally ?f u = (None, v)"
      and rest: "andThen (report (LineLimitExceeded totalBytes (length pre) ?omitted source))
               (andThen (rejectPending put lo pr later pre source) ?last) v = (e, p')"
      using passed(2) by (auto simp: andThen_def tally_def update_def)
    have sv: "epHost v = epHost p" "epRenderMessage v = epRenderMessage p" "epAssembler v = a1"
      using tally_result [OF v] w1 by (simp_all add: wrote_def)
    have "wrote accepted durable ([] @ (eventsOutputs lo pr (epHost p) (epRenderMessage p) es2 @ [lineException pre ?omitted (epHost p)])) e v p' \<and>
        (e = None \<longrightarrow> epAssembler p' = a2)"
      using rest
    proof (cases rule: andThen_cases)
      case (failed c)
      with wrote_stopped [OF report_wrote [OF failed(1)]] show ?thesis by simp
    next
      case (passed x)
      have sx: "epHost x = epHost p" "epRenderMessage x = epRenderMessage p" "epAssembler x = a1"
        using report_result [OF passed(1)] sv by auto
      have "wrote accepted durable (eventsOutputs lo pr (epHost p) (epRenderMessage p) es2 @ [lineException pre ?omitted (epHost p)]) e x p' \<and>
          (e = None \<longrightarrow> epAssembler p' = a2)"
        using passed(2)
      proof (cases rule: andThen_cases)
        case (failed c)
        with rejectPending_wrote(1) [OF failed(1)] sx f2 show ?thesis by (auto intro: wrote_stopped)
      next
        case (passed y)
        note w = rejectPending_wrote [OF passed(1)]
        have "epHost y = epHost p" using w(1) sx by (simp add: wrote_def)
        with wrote_trans [OF w(1) emitCanonical_wrote(1) [OF passed(2)]] emitCanonical_wrote(2) [OF passed(2)] w(2) sx f2
        show ?thesis by simp
      qed
      with wrote_trans [OF report_wrote [OF passed(1)]] show ?thesis by blast
    qed
    then show ?thesis using wrote_trans [OF w1(1) wrote_trans [OF tally_wrote [OF v]]] by fastforce
  qed
  then show "wrote accepted durable (snd (rejectedOutputs lo pr (epHost p) (epRenderMessage p) now later pre totalBytes source (epAssembler p))) e p p'"
    and "e = None \<Longrightarrow> epAssembler p' = fst (rejectedOutputs lo pr (epHost p) (epRenderMessage p) now later pre totalBytes source (epAssembler p))"
    by (simp_all add: outs)
qed

end

text \<open>The NDJSON sink, for every character table of the runtime.\<close>

interpretation ndjsonOut: canonical_sink Write Commit sinkAccepted sinkCommitted snFailed lo pr for lo pr
  by unfold_locales

end
