(* ===== verification/Accounting.thy ===== *)
theory Accounting
  imports ProcessorProperties FollowLoop AssemblerProgress
begin

text \<open>
  What becomes of a line: it is accounted for in a list of canonical events, or its record is still
  pending in the assembler; and what the assembler's positions are bounded by. Both are kept by
  every operation of the processor.
\<close>

section \<open>Records\<close>

text \<open>A record is reported when all outputs of an event that holds it are among the events.\<close>

definition reported ::
  "(string \<Rightarrow> string) \<Rightarrow> (nat \<Rightarrow> bool) \<Rightarrow> string \<Rightarrow> bool \<Rightarrow> canonicalEvent list \<Rightarrow> auditRecord \<Rightarrow> bool" where
  "reported lo pr host render outs r \<longleftrightarrow>
     (\<exists>e. r \<in> set (aeRecords e) \<and> set (eventOutputs lo pr host render e) \<subseteq> set outs)"

text \<open>An end-of-event marker carries no evidence of its own.\<close>

definition recordKept ::
  "(string \<Rightarrow> string) \<Rightarrow> (nat \<Rightarrow> bool) \<Rightarrow> string \<Rightarrow> bool \<Rightarrow> canonicalEvent list \<Rightarrow> assembler \<Rightarrow> auditRecord \<Rightarrow> bool" where
  "recordKept lo pr host render outs a r \<longleftrightarrow>
     rType r = ''EOE'' \<or> reported lo pr host render outs r \<or> r \<in># pendingRecords a"

lemma reported_mono: "reported lo pr host render outs r \<Longrightarrow> set outs \<subseteq> set outs' \<Longrightarrow> reported lo pr host render outs' r"
  unfolding reported_def by blast

lemma reported_emitted:
  assumes "r \<in># eventRecords es" and "set (eventsOutputs lo pr host render es) \<subseteq> set outs"
  shows "reported lo pr host render outs r"
proof -
  obtain e where "e \<in> set es" "r \<in> set (aeRecords e)" using assms(1) by (auto simp: eventRecords_def)
  moreover from this have "set (eventOutputs lo pr host render e) \<subseteq> set outs"
    using assms(2) by (auto simp: eventsOutputs_def)
  ultimately show ?thesis unfolding reported_def by blast
qed

text \<open>A step of the assembler that conserves records, its events being written.\<close>

lemma recordKept_step:
  assumes "eventRecords es + pendingRecords a' + lost = new + pendingRecords a"
    and "lost = {#} \<or> (\<exists>r. lost = {#r#} \<and> rType r = ''EOE'')"
    and "set (eventsOutputs lo pr host render es) \<subseteq> set outs'" and "set outs \<subseteq> set outs'"
    and "recordKept lo pr host render outs a r \<or> r \<in># new"
  shows "recordKept lo pr host render outs' a' r"
proof (cases "rType r = ''EOE'' \<or> reported lo pr host render outs r")
  case True
  with assms(4) show ?thesis using reported_mono unfolding recordKept_def by blast
next
  case False
  with assms(5) have "r \<in># new + pendingRecords a" by (auto simp: recordKept_def)
  then have "r \<in># eventRecords es \<or> r \<in># pendingRecords a' \<or> r \<in># lost"
    unfolding assms(1) [symmetric] by auto
  moreover have "r \<notin># lost" using assms(2) False by auto
  ultimately show ?thesis using reported_emitted assms(3) unfolding recordKept_def by blast
qed

section \<open>Lines\<close>

definition lineRecord :: "(nat \<Rightarrow> bool) \<Rightarrow> sourceLine \<Rightarrow> auditRecord option" where
  "lineRecord pr l =
     (if 0 < slOmittedBytes l then None
      else case ParseRecord pr (slText l) of Inl err \<Rightarrow> None | Inr r \<Rightarrow> Some (sourcedRecord (lineSource l) r))"

text \<open>The event a line without a record is written as.\<close>

definition lineEvent :: "(nat \<Rightarrow> bool) \<Rightarrow> string \<Rightarrow> sourceLine \<Rightarrow> canonicalEvent" where
  "lineEvent pr host l =
     (if 0 < slOmittedBytes l
      then lineException (slText l) (int (slSourceBytes l) - int (length (slText l))) host
      else case ParseRecord pr (slText l) of
             Inl err \<Rightarrow> BuildParseFailureEvent (slText l) (parseErrorText pr err) host
           | Inr r \<Rightarrow> emptyEvent)"

definition lineAccounted ::
  "(string \<Rightarrow> string) \<Rightarrow> (nat \<Rightarrow> bool) \<Rightarrow> string \<Rightarrow> bool \<Rightarrow> canonicalEvent list \<Rightarrow> sourceLine \<Rightarrow> bool" where
  "lineAccounted lo pr host render outs l \<longleftrightarrow>
     (case lineRecord pr l of
        None \<Rightarrow> lineEvent pr host l \<in> set outs
      | Some r \<Rightarrow> rType r = ''EOE'' \<or> reported lo pr host render outs r)"

definition linePending :: "(nat \<Rightarrow> bool) \<Rightarrow> assembler \<Rightarrow> sourceLine \<Rightarrow> bool" where
  "linePending pr a l \<longleftrightarrow> (case lineRecord pr l of None \<Rightarrow> False | Some r \<Rightarrow> r \<in># pendingRecords a)"

definition lineKept ::
  "(string \<Rightarrow> string) \<Rightarrow> (nat \<Rightarrow> bool) \<Rightarrow> string \<Rightarrow> bool \<Rightarrow> canonicalEvent list \<Rightarrow> assembler \<Rightarrow> sourceLine \<Rightarrow> bool" where
  "lineKept lo pr host render outs a l \<longleftrightarrow> lineAccounted lo pr host render outs l \<or> linePending pr a l"

lemma lineAccounted_mono:
  "lineAccounted lo pr host render outs l \<Longrightarrow> set outs \<subseteq> set outs' \<Longrightarrow> lineAccounted lo pr host render outs' l"
  using reported_mono by (fastforce simp: lineAccounted_def split: option.splits)

lemma lineKept_record:
  "lineRecord pr l = Some r \<Longrightarrow> lineKept lo pr host render outs a l \<longleftrightarrow> recordKept lo pr host render outs a r"
  by (auto simp: lineKept_def lineAccounted_def linePending_def recordKept_def)

lemma lineKept_step:
  assumes "eventRecords es + pendingRecords a' + lost = new + pendingRecords a"
    and "lost = {#} \<or> (\<exists>r. lost = {#r#} \<and> rType r = ''EOE'')"
    and "set (eventsOutputs lo pr host render es) \<subseteq> set outs'" and "set outs \<subseteq> set outs'"
    and "lineKept lo pr host render outs a l"
  shows "lineKept lo pr host render outs' a' l"
proof (cases "lineRecord pr l")
  case None
  with assms(5) have "lineAccounted lo pr host render outs l" by (simp add: lineKept_def linePending_def)
  with assms(4) lineAccounted_mono show ?thesis by (simp add: lineKept_def)
next
  case (Some r)
  with assms show ?thesis using recordKept_step [OF assms(1-4)] by (simp add: lineKept_record)
qed

text \<open>With nothing pending every kept line is accounted for.\<close>

lemma lineKept_empty: "asPending a = [] \<Longrightarrow> lineKept lo pr host render outs a l \<longleftrightarrow> lineAccounted lo pr host render outs l"
  by (simp add: lineKept_def linePending_def pendingRecords_def split: option.split)

lemma lineSource_simps [simp]:
  "spValid (lineSource l)" "spStart (lineSource l) = slStart l" "spEnd (lineSource l) = slStart l"
  "spGeneration (lineSource l) = slStartGeneration l" "spBytes (lineSource l) = int (slSourceBytes l)"
  by (simp_all add: lineSource_def)

lemma lineRecord_source:
  "lineRecord pr l = Some r \<Longrightarrow> rSource r = lineSource l \<and> 0 \<le> rSourceBytes r"
  by (auto simp: lineRecord_def sourcedRecord_def split: if_splits sum.splits)

section \<open>Positions\<close>

definition boundedBy :: "(sourcePosition \<Rightarrow> bool) \<Rightarrow> sourcePosition \<Rightarrow> bool" where
  "boundedBy P p \<longleftrightarrow> (spValid p \<longrightarrow> P p)"

text \<open>Every position the assembler holds, and the two parts the fence keeps.\<close>

definition heldBounded :: "(sourcePosition \<Rightarrow> bool) \<Rightarrow> assembler \<Rightarrow> bool" where
  "heldBounded P a \<longleftrightarrow> (\<forall>p \<in> set (heldPositions a). boundedBy P p)"

definition fenceBounded :: "(sourcePosition \<Rightarrow> bool) \<Rightarrow> assembler \<Rightarrow> bool" where
  "fenceBounded P a \<longleftrightarrow> (\<forall>e \<in> set (asRejected a). boundedBy P (rjSource (snd e))) \<and> boundedBy P (asSpillSource a)"

lemma heldBounded_parts:
  "heldBounded P a \<longleftrightarrow> (\<forall>r \<in># pendingRecords a. boundedBy P (rSource r)) \<and> fenceBounded P a"
  by (auto simp: heldBounded_def fenceBounded_def heldPositions_def pendingRecords_def)

lemma boundedBy_none [simp]: "boundedBy P noPosition"
  by (simp add: boundedBy_def noPosition_def)

lemma fenceBounded_cong:
  "asRejected b = asRejected a \<Longrightarrow> asSpillSource b = asSpillSource a \<Longrightarrow> fenceBounded P b = fenceBounded P a"
  by (simp add: fenceBounded_def)

lemma set_update_subset: "set (AList.update k v xs) \<subseteq> insert (k, v) (set xs)"
  by (induction xs) auto

lemma fenceBounded_startSpill:
  "fenceBounded P a \<Longrightarrow> boundedBy P source \<Longrightarrow> fenceBounded P (startSpill now source a)"
  by (auto simp: fenceBounded_def startSpill_def Let_def)

lemma fenceBounded_track:
  "fenceBounded P a \<Longrightarrow> boundedBy P source \<Longrightarrow> fenceBounded P (trackRejected k source now a)"
  using set_update_subset by (fastforce simp: fenceBounded_def trackRejected_def)

lemma fenceBounded_touch:
  "fenceBounded P a \<Longrightarrow> map_of (asRejected a) k = Some rj \<Longrightarrow> fenceBounded P (touchRejected k rj now a)"
  using set_update_subset map_of_SomeD by (fastforce simp: fenceBounded_def touchRejected_def)

lemma fenceBounded_drop: "fenceBounded P a \<Longrightarrow> fenceBounded P (dropRejected k rj a)"
  by (auto simp: fenceBounded_def dropRejected_def AList.delete_eq)

lemma fenceBounded_isolate:
  "fenceBounded P a \<Longrightarrow> boundedBy P s1 \<Longrightarrow> boundedBy P s2 \<Longrightarrow> fenceBounded P (isolateKey k s1 s2 now a)"
  by (simp add: isolateKey_def fenceBounded_track fenceBounded_startSpill)

lemma fenceBounded_fenced:
  "fenceBounded P a \<Longrightarrow> boundedBy P s1 \<Longrightarrow> boundedBy P s2 \<Longrightarrow> fenceBounded P (fenced r s1 s2 now a)"
  by (simp add: fenced_def fenceBounded_isolate)

lemma fenceBounded_frame [simp]:
  "fenceBounded P (bumped a) = fenceBounded P a" "fenceBounded P (marked r a) = fenceBounded P a"
  "fenceBounded P (dropEntries Q a) = fenceBounded P a" "fenceBounded P (dropKey k a) = fenceBounded P a"
  by (simp_all add: fenceBounded_def dropKey_def)

lemma fenceBounded_dropAll: "fenceBounded P a \<Longrightarrow> fenceBounded P (dropAll es a)"
  by (induction es arbitrary: a) (auto simp: fenceBounded_drop)

lemma fenceBounded_expire: "fenceBounded P a \<Longrightarrow> fenceBounded P (expireRejected now a)"
  using fenceBounded_dropAll [of P a] by (auto simp: expireRejected_def Let_def fenceBounded_def)

lemma fenceBounded_addAt:
  assumes "asmInv a" and "0 \<le> rSourceBytes r" and "addAt r now a = (a', out)" and "fenceBounded P a"
  shows "fenceBounded P a'"
  using assms(1-3)
proof (cases rule: addAt_cases)
  case (added a2 p2 a3 ready)
  have "asRejected a2 = asRejected a" "asSpillSource a2 = asSpillSource a"
    using growth_frame [OF added(1)] by simp_all
  moreover have "asRejected a3 = asRejected a2" "asSpillSource a3 = asSpillSource a2"
    using added(4) by (cases "terminalOutcome r (map_of (asPending a) (recordKey r) \<noteq> None)"; auto simp: closedBy_def)+
  ultimately show ?thesis using assms(4) added(6) by (simp add: fenceBounded_def)
qed (use assms(4) in simp_all)


lemma pending_bounded:
  assumes "heldBounded P a" and "map_of (asPending a) k = Some p" and "s \<in> set (peRecords p)"
  shows "boundedBy P (rSource s)"
  using assms map_of_SomeD [OF assms(2)]
  by (force simp: heldBounded_parts pendingRecords_def entryRecords_def)

lemma fenceBounded_admit:
  assumes inv: "asmInv a" and nn: "0 \<le> rSourceBytes r" and res: "admitRecovering r now a = (a', events, d)"
    and held: "heldBounded P a" and new: "boundedBy P (rSource r)"
  shows "fenceBounded P a'"
proof -
  have fence: "fenceBounded P a" using held by (simp add: heldBounded_parts)
  show ?thesis
    using inv res
  proof (cases rule: admitRecovering_cases)
    case (rejected rj)
    then show ?thesis using fence by (simp add: settled_def fenceBounded_drop fenceBounded_touch)
  next
    case admitted
    show ?thesis using inv nn admitted(2) fence by (rule fenceBounded_addAt)
  next
    case (group_limit p l src)
    have "boundedBy P src"
      using group_limit(4) pending_bounded [OF held group_limit(2)] new by (cases "peRecords p") auto
    with group_limit(5) fence show ?thesis by (simp add: fenceBounded_fenced)
  next
    case (new_limit l)
    then show ?thesis using fence new by (simp add: fenceBounded_fenced)
  next
    case spill
    have "boundedBy P (asSpillSource a)" using fence by (simp add: fenceBounded_def)
    with spill fence new show ?thesis by (simp add: fenceBounded_fenced)
  qed (use fence in simp)
qed

lemma heldBounded_records:
  assumes "heldBounded P a" and "fenceBounded P a'" and "boundedBy P (rSource r)"
    and "\<And>s. s \<in># pendingRecords a' \<Longrightarrow> s = r \<or> s \<in># pendingRecords a"
  shows "heldBounded P a'"
  using assms by (auto simp: heldBounded_parts)

lemma heldBounded_add:
  assumes inv: "asmInv a" and nn: "0 \<le> rSourceBytes r" and res: "AddRecovering r now a = (a', events, d)"
    and held: "heldBounded P a" and new: "boundedBy P (rSource r)"
  shows "heldBounded P a'"
proof -
  let ?d = "dropEntries (isExpired now a) a"
  let ?b = "expireRejected now ?d"
  obtain es where i2: "asmInv ?b" and ad: "admitRecovering r now ?b = (a', es, d)"
    using inv res by (rule AddRecovering_phases)
  have "pendingRecords ?b \<subseteq># pendingRecords a"
    by (metis expireRejected_records mset_subset_eq_add_right pendingRecords_drop)
  moreover have "fenceBounded P ?b"
    using held by (intro fenceBounded_expire) (simp add: heldBounded_parts)
  ultimately have "heldBounded P ?b"
    using held by (auto simp: heldBounded_parts dest: mset_subset_eqD)
  then have "fenceBounded P a'" using fenceBounded_admit [OF i2 nn ad] new by blast
  moreover obtain lost where "eventRecords events + pendingRecords a' + lost = add_mset r (pendingRecords a)"
    using AddRecovering_records [OF inv nn res] by blast
  then have "s = r \<or> s \<in># pendingRecords a" if "s \<in># pendingRecords a'" for s
    using that by (metis insert_iff set_mset_add_mset_insert union_iff)
  ultimately show ?thesis using held new by (intro heldBounded_records [of P a a' r])
qed

lemma heldBounded_expired:
  assumes "asmInv a" and "FlushExpired now a = (a', events)" and "heldBounded P a"
  shows "heldBounded P a'"
proof -
  have "fenceBounded P a'"
    using assms(2,3) by (auto simp: FlushExpired_closed [OF assms(1)] heldBounded_parts fenceBounded_expire)
  moreover have "s \<in># pendingRecords a" if "s \<in># pendingRecords a'" for s
    using FlushExpired_records [OF assms(1,2)] that by (metis union_iff)
  ultimately show ?thesis using assms(3) by (auto simp: heldBounded_parts)
qed

lemma heldBounded_flushed: "FlushAllWith c a = (a', events) \<Longrightarrow> heldBounded P a'"
  by (auto simp: heldBounded_parts FlushAllWith_closed pendingRecords_def fenceBounded_def)

lemma heldBounded_rejected:
  assumes inv: "asmInv a" and res: "RejectPhysicalLine pr pre source now a = (a', events)"
    and held: "heldBounded P a" and new: "boundedBy P source"
  shows "heldBounded P a'"
proof -
  have "s \<in># pendingRecords a" if "s \<in># pendingRecords a'" for s
    using RejectPhysicalLine_records [OF inv res] that by (metis union_iff)
  moreover have "fenceBounded P a'"
  proof (cases "rejectKey pr pre")
    case None
    obtain b es where f: "FlushAllWith CompletionLineLimit a = (b, es)" by (cases "FlushAllWith CompletionLineLimit a")
    with res None have "a' = startSpill now source b" by (simp add: RejectPhysicalLine_def)
    with heldBounded_flushed [OF f] new show ?thesis by (simp add: fenceBounded_startSpill heldBounded_parts)
  next
    case (Some key)
    obtain b es src where c: "closeForLine key source a = (b, es, src)" by (cases "closeForLine key source a")
    with res Some have a': "a' = fenceKey key src now b" by (simp add: RejectPhysicalLine_def)
    have "fenceBounded P b \<and> boundedBy P src"
    proof (cases "map_of (asPending a) key")
      case None
      with c held new show ?thesis by (auto simp: closeForLine_def heldBounded_parts)
    next
      case (Some p)
      have fin: "finish key p CompletionLineLimit False a =
          (dropEntries (\<lambda>e. fst e = key) a, closedEvent (key, p) CompletionLineLimit False)"
        using finish_drop [OF pendingInv_wf [OF asmInvD(1) [OF inv]] Some] .
      obtain q ev where ev: "closedEvent (key, p) CompletionLineLimit False = (q, ev)"
        by (cases "closedEvent (key, p) CompletionLineLimit False")
      then have "aeRecords ev = peRecords p" using closedEvent_records [of "(key, p)" CompletionLineLimit False] by simp
      with c Some fin [unfolded ev] held new pending_bounded [OF held Some]
      show ?thesis by (auto simp: closeForLine_def heldBounded_parts split: list.splits)
    qed
    then show ?thesis
      by (auto simp: a' fenceKey_def fenceBounded_touch fenceBounded_track fenceBounded_startSpill split: option.split)
  qed
  ultimately show ?thesis using held by (auto simp: heldBounded_parts)
qed

text \<open>The safe position: a lower bound of what is held, and itself held or the fallback.\<close>

lemma safe_member:
  "SafeSourcePosition fallback a = fallback \<or>
     (\<exists>p \<in> set (heldPositions a). spValid p \<and> SafeSourcePosition fallback a = atStart p)" if "spValid fallback"
proof -
  have v: "spValid (SafeSourcePosition fallback a)"
    unfolding SafeSourcePosition_fold startOrder.earliest_valid using that by blast
  have "SafeSourcePosition fallback a \<in> insert fallback (set (map atStart (heldPositions a)))"
    unfolding SafeSourcePosition_fold by (rule startOrder.earliest_member)
  with v show ?thesis by auto
qed

lemma safe_fallback: "spValid fallback \<Longrightarrow> \<not> sourcePositionBefore fallback (SafeSourcePosition fallback a)"
  unfolding SafeSourcePosition_fold by (rule startOrder.earliest_start)

lemma safe_flat:
  assumes "spValid fallback" and "spStart fallback = spEnd fallback"
  shows "spValid (SafeSourcePosition fallback a)"
    and "spEnd (SafeSourcePosition fallback a) = spStart (SafeSourcePosition fallback a)"
  using safe_member [OF assms(1), of a] assms by (auto simp: atStart_def)

end
