(* ===== verification/FollowProcessor.thy ===== *)
theory FollowProcessor
  imports FollowAligned Accounting
begin

text \<open>
  The processor inside the follow loop: every line handed to it is accounted for in what the sink
  accepted or still pending, and every position its assembler holds satisfies a bound. The facts
  are proved for any services whose sink is an event sink.
\<close>

section \<open>The invariant\<close>

definition processorInv ::
  "('s \<Rightarrow> canonicalEvent list) \<Rightarrow> 's services \<Rightarrow> string \<Rightarrow> bool \<Rightarrow> (sourcePosition \<Rightarrow> bool) \<Rightarrow> sourceLine list
     \<Rightarrow> 's eventProcessor \<Rightarrow> bool" where
  "processorInv acc svc host render P C p \<longleftrightarrow>
     epHost p = host \<and> epRenderMessage p = render \<and> asmInv (epAssembler p) \<and> heldBounded P (epAssembler p) \<and>
     (\<forall>l \<in> set C. lineKept (svcLower svc) (svcPrint svc) host render (acc (epSink p)) (epAssembler p) l)"

text \<open>What an action that fails leaves: the durable events have only grown.\<close>

definition durableGrows :: "('s \<Rightarrow> canonicalEvent list) \<Rightarrow> 's eventProcessor \<Rightarrow> 's eventProcessor \<Rightarrow> bool" where
  "durableGrows dur p p' \<longleftrightarrow>
     prefix (dur (epSink p)) (dur (epSink p')) \<and> epHost p' = epHost p \<and> epRenderMessage p' = epRenderMessage p"

lemma wrote_durable: "wrote acc dur outs e p p' \<Longrightarrow> durableGrows dur p p'"
  by (simp add: wrote_def delivered_def durableGrows_def)

interpretation durableEffect: effect "durableGrows dur" for dur
  by unfold_locales (auto simp: durableGrows_def elim: prefix_order.trans)

lemma processorInv_diagnostics [simp]:
  "processorInv acc svc host render P C (p\<lparr>epDiagnostics := d\<rparr>) = processorInv acc svc host render P C p"
  "processorInv acc svc host render P C (p\<lparr>epReplayWindow := b\<rparr>) = processorInv acc svc host render P C p"
  by (simp_all add: processorInv_def)

lemma durableGrows_diagnostics [simp]:
  "durableGrows dur p (q\<lparr>epDiagnostics := d\<rparr>) = durableGrows dur p q"
  "durableGrows dur p (q\<lparr>epReplayWindow := b\<rparr>) = durableGrows dur p q"
  by (simp_all add: durableGrows_def)

lemma heldBounded_mono: "heldBounded P a \<Longrightarrow> (\<And>p. P p \<Longrightarrow> Q p) \<Longrightarrow> heldBounded Q a"
  by (auto simp: heldBounded_def boundedBy_def)

text \<open>A step of the assembler whose events have all been written, on the lines seen so far.\<close>

lemma processorInv_step:
  assumes inv: "processorInv acc svc host render P C p" and w: "wrote acc dur outs None p p'"
    and held: "heldBounded P' (epAssembler p')" and asm: "asmInv (epAssembler p')"
    and records: "eventRecords es + pendingRecords (epAssembler p') + lost = new + pendingRecords (epAssembler p)"
    and lost: "lost = {#} \<or> (\<exists>r. lost = {#r#} \<and> rType r = ''EOE'')"
    and outs: "set (eventsOutputs (svcLower svc) (svcPrint svc) host render es) \<subseteq> set outs"
  shows "processorInv acc svc host render P' C p'"
proof -
  let ?kept = "lineKept (svcLower svc) (svcPrint svc) host render"
  have grow: "acc (epSink p') = acc (epSink p) @ outs"
    and same: "epHost p' = host" "epRenderMessage p' = render"
    using w inv by (simp_all add: wrote_def delivered_def processorInv_def)
  have "?kept (acc (epSink p')) (epAssembler p') l" if "l \<in> set C" for l
  proof (rule lineKept_step [OF records lost])
    show "?kept (acc (epSink p)) (epAssembler p) l" using inv that by (simp add: processorInv_def)
  qed (use outs grow in auto)
  with same asm held show ?thesis by (simp add: processorInv_def)
qed

section \<open>Over any sink\<close>

locale follow_services = canonical_sink "svcPut svc" "svcCommit svc" accepted durable failed "svcLower svc" "svcPrint svc"
  for svc :: "'s services" and accepted :: "'s \<Rightarrow> canonicalEvent list" and durable and failed
begin

abbreviation (input) inv where "inv \<equiv> processorInv accepted svc"

lemma emitExpired_inv:
  assumes "inv host render P C p" and "emitExpired (svcPut svc) (svcLower svc) (svcPrint svc) now p = (e, p')"
  shows "durableGrows durable p p' \<and> (e = None \<longrightarrow> inv host render P C p')"
proof -
  note w = emitExpired_wrote [OF assms(2)]
  obtain a es where f: "FlushExpired now (epAssembler p) = (a, es)" by (cases "FlushExpired now (epAssembler p)")
  have asm: "asmInv (epAssembler p)" and held: "heldBounded P (epAssembler p)"
    and same: "epHost p = host" "epRenderMessage p = render"
    using assms(1) by (simp_all add: processorInv_def)
  have "inv host render P C p'" if "e = None"
  proof (rule processorInv_step [OF assms(1), where es = es and lost = "{#}" and new = "{#}"])
    show "wrote accepted durable (eventsOutputs (svcLower svc) (svcPrint svc) host render es) None p p'"
      using w(1) f same that by simp
    show "heldBounded P (epAssembler p')" using heldBounded_expired [OF asm f held] w(2) f by simp
    show "asmInv (epAssembler p')" using FlushExpired_inv [OF asm f] w(2) f by simp
    show "eventRecords es + pendingRecords (epAssembler p') + {#} = {#} + pendingRecords (epAssembler p)"
      using FlushExpired_records [OF asm f] w(2) f by simp
  qed simp_all
  with wrote_durable [OF w(1)] show ?thesis by blast
qed

lemma flushAll_inv:
  assumes "inv host render P C p" and "flushAll (svcPut svc) (svcLower svc) (svcPrint svc) c p = (e, p')"
  shows "durableGrows durable p p' \<and>
     (e = None \<longrightarrow> inv host render Q C p' \<and> asPending (epAssembler p') = [])"
proof -
  note w = flushAll_wrote [OF assms(2)]
  obtain a es where f: "FlushAllWith c (epAssembler p) = (a, es)" by (cases "FlushAllWith c (epAssembler p)")
  have asm: "asmInv (epAssembler p)" and same: "epHost p = host" "epRenderMessage p = render"
    using assms(1) by (simp_all add: processorInv_def)
  have none: "asPending (epAssembler p') = []" using FlushAllWith_records [OF f] w(2) f by simp
  have "inv host render Q C p'" if "e = None"
  proof (rule processorInv_step [OF assms(1), where es = es and lost = "{#}" and new = "{#}"])
    show "wrote accepted durable (eventsOutputs (svcLower svc) (svcPrint svc) host render es) None p p'"
      using w(1) f same that by simp
    show "heldBounded Q (epAssembler p')" using heldBounded_flushed [OF f] w(2) f by simp
    show "asmInv (epAssembler p')" using FlushAllWith_inv [OF asm f] w(2) f by simp
    show "eventRecords es + pendingRecords (epAssembler p') + {#} = {#} + pendingRecords (epAssembler p)"
      using FlushAllWith_records [OF f] none by (simp add: pendingRecords_def)
  qed simp_all
  with none wrote_durable [OF w(1)] show ?thesis by blast
qed

lemma addLine_inv:
  assumes "inv host render P C p" and "boundedBy P (lineSource l)" and fits: "slOmittedBytes l = 0"
    and "addSourceLine (svcPut svc) (svcLower svc) (svcPrint svc) now (slText l) (lineSource l) p = (e, p')"
  shows "durableGrows durable p p' \<and> (e = None \<longrightarrow> inv host render P (C @ [l]) p')"
proof -
  let ?kept = "lineKept (svcLower svc) (svcPrint svc) host render"
  note w = addSourceLine_wrote [OF assms(4)]
  have asm: "asmInv (epAssembler p)" and held: "heldBounded P (epAssembler p)"
    and same: "epHost p = host" "epRenderMessage p = render"
    using assms(1) by (simp_all add: processorInv_def)
  have "inv host render P C p' \<and> ?kept (accepted (epSink p')) (epAssembler p') l" if e: "e = None"
  proof (cases "ParseRecord (svcPrint svc) (slText l)")
    case (Inl err)
    obtain a es where f: "FlushExpired now (epAssembler p) = (a, es)" by (cases "FlushExpired now (epAssembler p)")
    let ?ev = "BuildParseFailureEvent (slText l) (parseErrorText (svcPrint svc) err) host"
    let ?outs = "eventsOutputs (svcLower svc) (svcPrint svc) host render es @ [?ev]"
    have outs: "wrote accepted durable ?outs None p p'" and a: "epAssembler p' = a"
      using w Inl f same e by (simp_all add: lineOutputs_def)
    have "inv host render P C p'"
    proof (rule processorInv_step [OF assms(1) outs, where es = es and lost = "{#}" and new = "{#}"])
      show "heldBounded P (epAssembler p')" using heldBounded_expired [OF asm f held] a by simp
      show "asmInv (epAssembler p')" using FlushExpired_inv [OF asm f] a by simp
      show "eventRecords es + pendingRecords (epAssembler p') + {#} = {#} + pendingRecords (epAssembler p)"
        using FlushExpired_records [OF asm f] a by simp
    qed auto
    moreover have "lineAccounted (svcLower svc) (svcPrint svc) host render (accepted (epSink p')) l"
      using outs Inl fits by (simp add: lineAccounted_def lineRecord_def lineEvent_def wrote_def delivered_def)
    ultimately show ?thesis by (simp add: lineKept_def)
  next
    case (Inr r0)
    let ?r = "sourcedRecord (lineSource l) r0"
    obtain a es limit where f: "AddRecovering ?r now (epAssembler p) = (a, es, limit)"
      by (cases "AddRecovering ?r now (epAssembler p)")
    let ?outs = "eventsOutputs (svcLower svc) (svcPrint svc) host render es"
    have outs: "wrote accepted durable ?outs None p p'" and a: "epAssembler p' = a"
      using w Inr f same e by (simp_all add: lineOutputs_def)
    have rec: "lineRecord (svcPrint svc) l = Some ?r" using Inr fits by (simp add: lineRecord_def)
    note src = lineRecord_source [OF rec]
    obtain lost where records: "eventRecords es + pendingRecords a + lost = {#?r#} + pendingRecords (epAssembler p)"
      and lost: "lost = {#} \<or> (\<exists>r. lost = {#r#} \<and> rType r = ''EOE'')"
      using AddRecovering_records [OF asm conjunct2 [OF src] f] by auto
    have "inv host render P C p'"
    proof (rule processorInv_step [OF assms(1) outs _ _ records [folded a] lost])
      show "heldBounded P (epAssembler p')"
        using heldBounded_add [OF asm conjunct2 [OF src] f held] assms(2) src a by simp
      show "asmInv (epAssembler p')" using AddRecovering_inv [OF asm _ f] src a by simp
    qed simp
    moreover have "?kept (accepted (epSink p')) (epAssembler p') l"
      unfolding lineKept_record [OF rec] a
      by (rule recordKept_step [OF records lost, where outs = "[]"])
         (use outs in \<open>auto simp: wrote_def delivered_def\<close>)
    ultimately show ?thesis by blast
  qed
  with wrote_durable [OF w(1)] show ?thesis by (auto simp: processorInv_def)
qed

lemma rejectLine_inv:
  assumes "inv host render P C p" and "boundedBy P (lineSource l)" and over: "0 < slOmittedBytes l"
    and "rejectLine (svcPut svc) (svcLower svc) (svcPrint svc) now later (slText l) (int (slSourceBytes l)) (lineSource l) p = (e, p')"
  shows "durableGrows durable p p' \<and> (e = None \<longrightarrow> inv host render P (C @ [l]) p')"
proof -
  note w = rejectLine_wrote [OF assms(4)]
  have asm: "asmInv (epAssembler p)" and held: "heldBounded P (epAssembler p)"
    and same: "epHost p = host" "epRenderMessage p = render"
    using assms(1) by (simp_all add: processorInv_def)
  obtain a1 es1 where f1: "FlushExpired now (epAssembler p) = (a1, es1)" by (cases "FlushExpired now (epAssembler p)")
  obtain a2 es2 where f2: "RejectPhysicalLine (svcPrint svc) (slText l) (lineSource l) later a1 = (a2, es2)"
    by (cases "RejectPhysicalLine (svcPrint svc) (slText l) (lineSource l) later a1")
  have asm1: "asmInv a1" using asm f1 by (rule FlushExpired_inv)
  have held1: "heldBounded P a1" using asm f1 held by (rule heldBounded_expired)
  let ?out = "eventsOutputs (svcLower svc) (svcPrint svc) host render"
  let ?ev = "lineException (slText l) (int (slSourceBytes l) - int (length (slText l))) host"
  have "inv host render P (C @ [l]) p'" if e: "e = None"
  proof -
    have outs: "wrote accepted durable (?out (es1 @ es2) @ [?ev]) None p p'" and a: "epAssembler p' = a2"
      using w f1 f2 same e by (simp_all add: rejectedOutputs_def eventsOutputs_def)
    have "inv host render P C p'"
    proof (rule processorInv_step [OF assms(1) outs, where es = "es1 @ es2" and lost = "{#}" and new = "{#}"])
      show "heldBounded P (epAssembler p')"
        using heldBounded_rejected [OF asm1 f2 held1 assms(2)] a by simp
      show "asmInv (epAssembler p')" using RejectPhysicalLine_inv [OF asm1 f2] a by simp
      show "eventRecords (es1 @ es2) + pendingRecords (epAssembler p') + {#} = {#} + pendingRecords (epAssembler p)"
        using FlushExpired_records [OF asm f1] RejectPhysicalLine_records [OF asm1 f2] a
        by (simp add: conserve_simps add.assoc)
    qed auto
    moreover have "lineAccounted (svcLower svc) (svcPrint svc) host render (accepted (epSink p')) l"
      using outs over by (simp add: lineAccounted_def lineRecord_def lineEvent_def wrote_def delivered_def)
    ultimately show ?thesis by (simp add: processorInv_def lineKept_def)
  qed
  with wrote_durable [OF w(1)] show ?thesis by blast
qed

lemma processLine_inv:
  assumes "inv host render P C p" and "boundedBy P (lineSource l)" and "processLine svc now later l p = (e, p')"
  shows "durableGrows durable p p' \<and> (e = None \<longrightarrow> inv host render P (C @ [l]) p')"
  using assms addLine_inv [OF assms(1,2)] rejectLine_inv [OF assms(1,2)]
  by (cases "0 < slOmittedBytes l") (simp_all add: processLine_def)

end

text \<open>The services of the command, whose sink is the NDJSON sink.\<close>

interpretation ndjsonServices: follow_services "svc\<lparr>svcPut := Write, svcCommit := Commit\<rparr>" sinkAccepted sinkCommitted snFailed
  for svc :: "ndjsonSink services"
  by (simp add: follow_services_def ndjsonOut.canonical_sink_axioms)

end
