(* ===== verification/ActionTriples.thy ===== *)
theory ActionTriples
  imports Diagnostics
begin

text \<open>
  Reasoning about the command's actions with pre- and postconditions: \<open>triple P m Q E\<close> says that from
  a state of \<open>P\<close> the action ends in \<open>Q\<close>, or fails with an error and a state of \<open>E\<close>.
\<close>

definition triple ::
  "('s \<Rightarrow> bool) \<Rightarrow> 's action \<Rightarrow> ('s \<Rightarrow> bool) \<Rightarrow> (commandError \<Rightarrow> 's \<Rightarrow> bool) \<Rightarrow> bool" where
  "triple P m Q E \<longleftrightarrow>
     (\<forall>s. P s \<longrightarrow> (case m s of (None, s') \<Rightarrow> Q s' | (Some c, s') \<Rightarrow> E c s'))"

lemma tripleI:
  assumes "\<And>s s'. P s \<Longrightarrow> m s = (None, s') \<Longrightarrow> Q s'" and "\<And>s c s'. P s \<Longrightarrow> m s = (Some c, s') \<Longrightarrow> E c s'"
  shows "triple P m Q E"
  using assms by (auto simp: triple_def split: prod.split option.split)

lemma tripleD:
  assumes "triple P m Q E" and "P s"
  shows "m s = (None, s') \<Longrightarrow> Q s'" and "m s = (Some c, s') \<Longrightarrow> E c s'"
  using assms by (auto simp: triple_def split: prod.splits option.splits)

lemma triple_andThen: "triple P m R E \<Longrightarrow> triple R k Q E \<Longrightarrow> triple P (andThen m k) Q E"
  by (fastforce simp: triple_def andThen_def split: prod.splits option.splits)

lemma triple_update: "(\<And>s. P s \<Longrightarrow> Q (f s)) \<Longrightarrow> triple P (update f) Q E"
  by (simp add: triple_def update_def)

lemma triple_conseq:
  assumes "triple P m Q E" and "\<And>s. P' s \<Longrightarrow> P s" and "\<And>s. Q s \<Longrightarrow> Q' s" and "\<And>c s. E c s \<Longrightarrow> E' c s"
  shows "triple P' m Q' E'"
  using assms by (fastforce simp: triple_def split: prod.splits option.splits)

text \<open>An action that depends on the state it starts from.\<close>

lemma triple_state: "(\<And>s. P s \<Longrightarrow> triple (\<lambda>t. t = s) (m s) Q E) \<Longrightarrow> triple P (\<lambda>s. m s s) Q E"
  by (simp add: triple_def)

text \<open>An action that may be skipped.\<close>

lemma triple_if:
  "triple (\<lambda>s. P s \<and> b s) m Q E \<Longrightarrow> (\<And>s. P s \<Longrightarrow> \<not> b s \<Longrightarrow> Q s) \<Longrightarrow>
     triple P (\<lambda>s. if b s then m s else (None, s)) Q E"
  by (simp add: triple_def)

end
