(* ===== verification/FollowInvariant.thy ===== *)
theory FollowInvariant
  imports FollowProcessor ActionTriples
begin

text \<open>
  The invariant of the follow loop. A ghost trace keeps the lines the followers have returned; the
  invariant says that whatever lies before the saved checkpoint is accounted for in the durable
  events, and that no position that will be saved lies before the last one saved.
\<close>

section \<open>Errors that do not come from the checkpoint order\<close>

definition steady :: "'s action \<Rightarrow> bool" where
  "steady m \<longleftrightarrow> (\<forall>s. fst (m s) \<noteq> Some PositionRegressed)"

lemma steady_result: "steady m \<Longrightarrow> m s = (e, s') \<Longrightarrow> e \<noteq> Some PositionRegressed"
  unfolding steady_def by (metis fst_conv)

lemma steady_andThen: "steady m \<Longrightarrow> steady k \<Longrightarrow> steady (andThen m k)"
  unfolding steady_def andThen_def by (auto split: prod.split option.split) (metis fst_conv)+

lemma steady_forEach: "(\<And>x. steady (f x)) \<Longrightarrow> steady (forEach f xs)"
proof (induction xs)
  case (Cons x xs)
  then have "steady (andThen (f x) (forEach f xs))" by (intro steady_andThen) auto
  then show ?case by (simp add: steady_def)
qed (simp add: steady_def)

lemma steady_state: "(\<And>x. steady (m x)) \<Longrightarrow> steady (\<lambda>p. m (f p) p)"
  by (simp add: steady_def)

lemma steady_tally: "steady (tally f)" and steady_report: "steady (report entry)"
  by (auto simp: steady_def tally_def update_def report_def logEntry_def split: list.split)

lemma steady_emitCanonical: "steady (emitCanonical put ev)"
  by (auto simp: steady_def emitCanonical_def tally_def update_def split: prod.split bool.split)

lemma steady_emit: "steady (emit put lo pr es)"
proof -
  have "steady (emitEvent put lo pr e)" for e
    using steady_forEach steady_emitCanonical by (fastforce simp: steady_def emitEvent_def Let_def)
  then show ?thesis unfolding emit_def by (rule steady_forEach)
qed

lemma steady_at:
  assumes "steady m"
  shows "fst (m s) \<noteq> Some PositionRegressed"
  using assms by (simp add: steady_def)

lemma steady_flushes:
  "steady (emitExpired put lo pr now)" "steady (flushAll put lo pr c)" "steady (rejectPending put lo pr now pre source)"
  by (simp_all add: steady_def emitExpired_def flushAll_def rejectPending_def steady_at [OF steady_emit] split: prod.split)

lemma steady_lines:
  "steady (addSourceLine put lo pr now line source)" "steady (rejectLine put lo pr now later pre n source)"
proof -
  have canonical: "steady (\<lambda>p. emitCanonical put (ev p) p)" for ev :: "'a eventProcessor \<Rightarrow> canonicalEvent"
    using steady_state [of "emitCanonical put" ev] steady_emitCanonical by blast
  have "steady (addMalformed put lo pr now line err)" for err
    unfolding addMalformed_def
    by (intro steady_andThen steady_tally steady_report steady_flushes canonical)
  moreover have "steady (addRecord put lo pr now source r)" for r
  proof (unfold steady_def, rule allI)
    fix p :: "'a eventProcessor"
    obtain a es limit where f: "AddRecovering r now (epAssembler p) = (a, es, limit)"
      by (cases "AddRecovering r now (epAssembler p)")
    show "fst (addRecord put lo pr now source r p) \<noteq> Some PositionRegressed"
      by (cases limit)
         (simp_all add: addRecord_def f steady_at steady_emit steady_andThen steady_tally steady_report)
  qed
  ultimately show "steady (addSourceLine put lo pr now line source)"
    unfolding addSourceLine_def Let_def
    by (intro steady_andThen steady_tally) (cases "ParseRecord pr line"; simp)
  show "steady (rejectLine put lo pr now later pre n source)"
    unfolding rejectLine_def Let_def
    by (intro steady_andThen steady_tally steady_report steady_flushes canonical)
qed

lemma steady_processLine: "steady (processLine svc now later l)"
  by (simp add: processLine_def steady_lines)

section \<open>The trace\<close>

text \<open>The lines returned by followers that have been replaced, and by the current one.\<close>

record followTrace =
  ftEarlier :: "sourceLine list"
  ftCurrent :: "sourceLine list"

definition emptyTrace :: followTrace where
  "emptyTrace = \<lparr>ftEarlier = [], ftCurrent = []\<rparr>"

definition traceStep ::
  "'s services \<Rightarrow> commandOptions \<Rightarrow> string \<Rightarrow> iterationEnv \<Rightarrow> 's followState \<Rightarrow> followTrace \<Rightarrow> followTrace" where
  "traceStep svc op inputPath env s t =
     (case fst (Next (svcHash svc) (CanonicalPath (svcCwd svc)) (ieNext env) (fsFollower s)) of
        Returned l \<Rightarrow> t\<lparr>ftCurrent := ftCurrent t @ [l]\<rparr>
      | Failed e \<Rightarrow>
          if fst (followIteration svc op inputPath env s) = GoOn
          then \<lparr>ftEarlier = ftEarlier t @ ftCurrent t, ftCurrent = []\<rparr> else t
      | _ \<Rightarrow> t)"

fun loopTrace ::
  "'s services \<Rightarrow> commandOptions \<Rightarrow> string \<Rightarrow> iterationEnv list \<Rightarrow> 's followState \<Rightarrow> followTrace \<Rightarrow> followTrace" where
  "loopTrace svc op inputPath [] s t = t"
| "loopTrace svc op inputPath (env # envs) s t =
     (case followIteration svc op inputPath env s of
        (GoOn, s') \<Rightarrow> loopTrace svc op inputPath envs s' (traceStep svc op inputPath env s t)
      | (Stop e, s') \<Rightarrow> traceStep svc op inputPath env s t)"

section \<open>What is durable\<close>

definition durableLine ::
  "('s \<Rightarrow> canonicalEvent list) \<Rightarrow> 's services \<Rightarrow> 's eventProcessor \<Rightarrow> sourceLine \<Rightarrow> bool" where
  "durableLine dur svc p l \<longleftrightarrow>
     lineAccounted (svcLower svc) (svcPrint svc) (epHost p) (epRenderMessage p) (dur (epSink p)) l"

lemma durableLine_grows: "durableGrows dur p p' \<Longrightarrow> durableLine dur svc p l \<Longrightarrow> durableLine dur svc p' l"
  unfolding durableLine_def durableGrows_def by (auto intro: lineAccounted_mono dest: set_mono_prefix)

text \<open>The position a state file holds.\<close>

definition savedAt :: "(checkpoint \<Rightarrow> string) \<Rightarrow> stateFile \<Rightarrow> sourcePosition \<Rightarrow> bool" where
  "savedAt encode f pos \<longleftrightarrow>
     (\<exists>c. f = Bytes (encode c) \<and> cpDevice c = spDevice pos \<and> cpInode c = spInode pos \<and>
        cpOffset c = spEnd pos \<and> cpAnchor c = spAnchor pos)"

definition covered ::
  "('s \<Rightarrow> canonicalEvent list) \<Rightarrow> 's services \<Rightarrow> sourceLine list \<Rightarrow> sourcePosition \<Rightarrow> 's eventProcessor \<Rightarrow> bool" where
  "covered dur svc ls pos p \<longleftrightarrow> (\<forall>l \<in> set ls. checkpointBefore (lineSource l) pos \<longrightarrow> durableLine dur svc p l)"

definition savedTarget :: "'s followState \<Rightarrow> stateFile" where
  "savedTarget s = sdTarget (rsCheckpoint (fsRecovery s))"

section \<open>The invariant\<close>

definition loopInv ::
  "('s \<Rightarrow> canonicalEvent list) \<Rightarrow> ('s \<Rightarrow> canonicalEvent list) \<Rightarrow> 's services \<Rightarrow> commandOptions \<Rightarrow> stateFile
     \<Rightarrow> string \<Rightarrow> bool \<Rightarrow> followTrace \<Rightarrow> 's followState \<Rightarrow> bool" where
  "loopInv acc dur svc op start host render t s \<longleftrightarrow>
     followerInv (fsFollower s) \<and>
     processorInv acc svc host render (\<lambda>p. \<not> sourcePositionBefore p (cwLast (fsWriter s))) (ftCurrent t) (fsProcessor s) \<and>
     spStart (cwLast (fsWriter s)) = spEnd (cwLast (fsWriter s)) \<and>
     \<not> checkpointBefore (auditPosition (rfComplete (fsFollower s))) (cwLast (fsWriter s)) \<and>
     cwPath (fsWriter s) = opCheckpointPath op \<and>
     grCheckpointPath (rsRecovery (fsRecovery s)) = opCheckpointPath op \<and>
     (\<forall>l \<in> set (ftEarlier t). durableLine dur svc (fsProcessor s) l) \<and>
     (opCheckpointPath op = [] \<longrightarrow> savedTarget s = start) \<and>
     (savedTarget s = start \<or>
        savedAt (svcEncodeCheckpoint svc) (savedTarget s) (cwLast (fsWriter s)) \<and>
        covered dur svc (ftCurrent t) (cwLast (fsWriter s)) (fsProcessor s))"

text \<open>
  What holds however an iteration ends: an untouched checkpoint, or one at the last position saved
  or the position about to be saved with all lines before it durable, or every line is durable.
\<close>

definition loopEnd ::
  "('s \<Rightarrow> canonicalEvent list) \<Rightarrow> 's services \<Rightarrow> stateFile \<Rightarrow> followTrace \<Rightarrow> 's followState \<Rightarrow> bool" where
  "loopEnd dur svc start t s \<longleftrightarrow>
     (\<forall>l \<in> set (ftEarlier t). durableLine dur svc (fsProcessor s) l) \<and>
     (savedTarget s = start \<or>
      (\<exists>pos \<in> {cwLast (fsWriter s), safePosition s}.
         savedAt (svcEncodeCheckpoint svc) (savedTarget s) pos \<and> covered dur svc (ftCurrent t) pos (fsProcessor s)) \<or>
      (\<forall>l \<in> set (ftCurrent t). durableLine dur svc (fsProcessor s) l))"

lemma loopInv_end: "loopInv acc dur svc op start host render t s \<Longrightarrow> loopEnd dur svc start t s"
  by (auto simp: loopInv_def loopEnd_def)

definition stopped ::
  "('s \<Rightarrow> canonicalEvent list) \<Rightarrow> 's services \<Rightarrow> stateFile \<Rightarrow> followTrace \<Rightarrow> commandError \<Rightarrow> 's followState \<Rightarrow> bool" where
  "stopped dur svc start t c s \<longleftrightarrow> c \<noteq> PositionRegressed \<and> loopEnd dur svc start t s"

section \<open>Positions\<close>

lemma auditPosition_simps [simp]:
  "spValid (auditPosition p)" "spStart (auditPosition p) = gpOffset p" "spEnd (auditPosition p) = gpOffset p"
  "spGeneration (auditPosition p) = gpGeneration p"
  by (simp_all add: auditPosition_def)

lemma before_flat:
  "spStart p = spEnd p \<Longrightarrow> spStart q = spEnd q \<Longrightarrow> checkpointBefore p q = sourcePositionBefore p q"
  by (simp add: checkpointBefore_def sourcePositionBefore_def)

lemma completeBefore_audit: "completeBefore p q = checkpointBefore (auditPosition p) (auditPosition q)"
  by (simp add: completeBefore_def lexBefore_def checkpointBefore_def)

lemma safePosition_facts:
  assumes "spStart l = spEnd l" and "heldBounded (\<lambda>p. \<not> sourcePositionBefore p l) (epAssembler (fsProcessor s))"
    and "\<not> checkpointBefore (auditPosition (rfComplete (fsFollower s))) l"
  shows "spStart (safePosition s) = spEnd (safePosition s)" and "\<not> checkpointBefore (safePosition s) l"
    and "\<not> checkpointBefore (auditPosition (rfComplete (fsFollower s))) (safePosition s)"
    and "heldBounded (\<lambda>p. \<not> sourcePositionBefore p (safePosition s)) (epAssembler (fsProcessor s))"
proof -
  let ?c = "auditPosition (rfComplete (fsFollower s))" and ?a = "epAssembler (fsProcessor s)"
  show flat: "spStart (safePosition s) = spEnd (safePosition s)"
    unfolding safePosition_def using safe_flat [of ?c ?a] by simp
  have "\<not> sourcePositionBefore (safePosition s) l"
    using safe_member [of ?c ?a] assms
    by (auto simp: safePosition_def heldBounded_def boundedBy_def before_flat)
  then show "\<not> checkpointBefore (safePosition s) l" using flat assms(1) by (simp add: before_flat)
  show "\<not> checkpointBefore ?c (safePosition s)"
    using safe_fallback [of ?c ?a] flat by (simp add: before_flat safePosition_def)
  show "heldBounded (\<lambda>p. \<not> sourcePositionBefore p (safePosition s)) ?a"
    using SafeSourcePosition_lower by (auto simp: heldBounded_def boundedBy_def safePosition_def)
qed

text \<open>With nothing held the complete position is the safe one.\<close>

lemma safePosition_complete:
  assumes "\<And>Q. heldBounded Q (epAssembler (fsProcessor s))"
  shows "safePosition s = auditPosition (rfComplete (fsFollower s))"
proof -
  have "\<not> spValid p" if "p \<in> set (heldPositions (epAssembler (fsProcessor s)))" for p
    using assms [of "\<lambda>p. False"] that by (auto simp: heldBounded_def boundedBy_def)
  then show ?thesis
    unfolding safePosition_def SafeSourcePosition_fold
    by (intro startOrder.earliest_unaffected) auto
qed

text \<open>A line before the safe position is not pending.\<close>

lemma before_safe_accounted:
  assumes "processorInv acc svc host render P ls (fsProcessor s)" and "l \<in> set ls"
    and "checkpointBefore (lineSource l) (safePosition s)"
  shows "lineAccounted (svcLower svc) (svcPrint svc) host render (acc (epSink (fsProcessor s))) l"
proof -
  let ?a = "epAssembler (fsProcessor s)" and ?c = "auditPosition (rfComplete (fsFollower s))"
  have "\<not> linePending (svcPrint svc) ?a l"
  proof
    assume "linePending (svcPrint svc) ?a l"
    then obtain r where r: "lineRecord (svcPrint svc) l = Some r" "r \<in># pendingRecords ?a"
      by (auto simp: linePending_def split: option.splits)
    then have "lineSource l \<in> set (heldPositions ?a)"
      using lineRecord_source [OF r(1)] by (force simp: heldPositions_def pendingRecords_def)
    from SafeSourcePosition_lower [OF this, of ?c]
    have "\<not> sourcePositionBefore (lineSource l) (safePosition s)" by (simp add: safePosition_def)
    with assms(3) safe_flat [of ?c ?a] show False by (simp add: before_flat safePosition_def)
  qed
  with assms(1,2) show ?thesis by (auto simp: processorInv_def lineKept_def)
qed

end
