(* ===== verification/FollowSteps.thy ===== *)
theory FollowSteps
  imports FollowInvariant
begin

text \<open>
  Every action of the loop keeps the invariant, or stops with the checkpoint covering what it has
  to: actions on the processor, the saving of progress, the idle and the final branch.
\<close>

text \<open>Only the diagnostics and the replay window differ.\<close>

definition sameWork :: "'s eventProcessor \<Rightarrow> 's eventProcessor \<Rightarrow> bool" where
  "sameWork p p' \<longleftrightarrow> epAssembler p' = epAssembler p \<and> epSink p' = epSink p \<and> epHost p' = epHost p \<and>
     epRenderMessage p' = epRenderMessage p"

lemma sameWork_inv: "sameWork p p' \<Longrightarrow> processorInv acc svc host render P C p' = processorInv acc svc host render P C p"
  by (simp add: sameWork_def processorInv_def)

lemma sameWork_grows: "sameWork p p' \<Longrightarrow> durableGrows dur p p'"
  by (simp add: sameWork_def durableGrows_def)

definition quiet :: "'s eventProcessor action \<Rightarrow> bool" where
  "quiet m \<longleftrightarrow> (\<forall>p. sameWork p (snd (m p)) \<and> fst (m p) \<noteq> Some PositionRegressed)"

lemma quiet_andThen: "quiet m \<Longrightarrow> quiet k \<Longrightarrow> quiet (andThen m k)"
  unfolding quiet_def andThen_def sameWork_def
  by (intro allI, case_tac "m p", case_tac a) (simp_all, metis fst_conv snd_conv, metis fst_conv snd_conv)

lemma quiet_update: "(\<And>p. sameWork p (f p)) \<Longrightarrow> quiet (update f)"
  by (simp add: quiet_def update_def)

lemma quiet_tally: "quiet (tally f)" and quiet_report: "quiet (report entry)"
  by (auto simp: quiet_def sameWork_def tally_def update_def report_def logEntry_def split: list.split)

context follow_services
begin

abbreviation (input) loop where "loop \<equiv> loopInv accepted durable svc"
abbreviation (input) halt where "halt \<equiv> stopped durable svc"

section \<open>Actions on the processor\<close>

lemma onState_step:
  assumes inv: "loop op start host render t s"
    and m: "\<And>e p'. m (fsProcessor s) = (e, p') \<Longrightarrow> durableGrows durable (fsProcessor s) p' \<and> e \<noteq> Some PositionRegressed \<and>
       (e = None \<longrightarrow> processorInv accepted svc host render (\<lambda>p. \<not> sourcePositionBefore p (cwLast (fsWriter s))) (ftCurrent t') p')"
    and earlier: "ftEarlier t' = ftEarlier t"
    and new: "\<And>l. l \<in> set (ftCurrent t') \<Longrightarrow>
       l \<in> set (ftCurrent t) \<or> \<not> checkpointBefore (lineSource l) (cwLast (fsWriter s))"
  shows "triple (\<lambda>u. u = s) (onState m) (loop op start host render t') (halt start t')"
proof -
  obtain e p' where r: "m (fsProcessor s) = (e, p')" by (cases "m (fsProcessor s)")
  let ?s = "s\<lparr>fsRecovery := (fsRecovery s)\<lparr>rsProcessor := p'\<rparr>\<rparr>"
  have on: "onState m s = (e, ?s)" using r by (simp add: onState_def onProcessor_def)
  have grows: "durableGrows durable (fsProcessor s) p'" and steady: "e \<noteq> Some PositionRegressed" using m [OF r] by auto
  have keep: "\<forall>l \<in> set (ftEarlier t'). durableLine durable svc p' l"
    using inv earlier grows by (auto simp: loopInv_def intro: durableLine_grows)
  have target: "savedTarget ?s = savedTarget s" by (simp add: savedTarget_def)
  have cover: "savedTarget s = start \<or> savedAt (svcEncodeCheckpoint svc) (savedTarget s) (cwLast (fsWriter s)) \<and>
      covered durable svc (ftCurrent t') (cwLast (fsWriter s)) p'"
    using inv new grows unfolding loopInv_def covered_def by (blast intro: durableLine_grows)
  have "loopEnd durable svc start t' ?s"
    using keep cover target by (auto simp: loopEnd_def)
  moreover have "loop op start host render t' ?s" if "e = None"
    using inv keep cover target m [OF r] that by (simp add: loopInv_def)
  ultimately show ?thesis using on steady by (cases e) (simp_all add: triple_def stopped_def)
qed

lemma onState_quiet:
  assumes "quiet m"
  shows "triple (loop op start host render t) (onState m) (loop op start host render t) (halt start t)"
proof -
  have "triple (\<lambda>u. u = s) (onState m) (loop op start host render t) (halt start t)"
    if "loop op start host render t s" for s
  proof (rule onState_step [OF that])
    fix e p' assume "m (fsProcessor s) = (e, p')"
    then have "sameWork (fsProcessor s) p'" "e \<noteq> Some PositionRegressed"
      using assms unfolding quiet_def by (metis fst_conv snd_conv)+
    then show "durableGrows durable (fsProcessor s) p' \<and> e \<noteq> Some PositionRegressed \<and>
       (e = None \<longrightarrow> processorInv accepted svc host render (\<lambda>p. \<not> sourcePositionBefore p (cwLast (fsWriter s))) (ftCurrent t) p')"
      using that by (simp add: sameWork_inv sameWork_grows loopInv_def)
  qed simp_all
  then show ?thesis by (simp add: triple_def)
qed

lemma emitHeartbeat_step:
  "triple (loop op start host render t) (emitHeartbeat svc env) (loop op start host render t) (halt start t)"
proof (unfold triple_def, intro allI impI)
  fix s assume inv: "loop op start host render t s"
  show "case emitHeartbeat svc env s of (None, s') \<Rightarrow> loop op start host render t s' | (Some c, s') \<Rightarrow> halt start t c s'"
  proof (cases "heartbeatDue (ieBeatDue env) (epDiagnostics (fsProcessor s))")
    case False
    with inv show ?thesis by (simp add: emitHeartbeat_def)
  next
    case True
    define m :: "'s eventProcessor action" where "m = (\<lambda>p. case heartbeat (ieBeatNow env) (ieBeatLater env) (epAssembler p)
         (case LagBytes (CanonicalPath (svcCwd svc)) (ieLagSize env) (ieLagListing env) (ieLagStat env) (fsFollower s) of
            Inr n \<Rightarrow> n | Inl e \<Rightarrow> -1) (epDiagnostics p) of (e, d) \<Rightarrow> (e, p\<lparr>epDiagnostics := d\<rparr>))"
    have beat: "emitHeartbeat svc env s = onState m s" using True by (simp add: emitHeartbeat_def m_def)
    have "triple (loop op start host render t) (onState m) (loop op start host render t) (halt start t)"
      by (rule onState_quiet)
         (auto simp: quiet_def sameWork_def m_def heartbeat_def logEntry_def Let_def split: prod.splits list.splits)
    with inv show ?thesis unfolding beat by (simp add: triple_def)
  qed
qed

section \<open>Saving progress\<close>

lemma commit_durableGrows:
  "svcCommit svc (epSink p) = (b, k) \<Longrightarrow> durableGrows durable p (p\<lparr>epSink := k\<rparr>)"
  using commit_grows by (simp add: durableGrows_def)

lemma processorInv_sink:
  "processorInv accepted svc host render P C p \<Longrightarrow> accepted k = accepted (epSink p) \<Longrightarrow>
     processorInv accepted svc host render P C (p\<lparr>epSink := k\<rparr>)"
  by (simp add: processorInv_def)

lemma savedAt_position: "savedAt encode (Bytes (encode (stampedCheckpoint now (checkpointAt input pos)))) pos"
  unfolding savedAt_def by (intro exI [of _ "stampedCheckpoint now (checkpointAt input pos)"])
    (simp add: stampedCheckpoint_def checkpointAt_def)

lemma persistFollow_step:
  assumes inv: "loop op start host render t s" and run: "persistFollow svc env force (safePosition s) s = (e, s')"
  shows "e \<noteq> Some PositionRegressed \<and> (e = None \<longrightarrow> loop op start host render t s') \<and> loopEnd durable svc start t s'"
proof -
  let ?w = "fsWriter s" and ?p = "fsProcessor s" and ?pos = "safePosition s"
  obtain u where persist: "persist (svcCommit svc) (svcEncodeCheckpoint svc) env ?pos force
        \<lparr>psWriter = ?w, psSink = epSink ?p, psDirectory = rsCheckpoint (fsRecovery s)\<rparr> = (e, u)"
    and s': "s' = s\<lparr>fsWriter := psWriter u, fsRecovery := (fsRecovery s)\<lparr>rsProcessor := ?p\<lparr>epSink := psSink u\<rparr>,
         rsCheckpoint := psDirectory u\<rparr>\<rparr>"
    using run by (auto simp: persistFollow_def split: prod.splits)
  have flat: "spStart (cwLast ?w) = spEnd (cwLast ?w)" and proc:
      "processorInv accepted svc host render (\<lambda>p. \<not> sourcePositionBefore p (cwLast ?w)) (ftCurrent t) ?p"
    and comp: "\<not> checkpointBefore (auditPosition (rfComplete (fsFollower s))) (cwLast ?w)"
    using inv by (simp_all add: loopInv_def)
  note safe = safePosition_facts [OF flat _ comp]
  have held: "heldBounded (\<lambda>p. \<not> sourcePositionBefore p (cwLast ?w)) (epAssembler ?p)"
    using proc by (simp add: processorInv_def)
  have earlier: "\<forall>l \<in> set (ftEarlier t). durableLine durable svc ?p l" using inv by (simp add: loopInv_def)
  have grown: "loopInv accepted durable svc op start host render t
        (s\<lparr>fsWriter := ?w\<lparr>cwLastAttempt := a\<rparr>, fsRecovery := (fsRecovery s)\<lparr>rsProcessor := ?p\<lparr>epSink := k\<rparr>\<rparr>\<rparr>)"
    if "svcCommit svc (epSink ?p) = (b, k)" for a b k
    using inv durableLine_grows [OF commit_durableGrows [OF that]] processorInv_sink [OF proc commit_accepts [OF that]]
    by (auto simp: loopInv_def covered_def savedTarget_def)
  from persist show ?thesis
  proof (cases rule: persist_cases)
    case idle
    then have "s' = s" by (simp add: s')
    with inv idle loopInv_end show ?thesis by auto
  next
    case regressed
    with safe(2) [OF held] show ?thesis by simp
  next
    case (uncommitted k)
    then have s'': "s' = s\<lparr>fsWriter := ?w\<lparr>cwLastAttempt := pvAttempt env\<rparr>,
         fsRecovery := (fsRecovery s)\<lparr>rsProcessor := ?p\<lparr>epSink := k\<rparr>\<rparr>\<rparr>"
      by (simp add: s')
    have "loop op start host render t s'" unfolding s'' using uncommitted(1) by (intro grown [of False]) simp
    with uncommitted loopInv_end show ?thesis by auto
  next
    case (saved k ok d)
    let ?w' = "psWriter u"
    have commit: "svcCommit svc (epSink ?p) = (True, k)" using saved by simp
    note grows = commit_durableGrows [OF commit]
    have now: "durable k = accepted k" "accepted k = accepted (epSink ?p)"
      using commit_durable [OF commit] commit_accepts [OF commit] by simp_all
    have p': "fsProcessor s' = ?p\<lparr>epSink := k\<rparr>" and f': "fsFollower s' = fsFollower s"
      and w': "fsWriter s' = ?w'" and file': "savedTarget s' = sdTarget d"
      using saved by (simp_all add: s' savedTarget_def)
    have pos': "safePosition s' = ?pos" by (simp add: safePosition_def p' f')
    have keep: "\<forall>l \<in> set (ftEarlier t). durableLine durable svc (fsProcessor s') l"
      unfolding p' using earlier durableLine_grows [OF grows] by blast
    have cover: "covered durable svc (ftCurrent t) ?pos (fsProcessor s')"
      using before_safe_accounted [OF proc] proc
      by (auto simp: covered_def durableLine_def p' now processorInv_def)
    have "sdTarget d = savedTarget s \<and> \<not> ok \<or> savedAt (svcEncodeCheckpoint svc) (sdTarget d) ?pos"
      using SaveCheckpoint_target(1) [OF saved(3)] savedAt_position by (auto simp: savedTarget_def)
    then show ?thesis
    proof
      assume same: "sdTarget d = savedTarget s \<and> \<not> ok"
      with saved have s'': "s' = s\<lparr>fsWriter := ?w\<lparr>cwLastAttempt := pvAttempt env\<rparr>,
           fsRecovery := (fsRecovery s)\<lparr>rsProcessor := ?p\<lparr>epSink := k\<rparr>, rsCheckpoint := d\<rparr>\<rparr>"
        by (simp add: s')
      have "loop op start host render t s'"
        using grown [OF commit, of "pvAttempt env"] same by (simp add: s'' loopInv_def savedTarget_def)
      with loopInv_end saved(4) same show ?thesis by auto
    next
      assume at: "savedAt (svcEncodeCheckpoint svc) (sdTarget d) ?pos"
      have stop: "loopEnd durable svc start t s'"
        using keep cover at by (auto simp: loopEnd_def pos' file')
      have path: "opCheckpointPath op \<noteq> []"
        using saved inv by (simp add: loopInv_def)
      have "loop op start host render t s'" if ok: "ok"
      proof -
        have last: "cwLast (fsWriter s') = ?pos" "cwPath (fsWriter s') = opCheckpointPath op"
          using saved ok inv by (simp_all add: w' loopInv_def)
        have "processorInv accepted svc host render (\<lambda>p. \<not> sourcePositionBefore p ?pos) (ftCurrent t) (fsProcessor s')"
          unfolding p' using proc safe(4) [OF held] now by (simp add: processorInv_def)
        then show ?thesis
          using inv safe(1,3) [OF held] keep cover at path last
          by (simp add: loopInv_def f' file') (simp add: s')
      qed
      with stop saved(4) show ?thesis by auto
    qed
  qed
qed

lemma persistFollow_triple:
  assumes "\<And>s. P s \<Longrightarrow> loop op start host render t s \<and> position s = safePosition s"
  shows "triple P (\<lambda>s. persistFollow svc env force (position s) s) (loop op start host render t) (halt start t)"
  by (rule tripleI) (use assms persistFollow_step in \<open>fastforce simp: stopped_def\<close>)+

lemma saveProgress_step:
  "triple (loop op start host render t) (saveProgress svc env) (loop op start host render t) (halt start t)"
  unfolding saveProgress_def by (rule persistFollow_triple) simp

end

end
