(* ===== verification/FollowRecovery.thy ===== *)
theory FollowRecovery
  imports FollowSteps
begin

text \<open>
  Recovery over a gap keeps the invariant of the loop: pending evidence is flushed and committed
  before the checkpoint is replaced, so that once the checkpoint stands at the new start every line
  of the old follower is durable.
\<close>

section \<open>The state of a recovery\<close>

text \<open>
  The lines \<open>D\<close> are durable, those of \<open>C\<close> are kept by the processor, and \<open>T\<close> and \<open>L\<close> say what the
  checkpoint file and the ledger in memory are.
\<close>

definition recoveryAt ::
  "('s \<Rightarrow> canonicalEvent list) \<Rightarrow> ('s \<Rightarrow> canonicalEvent list) \<Rightarrow> 's services \<Rightarrow> string \<Rightarrow> bool
     \<Rightarrow> (sourcePosition \<Rightarrow> bool) \<Rightarrow> sourceLine list \<Rightarrow> sourceLine list \<Rightarrow> (stateFile \<Rightarrow> bool) \<Rightarrow> string
     \<Rightarrow> (gapLedger option \<Rightarrow> bool) \<Rightarrow> 's recoveryState \<Rightarrow> bool" where
  "recoveryAt acc dur svc host render P D C T path L s \<longleftrightarrow>
     processorInv acc svc host render P C (rsProcessor s) \<and> (\<forall>l \<in> set D. durableLine dur svc (rsProcessor s) l) \<and>
     T (sdTarget (rsCheckpoint s)) \<and> grCheckpointPath (rsRecovery s) = path \<and> L (grLedger (rsRecovery s))"

definition recoveryFailed ::
  "('s \<Rightarrow> canonicalEvent list) \<Rightarrow> 's services \<Rightarrow> stateFile \<Rightarrow> sourceLine list \<Rightarrow> sourceLine list \<Rightarrow> commandError
     \<Rightarrow> 's recoveryState \<Rightarrow> bool" where
  "recoveryFailed dur svc old D C c s \<longleftrightarrow> c \<noteq> PositionRegressed \<and>
     (\<forall>l \<in> set D. durableLine dur svc (rsProcessor s) l) \<and>
     (sdTarget (rsCheckpoint s) = old \<or> (\<forall>l \<in> set C. durableLine dur svc (rsProcessor s) l))"

text \<open>What a completed recovery leaves in the checkpoint file.\<close>

definition resumeSaved :: "'s services \<Rightarrow> string \<Rightarrow> stateFile \<Rightarrow> checkpoint \<Rightarrow> stateFile \<Rightarrow> bool" where
  "resumeSaved svc path old resume f \<longleftrightarrow>
     (if path = [] then f = old
      else \<exists>stamp. f = Bytes (svcEncodeCheckpoint svc (stampedCheckpoint stamp resume)))"

lemma recoveryAt_old:
  "recoveryAt acc dur svc host render P D C (\<lambda>f. f = old) path L s \<Longrightarrow> c \<noteq> PositionRegressed \<Longrightarrow>
     recoveryFailed dur svc old D C c s"
  by (simp add: recoveryAt_def recoveryFailed_def)

lemma recoveryAt_durable:
  "recoveryAt acc dur svc host render P (D @ C) C T path L s \<Longrightarrow> c \<noteq> PositionRegressed \<Longrightarrow>
     recoveryFailed dur svc old D C c s"
  by (simp add: recoveryAt_def recoveryFailed_def)

lemma durableLine_same: "sameWork p p' \<Longrightarrow> durableLine dur svc p' l = durableLine dur svc p l"
  by (simp add: sameWork_def durableLine_def)

lemma recovery_quiet:
  assumes "quiet m" and "\<And>c s. c \<noteq> PositionRegressed \<Longrightarrow> recoveryAt acc dur svc host render P D C T path L s \<Longrightarrow> E c s"
  shows "triple (recoveryAt acc dur svc host render P D C T path L) (onProcessor m)
     (recoveryAt acc dur svc host render P D C T path L) E"
proof -
  have "recoveryAt acc dur svc host render P D C T path L (s\<lparr>rsProcessor := p\<rparr>) \<and> e \<noteq> Some PositionRegressed"
    if "recoveryAt acc dur svc host render P D C T path L s" and "m (rsProcessor s) = (e, p)" for s e p
  proof -
    have "sameWork (rsProcessor s) p" "e \<noteq> Some PositionRegressed"
      using assms(1) that(2) unfolding quiet_def by (metis fst_conv snd_conv)+
    with that(1) show ?thesis by (simp add: recoveryAt_def sameWork_inv durableLine_same)
  qed
  then show ?thesis using assms(2) by (fastforce simp: triple_def onProcessor_def split: prod.split option.split)
qed

lemma onLast_Nil [simp]: "onLast f xs = [] \<longleftrightarrow> xs = []"
  by (cases "(f, xs)" rule: onLast.cases) auto

lemma onLast_last: "xs \<noteq> [] \<Longrightarrow> last (onLast f xs) = f (last xs)"
  by (induction f xs rule: onLast.induct) auto

lemma appendIncident_last [simp]: "last (glIncidents (appendIncident g l)) = g" "glIncidents (appendIncident g l) \<noteq> []"
  by (simp_all add: appendIncident_def Let_def last_drop)

lemma savedAt_resume:
  "savedAt encode (Bytes (encode (stampedCheckpoint now (giResume (newIncident env input n previous position cause)))))
     (auditPosition position)"
  unfolding savedAt_def
  by (intro exI [of _ "stampedCheckpoint now (giResume (newIncident env input n previous position cause))"])
     (simp add: stampedCheckpoint_def newIncident_def auditPosition_def split: prod.split)

text \<open>Preparing changes nothing but the ledger.\<close>

lemma prepareFollow_triple:
  "triple (recoveryAt acc dur svc host render P D C T path L) (prepareFollow svc env previous position cause)
     (recoveryAt acc dur svc host render P D C T path
        (\<lambda>l. \<exists>k input n. l = Some k \<and> glIncidents k \<noteq> [] \<and>
           last (glIncidents k) = newIncident env input n previous position cause))
     (\<lambda>c s. c \<noteq> PositionRegressed \<and> recoveryAt acc dur svc host render P D C T path (\<lambda>l. True) s)"
  by (rule tripleI)
     (auto simp: prepareFollow_def prepareRecovery_def recoveryAt_def Let_def split: prod.splits if_splits, blast)

context follow_services
begin

lemma flushAll_triple:
  "triple (recoveryAt accepted durable svc host render P D C (\<lambda>f. f = old) path L)
     (onProcessor (flushAll (svcPut svc) (svcLower svc) (svcPrint svc) completion))
     (\<lambda>s. recoveryAt accepted durable svc host render Q D C (\<lambda>f. f = old) path L s \<and>
        asPending (epAssembler (rsProcessor s)) = [])
     (recoveryFailed durable svc old D C)"
proof (unfold triple_def, intro allI impI)
  fix s :: "'s recoveryState"
  assume pre: "recoveryAt accepted durable svc host render P D C (\<lambda>f. f = old) path L s"
  let ?flush = "flushAll (svcPut svc) (svcLower svc) (svcPrint svc) completion"
  obtain e p where r: "?flush (rsProcessor s) = (e, p)" by (cases "?flush (rsProcessor s)")
  have inv: "processorInv accepted svc host render P C (rsProcessor s)" using pre by (simp add: recoveryAt_def)
  note flush = flushAll_inv [OF inv r, of Q]
  have "e \<noteq> Some PositionRegressed" using steady_result [OF steady_flushes(2) r] .
  with pre r flush show "case onProcessor ?flush s of
      (None, s') \<Rightarrow> recoveryAt accepted durable svc host render Q D C (\<lambda>f. f = old) path L s' \<and>
        asPending (epAssembler (rsProcessor s')) = []
    | (Some c, s') \<Rightarrow> recoveryFailed durable svc old D C c s'"
    by (cases e) (auto simp: onProcessor_def recoveryAt_def recoveryFailed_def intro: durableLine_grows)
qed

lemma commitSink_triple:
  "triple (\<lambda>s. recoveryAt accepted durable svc host render Q D C (\<lambda>f. f = old) path L s \<and>
        asPending (epAssembler (rsProcessor s)) = [])
     (onProcessor (commitSink (svcCommit svc)))
     (recoveryAt accepted durable svc host render Q (D @ C) C (\<lambda>f. f = old) path L)
     (recoveryFailed durable svc old D C)"
proof (unfold triple_def, intro allI impI)
  fix s :: "'s recoveryState"
  assume pre: "recoveryAt accepted durable svc host render Q D C (\<lambda>f. f = old) path L s \<and>
        asPending (epAssembler (rsProcessor s)) = []"
  obtain b k where r: "svcCommit svc (epSink (rsProcessor s)) = (b, k)" by (cases "svcCommit svc (epSink (rsProcessor s))")
  let ?p = "(rsProcessor s)\<lparr>epSink := k\<rparr>"
  have inv: "processorInv accepted svc host render Q C ?p"
    using pre processorInv_sink commit_accepts [OF r] by (auto simp: recoveryAt_def)
  have old: "\<forall>l \<in> set D. durableLine durable svc ?p l"
    using pre durableLine_grows [OF commit_durableGrows [OF r]] by (simp add: recoveryAt_def)
  have all: "\<forall>l \<in> set C. durableLine durable svc ?p l" if "b"
    using inv pre that commit_durable [of "epSink (rsProcessor s)" k] r
    by (auto simp: processorInv_def lineKept_empty durableLine_def)
  show "case onProcessor (commitSink (svcCommit svc)) s of
      (None, s') \<Rightarrow> recoveryAt accepted durable svc host render Q (D @ C) C (\<lambda>f. f = old) path L s'
    | (Some c, s') \<Rightarrow> recoveryFailed durable svc old D C c s'"
    using r inv old all pre
    by (cases b) (auto simp: onProcessor_def commitSink_def recoveryAt_def recoveryFailed_def)
qed

lemma saveResume_triple:
  "triple (recoveryAt accepted durable svc host render Q (D @ C) C (\<lambda>f. f = old) path L)
     (saveResume svc env resume)
     (recoveryAt accepted durable svc host render Q (D @ C) C (resumeSaved svc path old resume) path L)
     (recoveryFailed durable svc old D C)"
proof (rule tripleI)
  fix s s' assume pre: "recoveryAt accepted durable svc host render Q (D @ C) C (\<lambda>f. f = old) path L s"
    and run: "saveResume svc env resume s = (None, s')"
  show "recoveryAt accepted durable svc host render Q (D @ C) C (resumeSaved svc path old resume) path L s'"
    using pre run SaveCheckpoint_target(1) [of "svcEncodeCheckpoint svc" "reCheckpointCalls env" "reStamp env" resume "rsCheckpoint s"]
    by (fastforce simp: saveResume_def recoveryAt_def resumeSaved_def split: prod.splits if_splits)
next
  fix s c s' assume pre: "recoveryAt accepted durable svc host render Q (D @ C) C (\<lambda>f. f = old) path L s"
    and run: "saveResume svc env resume s = (Some c, s')"
  show "recoveryFailed durable svc old D C c s'"
    using pre run by (auto simp: saveResume_def recoveryAt_def recoveryFailed_def split: prod.splits if_splits)
qed

lemma completeLedger_triple:
  "triple (recoveryAt accepted durable svc host render Q (D @ C) C T path L)
     (completeLedger svc env l)
     (recoveryAt accepted durable svc host render Q (D @ C) C T path (\<lambda>l. True))
     (recoveryFailed durable svc old D C)"
  by (rule tripleI)
     (auto simp: completeLedger_def recoveryAt_def recoveryFailed_def Let_def split: prod.splits if_splits)

text \<open>\<open>commit\<close> as a whole, for the ledger \<open>l\<close> whose last incident is to be completed.\<close>

lemma commitRecovery_triple:
  "triple (recoveryAt accepted durable svc host render P D C (\<lambda>f. f = old) path (\<lambda>x. x = Some l))
     (commitRecovery svc env)
     (recoveryAt accepted durable svc host render Q (D @ C) C
        (resumeSaved svc path old (giResume (last (glIncidents l)))) path (\<lambda>l. True))
     (recoveryFailed durable svc old D C)"
proof (unfold triple_def, intro allI impI)
  fix s :: "'s recoveryState"
  let ?pre = "recoveryAt accepted durable svc host render P D C (\<lambda>f. f = old) path (\<lambda>x. x = Some l)"
  let ?post = "recoveryAt accepted durable svc host render Q (D @ C) C
        (resumeSaved svc path old (giResume (last (glIncidents l)))) path (\<lambda>l. True)"
  let ?fail = "recoveryFailed durable svc old D C"
  let ?g = "last (glIncidents l)" and ?total = "word_of_nat (glTotal l) :: uint64"
  let ?count = "update (\<lambda>p. p\<lparr>epDiagnostics :=
      (count (\<lambda>c. c\<lparr>ocGaps := ocGaps c + 1\<rparr>) (epDiagnostics p))\<lparr>dgPersistentGaps := ?total\<rparr>\<rparr>)"
  assume pre: "?pre s"
  then have ledger: "grLedger (rsRecovery s) = Some l" by (simp add: recoveryAt_def)
  have quiet_count: "quiet (?count :: 's eventProcessor action)" by (rule quiet_update) (simp add: sameWork_def)
  note before = recoveryAt_old [where acc = accepted and dur = durable and svc = svc and host = host and
      render = render and D = D and C = C and old = old and path = path]
    and after_commit = recoveryAt_durable [where acc = accepted and dur = durable and svc = svc and host = host and
      render = render and D = D and C = C and old = old and path = path]
  have chain: "triple ?pre
     (andThen (onProcessor ?count) (andThen (onProcessor (report (GapIncident ?g)))
        (andThen (onProcessor (flushAll (svcPut svc) (svcLower svc) (svcPrint svc) CompletionSourceGap))
           (andThen (onProcessor (commitSink (svcCommit svc)))
              (andThen (saveResume svc env (giResume ?g))
                 (andThen (completeLedger svc env l)
                    (onProcessor (report (ResumedWithGap (giNumber ?g) (giResume ?g) ?total)))))))))
     ?post ?fail"
    by (rule triple_andThen [OF recovery_quiet [OF quiet_count]], erule (1) before [rotated],
        rule triple_andThen [OF recovery_quiet [OF quiet_report]], erule (1) before [rotated],
        rule triple_andThen [OF flushAll_triple [where Q = Q]], rule triple_andThen [OF commitSink_triple],
        rule triple_andThen [OF saveResume_triple], rule triple_andThen [OF completeLedger_triple],
        rule recovery_quiet [OF quiet_report], erule (1) after_commit [rotated])
  show "case commitRecovery svc env s of (None, s') \<Rightarrow> ?post s' | (Some c, s') \<Rightarrow> ?fail c s'"
  proof (cases "glIncidents l = []")
    case True
    with ledger before [OF pre] show ?thesis by (simp add: commitRecovery_def)
  next
    case False
    with ledger have "commitRecovery svc env s = andThen (onProcessor ?count) (andThen (onProcessor (report (GapIncident ?g)))
        (andThen (onProcessor (flushAll (svcPut svc) (svcLower svc) (svcPrint svc) CompletionSourceGap))
           (andThen (onProcessor (commitSink (svcCommit svc)))
              (andThen (saveResume svc env (giResume ?g))
                 (andThen (completeLedger svc env l)
                    (onProcessor (report (ResumedWithGap (giNumber ?g) (giResume ?g) ?total)))))))) s"
      by (simp add: commitRecovery_def Let_def)
    with chain pre show ?thesis by (simp add: triple_def)
  qed
qed

end

end
