(* ===== verification/FollowKept.thy ===== *)
theory FollowKept
  imports FollowRecovery
begin

text \<open>
  One iteration of the follow loop, and any number of them, keep the invariant; the start of
  \<open>runFollower\<close> establishes it.
\<close>

section \<open>The environment of an action\<close>

lemma onState_result:
  "onState m s = (e, u) \<Longrightarrow> \<exists>p. m (fsProcessor s) = (e, p) \<and>
     u = s\<lparr>fsRecovery := (fsRecovery s)\<lparr>rsProcessor := p\<rparr>\<rparr>"
  by (auto simp: onState_def onProcessor_def split: prod.splits)

lemma quiet_gap: "quiet (recordSourceGap e)"
  by (simp add: recordSourceGap_def quiet_update sameWork_def quiet_andThen quiet_tally quiet_report)

lemma savedTarget_frame [simp]:
  "savedTarget (s\<lparr>fsFollower := f\<rparr>) = savedTarget s" "savedTarget (s\<lparr>fsRotationCount := n\<rparr>) = savedTarget s"
  by (simp_all add: savedTarget_def)

lemma loopInv_count [simp]:
  "loopInv acc dur svc op start host render t (s\<lparr>fsRotationCount := n\<rparr>) = loopInv acc dur svc op start host render t s"
  by (simp add: loopInv_def)

text \<open>The follower moves on.\<close>

lemma loopInv_follower:
  assumes "loopInv acc dur svc op start host render t s" and "advancedTo (fsFollower s) f"
  shows "loopInv acc dur svc op start host render t (s\<lparr>fsFollower := f\<rparr>)"
proof -
  have "\<not> checkpointBefore (auditPosition (rfComplete f)) (cwLast (fsWriter s))"
    by (rule endOrder.not_before_trans [where q = "auditPosition (rfComplete (fsFollower s))"])
       (use assms in \<open>simp_all add: loopInv_def advancedTo_def completeBefore_audit\<close>)
  with assms show ?thesis by (simp add: loopInv_def advancedTo_def)
qed

text \<open>A stop that touches neither the writer nor the checkpoint file.\<close>

lemma loopEnd_stop:
  assumes inv: "loopInv acc dur svc op start host render t s" and same: "sameWork (fsProcessor s) (fsProcessor u)"
    and "fsWriter u = fsWriter s" and "savedTarget u = savedTarget s"
  shows "loopEnd dur svc start t u"
  using assms by (auto simp: loopInv_def loopEnd_def covered_def durableLine_same [OF same])

text \<open>A prepared and committed recovery leaves the checkpoint at the new start, if there is one.\<close>

definition resumedAt :: "'s services \<Rightarrow> string \<Rightarrow> stateFile \<Rightarrow> generationPosition \<Rightarrow> stateFile \<Rightarrow> bool" where
  "resumedAt svc path old position f \<longleftrightarrow>
     (if path = [] then f = old else savedAt (svcEncodeCheckpoint svc) f (auditPosition position))"

lemma resumeSaved_at:
  "resumeSaved svc path old (giResume (newIncident env input n previous position cause)) f \<Longrightarrow> resumedAt svc path old position f"
  using savedAt_resume by (auto simp: resumeSaved_def resumedAt_def split: if_splits)

text \<open>The lines that are durable before a recovery: those of earlier followers and those the checkpoint covers.\<close>

definition coveredLines :: "stateFile \<Rightarrow> followTrace \<Rightarrow> 's followState \<Rightarrow> sourceLine list" where
  "coveredLines start t s = ftEarlier t @ (if savedTarget s = start then []
      else filter (\<lambda>l. checkpointBefore (lineSource l) (cwLast (fsWriter s))) (ftCurrent t))"

context follow_services
begin

section \<open>The branches\<close>

lemma emitExpired_step:
  "triple (loop op start host render t) (onState (emitExpired (svcPut svc) (svcLower svc) (svcPrint svc) now))
     (loop op start host render t) (halt start t)"
proof -
  have "triple (\<lambda>u. u = s) (onState (emitExpired (svcPut svc) (svcLower svc) (svcPrint svc) now))
      (loop op start host render t) (halt start t)" if "loop op start host render t s" for s
  proof (rule onState_step [OF that])
    fix e p' assume r: "emitExpired (svcPut svc) (svcLower svc) (svcPrint svc) now (fsProcessor s) = (e, p')"
    have "processorInv accepted svc host render (\<lambda>p. \<not> sourcePositionBefore p (cwLast (fsWriter s))) (ftCurrent t) (fsProcessor s)"
      using that by (simp add: loopInv_def)
    note step = emitExpired_inv [OF this r]
    with steady_result [OF steady_flushes(1) r]
    show "durableGrows durable (fsProcessor s) p' \<and> e \<noteq> Some PositionRegressed \<and>
        (e = None \<longrightarrow> processorInv accepted svc host render (\<lambda>p. \<not> sourcePositionBefore p (cwLast (fsWriter s))) (ftCurrent t) p')"
      by blast
  qed simp_all
  then show ?thesis by (simp add: triple_def)
qed

lemma noticeRotation_step:
  "triple (loop op start host render t) noticeRotation (loop op start host render t) (halt start t)"
proof (unfold triple_def, intro allI impI)
  fix s assume inv: "loop op start host render t s"
  let ?n = "rfRotationCount (fsFollower s)"
  let ?m = "andThen (tally (\<lambda>c. c\<lparr>ocRotations := word_of_nat ?n\<rparr>)) (report (InputRotation ?n)) :: 's eventProcessor action"
  have "triple (loop op start host render t) (onState ?m) (loop op start host render t) (halt start t)"
    by (rule onState_quiet [OF quiet_andThen [OF quiet_tally quiet_report]])
  with inv show "case noticeRotation s of (None, s') \<Rightarrow> loop op start host render t s' | (Some c, s') \<Rightarrow> halt start t c s'"
    by (simp add: noticeRotation_def triple_def Let_def)
qed

lemma noticeCaughtUp_step:
  "triple (loop op start host render t) (noticeCaughtUp env) (loop op start host render t) (halt start t)"
proof -
  let ?m = "\<lambda>p. report (RecoveryCaughtUp (ocReplayCandidates (dgCounters (epDiagnostics p)))) (p\<lparr>epReplayWindow := False\<rparr>)"
  have "quiet (?m :: 's eventProcessor action)"
    by (auto simp: quiet_def sameWork_def report_def logEntry_def split: list.split)
  from onState_quiet [OF this] show ?thesis by (simp add: noticeCaughtUp_def triple_def)
qed

lemma idleIteration_step:
  "triple (loop op start host render t) (idleIteration svc env) (loop op start host render t) (halt start t)"
  unfolding idleIteration_def
  by (intro triple_andThen [OF noticeRotation_step] triple_andThen [OF emitExpired_step]
      triple_andThen [OF noticeCaughtUp_step] triple_andThen [OF saveProgress_step] emitHeartbeat_step)

lemma lineIteration_step:
  assumes inv: "loop op start host render t s"
    and line: "startsAt p l" "\<not> checkpointBefore (auditPosition p) (cwLast (fsWriter s))"
  shows "triple (\<lambda>u. u = s) (lineIteration svc env l)
     (loop op start host render (t\<lparr>ftCurrent := ftCurrent t @ [l]\<rparr>)) (halt start (t\<lparr>ftCurrent := ftCurrent t @ [l]\<rparr>))"
  unfolding lineIteration_def
proof (rule triple_andThen [OF onState_step [OF inv] triple_andThen [OF saveProgress_step emitHeartbeat_step]])
  have flat: "spStart (cwLast (fsWriter s)) = spEnd (cwLast (fsWriter s))" using inv by (simp add: loopInv_def)
  have late: "\<not> checkpointBefore (lineSource l) (cwLast (fsWriter s))"
    using line by (auto simp: startsAt_def checkpointBefore_def split: if_splits)
  have bound: "boundedBy (\<lambda>p. \<not> sourcePositionBefore p (cwLast (fsWriter s))) (lineSource l)"
    using late flat by (simp add: boundedBy_def before_flat)
  show "\<And>x. x \<in> set (ftCurrent (t\<lparr>ftCurrent := ftCurrent t @ [l]\<rparr>)) \<Longrightarrow>
      x \<in> set (ftCurrent t) \<or> \<not> checkpointBefore (lineSource x) (cwLast (fsWriter s))"
    using late by auto
  fix e p' assume r: "processLine svc (ieNow env) (ieLater env) l (fsProcessor s) = (e, p')"
  have "processorInv accepted svc host render (\<lambda>p. \<not> sourcePositionBefore p (cwLast (fsWriter s))) (ftCurrent t) (fsProcessor s)"
    using inv by (simp add: loopInv_def)
  from processLine_inv [OF this bound r] steady_result [OF steady_processLine r]
  show "durableGrows durable (fsProcessor s) p' \<and> e \<noteq> Some PositionRegressed \<and>
      (e = None \<longrightarrow> processorInv accepted svc host render (\<lambda>p. \<not> sourcePositionBefore p (cwLast (fsWriter s)))
         (ftCurrent (t\<lparr>ftCurrent := ftCurrent t @ [l]\<rparr>)) p')"
    by simp
qed simp

lemma shutdownIteration_step:
  "triple (loop op start host render t) (shutdownIteration svc env) (loop op start host render t) (halt start t)"
  unfolding shutdownIteration_def
proof (rule triple_andThen)
  let ?flush = "flushAll (svcPut svc) (svcLower svc) (svcPrint svc) CompletionShutdown"
  let ?P = "\<lambda>u. loop op start host render t u \<and> (\<forall>Q. heldBounded Q (epAssembler (fsProcessor u)))"
  show "triple (loop op start host render t) (onState ?flush) ?P (halt start t)"
  proof (unfold triple_def, intro allI impI)
    fix s assume inv: "loop op start host render t s"
    have step: "triple (\<lambda>u. u = s) (onState ?flush) (loop op start host render t) (halt start t)"
    proof (rule onState_step [OF inv])
      fix e p' assume r: "?flush (fsProcessor s) = (e, p')"
    have "processorInv accepted svc host render (\<lambda>p. \<not> sourcePositionBefore p (cwLast (fsWriter s))) (ftCurrent t) (fsProcessor s)"
      using inv by (simp add: loopInv_def)
    note step = flushAll_inv [OF this r, where Q = "\<lambda>p. \<not> sourcePositionBefore p (cwLast (fsWriter s))"]
      with steady_result [OF steady_flushes(2) r]
      show "durableGrows durable (fsProcessor s) p' \<and> e \<noteq> Some PositionRegressed \<and>
          (e = None \<longrightarrow> processorInv accepted svc host render (\<lambda>p. \<not> sourcePositionBefore p (cwLast (fsWriter s))) (ftCurrent t) p')"
        by blast
    qed simp_all
    obtain e u where on: "onState ?flush s = (e, u)" by (cases "onState ?flush s")
    obtain p where p: "?flush (fsProcessor s) = (e, p)" and u: "fsProcessor u = p"
      using onState_result [OF on] by auto
    have "heldBounded Q (epAssembler p)" for Q
      using flushAll_wrote(2) [OF p] heldBounded_flushed by (metis prod.collapse)
    with step on u show "case onState ?flush s of (None, s') \<Rightarrow> ?P s' | (Some c, s') \<Rightarrow> halt start t c s'"
      by (cases e) (simp_all add: triple_def)
  qed
  show "triple ?P (\<lambda>s. persistFollow svc (iePersist env) True (auditPosition (rfComplete (fsFollower s))) s)
      (loop op start host render t) (halt start t)"
    by (rule persistFollow_triple) (simp add: safePosition_complete)
qed

section \<open>The branch of a gap\<close>

lemma recoverGap_triple:
  "triple (recoveryAt accepted durable svc host render P D C (\<lambda>f. f = old) path L)
     (andThen (prepareFollow svc env previous position cause) (commitRecovery svc env'))
     (recoveryAt accepted durable svc host render Q (D @ C) C (resumedAt svc path old position) path (\<lambda>l. True))
     (recoveryFailed durable svc old D C)"
proof (rule triple_andThen)
  let ?at = "recoveryAt accepted durable svc host render P D C (\<lambda>f. f = old) path" and ?bad = "recoveryFailed durable svc old D C"
  let ?post = "recoveryAt accepted durable svc host render Q (D @ C) C (resumedAt svc path old position) path (\<lambda>l. True)"
  let ?prepared = "\<lambda>l. \<exists>k input n. l = Some k \<and> glIncidents k \<noteq> [] \<and>
      last (glIncidents k) = newIncident env input n previous position cause"
  show "triple (?at L) (prepareFollow svc env previous position cause) (?at ?prepared) ?bad"
    by (rule triple_conseq [OF prepareFollow_triple]) (assumption | erule conjE, erule (1) recoveryAt_old [rotated])+
  show "triple (?at ?prepared) (commitRecovery svc env') ?post ?bad"
  proof (unfold triple_def, intro allI impI)
    fix u assume "?at ?prepared u"
    then obtain k input n where k: "last (glIncidents k) = newIncident env input n previous position cause"
      and at: "?at (\<lambda>x. x = Some k) u"
      by (auto simp: recoveryAt_def)
    have "triple (?at (\<lambda>x. x = Some k)) (commitRecovery svc env') ?post ?bad"
      by (rule triple_conseq [OF commitRecovery_triple])
         (auto simp: recoveryAt_def k intro: resumeSaved_at)
    with at show "case commitRecovery svc env' u of (None, s') \<Rightarrow> ?post s' | (Some c, s') \<Rightarrow> ?bad c s'"
      by (simp add: triple_def)
  qed
qed

lemma gap_before:
  assumes "loop op start host render t s"
  shows "recoveryAt accepted durable svc host render (\<lambda>p. \<not> sourcePositionBefore p (cwLast (fsWriter s)))
     (coveredLines start t s) (ftCurrent t) (\<lambda>f. f = savedTarget s) (opCheckpointPath op) (\<lambda>l. True) (fsRecovery s)"
  using assms by (auto simp: recoveryAt_def loopInv_def covered_def savedTarget_def coveredLines_def)

lemma gap_failed:
  assumes "loop op start host render t s" and "c \<noteq> PositionRegressed"
    and "recoveryFailed durable svc (savedTarget s) (coveredLines start t s) (ftCurrent t) d r"
  shows "halt start t c (s\<lparr>fsRecovery := r\<rparr>)"
  using assms unfolding stopped_def loopEnd_def recoveryFailed_def loopInv_def
  by (auto simp: savedTarget_def covered_def coveredLines_def split: if_splits)

lemma gap_passed:
  assumes inv: "loop op start host render t s" and new: "followerInv new"
    and at: "recoveryAt accepted durable svc host render (\<lambda>p. \<not> sourcePositionBefore p (auditPosition (rfComplete new)))
        (coveredLines start t s @ ftCurrent t) (ftCurrent t) (resumedAt svc (opCheckpointPath op) (savedTarget s) (rfComplete new))
        (opCheckpointPath op) (\<lambda>l. True) r"
    and s': "s' = s\<lparr>fsRecovery := r\<lparr>rsProcessor := (rsProcessor r)\<lparr>epReplayWindow := True\<rparr>\<rparr>,
        fsFollower := new, fsRotationCount := rfRotationCount new,
        fsWriter := newCheckpointWriter (opCheckpointPath op) (opCheckpointInterval op) input
          (auditPosition (rfComplete new)) True now\<rparr>"
  shows "loop op start host render \<lparr>ftEarlier = ftEarlier t @ ftCurrent t, ftCurrent = []\<rparr> s'"
proof -
  let ?pos = "auditPosition (rfComplete new)"
  have writer: "cwLast (fsWriter s') = ?pos" "cwPath (fsWriter s') = opCheckpointPath op"
    and tgt: "savedTarget s' = sdTarget (rsCheckpoint r)" and f': "fsFollower s' = new"
    and p': "fsProcessor s' = (rsProcessor r)\<lparr>epReplayWindow := True\<rparr>"
    by (simp_all add: s' newCheckpointWriter_def savedTarget_def)
  have "\<forall>l \<in> set (ftEarlier t @ ftCurrent t). durableLine durable svc (fsProcessor s') l"
    using at by (auto simp: recoveryAt_def p' durableLine_def coveredLines_def)
  moreover have "savedTarget s' = start \<or> savedAt (svcEncodeCheckpoint svc) (savedTarget s') ?pos"
    and "opCheckpointPath op = [] \<longrightarrow> savedTarget s' = start"
    using at inv by (auto simp: recoveryAt_def resumedAt_def tgt loopInv_def split: if_splits)
  moreover have "processorInv accepted svc host render (\<lambda>p. \<not> sourcePositionBefore p ?pos) [] (fsProcessor s')"
    using at by (simp add: recoveryAt_def p' processorInv_def)
  moreover have "grCheckpointPath (rsRecovery (fsRecovery s')) = opCheckpointPath op" using at by (simp add: s' recoveryAt_def)
  ultimately show ?thesis
    using new by (simp add: loopInv_def writer f' covered_def endOrder.before_irrefl)
qed

lemma gapIteration_step:
  assumes inv: "loop op start host render t s" and run: "gapIteration svc op input env cause s = (e, s')"
  shows "case e of None \<Rightarrow> loop op start host render \<lparr>ftEarlier = ftEarlier t @ ftCurrent t, ftCurrent = []\<rparr> s'
     | Some c \<Rightarrow> halt start t c s'"
proof -
  have untouched: "halt start t c s" if "c \<noteq> PositionRegressed" for c
    using loopInv_end [OF inv] that by (simp add: stopped_def)
  let ?open = "OpenRecoveryFollower (svcHash svc) (CanonicalPath (svcCwd svc)) (opInputPath op)
             (rotationOptionsOf op (grPath (rsRecovery (fsRecovery s))))
             (rvProbes env) (rvProbeCloseFails env) (rvListing env) (rvOpens env)"
  let ?load = "loadConfiguredCheckpoint (svcDecodeCheckpoint svc) (opCheckpointPath op) input
        (readState (rvLoadFails env) (rsCheckpoint (fsRecovery s)))"
  show ?thesis
  proof (cases "\<exists>new previous. ?open = Inr new \<and> ?load = Inr previous")
    case False
    have "c \<noteq> PositionRegressed" if "?load = Inl c" for c
      using that by (auto simp: loadConfiguredCheckpoint_def split: sum.splits option.splits if_splits)
    with False run untouched show ?thesis by (auto simp: gapIteration_def split: sum.splits)
  next
    case True
    then obtain new previous where opened: "?open = Inr new" and loaded: "?load = Inr previous" by blast
    let ?act = "andThen (prepareFollow svc (rvPrepare env) previous (rfComplete new) cause) (commitRecovery svc (rvCommit env))"
    obtain e1 r where act: "?act (fsRecovery s) = (e1, r)" by (cases "?act (fsRecovery s)")
    note res = run [unfolded gapIteration_def opened loaded act sum.case prod.case]
    note outcome = tripleD [OF recoverGap_triple gap_before [OF inv], of "rvPrepare env" previous "rfComplete new" cause "rvCommit env"]
    show ?thesis
    proof (cases e1)
      case (Some c)
      note bad = outcome(2) [OF act [unfolded Some]]
      then have "halt start t c (s\<lparr>fsRecovery := r\<rparr>)" by (intro gap_failed [OF inv _ bad]) (simp add: recoveryFailed_def)
      with res Some show ?thesis by auto
    next
      case None
      note at = outcome(1) [OF act [unfolded None]]
      show ?thesis
      proof (cases "rvCloseFails env")
        case True
        have "recoveryFailed durable svc (savedTarget s) (coveredLines start t s) (ftCurrent t) (CollectorFailed CallFailed) r"
          using at by (intro recoveryAt_durable) simp_all
        from gap_failed [OF inv _ this] res None True show ?thesis by auto
      next
        case False
        with gap_passed [OF inv OpenRecoveryFollower_inv [OF opened] at] res None show ?thesis by auto
      qed
    qed
  qed
qed

end

end
