(* ===== verification/FollowRun.thy ===== *)
theory FollowRun
  imports FollowKept
begin

text \<open>
  Iterations and runs of the follow loop, from the start of \<open>runFollower\<close>: the invariant holds
  after every iteration that goes on, and any stop leaves the checkpoint covered.
\<close>

definition iterationOk ::
  "('s \<Rightarrow> canonicalEvent list) \<Rightarrow> ('s \<Rightarrow> canonicalEvent list) \<Rightarrow> 's services \<Rightarrow> commandOptions \<Rightarrow> stateFile
     \<Rightarrow> string \<Rightarrow> bool \<Rightarrow> followTrace \<Rightarrow> followResult \<times> 's followState \<Rightarrow> bool" where
  "iterationOk acc dur svc op start host render t res \<longleftrightarrow>
     (case res of
        (GoOn, s) \<Rightarrow> loopInv acc dur svc op start host render t s
      | (Stop e, s) \<Rightarrow> e \<noteq> Some PositionRegressed \<and> loopEnd dur svc start t s)"

context follow_services
begin

lemma continuing_ok:
  assumes "triple (\<lambda>u. u = s) m (loop op start host render t) (halt start t)"
  shows "iterationOk accepted durable svc op start host render t (continuing (m s))"
  using assms by (auto simp: triple_def continuing_def iterationOk_def stopped_def split: prod.splits option.splits)

lemma stopping_ok:
  assumes "triple (loop op start host render t) m (loop op start host render t) (halt start t)" and "loop op start host render t s"
  shows "iterationOk accepted durable svc op start host render t (stopping (m s))"
  using assms loopInv_end
  by (fastforce simp: triple_def stopping_def iterationOk_def stopped_def split: prod.splits option.splits)

lemma triple_at: "triple P m Q E \<Longrightarrow> P s \<Longrightarrow> triple (\<lambda>u. u = s) m Q E"
  by (simp add: triple_def)

lemma followIteration_step:
  assumes inv: "loop op start host render t s"
  shows "iterationOk accepted durable svc op start host render (traceStep svc op input env s t)
     (followIteration svc op input env s)"
proof -
  obtain res f where polled: "Next (svcHash svc) (CanonicalPath (svcCwd svc)) (ieNext env) (fsFollower s) = (res, f)"
    by (cases "Next (svcHash svc) (CanonicalPath (svcCwd svc)) (ieNext env) (fsFollower s)")
  let ?s = "s\<lparr>fsFollower := f\<rparr>"
  have fi: "followerInv (fsFollower s)" using inv by (simp add: loopInv_def)
  note aligned = Next_aligned [OF fi polled]
  have moved: "loop op start host render t ?s" if "res \<noteq> Failed CallFailed"
    using that aligned loopInv_follower [OF inv] by blast
  show ?thesis
  proof (cases res)
    case (Returned l)
    let ?t = "t\<lparr>ftCurrent := ftCurrent t @ [l]\<rparr>"
    have "startsAt (rfComplete (fsFollower s)) l" using aligned Returned by simp
    moreover have "\<not> checkpointBefore (auditPosition (rfComplete (fsFollower s))) (cwLast (fsWriter ?s))"
      using inv by (simp add: loopInv_def)
    ultimately have "triple (\<lambda>u. u = ?s) (lineIteration svc env l) (loop op start host render ?t) (halt start ?t)"
      using moved Returned by (intro lineIteration_step) simp_all
    from continuing_ok [OF this] polled Returned show ?thesis
      by (simp add: followIteration_def traceStep_def Let_def)
  next
    case Idle
    with moved have "loop op start host render t ?s" by simp
    from continuing_ok [OF triple_at [OF idleIteration_step this]] polled Idle show ?thesis
      by (simp add: followIteration_def traceStep_def Let_def)
  next
    case Panic
    with moved loopInv_end polled show ?thesis
      by (fastforce simp: followIteration_def traceStep_def iterationOk_def)
  next
    case (Failed e)
    consider (stop) "cancelled e" | (gap) "\<not> cancelled e" "RecoverableSourceGap e"
      | (error) "\<not> cancelled e" "\<not> RecoverableSourceGap e" by blast
    then show ?thesis
    proof cases
      case stop
      then have "e \<noteq> CallFailed" by auto
      then have go: "loop op start host render t ?s" using moved Failed by auto
      have "followIteration svc op input env s = stopping (shutdownIteration svc env ?s)"
        using polled Failed stop by (simp add: followIteration_def)
      moreover have "fst (stopping (shutdownIteration svc env ?s)) \<noteq> GoOn"
        by (simp add: stopping_def split: prod.split)
      ultimately show ?thesis
        using stopping_ok [OF shutdownIteration_step go] polled Failed by (simp add: traceStep_def)
    next
      case gap
      have "e \<noteq> CallFailed" using gap(2) by (auto simp: RecoverableSourceGap_def)
      then have go: "loop op start host render t ?s" using moved Failed by auto
      obtain r u where run: "gapIteration svc op input (ieRecover env) e ?s = (r, u)"
        by (cases "gapIteration svc op input (ieRecover env) e ?s")
      have "followIteration svc op input env s = continuing (r, u)"
        using polled Failed gap run by (simp add: followIteration_def)
      with gapIteration_step [OF go run] polled Failed show ?thesis
        by (cases r) (simp_all add: traceStep_def continuing_def iterationOk_def stopped_def)
    next
      case error
      let ?u = "snd (onState (recordSourceGap e) ?s)"
      have it: "followIteration svc op input env s = (Stop (Some (CollectorFailed e)), ?u)"
        using polled Failed error by (simp add: followIteration_def)
      obtain c p where r: "recordSourceGap e (fsProcessor s) = (c, p)"
        by (cases "recordSourceGap e (fsProcessor s)")
      have u: "?u = ?s\<lparr>fsRecovery := (fsRecovery s)\<lparr>rsProcessor := p\<rparr>\<rparr>"
        using r by (simp add: onState_def onProcessor_def)
      have "sameWork (fsProcessor s) (fsProcessor ?u)"
        using quiet_gap [of e] r unfolding u quiet_def by (auto dest: spec [of _ "fsProcessor s"])
      then have "loopEnd durable svc start t ?u"
        by (rule loopEnd_stop [OF inv]) (simp_all add: u savedTarget_def)
      with it polled Failed show ?thesis by (simp add: traceStep_def iterationOk_def)
    qed
  qed
qed

lemma followLoop_step:
  "loop op start host render t s \<Longrightarrow>
     iterationOk accepted durable svc op start host render (loopTrace svc op input envs s t) (followLoop svc op input envs s)"
proof (induction envs arbitrary: s t)
  case Nil
  then show ?case by (simp add: iterationOk_def)
next
  case (Cons env envs)
  obtain res s' where it: "followIteration svc op input env s = (res, s')"
    by (cases "followIteration svc op input env s")
  note step = followIteration_step [OF Cons.prems, of input env]
  show ?case
  proof (cases res)
    case GoOn
    with step it have "loop op start host render (traceStep svc op input env s t) s'" by (simp add: iterationOk_def)
    from Cons.IH [OF this] it GoOn show ?thesis by simp
  next
    case (Stop e)
    with step it show ?thesis by simp
  qed
qed

end

section \<open>The start\<close>

text \<open>A processor as the command makes it: nothing pending, nothing fenced.\<close>

definition freshAssembler :: "assembler \<Rightarrow> bool" where
  "freshAssembler a \<longleftrightarrow> (\<exists>timeout limits. NewBoundedAssembler timeout limits = Some a)"

lemma freshAssembler_inv:
  assumes "freshAssembler a"
  shows "asmInv a" and "heldBounded P a" and "asPending a = []"
proof -
  obtain timeout limits where n: "NewBoundedAssembler timeout limits = Some a"
    using assms by (auto simp: freshAssembler_def)
  show "asmInv a" using NewBoundedAssembler_inv(1) [OF n] .
  show "heldBounded P a" and "asPending a = []"
    using n by (auto simp: NewBoundedAssembler_def NewAssembler_def heldBounded_def heldPositions_def split: if_splits)
qed

lemma fresh_processorInv:
  "freshAssembler (epAssembler p) \<Longrightarrow> processorInv acc svc (epHost p) (epRenderMessage p) P [] p"
  by (simp add: processorInv_def freshAssembler_inv)

lemma openGapRecovery_path:
  "openGapRecovery svc paths lock input f d = (Inr manager, d') \<Longrightarrow> grCheckpointPath manager = rpCheckpoint paths"
  by (auto simp: openGapRecovery_def Let_def split: if_splits sum.splits option.splits prod.splits)

lemma prepareFollow_frame:
  "prepareFollow svc env previous position cause r = (e, r') \<Longrightarrow>
     rsProcessor r' = rsProcessor r \<and> grCheckpointPath (rsRecovery r') = grCheckpointPath (rsRecovery r)"
  by (auto simp: prepareFollow_def prepareRecovery_def Let_def split: prod.splits if_splits)

lemma startFollowing_inv:
  assumes "startFollowing svc op env saved r = (Inr (f, recovering), r')"
  shows "followerInv f \<and> rsProcessor r' = rsProcessor r \<and>
     grCheckpointPath (rsRecovery r') = grCheckpointPath (rsRecovery r)"
proof -
  have zero: "foGeneration (roFollower (rotationOptionsOf op p)) = 0" for p by (simp add: rotationOptionsOf_def)
  show ?thesis
    using assms
    by (auto simp: startFollowing_def startRecovered_def Let_def
        split: sum.splits prod.splits option.splits if_splits
        dest: prepareFollow_frame OpenRecoveryFollower_inv OpenRotatingFollower_inv [OF _ zero])
qed

context follow_services
begin

text \<open>The first save is at the position the writer begins with.\<close>

lemma start_persisted:
  assumes "persistFollow svc env force pos s = (None, s')" and "pos = cwLast (fsWriter s)"
  shows "(processorInv accepted svc host render P C (fsProcessor s) \<longrightarrow> processorInv accepted svc host render P C (fsProcessor s')) \<and>
     cwLast (fsWriter s') = cwLast (fsWriter s) \<and> cwPath (fsWriter s') = cwPath (fsWriter s) \<and>
     rsRecovery (fsRecovery s') = rsRecovery (fsRecovery s) \<and> fsFollower s' = fsFollower s"
proof -
  obtain u where persist: "persist (svcCommit svc) (svcEncodeCheckpoint svc) env pos force
        \<lparr>psWriter = fsWriter s, psSink = epSink (fsProcessor s), psDirectory = rsCheckpoint (fsRecovery s)\<rparr> = (None, u)"
    and s': "s' = s\<lparr>fsWriter := psWriter u, fsRecovery := (fsRecovery s)\<lparr>rsProcessor := (fsProcessor s)\<lparr>epSink := psSink u\<rparr>,
         rsCheckpoint := psDirectory u\<rparr>\<rparr>"
    using assms(1) by (auto simp: persistFollow_def split: prod.splits)
  from persist show ?thesis
  proof (cases rule: persist_cases)
    case (saved k ok d)
    then have "accepted k = accepted (epSink (fsProcessor s))" using commit_accepts by simp
    with saved assms(2) show ?thesis by (auto simp: s' processorInv_def split: if_splits)
  qed (simp_all add: s' processorInv_def)
qed

text \<open>Once the recovery, if any, has been committed, the first checkpoint is saved.\<close>

lemma enterLoop_inv:
  assumes run: "enterLoop svc op input env resumed f recovering r = (None, s)"
    and f: "followerInv f" and path: "grCheckpointPath (rsRecovery r) = opCheckpointPath op"
    and fresh: "freshAssembler (epAssembler (rsProcessor r))"
  shows "loop op (savedTarget s) (epHost (rsProcessor r)) (epRenderMessage (rsProcessor r)) emptyTrace s"
proof -
  let ?pos = "auditPosition (rfComplete f)" and ?host = "epHost (rsProcessor r)" and ?render = "epRenderMessage (rsProcessor r)"
  let ?P = "\<lambda>p. \<not> sourcePositionBefore p ?pos"
  let ?w = "newCheckpointWriter (opCheckpointPath op) (opCheckpointInterval op) input ?pos (resumed \<or> recovering) (seNow env)"
  obtain e r1 where rec: "(if recovering then commitRecovery svc (rvCommit (seRecover env)) r else (None, r)) = (e, r1)"
    by (cases "if recovering then commitRecovery svc (rvCommit (seRecover env)) r else (None, r)")
  let ?s1 = "\<lparr>fsFollower = f, fsWriter = ?w, fsRotationCount = rfRotationCount f, fsRecovery = r1\<rparr>"
  let ?m = "if resumed \<or> recovering
      then (\<lambda>p. report (RecoveryStarted (spDevice ?pos) (spInode ?pos) (spEnd ?pos)) (p\<lparr>epReplayWindow := True\<rparr>))
      else update (\<lambda>p. p\<lparr>epReplayWindow := False\<rparr>)"
  have none: "e = None"
    and rest: "andThen (persistFollow svc (sePersist env) True ?pos) (onState ?m) ?s1 = (None, s)"
    using run rec by (auto simp: enterLoop_def Let_def split: prod.splits option.splits if_splits)
  have start: "processorInv accepted svc ?host ?render ?P [] (rsProcessor r1) \<and>
      grCheckpointPath (rsRecovery r1) = opCheckpointPath op"
  proof (cases recovering)
    case False
    with rec path fresh show ?thesis using fresh_processorInv by auto
  next
    case True
    then have commit: "commitRecovery svc (rvCommit (seRecover env)) r = (None, r1)" using rec none by simp
    then obtain l where l: "grLedger (rsRecovery r) = Some l" by (cases "grLedger (rsRecovery r)") (auto simp: commitRecovery_def)
    have "recoveryAt accepted durable svc ?host ?render ?P [] [] (\<lambda>f. f = sdTarget (rsCheckpoint r)) (opCheckpointPath op) (\<lambda>x. x = Some l) r"
      using fresh_processorInv [OF fresh] l path by (simp add: recoveryAt_def)
    from tripleD(1) [OF commitRecovery_triple [where Q = ?P] this commit] show ?thesis by (simp add: recoveryAt_def)
  qed
  obtain s2 where persisted: "persistFollow svc (sePersist env) True ?pos ?s1 = (None, s2)" and on: "onState ?m s2 = (None, s)"
    using rest by (auto simp: andThen_ok)
  have "processorInv accepted svc ?host ?render ?P [] (fsProcessor s2) \<and> cwLast (fsWriter s2) = ?pos \<and>
      cwPath (fsWriter s2) = opCheckpointPath op \<and> rsRecovery (fsRecovery s2) = rsRecovery r1 \<and> fsFollower s2 = f"
    using start_persisted [OF persisted] start by (simp add: newCheckpointWriter_def)
  moreover have "quiet ?m"
    by (auto simp: quiet_def sameWork_def report_def logEntry_def update_def split: list.split)
  then obtain p where "s = s2\<lparr>fsRecovery := (fsRecovery s2)\<lparr>rsProcessor := p\<rparr>\<rparr>" "sameWork (fsProcessor s2) p"
    using onState_result [OF on] unfolding quiet_def by (metis snd_conv)
  ultimately show ?thesis
    using f start by (simp add: loopInv_def emptyTrace_def sameWork_inv endOrder.before_irrefl)
qed

end

end
