(* ===== verification/Batch.thy ===== *)
theory Batch
  imports GapRecovery
begin

text \<open>
  Batch mode (cmd/ag-audit/batch.go): the whole input is read line by line through a 64 KiB buffer
  and flushed at its end. The checks of the context and the clock readings are numbered by the
  iteration they belong to.
\<close>

section \<open>Environment\<close>

text \<open>
  \<open>beOpen\<close> is the outcome of opening and inspecting the input path: None if a call fails, else
  whether it is a regular file. \<open>bePollable\<close> is whether a pollable duplicate of the descriptor could
  be made. \<open>beStopped i\<close> and \<open>beStoppedLater i\<close> are the two checks of the context of iteration
  \<open>i\<close>; \<open>beFault\<close> is a read error in place of the end of the input.
\<close>

record batchEnv =
  beOpen :: "bool option"
  bePollable :: bool
  beContent :: string
  beFault :: bool
  beStopped :: "nat \<Rightarrow> bool"
  beStoppedLater :: "nat \<Rightarrow> bool"
  beNow :: "nat \<Rightarrow> gotime"
  beLater :: "nat \<Rightarrow> gotime"

section \<open>The loop\<close>

text \<open>The line collected so far: its retained bytes and its length.\<close>

definition retainFragment :: "int \<Rightarrow> string \<Rightarrow> string \<Rightarrow> string" where
  "retainFragment maxLineBytes fragment partial =
     partial @ take (min (length fragment) (nat maxLineBytes - length partial)) fragment"

text \<open>\<open>bytes.TrimSuffix\<close> of the newline, then of a carriage return.\<close>

definition trimLine :: "string \<Rightarrow> string" where
  "trimLine line = trimSuffixByte carriageReturn (trimSuffixByte newline line)"

text \<open>
  A collected line goes to the processor, oversized or not; an empty one does nothing. The limit is
  positive (\<open>parseOptions\<close>), so that only a line of no bytes is empty.
\<close>

definition batchLine ::
  "'s services \<Rightarrow> int \<Rightarrow> gotime \<Rightarrow> gotime \<Rightarrow> string \<Rightarrow> nat \<Rightarrow> 's eventProcessor action" where
  "batchLine svc maxLineBytes now later partial lineBytes =
     (if partial = [] then update id
      else if maxLineBytes < int lineBytes
        then rejectLine (svcPut svc) (svcLower svc) (svcPrint svc) now later partial (int lineBytes) noPosition
      else addLine (svcPut svc) (svcLower svc) (svcPrint svc) now (trimLine partial))"

definition batchFlush :: "'s services \<Rightarrow> completion \<Rightarrow> 's eventProcessor action" where
  "batchFlush svc completion = flushAll (svcPut svc) (svcLower svc) (svcPrint svc) completion"

text \<open>The loop of \<open>runBatch\<close>, from iteration \<open>i\<close> on.\<close>

function batchLoop ::
  "'s services \<Rightarrow> int \<Rightarrow> batchEnv \<Rightarrow> nat \<Rightarrow> string \<Rightarrow> string \<Rightarrow> nat \<Rightarrow> 's eventProcessor action" where
  "batchLoop svc maxLineBytes env i unread partial lineBytes p =
     (if beStopped env i then batchFlush svc CompletionShutdown p
      else case readSlice (beFault env) unread of
        (fragment, status) \<Rightarrow>
          if beStoppedLater env i then batchFlush svc CompletionShutdown p
          else if maxInt - int lineBytes < int (length fragment) then (Some LineCounterExhausted, p)
          else let total = lineBytes + length fragment;
                   kept = retainFragment maxLineBytes fragment partial
               in (case status of
                     BufferFull \<Rightarrow> batchLoop svc maxLineBytes env (i + 1) (drop (length fragment) unread) kept total p
                   | ReadFault \<Rightarrow> (Some ReadError, p)
                   | ReadEOF \<Rightarrow>
                       andThen (batchLine svc maxLineBytes (beNow env i) (beLater env i) kept total)
                         (batchFlush svc CompletionEOF) p
                   | ReadLine \<Rightarrow>
                       (case batchLine svc maxLineBytes (beNow env i) (beLater env i) kept total p of
                          (Some e, p') \<Rightarrow> (Some e, p')
                        | (None, p') \<Rightarrow>
                            batchLoop svc maxLineBytes env (i + 1) (drop (length fragment) unread) [] 0 p')))"
  by pat_completeness auto

lemma readSlice_progress:
  assumes "(fragment, status) = readSlice fault unread" and "status = BufferFull \<or> status = ReadLine"
  shows "length (drop (length fragment) unread) < length unread"
proof -
  have "defaultReadBufferBytes = Suc 65535" by (simp add: defaultReadBufferBytes_def)
  then show ?thesis
    using assms by (cases unread) (auto simp: readSlice_def split: option.splits if_splits)
qed

termination batchLoop
  by (relation "measure (\<lambda>(svc, maxLineBytes, env, i, unread, partial, lineBytes, p). length unread)")
     (simp, auto dest: readSlice_progress)

declare batchLoop.simps [simp del]

text \<open>\<open>runBatch\<close>.\<close>

definition runBatch :: "'s services \<Rightarrow> commandOptions \<Rightarrow> batchEnv \<Rightarrow> 's eventProcessor action" where
  "runBatch svc op env p =
     (if opInputPath op \<noteq> [] \<and> beOpen env \<noteq> Some True then (Some BadInput, p)
      else if \<not> bePollable env then (Some BadInput, p)
      else batchLoop svc (opMaxLineBytes op) env 0 (beContent env) [] 0 p)"

end
