(* ===== verification/SecureFile.thy ===== *)
theory SecureFile
  imports Paths "HOL-Library.AList"
begin

text \<open>
  Secure file access (internal/securefile/open_linux.go) and the advisory lock
  (internal/collector/lock_linux.go). The file system is a table of nodes; a descriptor is the number
  of a node, so what is validated after an open is what stays open. A script in the state says
  which of the next system calls fails for a reason of its own; calls succeed when it is used up.
\<close>

section \<open>The file system\<close>

datatype nodeKind = Directory "(string \<times> nat) list" | Regular | SymbolicLink | Special

record fileNode =
  fnKind :: nodeKind
  fnUid :: nat
  fnPerm :: nat
  fnSticky :: bool

text \<open>Node 0 is the root; \<open>fsLocks\<close> are the nodes under an exclusive lock; \<open>fsEuid\<close> runs the process.\<close>

record fileSystem =
  fsNodes :: "(nat \<times> fileNode) list"
  fsNext :: nat
  fsEuid :: nat
  fsLocks :: "nat list"
  fsCalls :: "bool list"

text \<open>\<open>Missing\<close> is ENOENT; a second result of a refused lock is \<open>WouldBlock\<close>.\<close>

datatype secureError =
  Missing
| SystemCall
| NoDirectory
| UntrustedOwner
| WritableByOthers
| NoRegularFile
| BadBasename
| EmptyPath

definition systemCall :: "fileSystem \<Rightarrow> bool \<times> fileSystem" where
  "systemCall fs =
     (case fsCalls fs of [] \<Rightarrow> (True, fs) | ok # oks \<Rightarrow> (ok, fs\<lparr>fsCalls := oks\<rparr>))"

definition nodeAt :: "fileSystem \<Rightarrow> nat \<Rightarrow> fileNode option" where
  "nodeAt fs n = map_of (fsNodes fs) n"

fun entriesOf :: "nodeKind \<Rightarrow> (string \<times> nat) list" where
  "entriesOf (Directory es) = es"
| "entriesOf _ = []"

fun isDirectory :: "nodeKind \<Rightarrow> bool" where
  "isDirectory (Directory es) = True"
| "isDirectory _ = False"

definition childOf :: "fileSystem \<Rightarrow> nat \<Rightarrow> string \<Rightarrow> nat option" where
  "childOf fs n name = Option.bind (nodeAt fs n) (\<lambda>d. map_of (entriesOf (fnKind d)) name)"

definition addNode :: "nat \<Rightarrow> string \<Rightarrow> nodeKind \<Rightarrow> nat \<Rightarrow> fileSystem \<Rightarrow> fileSystem" where
  "addNode parent name kind perm fs =
     (case nodeAt fs parent of
        None \<Rightarrow> fs
      | Some d \<Rightarrow>
          if \<not> isDirectory (fnKind d) then fs
          else let new = \<lparr>fnKind = kind, fnUid = fsEuid fs, fnPerm = perm, fnSticky = False\<rparr>;
              d' = d\<lparr>fnKind := Directory (entriesOf (fnKind d) @ [(name, fsNext fs)])\<rparr>
          in fs\<lparr>fsNodes := AList.update parent d' (fsNodes fs) @ [(fsNext fs, new)], fsNext := fsNext fs + 1\<rparr>)"

section \<open>Validation\<close>

text \<open>The mode has a bit of \<open>0o022\<close>: the group or others may write.\<close>

definition writableByOthers :: "nat \<Rightarrow> bool" where
  "writableByOthers perm \<longleftrightarrow> perm div 16 mod 2 = 1 \<or> perm div 2 mod 2 = 1"

text \<open>\<open>validateDirectory\<close> and \<open>validateRegularFile\<close>; None is a nil error.\<close>

definition validateDirectory :: "nat \<Rightarrow> fileSystem \<Rightarrow> secureError option" where
  "validateDirectory n fs =
     (case nodeAt fs n of
        None \<Rightarrow> Some SystemCall
      | Some d \<Rightarrow>
          if \<not> isDirectory (fnKind d) then Some NoDirectory
          else if fnUid d \<noteq> fsEuid fs \<and> fnUid d \<noteq> 0 then Some UntrustedOwner
          else if writableByOthers (fnPerm d) \<and> \<not> (fnUid d = 0 \<and> fnSticky d) then Some WritableByOthers
          else None)"

definition validateRegularFile :: "bool \<Rightarrow> nat \<Rightarrow> fileSystem \<Rightarrow> secureError option" where
  "validateRegularFile allowRootOwner n fs =
     (case nodeAt fs n of
        None \<Rightarrow> Some SystemCall
      | Some f \<Rightarrow>
          if fnKind f \<noteq> Regular then Some NoRegularFile
          else if fnUid f \<noteq> fsEuid fs \<and> \<not> (allowRootOwner \<and> fnUid f = 0) then Some UntrustedOwner
          else if writableByOthers (fnPerm f) then Some WritableByOthers
          else None)"

section \<open>Directories\<close>

text \<open>\<open>openat\<close> with \<open>O_DIRECTORY | O_NOFOLLOW\<close>.\<close>

definition openatDirectory :: "nat \<Rightarrow> string \<Rightarrow> fileSystem \<Rightarrow> (secureError + nat) \<times> fileSystem" where
  "openatDirectory parent name fs0 =
     (case systemCall fs0 of
        (False, fs) \<Rightarrow> (Inl SystemCall, fs)
      | (True, fs) \<Rightarrow>
          (case childOf fs parent name of
             None \<Rightarrow> (Inl Missing, fs)
           | Some n \<Rightarrow>
               (case nodeAt fs n of
                  Some d \<Rightarrow> if isDirectory (fnKind d) then (Inr n, fs) else (Inl SystemCall, fs)
                | None \<Rightarrow> (Inl SystemCall, fs))))"

text \<open>A missing directory may be created; it is then synced into its parent.\<close>

definition createDirectory :: "nat \<Rightarrow> string \<Rightarrow> fileSystem \<Rightarrow> (secureError + nat) \<times> fileSystem" where
  "createDirectory parent name fs0 =
     (case systemCall fs0 of
        (False, fs) \<Rightarrow> (Inl SystemCall, fs)
      | (True, fs) \<Rightarrow>
          let fs1 = (if childOf fs parent name = None then addNode parent name (Directory []) 448 fs else fs)
          in (case systemCall fs1 of
                (False, fs2) \<Rightarrow> (Inl SystemCall, fs2)
              | (True, fs2) \<Rightarrow> openatDirectory parent name fs2))"

text \<open>One component of the traversal; the last call is the closing of the parent.\<close>

definition openComponent :: "bool \<Rightarrow> nat \<Rightarrow> string \<Rightarrow> fileSystem \<Rightarrow> (secureError + nat) \<times> fileSystem" where
  "openComponent create parent name fs =
     (case (case openatDirectory parent name fs of
              (Inl Missing, fs1) \<Rightarrow> if create then createDirectory parent name fs1 else (Inl Missing, fs1)
            | res \<Rightarrow> res) of
        (Inl e, fs1) \<Rightarrow> (Inl e, fs1)
      | (Inr n, fs1) \<Rightarrow>
          (case validateDirectory n fs1 of
             Some e \<Rightarrow> (Inl e, fs1)
           | None \<Rightarrow>
               (case systemCall fs1 of
                  (False, fs2) \<Rightarrow> (Inl SystemCall, fs2)
                | (True, fs2) \<Rightarrow> (Inr n, fs2))))"

fun openComponents :: "bool \<Rightarrow> nat \<Rightarrow> string list \<Rightarrow> fileSystem \<Rightarrow> (secureError + nat) \<times> fileSystem" where
  "openComponents create n [] fs = (Inr n, fs)"
| "openComponents create n (c # cs) fs =
     (if c = [] then openComponents create n cs fs
      else case openComponent create n c fs of
             (Inl e, fs1) \<Rightarrow> (Inl e, fs1)
           | (Inr next_directory, fs1) \<Rightarrow> openComponents create next_directory cs fs1)"

definition trimRoot :: "string \<Rightarrow> string" where
  "trimRoot path = (if isRooted path then tl path else path)"

text \<open>\<open>OpenDirectory\<close>.\<close>

definition OpenDirectory :: "string option \<Rightarrow> string \<Rightarrow> bool \<Rightarrow> fileSystem \<Rightarrow> (secureError + nat) \<times> fileSystem" where
  "OpenDirectory cwd path create fs0 =
     (case absPath cwd path of
        None \<Rightarrow> (Inl SystemCall, fs0)
      | Some absolute \<Rightarrow>
          (case systemCall fs0 of
             (False, fs) \<Rightarrow> (Inl SystemCall, fs)
           | (True, fs) \<Rightarrow>
               (case validateDirectory 0 fs of
                  Some e \<Rightarrow> (Inl e, fs)
                | None \<Rightarrow> openComponents create 0 (splitByte slashChar (trimRoot (cleanPath absolute))) fs)))"

section \<open>Regular files\<close>

text \<open>\<open>openat\<close> with \<open>O_NOFOLLOW\<close>, creating the file if asked to and it is missing.\<close>

definition openatFile :: "nat \<Rightarrow> string \<Rightarrow> bool \<Rightarrow> nat \<Rightarrow> fileSystem \<Rightarrow> (secureError + nat) \<times> fileSystem" where
  "openatFile directory name create mode fs0 =
     (case systemCall fs0 of
        (False, fs) \<Rightarrow> (Inl SystemCall, fs)
      | (True, fs) \<Rightarrow>
          (case childOf fs directory name of
             None \<Rightarrow>
               if create then (Inr (fsNext fs), addNode directory name Regular mode fs) else (Inl Missing, fs)
           | Some n \<Rightarrow>
               (case nodeAt fs n of
                  None \<Rightarrow> (Inl SystemCall, fs)
                | Some f \<Rightarrow> if fnKind f = SymbolicLink then (Inl SystemCall, fs) else (Inr n, fs))))"

text \<open>\<open>OpenRegularAt\<close>: after a create the file and its directory entry are synced.\<close>

definition OpenRegularAt ::
  "nat \<Rightarrow> string \<Rightarrow> bool \<Rightarrow> nat \<Rightarrow> bool \<Rightarrow> fileSystem \<Rightarrow> (secureError + nat) \<times> fileSystem" where
  "OpenRegularAt directory name create mode allowRootOwner fs0 =
     (if name = [] \<or> name = ''.'' \<or> name = ''..'' \<or> baseName name \<noteq> name then (Inl BadBasename, fs0)
      else case openatFile directory name create mode fs0 of
        (Inl e, fs) \<Rightarrow> (Inl e, fs)
      | (Inr n, fs) \<Rightarrow>
          (case validateRegularFile allowRootOwner n fs of
             Some e \<Rightarrow> (Inl e, fs)
           | None \<Rightarrow>
               if \<not> create then (Inr n, fs)
               else (case systemCall fs of
                       (False, fs1) \<Rightarrow> (Inl SystemCall, fs1)
                     | (True, fs1) \<Rightarrow>
                         (case systemCall fs1 of
                            (False, fs2) \<Rightarrow> (Inl SystemCall, fs2)
                          | (True, fs2) \<Rightarrow> (Inr n, fs2)))))"

definition openRegular ::
  "string option \<Rightarrow> string \<Rightarrow> bool \<Rightarrow> nat \<Rightarrow> bool \<Rightarrow> fileSystem \<Rightarrow> (secureError + nat) \<times> fileSystem" where
  "openRegular cwd path create mode allowRootOwner fs =
     (if path = [] then (Inl EmptyPath, fs)
      else case OpenDirectory cwd (dirName path) False fs of
        (Inl e, fs1) \<Rightarrow> (Inl e, fs1)
      | (Inr directory, fs1) \<Rightarrow> OpenRegularAt directory (baseName path) create mode allowRootOwner fs1)"

definition OpenReadOnly :: "string option \<Rightarrow> string \<Rightarrow> bool \<Rightarrow> fileSystem \<Rightarrow> (secureError + nat) \<times> fileSystem" where
  "OpenReadOnly cwd path allowRootOwner = openRegular cwd path False 0 allowRootOwner"

definition OpenAppend :: "string option \<Rightarrow> string \<Rightarrow> nat \<Rightarrow> fileSystem \<Rightarrow> (secureError + nat) \<times> fileSystem" where
  "OpenAppend cwd path mode = openRegular cwd path True mode False"

section \<open>The advisory lock\<close>

text \<open>\<open>openStateDirectory\<close>: the last directory must be private even if a sticky one would be trusted.\<close>

definition openStateDirectory :: "string option \<Rightarrow> string \<Rightarrow> bool \<Rightarrow> fileSystem \<Rightarrow> (secureError + nat) \<times> fileSystem" where
  "openStateDirectory cwd path create fs =
     (case OpenDirectory cwd path create fs of
        (Inl e, fs1) \<Rightarrow> (Inl e, fs1)
      | (Inr n, fs1) \<Rightarrow>
          (case nodeAt fs1 n of
             None \<Rightarrow> (Inl SystemCall, fs1)
           | Some d \<Rightarrow> if writableByOthers (fnPerm d) then (Inl WritableByOthers, fs1) else (Inr n, fs1)))"

text \<open>
  The owner's record of a held lock: the file is truncated, the offset reset if that succeeded, and
  the record written. The error of the first two calls is a variable of the inner \<open>if\<close>, so only
  that of the last one is seen.
\<close>

definition writeOwner :: "fileSystem \<Rightarrow> bool \<times> fileSystem" where
  "writeOwner fs =
     (case systemCall fs of
        (truncated, fs1) \<Rightarrow> systemCall (if truncated then snd (systemCall fs1) else fs1))"

text \<open>
  \<open>AcquireFileLock\<close>: \<open>Inr (Some n)\<close> is a held lock, \<open>Inr None\<close> one held by another process. The
  refused descriptor is closed, and a held lock is released again when the owner's record cannot be
  written.
\<close>

definition AcquireFileLock :: "string option \<Rightarrow> string \<Rightarrow> fileSystem \<Rightarrow> (secureError + nat option) \<times> fileSystem" where
  "AcquireFileLock cwd path fs =
     (case openStateDirectory cwd (dirName path) True fs of
        (Inl e, fs1) \<Rightarrow> (Inl e, fs1)
      | (Inr directory, fs1) \<Rightarrow>
          (case OpenRegularAt directory (baseName path) True 384 False fs1 of
             (Inl e, fs2) \<Rightarrow> (Inl e, fs2)
           | (Inr n, fs2) \<Rightarrow>
               (case systemCall fs2 of
                  (False, fs3) \<Rightarrow> (Inl SystemCall, fs3)
                | (True, fs3) \<Rightarrow>
                    if n \<in> set (fsLocks fs3)
                    then (case systemCall fs3 of (closed, fs4) \<Rightarrow> (if closed then Inr None else Inl SystemCall, fs4))
                    else (case writeOwner (fs3\<lparr>fsLocks := n # fsLocks fs3\<rparr>) of
                            (False, fs4) \<Rightarrow> (Inl SystemCall, fs4\<lparr>fsLocks := remove1 n (fsLocks fs4)\<rparr>)
                          | (True, fs4) \<Rightarrow> (Inr (Some n), fs4)))))"

definition closeLock :: "nat \<Rightarrow> fileSystem \<Rightarrow> fileSystem" where
  "closeLock n fs = fs\<lparr>fsLocks := remove1 n (fsLocks fs)\<rparr>"

text \<open>\<open>DefaultLockPath\<close>; the hash, the temporary directory and the user are arguments.\<close>

definition DefaultLockPath ::
  "(string \<Rightarrow> string) \<Rightarrow> string option \<Rightarrow> string \<Rightarrow> nat \<Rightarrow> string \<Rightarrow> string" where
  "DefaultLockPath sha cwd tempDir uid inputPath =
     (let absolute = (case absPath cwd inputPath of Some a \<Rightarrow> a | None \<Rightarrow> cleanPath inputPath);
          digest = hexEncode (take 16 (sha (cleanPath absolute)))
      in cleanPath (joinSlash [cleanPath (joinSlash [tempDir, ''aesirguard-audit-'' @ natDigits uid]),
           digest @ ''.lock'']))"

end
