(* ===== verification/Command.thy ===== *)
theory Command
  imports FollowLoop Batch SecureFile
begin

text \<open>
  The whole command (\<open>runContext\<close> in cmd/ag-audit/main.go): options, the singleton lock of follow
  mode, the sink, the assembler, the run itself, and the deferred clean-up in its order. A follow
  run whose iterations are used up without an end is still running.
\<close>

datatype runError =
  AlreadyCancelled
| OptionsRejected optionError
| LockNotAcquired secureError
| LockNotReleased
| SinkNotOpened
| SinkNotClosed
| LimitsRejected
| RunFailed commandError

datatype printed = Usage | Version

text \<open>\<open>crErrors\<close>: None while running, else the joined errors, none of them for a success.\<close>

record commandRun =
  crErrors :: "runError list option"
  crPrinted :: "printed option"
  crDiagnostics :: operationalDiagnostics
  crSink :: "ndjsonSink option"
  crFiles :: fileSystem

record commandEnv =
  ceCancelled :: bool
  ceOptions :: optionEnv
  ceStarted :: gotime
  ceLog :: "bool list"
  ceDefaultLock :: "string \<Rightarrow> string"
  ceUnlock :: bool
  ceSink :: managedOpen
  ceSinkCalls :: "sinkCalls list"
  ceStart :: startEnv
  ceIterations :: "iterationEnv list"
  ceBatch :: batchEnv
  ceCheckpoints :: stateDirectory
  ceLedgers :: stateDirectory

definition finished :: "runError list \<Rightarrow> operationalDiagnostics \<Rightarrow> fileSystem \<Rightarrow> commandRun" where
  "finished errors d fs =
     \<lparr>crErrors = Some errors, crPrinted = None, crDiagnostics = d, crSink = None, crFiles = fs\<rparr>"

definition logErrors :: "commandError option \<Rightarrow> runError list" where
  "logErrors e = (case e of None \<Rightarrow> [] | Some c \<Rightarrow> [RunFailed c])"

text \<open>\<open>openSink\<close> and \<open>sinkName\<close>.\<close>

definition openSink :: "commandEnv \<Rightarrow> commandOptions \<Rightarrow> ndjsonSink option" where
  "openSink env op =
     (if opOutputPath op = [] then Some (NewWriterSink (ceSinkCalls env))
      else OpenFileSink (ceSink env) (opOutputPath op) (opSyncOutput op) (ceSinkCalls env))"

definition sinkName :: "commandOptions \<Rightarrow> string" where
  "sinkName op = (if opOutputPath op = [] then ''stdout'' else ''file'')"

text \<open>The run of the mode the options choose; True marks a run that has not ended.\<close>

definition runMode ::
  "ndjsonSink services \<Rightarrow> commandEnv \<Rightarrow> commandOptions \<Rightarrow> ndjsonSink eventProcessor
     \<Rightarrow> (bool \<times> commandError option) \<times> ndjsonSink eventProcessor" where
  "runMode svc env op p =
     (if opFollow op then
        (case runFollower svc op (ceStart env) (ceIterations env) p (ceCheckpoints env) (ceLedgers env) of
           (GoOn, p') \<Rightarrow> ((True, None), p')
         | (Stop e, p') \<Rightarrow> ((False, e), p'))
      else (case runBatch svc op (ceBatch env) p of (e, p') \<Rightarrow> ((False, e), p')))"

text \<open>From the opened sink on; the deferred actions are the stop entry and the closing of the sink.\<close>

definition runWithSink ::
  "ndjsonSink services \<Rightarrow> commandEnv \<Rightarrow> commandOptions \<Rightarrow> ndjsonSink \<Rightarrow> operationalDiagnostics \<Rightarrow> fileSystem \<Rightarrow> commandRun" where
  "runWithSink svc env op sink d fs =
     (case NewBoundedAssembler (opEventTimeout op)
             \<lparr>maxPendingEvents = opMaxPendingEvents op, maxRecordsPerEvent = opMaxRecordsPerEvent op,
              maxPendingBytes = opMaxPendingBytes op\<rparr> of
        None \<Rightarrow> (let (closed, sink') = Close sink
                 in finished ([LimitsRejected] @ (if closed then [] else [SinkNotClosed])) d fs)
      | Some a \<Rightarrow>
          (case logEntry (Started (opFollow op) (opInputPath op) (sinkName op)) d of
             (Some e, d') \<Rightarrow>
               (let (closed, sink') = Close sink
                in finished ([RunFailed e] @ (if closed then [] else [SinkNotClosed])) d' fs)
           | (None, d') \<Rightarrow>
               (case runMode svc env op
                       \<lparr>epAssembler = a, epSink = sink, epHost = opSourceHost op, epRenderMessage = opRenderMessage op,
                        epDiagnostics = d', epReplayWindow = False\<rparr> of
                  ((True, e), p) \<Rightarrow>
                    \<lparr>crErrors = None, crPrinted = None, crDiagnostics = epDiagnostics p, crSink = Some (epSink p),
                     crFiles = fs\<rparr>
                | ((False, e), p) \<Rightarrow>
                    (let (stopped, d'') = logEntry (Stopped (dgCounters (epDiagnostics p))) (epDiagnostics p);
                         (closed, sink') = Close (epSink p)
                     in (finished (logErrors e @ logErrors stopped @ (if closed then [] else [SinkNotClosed])) d'' fs)
                          \<lparr>crSink := Some sink'\<rparr>))))"

definition runUnlocked ::
  "ndjsonSink services \<Rightarrow> commandEnv \<Rightarrow> commandOptions \<Rightarrow> operationalDiagnostics \<Rightarrow> fileSystem \<Rightarrow> commandRun" where
  "runUnlocked svc env op d fs =
     (case openSink env op of
        None \<Rightarrow> finished [SinkNotOpened] d fs
      | Some sink \<Rightarrow> runWithSink svc env op sink d fs)"

text \<open>The lock is released when a run ends, whatever its result.\<close>

definition releaseLock :: "commandEnv \<Rightarrow> nat \<Rightarrow> commandRun \<Rightarrow> commandRun" where
  "releaseLock env n run =
     (case crErrors run of
        None \<Rightarrow> run
      | Some errors \<Rightarrow>
          run\<lparr>crErrors := Some (errors @ (if ceUnlock env then [] else [LockNotReleased])),
              crFiles := closeLock n (crFiles run)\<rparr>)"

definition runLocked ::
  "ndjsonSink services \<Rightarrow> commandEnv \<Rightarrow> commandOptions \<Rightarrow> operationalDiagnostics \<Rightarrow> fileSystem \<Rightarrow> commandRun" where
  "runLocked svc env op d fs =
     (let lockPath = (if opLockPath op = [] then ceDefaultLock env (opInputPath op) else opLockPath op)
      in case AcquireFileLock (svcCwd svc) lockPath fs of
           (Inl e, fs') \<Rightarrow> finished [LockNotAcquired e] d fs'
         | (Inr None, fs') \<Rightarrow>
             (case logEntry (SingletonActive (opInputPath op) lockPath) d of (e, d') \<Rightarrow> finished (logErrors e) d' fs')
         | (Inr (Some n), fs') \<Rightarrow> releaseLock env n (runUnlocked svc env op d fs'))"

definition runContext :: "ndjsonSink services \<Rightarrow> commandEnv \<Rightarrow> string list \<Rightarrow> fileSystem \<Rightarrow> commandRun" where
  "runContext svc env args fs =
     (let d = newOperationalDiagnostics (ceStarted env) 0 (ceLog env)
      in if ceCancelled env then finished [AlreadyCancelled] d fs
         else case parseOptions (ceOptions env) args of
           Inl HelpRequested \<Rightarrow> (finished [] d fs)\<lparr>crPrinted := Some Usage\<rparr>
         | Inl e \<Rightarrow> finished [OptionsRejected e] d fs
         | Inr op \<Rightarrow>
             let d1 = newOperationalDiagnostics (ceStarted env) (opHeartbeatInterval op) (ceLog env)
             in if opShowVersion op then (finished [] d1 fs)\<lparr>crPrinted := Some Version\<rparr>
                else if opCheckConfig op then
                  (case logEntry (ConfigurationValid (opConfigPath op)) d1 of (e, d2) \<Rightarrow> finished (logErrors e) d2 fs)
                else if \<not> opFollow op then runUnlocked svc env op d1 fs
                else if opCheckpointPath op \<noteq> [] then runLocked svc env op d1 fs
                else (case logEntry (CheckpointDisabled (opInputPath op)) d1 of
                        (Some e, d2) \<Rightarrow> finished [RunFailed e] d2 fs
                      | (None, d2) \<Rightarrow> runLocked svc env op d2 fs))"

text \<open>
  \<open>main\<close>: the exit code of a run that has ended, and the errors \<open>writeFatalDiagnostic\<close> then reports.
  Its log is an encoder of its own, whose failure is ignored.
\<close>

definition mainExit :: "commandRun \<Rightarrow> (nat \<times> runError list) option" where
  "mainExit run = map_option (\<lambda>errors. (if errors = [] then 0 else 1, errors)) (crErrors run)"

end
