(* ===== verification/OutputEffects.thy ===== *)
theory OutputEffects
  imports FollowRun Command
begin

text \<open>
  What a run does to the output, unconditionally. Only \<open>put\<close> and \<open>commit\<close> touch the sink, so a
  reflexive and transitive relation that both keep is kept by every operation of the command and
  through every failure. For the NDJSON sink two such relations are taken: the output is append-only,
  and its files consist of whole lines.
\<close>

section \<open>Relations on the sink\<close>

text \<open>A relation on the sink, on the states that hold one.\<close>

definition sinkStep :: "('s \<Rightarrow> 's \<Rightarrow> bool) \<Rightarrow> 's eventProcessor \<Rightarrow> 's eventProcessor \<Rightarrow> bool" where
  "sinkStep S p p' \<longleftrightarrow> S (epSink p) (epSink p')"

definition recoveryStep :: "('s \<Rightarrow> 's \<Rightarrow> bool) \<Rightarrow> 's recoveryState \<Rightarrow> 's recoveryState \<Rightarrow> bool" where
  "recoveryStep S r r' \<longleftrightarrow> S (epSink (rsProcessor r)) (epSink (rsProcessor r'))"

definition followStep :: "('s \<Rightarrow> 's \<Rightarrow> bool) \<Rightarrow> 's followState \<Rightarrow> 's followState \<Rightarrow> bool" where
  "followStep S s s' \<longleftrightarrow> S (epSink (fsProcessor s)) (epSink (fsProcessor s'))"

lemma withinI: "(\<And>s e s'. m s = (e, s') \<Longrightarrow> R s s') \<Longrightarrow> within R m"
  unfolding within_def by (metis prod.collapse)

lemma within_state: "(\<And>x. within R (m x)) \<Longrightarrow> within R (\<lambda>s. m (f s) s)"
  by (simp add: within_def)

lemma within_onProcessor: "within (sinkStep S) m \<Longrightarrow> within (recoveryStep S) (onProcessor m)"
  by (simp add: within_def recoveryStep_def sinkStep_def onProcessor_def split: prod.split) (metis snd_conv)

lemma within_onState: "within (sinkStep S) m \<Longrightarrow> within (followStep S) (onState m)"
  by (simp add: within_def followStep_def sinkStep_def onState_def onProcessor_def split: prod.split) (metis snd_conv)

locale sink_relation =
  fixes svc :: "'s services" and S :: "'s \<Rightarrow> 's \<Rightarrow> bool"
  assumes step_refl: "S k k"
    and step_trans: "S k l \<Longrightarrow> S l m \<Longrightarrow> S k m"
    and put_step: "svcPut svc e k = (b, k') \<Longrightarrow> S k k'"
    and commit_step: "svcCommit svc k = (b, k') \<Longrightarrow> S k k'"

sublocale sink_relation \<subseteq> steps: effect "sinkStep S"
  by unfold_locales (auto simp: sinkStep_def intro: step_refl step_trans)

sublocale sink_relation \<subseteq> recoverySteps: effect "recoveryStep S"
  by unfold_locales (auto simp: recoveryStep_def intro: step_refl step_trans)

sublocale sink_relation \<subseteq> followSteps: effect "followStep S"
  by unfold_locales (auto simp: followStep_def intro: step_refl step_trans)

context sink_relation
begin

section \<open>Operations of the processor\<close>

declare step_refl [simp]

lemma same_sink: "epSink p' = epSink p \<Longrightarrow> sinkStep S p p'"
  by (simp add: sinkStep_def step_refl)

lemma quiet_within: "quiet m \<Longrightarrow> within (sinkStep S) m"
  by (auto simp: quiet_def within_def sameWork_def intro: same_sink)

lemma tally_within: "within (sinkStep S) (tally f)" and report_within: "within (sinkStep S) (report entry)"
  by (rule quiet_within [OF quiet_tally], rule quiet_within [OF quiet_report])

lemma emitCanonical_within: "within (sinkStep S) (emitCanonical (svcPut svc) ev)"
  by (rule withinI)
     (auto simp: emitCanonical_def tally_def update_def sinkStep_def split: prod.splits bool.splits dest: put_step)

lemma emit_within: "within (sinkStep S) (emit (svcPut svc) lo pr es)"
proof -
  have "within (sinkStep S) (emitEvent (svcPut svc) lo pr e)" for e
    using within_state [of "sinkStep S" "\<lambda>h. forEach (\<lambda>r. emitCanonical (svcPut svc) (BuildAssemblyException r h)) (aeRecords e)" epHost,
        OF steps.within_forEach [OF emitCanonical_within]] emitCanonical_within
    by (simp add: within_def emitEvent_def Let_def)
  then show ?thesis unfolding emit_def by (rule steps.within_forEach)
qed

text \<open>Emitting after a change of the assembler.\<close>

lemma emit_changed: "sinkStep S p (snd (emit (svcPut svc) lo pr es (p\<lparr>epAssembler := a\<rparr>)))"
  using emit_within [of lo pr es] by (auto simp: within_def sinkStep_def dest: spec [of _ "p\<lparr>epAssembler := a\<rparr>"])

lemma flushes_within:
  "within (sinkStep S) (emitExpired (svcPut svc) lo pr now)" "within (sinkStep S) (flushAll (svcPut svc) lo pr c)"
  "within (sinkStep S) (rejectPending (svcPut svc) lo pr now pre source)"
  by (simp_all add: within_def emitExpired_def flushAll_def rejectPending_def emit_changed split: prod.split)

lemma canonical_within: "within (sinkStep S) (\<lambda>p. emitCanonical (svcPut svc) (ev p) p)"
  by (rule within_state) (rule emitCanonical_within)

lemmas processor_within = steps.within_andThen tally_within report_within flushes_within canonical_within

lemma addRecord_within: "within (sinkStep S) (addRecord (svcPut svc) lo pr now source r)"
proof (unfold within_def, rule allI)
  fix p :: "'s eventProcessor"
  obtain a es limit where f: "AddRecovering r now (epAssembler p) = (a, es, limit)"
    by (cases "AddRecovering r now (epAssembler p)")
  have "sinkStep S p (snd (andThen (tally g) (andThen (report entry) (emit (svcPut svc) lo pr es)) (p\<lparr>epAssembler := a\<rparr>)))"
    for g entry
    using steps.within_andThen [OF tally_within [of g] steps.within_andThen [OF report_within [of entry] emit_within [of lo pr es]]]
    by (auto simp: within_def sinkStep_def dest: spec [of _ "p\<lparr>epAssembler := a\<rparr>"])
  then show "sinkStep S p (snd (addRecord (svcPut svc) lo pr now source r p))"
    by (cases limit) (simp_all add: addRecord_def f emit_changed)
qed

lemma lines_within:
  "within (sinkStep S) (addSourceLine (svcPut svc) lo pr now line source)"
  "within (sinkStep S) (rejectLine (svcPut svc) lo pr now later pre n source)"
proof -
  have "within (sinkStep S) (addMalformed (svcPut svc) lo pr now line err)" for err
    unfolding addMalformed_def by (intro processor_within)
  then show "within (sinkStep S) (addSourceLine (svcPut svc) lo pr now line source)"
    unfolding addSourceLine_def Let_def
    by (intro processor_within) (cases "ParseRecord pr line"; simp add: addRecord_within)
  show "within (sinkStep S) (rejectLine (svcPut svc) lo pr now later pre n source)"
    unfolding rejectLine_def Let_def by (intro processor_within)
qed

lemma commitSink_within: "within (sinkStep S) (commitSink (svcCommit svc))"
  by (rule withinI) (auto simp: commitSink_def sinkStep_def split: prod.splits dest: commit_step)

lemma processLine_within: "within (sinkStep S) (processLine svc now later l)"
  by (simp add: processLine_def lines_within)

lemma recovery_same: "(\<And>s e s'. m s = (e, s') \<Longrightarrow> rsProcessor s' = rsProcessor s) \<Longrightarrow> within (recoveryStep S) m"
  by (rule withinI) (simp add: recoveryStep_def step_refl)

section \<open>Recovery\<close>

lemma prepareFollow_within: "within (recoveryStep S) (prepareFollow svc env previous position cause)"
  by (rule recovery_same) (simp add: prepareFollow_frame)

lemma saveResume_within: "within (recoveryStep S) (saveResume svc env resume)"
  by (rule recovery_same) (auto simp: saveResume_def split: if_splits prod.splits)

lemma completeLedger_within: "within (recoveryStep S) (completeLedger svc env l)"
  by (rule recovery_same) (auto simp: completeLedger_def Let_def split: prod.splits)

lemma commitRecovery_within: "within (recoveryStep S) (commitRecovery svc env)"
proof -
  have "recoveryStep S s (snd (commitRecovery svc env s))" for s
  proof (cases "grLedger (rsRecovery s)")
    case None
    then show ?thesis by (simp add: commitRecovery_def recoverySteps.effect_refl)
  next
    case (Some l)
    let ?g = "last (glIncidents l)" and ?total = "word_of_nat (glTotal l) :: uint64"
    let ?count = "update (\<lambda>p. p\<lparr>epDiagnostics :=
        (count (\<lambda>c. c\<lparr>ocGaps := ocGaps c + 1\<rparr>) (epDiagnostics p))\<lparr>dgPersistentGaps := ?total\<rparr>\<rparr>) :: 's eventProcessor action"
    have "quiet ?count" by (rule quiet_update) (simp add: sameWork_def)
    then have "within (recoveryStep S)
       (andThen (onProcessor ?count) (andThen (onProcessor (report (GapIncident ?g)))
        (andThen (onProcessor (flushAll (svcPut svc) (svcLower svc) (svcPrint svc) CompletionSourceGap))
           (andThen (onProcessor (commitSink (svcCommit svc)))
              (andThen (saveResume svc env (giResume ?g))
                 (andThen (completeLedger svc env l)
                    (onProcessor (report (ResumedWithGap (giNumber ?g) (giResume ?g) ?total)))))))))"
      by (intro recoverySteps.within_andThen within_onProcessor saveResume_within completeLedger_within
          commitSink_within flushes_within quiet_within quiet_report)
    with Some show ?thesis by (simp add: commitRecovery_def Let_def within_def recoverySteps.effect_refl)
  qed
  then show ?thesis by (simp add: within_def)
qed

section \<open>The loop\<close>

lemma persistFollow_within: "within (followStep S) (persistFollow svc env force pos)"
proof -
  have "followStep S s s'" if run: "persistFollow svc env force pos s = (e, s')" for s e s'
  proof -
    obtain u where persist: "persist (svcCommit svc) (svcEncodeCheckpoint svc) env pos force
          \<lparr>psWriter = fsWriter s, psSink = epSink (fsProcessor s), psDirectory = rsCheckpoint (fsRecovery s)\<rparr> = (e, u)"
      and s': "fsProcessor s' = (fsProcessor s)\<lparr>epSink := psSink u\<rparr>"
      using run by (auto simp: persistFollow_def split: prod.splits)
    from persist have "\<exists>b. psSink u = epSink (fsProcessor s) \<or> svcCommit svc (epSink (fsProcessor s)) = (b, psSink u)"
      by (cases rule: persist_cases) auto
    then show ?thesis
      using commit_step s' by (auto simp: followStep_def sinkStep_def)
  qed
  then show ?thesis by (rule withinI)
qed

lemma saveProgress_within: "within (followStep S) (saveProgress svc env)"
  using within_state [of _ "persistFollow svc (iePersist env) False" safePosition] persistFollow_within
  unfolding saveProgress_def by blast

lemma emitHeartbeat_within: "within (followStep S) (emitHeartbeat svc env)"
  by (auto simp: within_def followStep_def sinkStep_def emitHeartbeat_def heartbeat_def onState_def onProcessor_def
      Let_def split: prod.split)

lemma noticeRotation_within: "within (followStep S) noticeRotation"
proof (rule withinI)
  fix s e s' assume run: "noticeRotation s = (e, s' :: 's followState)"
  let ?n = "rfRotationCount (fsFollower s)"
  let ?m = "andThen (tally (\<lambda>c. c\<lparr>ocRotations := word_of_nat ?n\<rparr>)) (report (InputRotation ?n)) :: 's eventProcessor action"
  have "within (followStep S) (onState ?m)"
    by (intro within_onState quiet_within quiet_andThen quiet_tally quiet_report)
  from followSteps.within_result [OF this, of "s\<lparr>fsRotationCount := ?n\<rparr>"] run
  show "followStep S s s'"
    by (auto simp: noticeRotation_def Let_def followStep_def steps.effect_refl split: if_splits)
qed

lemma noticeCaughtUp_within: "within (followStep S) (noticeCaughtUp env)"
  by (auto simp: within_def followStep_def sinkStep_def noticeCaughtUp_def report_def onState_def onProcessor_def
      split: prod.split)

lemma lineIteration_within: "within (followStep S) (lineIteration svc env l)"
  unfolding lineIteration_def
  by (intro followSteps.within_andThen within_onState processLine_within saveProgress_within emitHeartbeat_within)

lemma idleIteration_within: "within (followStep S) (idleIteration svc env)"
  unfolding idleIteration_def
  by (intro followSteps.within_andThen noticeRotation_within within_onState flushes_within noticeCaughtUp_within
      saveProgress_within emitHeartbeat_within)

lemma shutdownIteration_within: "within (followStep S) (shutdownIteration svc env)"
  unfolding shutdownIteration_def
  by (rule followSteps.within_andThen [OF within_onState [OF flushes_within(2)]])
     (use persistFollow_within in \<open>simp add: within_def\<close>)

lemma gapIteration_within: "within (followStep S) (gapIteration svc op input env cause)"
proof (rule withinI)
  fix s e s' assume run: "gapIteration svc op input env cause s = (e, s')"
  let ?open = "OpenRecoveryFollower (svcHash svc) (CanonicalPath (svcCwd svc)) (opInputPath op)
             (rotationOptionsOf op (grPath (rsRecovery (fsRecovery s))))
             (rvProbes env) (rvProbeCloseFails env) (rvListing env) (rvOpens env)"
  let ?load = "loadConfiguredCheckpoint (svcDecodeCheckpoint svc) (opCheckpointPath op) input
        (readState (rvLoadFails env) (rsCheckpoint (fsRecovery s)))"
  show "followStep S s s'"
  proof (cases "\<exists>new previous. ?open = Inr new \<and> ?load = Inr previous")
    case False
    with run have "s' = s" by (auto simp: gapIteration_def split: sum.splits)
    then show ?thesis by (simp add: followSteps.effect_refl)
  next
    case True
    then obtain new previous where opened: "?open = Inr new" and loaded: "?load = Inr previous" by blast
    let ?act = "andThen (prepareFollow svc (rvPrepare env) previous (rfComplete new) cause) (commitRecovery svc (rvCommit env))"
    obtain c r where act: "?act (fsRecovery s) = (c, r)" by (cases "?act (fsRecovery s)")
    have "within (recoveryStep S) ?act"
      by (rule recoverySteps.within_andThen [OF prepareFollow_within commitRecovery_within])
    note appended = recoverySteps.within_result [OF this act]
    have "epSink (fsProcessor s') = epSink (rsProcessor r)"
      using run [unfolded gapIteration_def opened loaded act sum.case prod.case]
      by (auto split: option.splits if_splits)
    with appended show ?thesis by (simp add: followStep_def recoveryStep_def sinkStep_def)
  qed
qed

lemma followIteration_step: "followStep S s (snd (followIteration svc op input env s))"
proof -
  obtain res f where polled: "Next (svcHash svc) (CanonicalPath (svcCwd svc)) (ieNext env) (fsFollower s) = (res, f)"
    by (cases "Next (svcHash svc) (CanonicalPath (svcCwd svc)) (ieNext env) (fsFollower s)")
  let ?s = "s\<lparr>fsFollower := f\<rparr>"
  have keep: "followStep S s u" if "followStep S ?s u" for u
    using that by (simp add: followStep_def)
  have go: "snd (continuing r) = snd r" "snd (stopping r) = snd r" for r :: "commandError option \<times> 's followState"
    by (auto simp: continuing_def stopping_def split: prod.split option.split)
  have gap: "within (followStep S) (onState (recordSourceGap e))" for e
    by (rule within_onState [OF quiet_within [OF quiet_gap]])
  note branches = lineIteration_within idleIteration_within shutdownIteration_within gapIteration_within gap
  show ?thesis
    using branches [unfolded within_def] polled
    by (auto simp: followIteration_def Let_def go intro!: keep followSteps.effect_refl split: nextResult.split)
qed

lemma followLoop_step: "followStep S s (snd (followLoop svc op input envs s))"
proof (induction envs arbitrary: s)
  case Nil
  then show ?case by (simp add: followSteps.effect_refl)
next
  case (Cons env envs)
  have step: "followStep S s (snd (followIteration svc op input env s))" by (rule followIteration_step)
  obtain res u where it: "followIteration svc op input env s = (res, u)" by (cases "followIteration svc op input env s")
  show ?case
    using step it followSteps.effect_trans [OF _ Cons.IH [of u], of s] by (cases res) simp_all
qed

section \<open>Whole runs\<close>

lemma startFollowing_processor:
  assumes "startFollowing svc op env saved r = (res, r')"
  shows "epSink (rsProcessor r') = epSink (rsProcessor r)"
  using assms
  by (auto simp: startFollowing_def startRecovered_def recordSourceGap_def onProcessor_def andThen_def tally_def
      report_def update_def Let_def split: sum.splits prod.splits option.splits if_splits dest: prepareFollow_frame)

lemma enterLoop_step:
  assumes "enterLoop svc op input env resumed f recovering r = (e, s)"
  shows "sinkStep S (rsProcessor r) (fsProcessor s)"
proof -
  let ?pos = "auditPosition (rfComplete f)"
  let ?w = "newCheckpointWriter (opCheckpointPath op) (opCheckpointInterval op) input ?pos (resumed \<or> recovering) (seNow env)"
  let ?replay = "\<lambda>s. if resumed \<or> recovering
      then onState (\<lambda>p. report (RecoveryStarted (spDevice ?pos) (spInode ?pos) (spEnd ?pos)) (p\<lparr>epReplayWindow := True\<rparr>)) s
      else onState (update (\<lambda>p. p\<lparr>epReplayWindow := False\<rparr>)) s"
  let ?rec = "if recovering then commitRecovery svc (rvCommit (seRecover env)) r else (None, r)"
  obtain e1 r1 where rec: "?rec = (e1, r1)" by (cases ?rec)
  let ?s1 = "\<lparr>fsFollower = f, fsWriter = ?w, fsRotationCount = rfRotationCount f, fsRecovery = r1\<rparr>"
  have first: "sinkStep S (rsProcessor r) (rsProcessor r1)"
    using rec recoverySteps.within_result [OF commitRecovery_within] steps.effect_refl
    by (cases recovering) (auto simp: recoveryStep_def sinkStep_def)
  have "within (followStep S) ?replay"
    by (auto simp: within_def followStep_def sinkStep_def onState_def onProcessor_def report_def update_def split: prod.split)
  note both = followSteps.within_andThen [OF persistFollow_within [of "sePersist env" True ?pos] this]
  have "sinkStep S (rsProcessor r1) (fsProcessor s)"
  proof (cases e1)
    case None
    from assms [unfolded enterLoop_def Let_def rec prod.case None option.case]
    have "andThen (persistFollow svc (sePersist env) True ?pos) ?replay ?s1 = (e, s)" .
    from followSteps.within_result [OF both this] show ?thesis by (simp add: followStep_def sinkStep_def)
  next
    case (Some c)
    from assms [unfolded enterLoop_def Let_def rec prod.case Some option.case] show ?thesis
      by (auto intro: steps.effect_refl)
  qed
  with first show ?thesis by (rule steps.effect_trans)
qed

lemma openFollow_step:
  "case openFollow svc op env p checkpoints ledgers of
     Inl (e, p', d) \<Rightarrow> sinkStep S p p' | Inr (input, e, s) \<Rightarrow> sinkStep S p (fsProcessor s)"
proof -
  have sink: "sinkStep S p q \<Longrightarrow> sinkStep S p q' \<longleftrightarrow> sinkStep S p q'" for q q' by simp
  have same: "sinkStep S p q" if "epSink q = epSink p" for q using that by (simp add: sinkStep_def)
  have from_diagnostics: "sinkStep S p q" if "sinkStep S (p\<lparr>epDiagnostics := d\<rparr>) q" for q d
    using that by (simp add: sinkStep_def)
  show ?thesis
  proof (cases "openFollow svc op env p checkpoints ledgers")
    case (Inl x)
    obtain e p' d where x: "x = (e, p', d)" by (cases x)
    have "epSink p' = epSink p"
      using Inl x by (auto simp: openFollow_def split: option.splits sum.splits prod.splits dest: startFollowing_processor)
    with Inl x same show ?thesis by simp
  next
    case (Inr x)
    obtain input e s where x: "x = (input, e, s)" by (cases x)
    obtain saved d manager f recovering r where
      start: "startFollowing svc op env saved
            \<lparr>rsRecovery = manager, rsProcessor = p\<lparr>epDiagnostics := d\<rparr>, rsCheckpoint = checkpoints, rsLedger = ledgers\<rparr>
            = (Inr (f, recovering), r)"
      and enter: "enterLoop svc op input env (saved \<noteq> None) f recovering r = (e, s)"
      using Inr x by (auto simp: openFollow_def split: option.splits sum.splits prod.splits)
    from enterLoop_step [OF enter] startFollowing_processor [OF start] Inr x show ?thesis
      by (simp add: sinkStep_def)
  qed
qed

lemma runFollower_step: "sinkStep S p (snd (runFollower svc op env envs p checkpoints ledgers))"
proof -
  consider (opened) input s0 where "openFollow svc op env p checkpoints ledgers = Inr (input, None, s0)"
    | (failed) input e s0 where "openFollow svc op env p checkpoints ledgers = Inr (input, Some e, s0)"
    | (refused) e p' d where "openFollow svc op env p checkpoints ledgers = Inl (e, p', d)"
    by (metis sum.exhaust prod.exhaust option.exhaust)
  then show ?thesis
  proof cases
    case opened
    have "sinkStep S p (fsProcessor s0)" using openFollow_step [where op = op and env = env and p = p and checkpoints = checkpoints and ledgers = ledgers] opened by simp
    moreover have "sinkStep S (fsProcessor s0) (fsProcessor (snd (followLoop svc op input envs s0)))"
      using followLoop_step by (simp add: followStep_def sinkStep_def)
    ultimately have "sinkStep S p (fsProcessor (snd (followLoop svc op input envs s0)))" by (rule steps.effect_trans)
    with opened show ?thesis by (cases "followLoop svc op input envs s0") (simp add: runFollower_def)
  qed (use openFollow_step [where op = op and env = env and p = p and checkpoints = checkpoints and ledgers = ledgers] in \<open>simp_all add: runFollower_def\<close>)
qed

lemma batchLine_within: "within (sinkStep S) (batchLine svc limit now later partial n)"
  by (simp add: batchLine_def addLine_def lines_within quiet_within quiet_update sameWork_def)

lemma batchFlush_within: "within (sinkStep S) (batchFlush svc c)"
  by (simp add: batchFlush_def flushes_within)

lemma batchLoop_step: "sinkStep S p (snd (batchLoop svc limit env i unread partial n p))"
proof (induction "length unread" arbitrary: i unread partial n p rule: less_induct)
  case less
  obtain fragment status where slice: "readSlice (beFault env) unread = (fragment, status)"
    by (cases "readSlice (beFault env) unread")
  have shorter: "length (drop (length fragment) unread) < length unread" if "status = BufferFull \<or> status = ReadLine"
    using readSlice_progress [OF slice [symmetric] that] .
  let ?total = "n + length fragment" and ?kept = "retainFragment limit fragment partial"
  let ?line = "batchLine svc limit (beNow env i) (beLater env i) ?kept ?total"
  note flush = batchFlush_within [unfolded within_def, rule_format]
  note eof = steps.within_andThen [OF batchLine_within batchFlush_within, unfolded within_def, rule_format]
  obtain e q where line: "?line p = (e, q)" by (cases "?line p")
  have q: "sinkStep S p q" using steps.within_result [OF batchLine_within line] .
  have again: "sinkStep S p (snd (batchLoop svc limit env (i + 1) (drop (length fragment) unread) k m u))"
    if "status = BufferFull \<or> status = ReadLine" and "sinkStep S p u" for k m u
    using steps.effect_trans [OF that(2) less [OF shorter [OF that(1)]]] .
  note same = again [OF _ steps.effect_refl]
  show ?case
    by (subst batchLoop.simps)
       (use slice line q flush eof same again steps.effect_refl in
         \<open>auto simp: Let_def split: readStatus.split option.split\<close>)
qed

lemma runBatch_step: "sinkStep S p (snd (runBatch svc op env p))"
  by (simp add: runBatch_def batchLoop_step steps.effect_refl)

end

section \<open>The NDJSON output\<close>

text \<open>What is accepted, what is durable and which files are finished only grows.\<close>

definition outputGrows :: "ndjsonSink \<Rightarrow> ndjsonSink \<Rightarrow> bool" where
  "outputGrows k k' \<longleftrightarrow>
     prefix (sinkAccepted k) (sinkAccepted k') \<and> prefix (sinkDurable k) (sinkDurable k') \<and>
     prefix (snRotated k) (snRotated k')"

text \<open>A finished file ends with a whole line; the current one does unless the sink has failed.\<close>

definition wholeOutput :: "ndjsonSink \<Rightarrow> bool" where
  "wholeOutput k \<longleftrightarrow>
     list_all (\<lambda>f. \<not> mfTorn f) (snRotated k) \<and>
     (case snFile k of None \<Rightarrow> True | Some f \<Rightarrow> mfTorn f \<longrightarrow> snFailed k)"

lemma rotated_steps:
  "reopenIfRotated c k = (b, k') \<Longrightarrow> prefix (snRotated k) (snRotated k')"
  "nextCalls k = (c, k') \<Longrightarrow> snRotated k' = snRotated k"
  "encodeEvent c e k = (b, k') \<Longrightarrow> snRotated k' = snRotated k"
  "syncCurrent c k = (b, k') \<Longrightarrow> snRotated k' = snRotated k"
  by (auto simp: reopenIfRotated_def nextCalls_def encodeEvent_def appendEvent_def syncCurrent_def
      split: if_splits list.splits option.splits pathState.splits encodeOutcome.splits)

lemma Write_rotated: "Write e k = (b, k') \<Longrightarrow> prefix (snRotated k) (snRotated k')"
  by (auto simp: Write_def tryWrite_def split: if_splits prod.splits bool.splits dest!: rotated_steps)

lemma Commit_rotated: "Commit k = (b, k') \<Longrightarrow> prefix (snRotated k) (snRotated k')"
  by (auto simp: Commit_def split: if_splits prod.splits bool.splits dest!: rotated_steps)

lemma reopen_whole:
  "reopenIfRotated c k = (b, k') \<Longrightarrow> wholeOutput k \<Longrightarrow> \<not> snFailed k \<Longrightarrow> wholeOutput k' \<and> \<not> snFailed k'"
  by (auto simp: reopenIfRotated_def wholeOutput_def syncFile_def newFile_def
      split: option.splits if_splits pathState.splits)

lemma sync_whole: "syncCurrent c k = (b, k') \<Longrightarrow> wholeOutput k \<Longrightarrow> wholeOutput k'"
  by (auto simp: syncCurrent_def wholeOutput_def syncFile_def split: if_splits option.splits)

lemma calls_whole: "nextCalls k = (c, k') \<Longrightarrow> wholeOutput k' = wholeOutput k \<and> snFailed k' = snFailed k"
  by (auto simp: nextCalls_def wholeOutput_def split: list.splits option.splits)

lemma encode_whole:
  "encodeEvent c e k = (b, k') \<Longrightarrow> wholeOutput k \<Longrightarrow> \<not> snFailed k \<Longrightarrow>
     (b \<longrightarrow> wholeOutput k') \<and> wholeOutput (k'\<lparr>snFailed := True\<rparr>)"
  by (auto simp: encodeEvent_def appendEvent_def wholeOutput_def split: option.splits encodeOutcome.splits)

lemma whole_failed: "wholeOutput k \<Longrightarrow> wholeOutput (k\<lparr>snFailed := True\<rparr>)"
  by (auto simp: wholeOutput_def split: option.splits)

lemma tryWrite_whole:
  assumes run: "tryWrite c e k = (b, k')" and whole: "wholeOutput k" "\<not> snFailed k"
  shows "wholeOutput (if b then k' else k'\<lparr>snFailed := True\<rparr>)"
proof -
  obtain b1 k1 where r: "reopenIfRotated c k = (b1, k1)" by fastforce
  obtain b2 k2 where w: "encodeEvent c e k1 = (b2, k2)" by fastforce
  note k1 = reopen_whole [OF r whole]
  note k2 = encode_whole [OF w k1 [THEN conjunct1] k1 [THEN conjunct2]]
  show ?thesis
  proof (cases "b1 \<and> b2")
    case True
    with k2 have "wholeOutput k2" by simp
    with run r w True sync_whole [of c k2 b k'] whole_failed show ?thesis
      by (auto simp: tryWrite_def split: if_splits)
  next
    case False
    with run r w k1 k2 whole_failed show ?thesis by (auto simp: tryWrite_def split: bool.splits)
  qed
qed

lemma Write_whole:
  assumes "Write e k = (b, k')" and "wholeOutput k"
  shows "wholeOutput k'"
proof (cases "snFailed k")
  case True
  with assms show ?thesis by (simp add: Write_def)
next
  case False
  obtain c k1 where c: "nextCalls k = (c, k1)" by fastforce
  obtain b2 k2 where w: "tryWrite c e k1 = (b2, k2)" by fastforce
  from tryWrite_whole [OF w] calls_whole [OF c] assms(2) False
  have "wholeOutput (if b2 then k2 else k2\<lparr>snFailed := True\<rparr>)" by simp
  with assms(1) False c w show ?thesis by (cases b2) (auto simp: Write_def)
qed

lemma Commit_whole:
  assumes "Commit k = (b, k')" and "wholeOutput k"
  shows "wholeOutput k'"
proof (cases "snFailed k")
  case True
  with assms show ?thesis by (simp add: Commit_def)
next
  case False
  obtain c k1 where c: "nextCalls k = (c, k1)" by fastforce
  obtain b2 k2 where r: "reopenIfRotated c k1 = (b2, k2)" by fastforce
  from reopen_whole [OF r] calls_whole [OF c] assms(2) False have "wholeOutput k2" by simp
  with assms(1) False c r sync_whole [of c k2 b k'] show ?thesis
    by (cases b2) (auto simp: Commit_def split: if_splits)
qed

interpretation growing: sink_relation "svc\<lparr>svcPut := Write, svcCommit := Commit\<rparr>" outputGrows for svc
proof
  show "outputGrows k k" for k by (simp add: outputGrows_def)
  show "outputGrows k l \<Longrightarrow> outputGrows l m \<Longrightarrow> outputGrows k m" for k l m
    unfolding outputGrows_def by (blast intro: prefix_order.trans)
  show "outputGrows k k'" if "svcPut (svc\<lparr>svcPut := Write, svcCommit := Commit\<rparr>) e k = (b, k')" for e k b k'
    using that ndjson.put_grows Write_durably Write_rotated by (simp add: outputGrows_def durably_def)
  show "outputGrows k k'" if "svcCommit (svc\<lparr>svcPut := Write, svcCommit := Commit\<rparr>) k = (b, k')" for k b k'
    using that ndjson.commit_accepts Commit_durably Commit_rotated by (simp add: outputGrows_def durably_def)
qed

text \<open>A run never moves away from an output file that is not synced.\<close>

interpretation settling: sink_relation "svc\<lparr>svcPut := Write, svcCommit := Commit\<rparr>" durably for svc
  by unfold_locales (auto intro: durably_trans Write_durably Commit_durably)

interpretation whole: sink_relation "svc\<lparr>svcPut := Write, svcCommit := Commit\<rparr>" "\<lambda>k k'. wholeOutput k \<longrightarrow> wholeOutput k'" for svc
  by unfold_locales (auto intro: Write_whole Commit_whole)

end
