(* ===== verification/BatchProperties.thy ===== *)
theory BatchProperties
  imports Batch FollowerProperties ActionTriples
begin

text \<open>
  Batch mode processes exactly the physical lines of its input, one after the other: neither the
  64 KiB buffer nor the bookkeeping of fragments shows in what the processor is given.
\<close>

section \<open>The lines of an input\<close>

text \<open>The physical lines, each with its newline; the last one may lack it.\<close>

function rawLines :: "string \<Rightarrow> string list" where
  "rawLines s =
     (case indexByte newline s of
        None \<Rightarrow> if s = [] then [] else [s]
      | Some i \<Rightarrow> take (Suc i) s # rawLines (drop (Suc i) s))"
  by pat_completeness auto

termination rawLines
  by (relation "measure length") (auto simp: indexByte_Some)

declare rawLines.simps [simp del]

lemma rawLines_none: "newline \<notin> set s \<Longrightarrow> rawLines s = (if s = [] then [] else [s])"
  by (simp add: rawLines.simps [of s] indexByte_None [THEN iffD2])

lemma rawLines_some: "indexByte newline s = Some i \<Longrightarrow> rawLines s = take (Suc i) s # rawLines (drop (Suc i) s)"
  by (simp add: rawLines.simps [of s])

lemma rawLines_concat: "concat (rawLines s) = s"
proof (induction s rule: rawLines.induct)
  case (1 s)
  show ?case
  proof (cases "indexByte newline s")
    case None
    then show ?thesis by (simp add: rawLines.simps [of s])
  next
    case (Some i)
    from "1.IH" [OF Some] show ?thesis by (simp add: rawLines_some [OF Some])
  qed
qed

text \<open>Every line but the last ends with the only newline it has.\<close>

lemma rawLines_physical: "raw \<in> set (butlast (rawLines s)) \<Longrightarrow> physicalLine raw"
proof (induction s rule: rawLines.induct)
  case (1 s)
  show ?case
  proof (cases "indexByte newline s")
    case None
    with "1.prems" show ?thesis by (simp add: rawLines.simps [of s] split: if_splits)
  next
    case (Some i)
    have "physicalLine (take (Suc i) s)"
      unfolding physicalLine_def using Some
      by (intro exI [of _ "take i s"]) (auto simp: indexByte_Some take_Suc_conv_app_nth)
    with "1.IH" [OF Some] "1.prems" show ?thesis
      by (auto simp: rawLines_some [OF Some] split: if_splits)
  qed
qed

section \<open>The loop\<close>

text \<open>A physical line as the loop hands it to the processor, at iteration \<open>k\<close>.\<close>

definition rawLine :: "'s services \<Rightarrow> int \<Rightarrow> batchEnv \<Rightarrow> nat \<times> string \<Rightarrow> 's eventProcessor action" where
  "rawLine svc limit env x =
     batchLine svc limit (beNow env (fst x)) (beLater env (fst x)) (take (nat limit) (snd x)) (length (snd x))"

lemma retainFragment_take: "retainFragment limit fragment (take (nat limit) raw) = take (nat limit) (raw @ fragment)"
  by (cases "length raw \<le> nat limit") (auto simp: retainFragment_def min_def)

text \<open>What a slice is, by its status.\<close>

lemma readSlice_status:
  assumes "readSlice fault s = (fragment, status)"
  shows "status = BufferFull \<Longrightarrow> newline \<notin> set fragment"
    and "fragment @ drop (length fragment) s = s"
    and "status = ReadLine \<Longrightarrow> \<exists>i. indexByte newline s = Some i \<and> fragment = take (Suc i) s"
    and "status = ReadEOF \<Longrightarrow> fragment = s \<and> newline \<notin> set s"
    and "status = ReadFault \<Longrightarrow> fault"
proof -
  let ?b = "take defaultReadBufferBytes s"
  have whole: "indexByte newline s = Some i" if "indexByte newline ?b = Some i" for i
    using that by (auto simp: indexByte_Some min_def split: if_splits)
  show "status = BufferFull \<Longrightarrow> newline \<notin> set fragment" and "fragment @ drop (length fragment) s = s"
    and "status = ReadLine \<Longrightarrow> \<exists>i. indexByte newline s = Some i \<and> fragment = take (Suc i) s"
    and "status = ReadEOF \<Longrightarrow> fragment = s \<and> newline \<notin> set s"
    and "status = ReadFault \<Longrightarrow> fault"
    using assms whole by (auto simp: readSlice_def indexByte_None min_def split: option.splits if_splits)
qed

definition undisturbed :: "batchEnv \<Rightarrow> bool" where
  "undisturbed env \<longleftrightarrow> (\<forall>i. \<not> beStopped env i \<and> \<not> beStoppedLater env i) \<and> \<not> beFault env"

definition increasing :: "nat \<Rightarrow> nat list \<Rightarrow> bool" where
  "increasing i ks \<longleftrightarrow> sorted_wrt (<) ks \<and> (\<forall>k \<in> set ks. i \<le> k)"

lemma increasing_Cons: "increasing (Suc i) ks \<Longrightarrow> increasing i (i # ks)"
  by (force simp: increasing_def)

lemma increasing_later: "increasing (Suc i) ks \<Longrightarrow> increasing i ks"
  by (force simp: increasing_def)

lemma batchLoop_lines:
  assumes "undisturbed env" and "0 < limit" and "newline \<notin> set raw"
    and "int (length raw + length unread) \<le> maxInt"
  shows "\<exists>ks. increasing i ks \<and> length ks = length (rawLines (raw @ unread)) \<and>
     (\<forall>p. batchLoop svc limit env i unread (take (nat limit) raw) (length raw) p =
        andThen (forEach (rawLine svc limit env) (zip ks (rawLines (raw @ unread)))) (batchFlush svc CompletionEOF) p)"
  using assms(3,4)
proof (induction "length unread" arbitrary: i unread raw rule: less_induct)
  case less
  obtain fragment status where slice: "readSlice (beFault env) unread = (fragment, status)"
    by (cases "readSlice (beFault env) unread")
  have go: "\<not> beStopped env i" "\<not> beStoppedLater env i" "\<not> beFault env"
    using assms(1) by (auto simp: undisturbed_def)
  have fits: "\<not> maxInt - int (length raw) < int (length fragment)"
    using less.prems(2) slice by (auto simp: readSlice_def split: option.splits if_splits)
  note loop = batchLoop.simps [of svc limit env i unread "take (nat limit) raw" "length raw",
      unfolded if_not_P [OF go(1)] slice prod.case if_not_P [OF go(2)] if_not_P [OF fits] Let_def retainFragment_take]
  note slices = readSlice_status [OF slice]
  have rest: "length (drop (length fragment) unread) < length unread" if "status = BufferFull \<or> status = ReadLine"
    using readSlice_progress [OF slice [symmetric] that] .
  have size: "int (length raw + length unread) = int (length (raw @ fragment) + length (drop (length fragment) unread))"
    using slices(2) by (metis length_append add.assoc)
  show ?case
  proof (cases status)
    case BufferFull
    have all: "(raw @ fragment) @ drop (length fragment) unread = raw @ unread" using slices(2) by simp
    have free: "newline \<notin> set (raw @ fragment)" using less.prems(1) slices(1) BufferFull by simp
    have x: "status = BufferFull \<or> status = ReadLine" using BufferFull by simp
    have small: "int (length (raw @ fragment) + length (drop (length fragment) unread)) \<le> maxInt"
      using less.prems(2) unfolding size .
    from less.hyps [OF rest [OF x] free small, of "i + 1", unfolded all]
    obtain ks where "increasing (i + 1) ks" "length ks = length (rawLines (raw @ unread))"
      "\<And>p. batchLoop svc limit env (i + 1) (drop (length fragment) unread) (take (nat limit) (raw @ fragment)) (length (raw @ fragment)) p =
         andThen (forEach (rawLine svc limit env) (zip ks (rawLines (raw @ unread)))) (batchFlush svc CompletionEOF) p"
      by blast
    then show ?thesis using loop BufferFull increasing_later by (intro exI [of _ ks]) simp
  next
    case ReadEOF
    have free: "newline \<notin> set (raw @ unread)" and res: "fragment = unread" using less.prems(1) slices(4) ReadEOF by simp_all
    show ?thesis
    proof (cases "raw @ unread = []")
      case True
      then show ?thesis
        using loop res rawLines_none [OF free] ReadEOF
        by (intro exI [of _ "[]"]) (simp add: increasing_def batchLine_def andThen_def update_def)
    next
      case some: False
      then show ?thesis
        using loop res rawLines_none [OF free] ReadEOF
        by (intro exI [of _ "[i]"]) (simp add: increasing_def rawLine_def andThen_def split: prod.split option.split)
    qed
  next
    case ReadLine
    then obtain j where j: "indexByte newline unread = Some j" and res: "fragment = take (Suc j) unread"
      using slices(3) by blast
    have len: "length fragment = Suc j" using j res by (simp add: indexByte_Some)
    have "indexByte newline (raw @ unread) = Some (length raw + j)" using indexByte_skip [OF less.prems(1)] j by simp
    then have lines: "rawLines (raw @ unread) = (raw @ fragment) # rawLines (drop (length fragment) unread)"
      using rawLines_some [of "raw @ unread" "length raw + j"] len res by simp
    have small: "int (length ([] :: string) + length (drop (length fragment) unread)) \<le> maxInt"
      using less.prems(2) by simp
    have "status = BufferFull \<or> status = ReadLine" and "newline \<notin> set []" using ReadLine by simp_all
    from less.hyps [OF rest [OF this(1)] this(2) small, of "i + 1", unfolded append_Nil list.size(3) take_Nil]
    obtain ks where ks: "increasing (i + 1) ks" "length ks = length (rawLines (drop (length fragment) unread))"
      "\<And>p. batchLoop svc limit env (i + 1) (drop (length fragment) unread) [] 0 p =
         andThen (forEach (rawLine svc limit env) (zip ks (rawLines (drop (length fragment) unread)))) (batchFlush svc CompletionEOF) p"
      by blast
    have "batchLoop svc limit env i unread (take (nat limit) raw) (length raw) p =
        andThen (forEach (rawLine svc limit env) (zip (i # ks) (rawLines (raw @ unread)))) (batchFlush svc CompletionEOF) p" for p
      using loop ks(3) ReadLine by (simp add: lines rawLine_def andThen_def split: prod.split option.split)
    with ks lines increasing_Cons show ?thesis by (intro exI [of _ "i # ks"]) simp
  next
    case ReadFault
    with slices(5) go(3) show ?thesis by simp
  qed
qed

text \<open>
  A loop that ends without an error has processed an initial part of the lines and flushed: all of
  them, unless an iteration has seen a cancellation, and then exactly those that the iterations before
  the first such one have read to their end.
\<close>

definition stopsAt :: "batchEnv \<Rightarrow> nat \<Rightarrow> bool" where
  "stopsAt env i \<longleftrightarrow> beStopped env i \<or> beStoppedLater env i"

text \<open>The iterations it takes to read a line, and how many lines a number of iterations reads.\<close>

definition fragmentsOf :: "string \<Rightarrow> nat" where
  "fragmentsOf raw = length (takeWhile (\<lambda>c. c \<noteq> newline) raw) div defaultReadBufferBytes + 1"

fun linesRead :: "nat \<Rightarrow> string list \<Rightarrow> nat" where
  "linesRead k [] = 0"
| "linesRead k (raw # lines) = (if k < fragmentsOf raw then 0 else Suc (linesRead (k - fragmentsOf raw) lines))"

text \<open>From iteration \<open>i\<close> on, when \<open>c\<close> iterations have begun to read the first of the lines.\<close>

definition processedLines ::
  "'s services \<Rightarrow> int \<Rightarrow> batchEnv \<Rightarrow> nat \<Rightarrow> nat \<Rightarrow> string list \<Rightarrow> 's eventProcessor \<Rightarrow> 's eventProcessor \<Rightarrow> bool" where
  "processedLines svc limit env i c lines p p' \<longleftrightarrow>
     (\<exists>ks n fin q. length ks = n \<and> n \<le> length lines \<and>
        forEach (rawLine svc limit env) (zip ks (take n lines)) p = (None, q) \<and> batchFlush svc fin q = (None, p') \<and>
        (n < length lines \<longrightarrow>
           (\<exists>m \<ge> i. stopsAt env m \<and> (\<forall>j. i \<le> j \<and> j < m \<longrightarrow> \<not> stopsAt env j) \<and> n = linesRead (m - i + c) lines)))"

lemma processedLines_end: "batchFlush svc fin p = (None, p') \<Longrightarrow> processedLines svc limit env i c [] p p'"
  unfolding processedLines_def by (rule exI [of _ "[]"]) auto

lemma processedLines_stopped:
  assumes "batchFlush svc fin p = (None, p')" and "stopsAt env i" and "linesRead c lines = 0"
  shows "processedLines svc limit env i c lines p p'"
  unfolding processedLines_def using assms
  by (intro exI [of _ "[]"] exI [of _ 0] exI [of _ fin] exI [of _ p]) (auto intro!: exI [of _ i])

lemma processedLines_later:
  assumes "processedLines svc limit env (i + 1) (c + 1) lines p p'" and "\<not> stopsAt env i"
  shows "processedLines svc limit env i c lines p p'"
proof -
  obtain ks n fin q where later: "length ks = n" "n \<le> length lines"
      "forEach (rawLine svc limit env) (zip ks (take n lines)) p = (None, q)" "batchFlush svc fin q = (None, p')"
      and stop: "n < length lines \<longrightarrow> (\<exists>m \<ge> i + 1. stopsAt env m \<and> (\<forall>j. i + 1 \<le> j \<and> j < m \<longrightarrow> \<not> stopsAt env j) \<and>
         n = linesRead (m - (i + 1) + (c + 1)) lines)"
    using assms(1) unfolding processedLines_def by blast
  have "\<exists>m \<ge> i. stopsAt env m \<and> (\<forall>j. i \<le> j \<and> j < m \<longrightarrow> \<not> stopsAt env j) \<and> n = linesRead (m - i + c) lines"
    if short: "n < length lines"
  proof -
    obtain m where m: "i + 1 \<le> m" "stopsAt env m" "\<forall>j. i + 1 \<le> j \<and> j < m \<longrightarrow> \<not> stopsAt env j"
        "n = linesRead (m - (i + 1) + (c + 1)) lines"
      using stop short by blast
    have "m - (i + 1) + (c + 1) = m - i + c" using m(1) by simp
    moreover have "\<forall>j. i \<le> j \<and> j < m \<longrightarrow> \<not> stopsAt env j"
      using m(3) assms(2) by (metis add.commute le_neq_implies_less plus_1_eq_Suc Suc_leI)
    ultimately show ?thesis using m by (intro exI [of _ m]) auto
  qed
  with later show ?thesis unfolding processedLines_def by blast
qed

lemma processedLines_Cons:
  assumes "rawLine svc limit env (k, raw) p = (None, u)" and "processedLines svc limit env (i + 1) 0 lines u p'"
    and "\<not> stopsAt env i" and "fragmentsOf raw = c + 1"
  shows "processedLines svc limit env i c (raw # lines) p p'"
proof -
  obtain ks n fin q where later: "length ks = n" "n \<le> length lines"
      "forEach (rawLine svc limit env) (zip ks (take n lines)) u = (None, q)" "batchFlush svc fin q = (None, p')"
      and stop: "n < length lines \<longrightarrow> (\<exists>m \<ge> i + 1. stopsAt env m \<and> (\<forall>j. i + 1 \<le> j \<and> j < m \<longrightarrow> \<not> stopsAt env j) \<and>
         n = linesRead (m - (i + 1) + 0) lines)"
    using assms(2) unfolding processedLines_def by blast
  have "\<exists>m \<ge> i. stopsAt env m \<and> (\<forall>j. i \<le> j \<and> j < m \<longrightarrow> \<not> stopsAt env j) \<and> Suc n = linesRead (m - i + c) (raw # lines)"
    if short: "Suc n < length (raw # lines)"
  proof -
    obtain m where m: "i + 1 \<le> m" "stopsAt env m" "\<forall>j. i + 1 \<le> j \<and> j < m \<longrightarrow> \<not> stopsAt env j"
        "n = linesRead (m - (i + 1) + 0) lines"
      using stop short by auto
    have "\<forall>j. i \<le> j \<and> j < m \<longrightarrow> \<not> stopsAt env j"
      using m(3) assms(3) by (metis add.commute le_neq_implies_less plus_1_eq_Suc Suc_leI)
    moreover have "linesRead (m - i + c) (raw # lines) = Suc (linesRead (m - (i + 1)) lines)"
    proof -
      have "m - i + c - fragmentsOf raw = m - (i + 1)" and "\<not> m - i + c < fragmentsOf raw" using assms(4) m(1) by simp_all
      then show ?thesis by simp
    qed
    ultimately show ?thesis using m by (intro exI [of _ m]) auto
  qed
  moreover have "forEach (rawLine svc limit env) (zip (k # ks) (take (Suc n) (raw # lines))) p = (None, q)"
    using later(3) assms(1) by (simp add: andThen_def)
  moreover have "length (k # ks) = Suc n" "Suc n \<le> length (raw # lines)" using later(1,2) by simp_all
  ultimately show ?thesis unfolding processedLines_def using later(4) by blast
qed

lemma fragmentsOf_line:
  assumes "newline \<notin> set body" and "length body = c * defaultReadBufferBytes + j" and "j < defaultReadBufferBytes"
  shows "fragmentsOf (body @ [newline]) = c + 1" and "fragmentsOf body = c + 1"
proof -
  have whole: "takeWhile (\<lambda>c. c \<noteq> newline) body = body"
    by (rule takeWhile_eq_all_conv [THEN iffD2]) (use assms(1) in blast)
  have "(c * N + j) div N = c" if "j < N" for N using that by simp
  then have count: "length body div defaultReadBufferBytes = c" unfolding assms(2) using assms(3) .
  show "fragmentsOf body = c + 1" unfolding fragmentsOf_def whole count ..
  have "takeWhile (\<lambda>c. c \<noteq> newline) (body @ [newline]) = body @ takeWhile (\<lambda>c. c \<noteq> newline) [newline]"
    by (rule takeWhile_append2) (use assms(1) in metis)
  then have "takeWhile (\<lambda>c. c \<noteq> newline) (body @ [newline]) = body" by simp
  then show "fragmentsOf (body @ [newline]) = c + 1" unfolding fragmentsOf_def by (simp only: count)
qed

text \<open>The line begun so far needs one more iteration than those that have read it.\<close>

lemma linesRead_begun:
  assumes "newline \<notin> set raw" and "length raw = c * defaultReadBufferBytes"
  shows "linesRead c (rawLines (raw @ unread)) = 0"
proof (cases "rawLines (raw @ unread)")
  case Nil
  then show ?thesis by simp
next
  case (Cons line lines)
  then have "line @ concat lines = raw @ unread" using rawLines_concat [of "raw @ unread"] by simp
  have pos: "0 < defaultReadBufferBytes" by (simp add: defaultReadBufferBytes_def)
  have "\<exists>rest. line = raw @ rest"
  proof (cases "indexByte newline unread")
    case None
    then have "newline \<notin> set (raw @ unread)" using assms(1) by (simp add: indexByte_None)
    with Cons show ?thesis by (auto simp: rawLines_none split: if_splits)
  next
    case (Some j)
    then have "indexByte newline (raw @ unread) = Some (length raw + j)" using indexByte_skip [OF assms(1)] by simp
    from rawLines_some [OF this] Cons show ?thesis by auto
  qed
  then obtain rest where line: "line = raw @ rest" by blast
  have "length raw \<le> length (takeWhile (\<lambda>c. c \<noteq> newline) line)"
    unfolding line using assms(1) by (subst takeWhile_append2) auto
  then have "c \<le> length (takeWhile (\<lambda>c. c \<noteq> newline) line) div defaultReadBufferBytes"
    using assms(2) pos by (simp add: less_eq_div_iff_mult_less_eq)
  then show ?thesis using Cons by (simp add: fragmentsOf_def)
qed

lemma readSlice_lengths:
  assumes "readSlice fault s = (fragment, status)"
  shows "status = BufferFull \<Longrightarrow> length fragment = defaultReadBufferBytes"
    and "status = ReadLine \<Longrightarrow> length fragment \<le> defaultReadBufferBytes"
    and "status = ReadEOF \<Longrightarrow> length fragment < defaultReadBufferBytes"
  using assms by (auto simp: readSlice_def indexByte_Some split: option.splits if_splits)

lemma batchLoop_processed:
  assumes "0 < limit" and "newline \<notin> set raw" and "length raw = c * defaultReadBufferBytes"
    and "batchLoop svc limit env i unread (take (nat limit) raw) (length raw) p = (None, p')"
  shows "processedLines svc limit env i c (rawLines (raw @ unread)) p p'"
  using assms(2-4)
proof (induction "length unread" arbitrary: i c unread raw p rule: less_induct)
  case less
  show ?case
  proof (cases "stopsAt env i")
    case True
    then have "batchFlush svc CompletionShutdown p = (None, p')"
      using less.prems(3) by (auto simp: stopsAt_def batchLoop.simps [of svc limit env i] split: prod.splits if_splits)
    from processedLines_stopped [OF this True linesRead_begun [OF less.prems(1,2)]] show ?thesis .
  next
    case going: False
    obtain fragment status where slice: "readSlice (beFault env) unread = (fragment, status)"
      by (cases "readSlice (beFault env) unread")
    note slices = readSlice_status [OF slice] and lengths = readSlice_lengths [OF slice]
    have go: "\<not> beStopped env i" "\<not> beStoppedLater env i" using going by (simp_all add: stopsAt_def)
    have fits: "\<not> maxInt - int (length raw) < int (length fragment)"
      using less.prems(3) slice go by (auto simp: batchLoop.simps [of svc limit env i] split: if_splits)
    note loop = less.prems(3) [unfolded batchLoop.simps [of svc limit env i unread "take (nat limit) raw" "length raw"]
        if_not_P [OF go(1)] slice prod.case if_not_P [OF go(2)] if_not_P [OF fits] Let_def retainFragment_take]
    have rest: "length (drop (length fragment) unread) < length unread" if "status = BufferFull \<or> status = ReadLine"
      using readSlice_progress [OF slice [symmetric] that] .
    show ?thesis
    proof (cases status)
      case BufferFull
      have all: "(raw @ fragment) @ drop (length fragment) unread = raw @ unread" using slices(2) by simp
      have free: "newline \<notin> set (raw @ fragment)" using less.prems(1) slices(1) BufferFull by simp
      have len: "length (raw @ fragment) = (c + 1) * defaultReadBufferBytes" using less.prems(2) lengths(1) BufferFull by simp
      have "status = BufferFull \<or> status = ReadLine" using BufferFull by simp
      from less.hyps [OF rest [OF this] free len, unfolded all] loop BufferFull
      have "processedLines svc limit env (i + 1) (c + 1) (rawLines (raw @ unread)) p p'" by simp
      then show ?thesis using going by (rule processedLines_later)
    next
      case ReadEOF
      have free: "newline \<notin> set (raw @ unread)" and res: "fragment = unread" using less.prems(1) slices(4) ReadEOF by simp_all
      show ?thesis
      proof (cases "raw @ unread = []")
        case True
        then show ?thesis
          using loop res rawLines_none [OF free] ReadEOF processedLines_end [of svc CompletionEOF p p']
          by (simp add: batchLine_def andThen_def update_def)
      next
        case some: False
        obtain u where line: "rawLine svc limit env (i, raw @ unread) p = (None, u)" and flush: "batchFlush svc CompletionEOF u = (None, p')"
          using loop res ReadEOF by (auto simp: rawLine_def andThen_ok)
        have "fragmentsOf (raw @ unread) = c + 1"
          using fragmentsOf_line(2) [OF free, of c "length unread"] less.prems(2) lengths(3) res ReadEOF by simp
        from processedLines_Cons [OF line processedLines_end [OF flush] going this]
        have "processedLines svc limit env i c [raw @ unread] p p'" .
        moreover have "rawLines (raw @ unread) = [raw @ unread]" using rawLines_none [OF free] some by simp
        ultimately show ?thesis by simp
      qed
    next
      case ReadLine
      then obtain j where j: "indexByte newline unread = Some j" and res: "fragment = take (Suc j) unread"
        using slices(3) by blast
      have len: "length fragment = Suc j" and body: "fragment = take j unread @ [newline]" "newline \<notin> set (take j unread)"
        using j res by (auto simp: indexByte_Some take_Suc_conv_app_nth)
      have "indexByte newline (raw @ unread) = Some (length raw + j)" using indexByte_skip [OF less.prems(1)] j by simp
      then have lines: "rawLines (raw @ unread) = (raw @ fragment) # rawLines (drop (length fragment) unread)"
        using rawLines_some [of "raw @ unread" "length raw + j"] len res by simp
      have free: "newline \<notin> set (raw @ take j unread)" using less.prems(1) body(2) by simp
      have "fragmentsOf (raw @ fragment) = c + 1"
        using fragmentsOf_line(1) [OF free, of c j] less.prems(2) lengths(2) len j body(1) ReadLine
        by (simp add: indexByte_Some)
      moreover obtain u where line: "rawLine svc limit env (i, raw @ fragment) p = (None, u)"
        and again: "batchLoop svc limit env (i + 1) (drop (length fragment) unread) [] 0 u = (None, p')"
        using loop ReadLine by (auto simp: rawLine_def split: prod.splits option.splits)
      have "status = BufferFull \<or> status = ReadLine" and "newline \<notin> set ([] :: string)"
        and "length ([] :: string) = 0 * defaultReadBufferBytes" using ReadLine by simp_all
      from less.hyps [OF rest [OF this(1)] this(2,3), unfolded append_Nil list.size(3) take_Nil, OF again]
      have "processedLines svc limit env (i + 1) 0 (rawLines (drop (length fragment) unread)) u p'" .
      ultimately show ?thesis unfolding lines using processedLines_Cons [OF line _ going] by blast
    next
      case ReadFault
      with loop show ?thesis by simp
    qed
  qed
qed

end
