(* ===== verification/BatchAccounting.thy ===== *)
theory BatchAccounting
  imports BatchProperties FollowProcessor
begin

text \<open>
  Batch mode reports every line: a line that does not parse or is over the limit by its own event, a
  record by the event it was assembled into, nothing being left pending at the end of the input or
  after a cancellation.
\<close>

text \<open>The record of a physical line, and the event of a line without one.\<close>

definition rawRecord :: "(nat \<Rightarrow> bool) \<Rightarrow> int \<Rightarrow> string \<Rightarrow> auditRecord option" where
  "rawRecord pr limit raw =
     (if limit < int (length raw) then None
      else case ParseRecord pr (trimLine raw) of Inl err \<Rightarrow> None | Inr r \<Rightarrow> Some r)"

definition rawEvent :: "(nat \<Rightarrow> bool) \<Rightarrow> int \<Rightarrow> string \<Rightarrow> string \<Rightarrow> canonicalEvent" where
  "rawEvent pr limit host raw =
     (if limit < int (length raw)
      then lineException (take (nat limit) raw) (int (length raw) - int (length (take (nat limit) raw))) host
      else case ParseRecord pr (trimLine raw) of
             Inl err \<Rightarrow> BuildParseFailureEvent (trimLine raw) (parseErrorText pr err) host
           | Inr r \<Rightarrow> emptyEvent)"

definition rawAccounted ::
  "(string \<Rightarrow> string) \<Rightarrow> (nat \<Rightarrow> bool) \<Rightarrow> int \<Rightarrow> string \<Rightarrow> bool \<Rightarrow> canonicalEvent list \<Rightarrow> string \<Rightarrow> bool" where
  "rawAccounted lo pr limit host render outs raw \<longleftrightarrow>
     (case rawRecord pr limit raw of
        None \<Rightarrow> rawEvent pr limit host raw \<in> set outs
      | Some r \<Rightarrow> rType r = ''EOE'' \<or> reported lo pr host render outs r)"

definition rawKept ::
  "(string \<Rightarrow> string) \<Rightarrow> (nat \<Rightarrow> bool) \<Rightarrow> int \<Rightarrow> string \<Rightarrow> bool \<Rightarrow> canonicalEvent list \<Rightarrow> assembler \<Rightarrow> string \<Rightarrow> bool" where
  "rawKept lo pr limit host render outs a raw \<longleftrightarrow>
     (case rawRecord pr limit raw of
        None \<Rightarrow> rawEvent pr limit host raw \<in> set outs
      | Some r \<Rightarrow> recordKept lo pr host render outs a r)"

lemma rawKept_empty:
  "asPending a = [] \<Longrightarrow> rawKept lo pr limit host render outs a raw = rawAccounted lo pr limit host render outs raw"
  by (simp add: rawKept_def rawAccounted_def recordKept_def pendingRecords_def split: option.split)

lemma rawKept_step:
  assumes "eventRecords es + pendingRecords a' + lost = new + pendingRecords a"
    and "lost = {#} \<or> (\<exists>r. lost = {#r#} \<and> rType r = ''EOE'')"
    and "set (eventsOutputs lo pr host render es) \<subseteq> set outs'" and "set outs \<subseteq> set outs'"
    and "rawKept lo pr limit host render outs a raw"
  shows "rawKept lo pr limit host render outs' a' raw"
  using assms(5) assms(4) recordKept_step [OF assms(1-4)] by (auto simp: rawKept_def split: option.splits)

section \<open>The invariant of the lines processed so far\<close>

definition batchInv ::
  "('s \<Rightarrow> canonicalEvent list) \<Rightarrow> 's services \<Rightarrow> int \<Rightarrow> string \<Rightarrow> bool \<Rightarrow> string list \<Rightarrow> 's eventProcessor \<Rightarrow> bool" where
  "batchInv acc svc limit host render C p \<longleftrightarrow>
     epHost p = host \<and> epRenderMessage p = render \<and> asmInv (epAssembler p) \<and>
     (\<forall>raw \<in> set C. rawKept (svcLower svc) (svcPrint svc) limit host render (acc (epSink p)) (epAssembler p) raw)"

lemma batchInv_step:
  assumes inv: "batchInv acc svc limit host render C p" and w: "wrote acc dur outs None p p'"
    and asm: "asmInv (epAssembler p')"
    and records: "eventRecords es + pendingRecords (epAssembler p') + lost = new + pendingRecords (epAssembler p)"
    and lost: "lost = {#} \<or> (\<exists>r. lost = {#r#} \<and> rType r = ''EOE'')"
    and outs: "set (eventsOutputs (svcLower svc) (svcPrint svc) host render es) \<subseteq> set outs"
  shows "batchInv acc svc limit host render C p'"
proof -
  let ?kept = "rawKept (svcLower svc) (svcPrint svc) limit host render"
  have grow: "acc (epSink p') = acc (epSink p) @ outs"
    and same: "epHost p' = host" "epRenderMessage p' = render"
    using w inv by (simp_all add: wrote_def delivered_def batchInv_def)
  have "?kept (acc (epSink p')) (epAssembler p') raw" if "raw \<in> set C" for raw
  proof (rule rawKept_step [OF records lost])
    show "?kept (acc (epSink p)) (epAssembler p) raw" using inv that by (simp add: batchInv_def)
  qed (use outs grow in auto)
  with same asm show ?thesis by (simp add: batchInv_def)
qed

context follow_services
begin

lemma batchFlush_inv:
  assumes "batchInv accepted svc limit host render C p" and "batchFlush svc c p = (None, p')"
  shows "batchInv accepted svc limit host render C p' \<and> asPending (epAssembler p') = []"
proof -
  note run = assms(2) [unfolded batchFlush_def]
  note w = flushAll_wrote [OF run]
  obtain a es where f: "FlushAllWith c (epAssembler p) = (a, es)" by (cases "FlushAllWith c (epAssembler p)")
  have asm: "asmInv (epAssembler p)" and same: "epHost p = host" "epRenderMessage p = render"
    using assms(1) by (simp_all add: batchInv_def)
  have none: "asPending (epAssembler p') = []" using FlushAllWith_records [OF f] w(2) f by simp
  have "batchInv accepted svc limit host render C p'"
  proof (rule batchInv_step [OF assms(1), where es = es and lost = "{#}" and new = "{#}"])
    show "wrote accepted durable (eventsOutputs (svcLower svc) (svcPrint svc) host render es) None p p'"
      using w(1) f same by simp
    show "asmInv (epAssembler p')" using FlushAllWith_inv [OF asm f] w(2) f by simp
    show "eventRecords es + pendingRecords (epAssembler p') + {#} = {#} + pendingRecords (epAssembler p)"
      using FlushAllWith_records [OF f] none by (simp add: pendingRecords_def)
  qed simp_all
  with none show ?thesis by blast
qed

lemma rawLine_parsed:
  assumes inv: "batchInv accepted svc limit host render C p" and fits: "\<not> limit < int (length raw)"
    and run: "addLine (svcPut svc) (svcLower svc) (svcPrint svc) now (trimLine raw) p = (None, p')"
  shows "batchInv accepted svc limit host render (raw # C) p'"
proof -
  let ?kept = "rawKept (svcLower svc) (svcPrint svc) limit host render"
  note w = addSourceLine_wrote [OF run [unfolded addLine_def]]
  have asm: "asmInv (epAssembler p)" and same: "epHost p = host" "epRenderMessage p = render"
    using inv by (simp_all add: batchInv_def)
  have "batchInv accepted svc limit host render C p' \<and> ?kept (accepted (epSink p')) (epAssembler p') raw"
  proof (cases "ParseRecord (svcPrint svc) (trimLine raw)")
    case (Inl err)
    obtain a es where f: "FlushExpired now (epAssembler p) = (a, es)" by (cases "FlushExpired now (epAssembler p)")
    let ?ev = "BuildParseFailureEvent (trimLine raw) (parseErrorText (svcPrint svc) err) host"
    have outs: "wrote accepted durable (eventsOutputs (svcLower svc) (svcPrint svc) host render es @ [?ev]) None p p'"
      and a: "epAssembler p' = a"
      using w Inl f same by (simp_all add: lineOutputs_def)
    have "batchInv accepted svc limit host render C p'"
    proof (rule batchInv_step [OF inv outs, where es = es and lost = "{#}" and new = "{#}"])
      show "asmInv (epAssembler p')" using FlushExpired_inv [OF asm f] a by simp
      show "eventRecords es + pendingRecords (epAssembler p') + {#} = {#} + pendingRecords (epAssembler p)"
        using FlushExpired_records [OF asm f] a by simp
    qed auto
    moreover have "?ev \<in> set (accepted (epSink p'))" using outs by (simp add: wrote_def delivered_def)
    ultimately show ?thesis using Inl fits by (simp add: rawKept_def rawRecord_def rawEvent_def)
  next
    case (Inr r)
    have r: "sourcedRecord noPosition r = r" by (simp add: sourcedRecord_def noPosition_def)
    have nn: "0 \<le> rSourceBytes r" using ParseRecord_envelope [OF Inr] by simp
    obtain a es limit' where f: "AddRecovering r now (epAssembler p) = (a, es, limit')"
      by (cases "AddRecovering r now (epAssembler p)")
    let ?outs = "eventsOutputs (svcLower svc) (svcPrint svc) host render es"
    have outs: "wrote accepted durable ?outs None p p'" and a: "epAssembler p' = a"
      using w Inr f r same by (simp_all add: lineOutputs_def)
    obtain lost where records: "eventRecords es + pendingRecords a + lost = {#r#} + pendingRecords (epAssembler p)"
      and lost: "lost = {#} \<or> (\<exists>r. lost = {#r#} \<and> rType r = ''EOE'')"
      using AddRecovering_records [OF asm nn f] by auto
    have "batchInv accepted svc limit host render C p'"
      by (rule batchInv_step [OF inv outs _ records [folded a] lost]) (use AddRecovering_inv [OF asm nn f] a in simp_all)
    moreover have "recordKept (svcLower svc) (svcPrint svc) host render (accepted (epSink p')) (epAssembler p') r"
      unfolding a
      by (rule recordKept_step [OF records lost, where outs = "[]"]) (use outs in \<open>auto simp: wrote_def delivered_def\<close>)
    ultimately show ?thesis using Inr fits by (simp add: rawKept_def rawRecord_def)
  qed
  then show ?thesis by (simp add: batchInv_def)
qed

lemma rawLine_rejected:
  assumes inv: "batchInv accepted svc limit host render C p" and over: "limit < int (length raw)"
    and run: "rejectLine (svcPut svc) (svcLower svc) (svcPrint svc) now later (take (nat limit) raw) (int (length raw)) noPosition p = (None, p')"
  shows "batchInv accepted svc limit host render (raw # C) p'"
proof -
  let ?pre = "take (nat limit) raw"
  note w = rejectLine_wrote [OF run]
  have asm: "asmInv (epAssembler p)" and same: "epHost p = host" "epRenderMessage p = render"
    using inv by (simp_all add: batchInv_def)
  obtain a1 es1 where f1: "FlushExpired now (epAssembler p) = (a1, es1)" by (cases "FlushExpired now (epAssembler p)")
  obtain a2 es2 where f2: "RejectPhysicalLine (svcPrint svc) ?pre noPosition later a1 = (a2, es2)"
    by (cases "RejectPhysicalLine (svcPrint svc) ?pre noPosition later a1")
  have asm1: "asmInv a1" using asm f1 by (rule FlushExpired_inv)
  let ?ev = "lineException ?pre (int (length raw) - int (length ?pre)) host"
  have outs: "wrote accepted durable (eventsOutputs (svcLower svc) (svcPrint svc) host render (es1 @ es2) @ [?ev]) None p p'"
    and a: "epAssembler p' = a2"
    using w f1 f2 same by (simp_all add: rejectedOutputs_def eventsOutputs_def)
  have "batchInv accepted svc limit host render C p'"
  proof (rule batchInv_step [OF inv outs, where es = "es1 @ es2" and lost = "{#}" and new = "{#}"])
    show "asmInv (epAssembler p')" using RejectPhysicalLine_inv [OF asm1 f2] a by simp
    show "eventRecords (es1 @ es2) + pendingRecords (epAssembler p') + {#} = {#} + pendingRecords (epAssembler p)"
      using FlushExpired_records [OF asm f1] RejectPhysicalLine_records [OF asm1 f2] a
      by (simp add: conserve_simps add.assoc)
  qed auto
  moreover have "?ev \<in> set (accepted (epSink p'))" using outs by (simp add: wrote_def delivered_def)
  ultimately show ?thesis using over by (simp add: batchInv_def rawKept_def rawRecord_def rawEvent_def)
qed

lemma rawLine_inv:
  assumes "batchInv accepted svc limit host render C p" and "rawLine svc limit env (k, raw) p = (None, p')"
    and "raw \<noteq> []" and "0 < limit"
  shows "batchInv accepted svc limit host render (raw # C) p'"
proof (cases "limit < int (length raw)")
  case True
  with assms rawLine_rejected [OF assms(1) True] show ?thesis by (simp add: rawLine_def batchLine_def)
next
  case False
  then have "take (nat limit) raw = raw" using assms(4) by simp
  with assms False rawLine_parsed [OF assms(1) False] show ?thesis by (simp add: rawLine_def batchLine_def)
qed

lemma rawLines_inv:
  assumes "batchInv accepted svc limit host render C p" and "forEach (rawLine svc limit env) xs p = (None, p')"
    and "\<forall>x \<in> set xs. snd x \<noteq> []" and "0 < limit"
  shows "batchInv accepted svc limit host render (rev (map snd xs) @ C) p'"
  using assms(1-3)
proof (induction xs arbitrary: C p)
  case Nil
  then show ?case by simp
next
  case (Cons x xs)
  obtain k raw where x: "x = (k, raw)" by (cases x)
  obtain q where q: "rawLine svc limit env (k, raw) p = (None, q)" and rest: "forEach (rawLine svc limit env) xs q = (None, p')"
    using Cons.prems(2) x by (auto simp: andThen_ok)
  from rawLine_inv [OF Cons.prems(1) q] Cons.prems(3) x assms(4)
  have "batchInv accepted svc limit host render (raw # C) q" by simp
  from Cons.IH [OF this rest] Cons.prems(3) x show ?case by simp
qed

end

end
