(* ===== verification/FollowTheorems.thy ===== *)
theory FollowTheorems
  imports OutputEffects
begin

text \<open>
  What follow mode promises, for the NDJSON sink and whatever the environment does: the checkpoint
  never runs ahead of the durable output, its order is never violated, and a clean shutdown leaves no
  line unreported.
\<close>

section \<open>The clean shutdown\<close>

text \<open>The errors before a follower is open.\<close>

lemma logEntry_error: "logEntry entry d = (e, d') \<Longrightarrow> e \<noteq> Some PositionRegressed"
  by (auto simp: logEntry_def split: list.splits if_splits)

lemma openGapRecovery_error:
  "openGapRecovery svc paths lock input f d = (Inl e, d') \<Longrightarrow> e \<noteq> PositionRegressed"
  by (auto simp: openGapRecovery_def Let_def split: if_splits sum.splits option.splits prod.splits dest: logEntry_error)

lemma prepareFollow_error: "prepareFollow svc env previous position cause r = (e, r') \<Longrightarrow> e \<noteq> Some PositionRegressed"
  by (auto simp: prepareFollow_def prepareRecovery_def Let_def split: prod.splits if_splits)

lemma startFollowing_error: "startFollowing svc op env saved r = (Inl e, r') \<Longrightarrow> e \<noteq> PositionRegressed"
  by (auto simp: startFollowing_def startRecovered_def pendingRecovery_def Let_def
      split: sum.splits prod.splits option.splits if_splits dest: prepareFollow_error)

lemma openFollow_refused:
  "openFollow svc op env p checkpoints ledgers = Inl (e, p', d) \<Longrightarrow> e \<noteq> PositionRegressed"
  by (auto simp: openFollow_def loadConfiguredCheckpoint_def split: option.splits sum.splits prod.splits if_splits
      dest: openGapRecovery_error startFollowing_error)

context follow_services
begin

lemma persistFollow_sink:
  assumes "persistFollow svc env force pos s = (e, s')"
  shows "\<exists>k. fsProcessor s' = (fsProcessor s)\<lparr>epSink := k\<rparr> \<and> accepted k = accepted (epSink (fsProcessor s))"
proof -
  obtain u where persist: "persist (svcCommit svc) (svcEncodeCheckpoint svc) env pos force
        \<lparr>psWriter = fsWriter s, psSink = epSink (fsProcessor s), psDirectory = rsCheckpoint (fsRecovery s)\<rparr> = (e, u)"
    and s': "fsProcessor s' = (fsProcessor s)\<lparr>epSink := psSink u\<rparr>"
    using assms by (auto simp: persistFollow_def split: prod.splits)
  have "accepted (psSink u) = accepted (epSink (fsProcessor s))"
    using persist by (cases rule: persist_cases) (auto dest: commit_accepts)
  with s' show ?thesis by blast
qed

lemma persistFollow_at_last:
  assumes "persistFollow svc env force pos s = (e, s')" and "pos = cwLast (fsWriter s)"
  shows "e \<noteq> Some PositionRegressed"
proof -
  obtain u where persist: "persist (svcCommit svc) (svcEncodeCheckpoint svc) env pos force
        \<lparr>psWriter = fsWriter s, psSink = epSink (fsProcessor s), psDirectory = rsCheckpoint (fsRecovery s)\<rparr> = (e, u)"
    using assms by (auto simp: persistFollow_def split: prod.splits)
  then show ?thesis
  proof (cases rule: persist_cases)
    case regressed
    with assms(2) show ?thesis by (simp add: endOrder.before_irrefl)
  qed simp_all
qed

lemma enterLoop_steady:
  assumes run: "enterLoop svc op input env resumed f recovering r = (Some e, s)"
    and fresh: "freshAssembler (epAssembler (rsProcessor r))"
  shows "e \<noteq> PositionRegressed"
proof -
  let ?pos = "auditPosition (rfComplete f)"
  let ?w = "newCheckpointWriter (opCheckpointPath op) (opCheckpointInterval op) input ?pos (resumed \<or> recovering) (seNow env)"
  let ?rec = "if recovering then commitRecovery svc (rvCommit (seRecover env)) r else (None, r)"
  let ?replay = "\<lambda>s. if resumed \<or> recovering
      then onState (\<lambda>p. report (RecoveryStarted (spDevice ?pos) (spInode ?pos) (spEnd ?pos)) (p\<lparr>epReplayWindow := True\<rparr>)) s
      else onState (update (\<lambda>p. p\<lparr>epReplayWindow := False\<rparr>)) s"
  obtain e1 r1 where rec: "?rec = (e1, r1)" by (cases ?rec)
  let ?s1 = "\<lparr>fsFollower = f, fsWriter = ?w, fsRotationCount = rfRotationCount f, fsRecovery = r1\<rparr>"
  note def = run [unfolded enterLoop_def Let_def rec prod.case]
  have never: "fst (?replay u) \<noteq> Some PositionRegressed" for u
    by (auto simp: onState_def onProcessor_def report_def logEntry_def update_def split: list.split)
  show ?thesis
  proof (cases e1)
    case None
    from def [unfolded None option.case]
    have "andThen (persistFollow svc (sePersist env) True ?pos) ?replay ?s1 = (Some e, s)" .
    then show ?thesis
    proof (cases rule: andThen_cases)
      case (failed c)
      from persistFollow_at_last [OF failed(1)] failed(2) show ?thesis by (simp add: newCheckpointWriter_def)
    next
      case (passed u)
      from never [of u, unfolded passed(2)] show ?thesis by simp
    qed
  next
    case (Some c)
    then have bad: "commitRecovery svc (rvCommit (seRecover env)) r = (Some e, r1)"
      using def rec by (cases recovering) simp_all
    show ?thesis
    proof (cases "grLedger (rsRecovery r)")
      case None
      with bad show ?thesis by (auto simp: commitRecovery_def)
    next
      case (Some l)
      have "recoveryAt accepted durable svc (epHost (rsProcessor r)) (epRenderMessage (rsProcessor r)) (\<lambda>p. True) [] []
          (\<lambda>f. f = sdTarget (rsCheckpoint r)) (grCheckpointPath (rsRecovery r)) (\<lambda>x. x = Some l) r"
        using fresh_processorInv [OF fresh] Some by (simp add: recoveryAt_def)
      from tripleD(2) [OF commitRecovery_triple [where Q = "\<lambda>p. True"] this bad] show ?thesis
        by (simp add: recoveryFailed_def)
    qed
  qed
qed

lemma shutdown_accounted:
  assumes inv: "loop op start host render t s" and run: "shutdownIteration svc env s = (None, s')"
  shows "\<forall>l \<in> set (ftCurrent t). durableLine accepted svc (fsProcessor s') l"
proof -
  let ?flush = "flushAll (svcPut svc) (svcLower svc) (svcPrint svc) CompletionShutdown"
  let ?P = "\<lambda>p. \<not> sourcePositionBefore p (cwLast (fsWriter s))"
  obtain u where on: "onState ?flush s = (None, u)"
    and persist: "persistFollow svc (iePersist env) True (auditPosition (rfComplete (fsFollower u))) u = (None, s')"
    using run by (auto simp: shutdownIteration_def andThen_ok)
  have pre: "processorInv accepted svc host render ?P (ftCurrent t) (fsProcessor s)" using inv by (simp add: loopInv_def)
  obtain p where "?flush (fsProcessor s) = (None, p)" and u: "fsProcessor u = p"
    using onState_result [OF on] by auto
  from flushAll_inv [OF pre this(1), of ?P] u
  have flushed: "processorInv accepted svc host render ?P (ftCurrent t) (fsProcessor u)"
      "asPending (epAssembler (fsProcessor u)) = []" by simp_all
  obtain k where "fsProcessor s' = (fsProcessor u)\<lparr>epSink := k\<rparr>" and "accepted k = accepted (epSink (fsProcessor u))"
    using persistFollow_sink [OF persist] by blast
  with flushed show ?thesis by (auto simp: processorInv_def lineKept_empty durableLine_def)
qed

lemma followIteration_stopped:
  assumes inv: "loop op start host render t s" and run: "followIteration svc op input env s = (Stop None, s')"
  shows "\<forall>l \<in> set (ftCurrent (traceStep svc op input env s t)). durableLine accepted svc (fsProcessor s') l"
proof -
  obtain res f where polled: "Next (svcHash svc) (CanonicalPath (svcCwd svc)) (ieNext env) (fsFollower s) = (res, f)"
    by (cases "Next (svcHash svc) (CanonicalPath (svcCwd svc)) (ieNext env) (fsFollower s)")
  have never: "continuing r \<noteq> (Stop None, s')" for r by (auto simp: continuing_def split: prod.split option.split)
  obtain e where e: "res = Failed e" "cancelled e"
    and shut: "shutdownIteration svc env (s\<lparr>fsFollower := f\<rparr>) = (None, s')"
    using run polled never
    by (cases res) (auto simp: followIteration_def stopping_def Let_def split: if_splits prod.splits)
  have "res \<noteq> Failed CallFailed" using e by auto
  then have "loop op start host render t (s\<lparr>fsFollower := f\<rparr>)"
    using inv Next_aligned [OF _ polled] loopInv_follower by (fastforce simp: loopInv_def [of _ _ _ _ _ _ _ t s])
  from shutdown_accounted [OF this shut] show ?thesis
    using polled e run by (simp add: traceStep_def)
qed

lemma followLoop_stopped:
  "loop op start host render t s \<Longrightarrow> followLoop svc op input envs s = (Stop None, s') \<Longrightarrow>
     \<forall>l \<in> set (ftCurrent (loopTrace svc op input envs s t)). durableLine accepted svc (fsProcessor s') l"
proof (induction envs arbitrary: s t)
  case Nil
  then show ?case by simp
next
  case (Cons env envs)
  obtain res u where it: "followIteration svc op input env s = (res, u)"
    by (cases "followIteration svc op input env s")
  show ?case
  proof (cases res)
    case GoOn
    with followIteration_step [OF Cons.prems(1), of input env] it
    have "loop op start host render (traceStep svc op input env s t) u" by (simp add: iterationOk_def)
    with Cons.IH Cons.prems(2) it GoOn show ?thesis by simp
  next
    case (Stop e)
    with followIteration_stopped [OF Cons.prems(1)] Cons.prems(2) it show ?thesis by simp
  qed
qed

section \<open>From the start\<close>

lemma openFollow_inv:
  assumes run: "openFollow svc op env p checkpoints ledgers = Inr (input, None, s)"
    and fresh: "freshAssembler (epAssembler p)"
  shows "loop op (savedTarget s) (epHost p) (epRenderMessage p) emptyTrace s"
proof -
  obtain saved manager d f recovering r where
    gap: "openGapRecovery svc
            \<lparr>rpCheckpoint = opCheckpointPath op, rpLock = opLockPath op, rpOutput = opOutputPath op\<rparr>
            (seDefaultLock env) input (readState (seLedgerFails env) ledgers) (epDiagnostics p) = (Inr manager, d)"
    and start: "startFollowing svc op env saved
            \<lparr>rsRecovery = manager, rsProcessor = p\<lparr>epDiagnostics := d\<rparr>, rsCheckpoint = checkpoints, rsLedger = ledgers\<rparr>
            = (Inr (f, recovering), r)"
    and enter: "enterLoop svc op input env (saved \<noteq> None) f recovering r = (None, s)"
    using run by (auto simp: openFollow_def split: option.splits sum.splits prod.splits)
  note frame = startFollowing_inv [OF start]
  have "loop op (savedTarget s) (epHost (rsProcessor r)) (epRenderMessage (rsProcessor r)) emptyTrace s"
    using frame openGapRecovery_path [OF gap] fresh by (intro enterLoop_inv [OF enter]) simp_all
  with frame show ?thesis by simp
qed

lemma openFollow_steady:
  assumes "openFollow svc op env p checkpoints ledgers = Inr (input, Some e, s)"
    and fresh: "freshAssembler (epAssembler p)"
  shows "e \<noteq> PositionRegressed"
proof -
  obtain saved manager d f recovering r where
    start: "startFollowing svc op env saved
            \<lparr>rsRecovery = manager, rsProcessor = p\<lparr>epDiagnostics := d\<rparr>, rsCheckpoint = checkpoints, rsLedger = ledgers\<rparr>
            = (Inr (f, recovering), r)"
    and enter: "enterLoop svc op input env (saved \<noteq> None) f recovering r = (Some e, s)"
    using assms(1) by (auto simp: openFollow_def split: option.splits sum.splits prod.splits)
  have proc: "rsProcessor r = p\<lparr>epDiagnostics := d\<rparr>" using startFollowing_inv [OF start] by simp
  show ?thesis using enterLoop_steady [OF enter] fresh proc by simp
qed

end

section \<open>The properties\<close>

text \<open>A service record with the NDJSON sink is an instance of the interface.\<close>

lemma ndjsonSvc: "svcPut svc = Write \<Longrightarrow> svcCommit svc = Commit \<Longrightarrow> svc\<lparr>svcPut := Write, svcCommit := Commit\<rparr> = svc"
  by (cases svc) simp

lemma followed_settled:
  assumes "svcPut svc = Write" and "svcCommit svc = Commit"
    and "openFollow svc op env p checkpoints ledgers = Inr (input, None, s0)"
    and "followLoop svc op input envs s0 = (res, s)" and "sinkSettled (epSink p)"
  shows "sinkDurable (epSink (fsProcessor s)) = sinkCommitted (epSink (fsProcessor s))"
proof -
  note svc = ndjsonSvc [OF assms(1,2)]
  have "sinkStep durably p (fsProcessor s0)"
    using settling.openFollow_step [where svc = svc, unfolded svc, where op = op and env = env and p = p and
        checkpoints = checkpoints and ledgers = ledgers] assms(3) by simp
  moreover have "followStep durably s0 s"
    using settling.followLoop_step [where svc = svc, unfolded svc, where op = op and input = input and envs = envs and s = s0]
      assms(4) by simp
  ultimately have "sinkSettled (epSink (fsProcessor s))"
    using assms(5) by (simp add: sinkStep_def followStep_def durably_def)
  then show ?thesis by (rule settled_durable)
qed

text \<open>
  C1: the checkpoint never runs ahead of the output. However far follow mode gets and however it
  stops, every line of a follower that a gap recovery has replaced is accounted for in the durable
  events; and if the checkpoint file is no longer the one of the start, it holds a position such that
  every line returned before it is accounted for in the durable events (or all lines are). Durable
  are the synced events only, on the current output file and on those it was rotated away from; the
  sink is one whose earlier files are synced, as a newly opened one has none.
\<close>

theorem checkpoint_covers_lines:
  assumes "svcPut svc = Write" and "svcCommit svc = Commit" and "sinkSettled (epSink p)"
    and "openFollow svc op env p checkpoints ledgers = Inr (input, None, s0)" and "freshAssembler (epAssembler p)"
    and "followLoop svc op input envs s0 = (res, s)" and "t = loopTrace svc op input envs s0 emptyTrace"
  shows "(\<forall>l \<in> set (ftEarlier t). durableLine sinkDurable svc (fsProcessor s) l) \<and>
     (savedTarget s = savedTarget s0 \<or>
      (\<exists>pos \<in> {cwLast (fsWriter s), safePosition s}.
         savedAt (svcEncodeCheckpoint svc) (savedTarget s) pos \<and>
         covered sinkDurable svc (ftCurrent t) pos (fsProcessor s)) \<or>
      (\<forall>l \<in> set (ftCurrent t). durableLine sinkDurable svc (fsProcessor s) l))"
proof -
  note svc = ndjsonSvc [OF assms(1,2)]
  note inv = ndjsonServices.openFollow_inv [of svc, unfolded svc, OF assms(4,5)]
  note durable = followed_settled [OF assms(1,2,4,6,3)]
  from ndjsonServices.followLoop_step [of svc, unfolded svc, OF inv, of input envs] assms(6,7)
  have "loopEnd sinkCommitted svc (savedTarget s0) t s"
    by (cases res) (simp_all add: iterationOk_def loopInv_end)
  then show ?thesis by (simp add: loopEnd_def covered_def durableLine_def durable)
qed

text \<open>
  C34: follow mode never ends because a position to be saved lies before the last one saved, whatever
  the environment does.
\<close>

theorem checkpoint_never_regresses:
  assumes "svcPut svc = Write" and "svcCommit svc = Commit" and "freshAssembler (epAssembler p)"
  shows "fst (runFollower svc op env envs p checkpoints ledgers) \<noteq> Stop (Some PositionRegressed)"
proof -
  note svc = ndjsonSvc [OF assms(1,2)]
  consider (opened) input s0 where "openFollow svc op env p checkpoints ledgers = Inr (input, None, s0)"
    | (failed) input e s0 where "openFollow svc op env p checkpoints ledgers = Inr (input, Some e, s0)"
    | (refused) e p' d where "openFollow svc op env p checkpoints ledgers = Inl (e, p', d)"
    by (metis sum.exhaust prod.exhaust option.exhaust)
  then show ?thesis
  proof cases
    case opened
    note inv = ndjsonServices.openFollow_inv [of svc, unfolded svc, OF opened assms(3)]
    from ndjsonServices.followLoop_step [of svc, unfolded svc, OF inv, of input envs] opened show ?thesis
      by (auto simp: runFollower_def iterationOk_def split: prod.splits followResult.splits)
  next
    case failed
    with ndjsonServices.openFollow_steady [of svc, unfolded svc, OF failed assms(3)] show ?thesis
      by (simp add: runFollower_def)
  next
    case refused
    with openFollow_refused [OF refused] show ?thesis by (simp add: runFollower_def)
  qed
qed

text \<open>
  C12: a clean shutdown leaves no line unreported: every line returned by the current follower is
  accounted for in the events the sink accepted, and every line of a follower replaced before in the
  events it has committed, which are durable if the files it was moved away from before the run are
  synced.
\<close>

theorem shutdown_reports_every_line:
  assumes "svcPut svc = Write" and "svcCommit svc = Commit"
    and "openFollow svc op env p checkpoints ledgers = Inr (input, None, s0)" and "freshAssembler (epAssembler p)"
    and "followLoop svc op input envs s0 = (Stop None, s)" and "t = loopTrace svc op input envs s0 emptyTrace"
  shows "(\<forall>l \<in> set (ftCurrent t). durableLine sinkAccepted svc (fsProcessor s) l) \<and>
     (\<forall>l \<in> set (ftEarlier t). durableLine sinkCommitted svc (fsProcessor s) l) \<and>
     (sinkSettled (epSink p) \<longrightarrow> (\<forall>l \<in> set (ftEarlier t). durableLine sinkDurable svc (fsProcessor s) l))"
proof -
  note svc = ndjsonSvc [OF assms(1,2)]
  note inv = ndjsonServices.openFollow_inv [of svc, unfolded svc, OF assms(3,4)]
  from ndjsonServices.followLoop_step [of svc, unfolded svc, OF inv, of input envs] assms(5,6)
  have "loopEnd sinkCommitted svc (savedTarget s0) t s" by (simp add: iterationOk_def)
  then show ?thesis
    using ndjsonServices.followLoop_stopped [of svc, unfolded svc, OF inv assms(5)] assms(6)
      followed_settled [OF assms(1,2,3,5)]
    by (simp add: loopEnd_def durableLine_def)
qed

end
