(* ===== verification/FollowSamples.thy ===== *)
theory FollowSamples
  imports FollowTheorems
begin

text \<open>
  A small run of follow mode, every call succeeding: a file with one line that does not parse, read
  once, and a shutdown. The states are written out, so that a step is a rewriting.
\<close>

definition sampleAnchor :: "string \<Rightarrow> string" where
  "sampleAnchor s = replicate 32 CHR ''A''"

definition followServices :: "ndjsonSink services" where
  "followServices = \<lparr>svcPut = Write, svcCommit = Commit, svcLower = (\<lambda>s. s), svcPrint = (\<lambda>n. True),
     svcHash = sampleAnchor, svcCwd = Some ''/'', svcStat = (\<lambda>p. None),
     svcEncodeCheckpoint = (\<lambda>c. itoa (cpOffset c)), svcDecodeCheckpoint = (\<lambda>s. None),
     svcMarshalLedger = (\<lambda>l. []), svcEncodeLedger = (\<lambda>l. []), svcDecodeLedger = (\<lambda>s. None)\<rparr>"

definition followOptions :: commandOptions where
  "followOptions = (defaultOptions [])\<lparr>opInputPath := ''/a'', opFollow := True, opCheckpointPath := ''/c'',
     opMaxLineBytes := 80, opCheckpointInterval := 0\<rparr>"

definition followContent :: string where
  "followContent = ''x'' @ [newline]"

definition followLimits :: assemblerLimits where
  "followLimits = \<lparr>maxPendingEvents = 4, maxRecordsPerEvent = 4, maxPendingBytes = 400\<rparr>"

definition followProcessor :: "ndjsonSink eventProcessor" where
  "followProcessor = \<lparr>epAssembler = (NewAssembler 1000)\<lparr>asLimits := followLimits\<rparr>, epSink = NewWriterSink [], epHost = ''h'', epRenderMessage = False,
     epDiagnostics = newOperationalDiagnostics 0 0 [], epReplayWindow = False\<rparr>"

definition goodSave :: saveCalls where
  "goodSave = \<lparr>svOpenDirectory = True, svCloseExisting = True, svRandom = True, svCreate = True,
     svTorn = [], svEncode = True, svSync = True, svClose = True, svRename = True, svUnlink = True,
     svSyncDirectory = True, svCloseDirectory = True\<rparr>"

definition goodPersist :: persistEnv where
  "goodPersist = \<lparr>pvSince = 1, pvAttempt = 1, pvStamp = 1, pvCalls = goodSave\<rparr>"

definition noRecovery :: recoverEnv where
  "noRecovery = \<lparr>rvProbes = (\<lambda>p. None), rvProbeCloseFails = False, rvListing = None, rvOpens = (\<lambda>p. None),
     rvLoadFails = False, rvPrepare = \<lparr>prDetected = 1, prStamp = 1, prCalls = goodSave\<rparr>,
     rvCommit = \<lparr>reCheckpointCalls = goodSave, reStamp = 1, reLedgerCalls = goodSave\<rparr>,
     rvCloseFails = False, rvWriterNow = 1\<rparr>"

definition followStart :: startEnv where
  "followStart = \<lparr>seCheckpointFails = False, seLedgerFails = False, seDefaultLock = ''/l'', seListing = None,
     seOpens = (\<lambda>p. Some \<lparr>ofRegular = True, ofIdentity = \<lparr>fiDevice = 1, fiInode = 2\<rparr>, ofContent = followContent\<rparr>),
     seRecover = noRecovery, seNow = 0, sePersist = goodPersist\<rparr>"

definition readIteration :: "bool \<Rightarrow> iterationEnv" where
  "readIteration stop =
     \<lparr>ieNext = \<lparr>neRead = \<lparr>reContent = followContent, reFault = False, reCancelled = stop, reCancelledIdle = False\<rparr>,
        neStat = StatInfo \<lparr>fiDevice = 1, fiInode = 2\<rparr> 2, neListing = None, neDescriptorSize = None, neNow = 0,
        neOpen = (\<lambda>p. None), neListingAgain = None, neOpenAgain = (\<lambda>p. None), neCloseFails = False\<rparr>,
      ieNow = 1, ieLater = 1, ieCaughtUpSize = None, iePersist = goodPersist, ieBeatDue = 0, ieBeatNow = 0,
      ieBeatLater = 0, ieLagSize = None, ieLagListing = None, ieLagStat = (\<lambda>p. None), ieRecover = noRecovery\<rparr>"

definition emptyDirectory :: stateDirectory where
  "emptyDirectory = \<lparr>sdTarget = Absent, sdLeftover = False\<rparr>"


section \<open>The states of the run\<close>

abbreviation "sampleHex \<equiv> concat (replicate 32 ''41'')"

text \<open>The position at an offset of the one file.\<close>

definition positionAt :: "int \<Rightarrow> generationPosition" where
  "positionAt n = \<lparr>gpIdentity = \<lparr>fiDevice = 1, fiInode = 2\<rparr>, gpGeneration = 0, gpAnchor = sampleHex, gpOffset = n\<rparr>"

definition followerAt :: "int \<Rightarrow> rotatingFollower" where
  "followerAt n =
     \<lparr>rfInputPath = ''/a'', rfOptions = rotationOptionsOf followOptions ''/c.recovery'',
      rfCurrent = \<lparr>ffPath = ''/a'', ffMaxLineBytes = 80, ffPartial = [], ffLineBytes = 0, ffRecoverLineLimits = True,
        ffIdentity = \<lparr>fiDevice = 1, fiInode = 2\<rparr>, ffGeneration = 0, ffReadOffset = n, ffLineStart = n, ffCompleteEnd = n,
        ffOrigin = \<lparr>fiDevice = 1, fiInode = 2\<rparr>, ffOriginGen = 0, ffOriginOffset = n, ffOriginAnchor = sampleHex\<rparr>,
      rfCurrentAtPath = True, rfQueued = [], rfComplete = positionAt n, rfRotationCount = 0,
      rfPendingIdentity = zeroIdentity, rfDrainStarted = 0, rfDrainSize = 0\<rparr>"

definition onlyLine :: sourceLine where
  "onlyLine = \<lparr>slOmittedBytes = 0, slText = ''x'', slIdentity = \<lparr>fiDevice = 1, fiInode = 2\<rparr>, slGeneration = 0,
     slStartIdentity = \<lparr>fiDevice = 1, fiInode = 2\<rparr>, slStartGeneration = 0, slStart = 0, slEnd = 2,
     slStartAnchor = sampleHex, slEndAnchor = sampleHex, slSourceBytes = 2\<rparr>"

lemma canonical: "CanonicalPath (Some ''/'') ''/a'' = Some ''/a''" by code_simp

lemma openedSample:
  "OpenRotatingFollower sampleAnchor (CanonicalPath (Some ''/'')) ''/a'' (rotationOptionsOf followOptions ''/c.recovery'') None None
     (seOpens followStart) = Inr (followerAt 0)"
  by code_simp

lemma polledLine:
  "Next sampleAnchor (CanonicalPath (Some ''/'')) (ieNext (readIteration False)) (followerAt 0) = (Returned onlyLine, followerAt 2)"
  by code_simp

lemma polledStop:
  "Next sampleAnchor (CanonicalPath (Some ''/'')) (ieNext (readIteration True)) (followerAt 2) = (Failed (FollowerFailed ContextDone), followerAt 2)"
  by code_simp

lemma parsed: "ParseRecord (\<lambda>n. True) ''x'' = Inl (MalformedField ''x'' 0)" by code_simp

lemma savedCheckpoint:
  "SaveCheckpoint (\<lambda>c. itoa (cpOffset c)) goodSave 1 (checkpointAt ''/a'' (auditPosition (positionAt 0))) emptyDirectory =
     (True, \<lparr>sdTarget = Bytes ''0'', sdLeftover = False\<rparr>)"
  "SaveCheckpoint (\<lambda>c. itoa (cpOffset c)) goodSave 1 (checkpointAt ''/a'' (auditPosition (positionAt 2)))
     \<lparr>sdTarget = Bytes ''0'', sdLeftover = False\<rparr> = (True, \<lparr>sdTarget = Bytes ''2'', sdLeftover = False\<rparr>)"
  by code_simp+

text \<open>The loop's state with the follower and the checkpoint at an offset.\<close>

definition writerAt :: "int \<Rightarrow> checkpointWriter" where
  "writerAt n = \<lparr>cwPath = ''/c'', cwInputPath = ''/a'', cwInterval = 0, cwLast = auditPosition (positionAt n),
     cwLastAttempt = 1, cwInitialized = True\<rparr>"

definition stateAt :: "int \<Rightarrow> ndjsonSink eventProcessor \<Rightarrow> ndjsonSink followState" where
  "stateAt n p =
     \<lparr>fsFollower = followerAt n, fsWriter = writerAt n, fsRotationCount = 0,
      fsRecovery = \<lparr>rsRecovery = \<lparr>grPath = ''/c.recovery'', grInput = ''/a'', grCheckpointPath = ''/c'', grLedger = None\<rparr>,
        rsProcessor = p, rsCheckpoint = \<lparr>sdTarget = Bytes (itoa n), sdLeftover = False\<rparr>, rsLedger = emptyDirectory\<rparr>\<rparr>"

text \<open>The processor once it has written the event of the line.\<close>

definition lineProblem :: string where
  "lineProblem = parseErrorText (\<lambda>n. True) (MalformedField ''x'' 0)"

definition lineProcessor :: "ndjsonSink eventProcessor" where
  "lineProcessor = followProcessor
     \<lparr>epSink := (NewWriterSink [])\<lparr>snWritten := [BuildParseFailureEvent ''x'' lineProblem ''h'']\<rparr>,
      epDiagnostics := (newOperationalDiagnostics 0 0 [])
        \<lparr>dgCounters := zeroCounters\<lparr>ocInputLines := 1, ocInputBytes := 2, ocParseFailures := 1, ocEmittedEvents := 1\<rparr>,
         dgLog := [ParseFailureSeen lineProblem]\<rparr>\<rparr>"

lemma serviceFields [simp]:
  "svcPut followServices = Write" "svcCommit followServices = Commit" "svcLower followServices = (\<lambda>s. s)"
  "svcPrint followServices = (\<lambda>n. True)" "svcHash followServices = sampleAnchor" "svcCwd followServices = Some ''/''"
  "svcStat followServices = (\<lambda>p. None)" "svcEncodeCheckpoint followServices = (\<lambda>c. itoa (cpOffset c))"
  by (simp_all add: followServices_def)

lemma optionFields [simp]:
  "opInputPath followOptions = ''/a''" "opCheckpointPath followOptions = ''/c''" "opLockPath followOptions = []"
  "opOutputPath followOptions = []" "opCheckpointInterval followOptions = 0"
  by (simp_all add: followOptions_def defaultOptions_def)

lemma recoverySample:
  "openGapRecovery followServices \<lparr>rpCheckpoint = ''/c'', rpLock = [], rpOutput = []\<rparr> lock ''/a'' Absent d =
     (Inr \<lparr>grPath = ''/c.recovery'', grInput = ''/a'', grCheckpointPath = ''/c'', grLedger = None\<rparr>, d)"
proof -
  have "cleanPath ''/c.recovery'' = ''/c.recovery''" by code_simp
  moreover have "\<not> list_ex (\<lambda>other. other \<noteq> [] \<and> sameConfiguredPath (\<lambda>p. None) (Some ''/'') ''/c.recovery'' other)
      [''/a'', [], [], ''/c'']" by code_simp
  ultimately show ?thesis
    by (simp add: openGapRecovery_def sidecarPath_def LoadGapLedger_def Let_def)
qed

lemma committed: "snCalls k = [] \<Longrightarrow> \<not> snFailed k \<Longrightarrow> snFile k = None \<Longrightarrow> Commit k = (True, k)"
  by (simp add: Commit_def nextCalls_def reopenIfRotated_def)

lemma sampleSink [simp]: "epSink followProcessor = NewWriterSink []" "epDiagnostics followProcessor = newOperationalDiagnostics 0 0 []"
  "epReplayWindow followProcessor = False" "epAssembler followProcessor = (NewAssembler 1000)\<lparr>asLimits := followLimits\<rparr>"
  by (simp_all add: followProcessor_def)

text \<open>Saving a position that differs from the last one, and one that does not.\<close>

lemma persistMoves:
  assumes "SaveCheckpoint (\<lambda>c. itoa (cpOffset c)) goodSave 1 (checkpointAt ''/a'' pos) d = (True, d')"
    and "snCalls k = []" "\<not> snFailed k" "snFile k = None"
    and "\<not> checkpointBefore pos (cwLast w)" "\<not> (cwInitialized w \<and> sameSourcePosition pos (cwLast w))"
    and "cwPath w = ''/c''" "cwInputPath w = ''/a''" "cwInterval w = 0" "cwLastAttempt w \<le> 1"
  shows "persist Commit (\<lambda>c. itoa (cpOffset c)) goodPersist pos force \<lparr>psWriter = w, psSink = k, psDirectory = d\<rparr> =
     (None, \<lparr>psWriter = w\<lparr>cwLastAttempt := 1, cwLast := pos, cwInitialized := True\<rparr>, psSink = k, psDirectory = d'\<rparr>)"
proof -
  have "\<not> timeSub 1 (cwLastAttempt w) < 0" using assms(10) by (simp add: timeSub_def minDuration_def maxDuration_def)
  with assms(6) show ?thesis
    by (simp add: persist_def goodPersist_def committed assms(1-5,7-9) del: de_Morgan_conj)
qed

lemma begins:
  "openFollow followServices followOptions followStart followProcessor emptyDirectory emptyDirectory =
     Inr (''/a'', None, stateAt 0 followProcessor)"
proof -
  let ?r = "\<lparr>rsRecovery = \<lparr>grPath = ''/c.recovery'', grInput = ''/a'', grCheckpointPath = ''/c'', grLedger = None\<rparr>,
      rsProcessor = followProcessor, rsCheckpoint = emptyDirectory, rsLedger = emptyDirectory\<rparr>"
  have start: "startFollowing followServices followOptions followStart None ?r = (Inr (followerAt 0, False), ?r)"
    using openedSample by (simp add: startFollowing_def pendingRecovery_def followStart_def)
  have position: "rfComplete (followerAt n) = positionAt n" "rfRotationCount (followerAt n) = 0" for n
    by (simp_all add: followerAt_def)
  have enter: "enterLoop followServices followOptions ''/a'' followStart False (followerAt 0) False ?r = (None, stateAt 0 followProcessor)"
  proof -
    let ?w = "newCheckpointWriter ''/c'' 0 ''/a'' (auditPosition (positionAt 0)) False 0"
    have "persist Commit (\<lambda>c. itoa (cpOffset c)) goodPersist (auditPosition (positionAt 0)) True
        \<lparr>psWriter = ?w, psSink = NewWriterSink [], psDirectory = emptyDirectory\<rparr> =
      (None, \<lparr>psWriter = writerAt 0, psSink = NewWriterSink [], psDirectory = \<lparr>sdTarget = Bytes ''0'', sdLeftover = False\<rparr>\<rparr>)"
      by (subst persistMoves [OF savedCheckpoint(1)])
         (simp_all add: newCheckpointWriter_def NewWriterSink_def writerAt_def endOrder.before_irrefl)
    moreover have "followProcessor\<lparr>epSink := NewWriterSink [], epReplayWindow := False\<rparr> = followProcessor"
      by (simp add: followProcessor_def)
    moreover have "itoa 0 = ''0''" by code_simp
    ultimately show ?thesis
      by (simp add: enterLoop_def position andThen_def persistFollow_def followStart_def Let_def onState_def
          onProcessor_def update_def stateAt_def)
  qed
  have same: "followProcessor\<lparr>epDiagnostics := newOperationalDiagnostics 0 0 []\<rparr> = followProcessor"
    by (simp add: followProcessor_def)
  have "readState False emptyDirectory = Absent" by (simp add: readState_def emptyDirectory_def)
  moreover have "seCheckpointFails followStart = False" "seLedgerFails followStart = False"
    by (simp_all add: followStart_def)
  ultimately show ?thesis
    using canonical start enter recoverySample
    by (simp add: openFollow_def loadConfiguredCheckpoint_def LoadCheckpoint_def same)
qed

section \<open>The line\<close>

lemma nothingExpired:
  "FlushExpired 1 ((NewAssembler 1000)\<lparr>asLimits := followLimits\<rparr>) = ((NewAssembler 1000)\<lparr>asLimits := followLimits\<rparr>, [])"
  by code_simp

lemma writtenLine: "Write e (NewWriterSink []) = (True, (NewWriterSink [])\<lparr>snWritten := [e]\<rparr>)"
  by (simp add: Write_def NewWriterSink_def nextCalls_def tryWrite_def reopenIfRotated_def encodeEvent_def appendEvent_def cleanCalls_def)

lemma lineSample: "processLine followServices 1 1 onlyLine followProcessor = (None, lineProcessor)"
proof -
  have "slText onlyLine = ''x''" "slOmittedBytes onlyLine = 0" "spValid (lineSource onlyLine)" "spBytes (lineSource onlyLine) = 2"
    by (simp_all add: onlyLine_def lineSource_def)
  then show ?thesis
    by (simp add: processLine_def addSourceLine_def Let_def andThen_def tally_def update_def parsed addMalformed_def
        emitExpired_def emit_def nothingExpired report_def emitCanonical_def writtenLine count_def logEntry_def
        newOperationalDiagnostics_def zeroCounters_def followProcessor_def lineProcessor_def lineProblem_def)
qed

lemma iterationFields [simp]:
  "ieNow (readIteration b) = 1" "ieLater (readIteration b) = 1" "iePersist (readIteration b) = goodPersist"
  "ieBeatDue (readIteration b) = 0"
  by (simp_all add: readIteration_def)

lemma stateFields [simp]:
  "fsFollower (stateAt n p) = followerAt n" "fsWriter (stateAt n p) = writerAt n" "fsProcessor (stateAt n p) = p"
  "rsCheckpoint (fsRecovery (stateAt n p)) = \<lparr>sdTarget = Bytes (itoa n), sdLeftover = False\<rparr>"
  "rfComplete (followerAt n) = positionAt n"
  by (simp_all add: stateAt_def followerAt_def)

lemma lineFields: "epSink lineProcessor = (NewWriterSink [])\<lparr>snWritten := [BuildParseFailureEvent ''x'' lineProblem ''h'']\<rparr>"
    "epAssembler lineProcessor = (NewAssembler 1000)\<lparr>asLimits := followLimits\<rparr>"
    "dgHeartbeatInterval (epDiagnostics lineProcessor) = 0"
  by (simp_all add: lineProcessor_def newOperationalDiagnostics_def)

lemma lineSaved:
  "lineIteration followServices (readIteration b) onlyLine ((stateAt 0 followProcessor)\<lparr>fsFollower := followerAt 2\<rparr>) =
     (None, stateAt 2 lineProcessor)"
proof -
  let ?s = "(stateAt 0 lineProcessor)\<lparr>fsFollower := followerAt 2\<rparr>"
  have run: "onState (processLine followServices 1 1 onlyLine) ((stateAt 0 followProcessor)\<lparr>fsFollower := followerAt 2\<rparr>) = (None, ?s)"
    by (simp add: onState_def onProcessor_def stateAt_def lineSample)
  have safe: "safePosition ?s = auditPosition (positionAt 2)"
    by (simp add: safePosition_def SafeSourcePosition_def lineFields NewAssembler_def considerPosition_def noPosition_def)
  have digits: "itoa 0 = ''0''" "itoa 2 = ''2''" by code_simp+
  have sink: "snCalls (epSink lineProcessor) = []" "\<not> snFailed (epSink lineProcessor)" "snFile (epSink lineProcessor) = None"
    by (simp_all add: lineFields NewWriterSink_def)
  have "persist Commit (\<lambda>c. itoa (cpOffset c)) goodPersist (auditPosition (positionAt 2)) False
      \<lparr>psWriter = writerAt 0, psSink = epSink lineProcessor, psDirectory = \<lparr>sdTarget = Bytes ''0'', sdLeftover = False\<rparr>\<rparr> =
    (None, \<lparr>psWriter = writerAt 2, psSink = epSink lineProcessor, psDirectory = \<lparr>sdTarget = Bytes ''2'', sdLeftover = False\<rparr>\<rparr>)"
    by (subst persistMoves [OF savedCheckpoint(2) sink])
       (simp_all add: writerAt_def checkpointBefore_def sameSourcePosition_def auditPosition_def positionAt_def)
  then have "saveProgress followServices (readIteration b) ?s = (None, stateAt 2 lineProcessor)"
    by (simp add: saveProgress_def safe persistFollow_def digits) (simp add: stateAt_def digits)
  moreover have "emitHeartbeat followServices (readIteration b) (stateAt 2 lineProcessor) = (None, stateAt 2 lineProcessor)"
    by (simp add: emitHeartbeat_def heartbeatDue_def lineFields)
  ultimately show ?thesis by (simp add: lineIteration_def andThen_def run)
qed

lemma stopsSaved:
  "shutdownIteration followServices (readIteration b) (stateAt 2 lineProcessor) = (None, stateAt 2 lineProcessor)"
proof -
  have "FlushAllWith CompletionShutdown (epAssembler lineProcessor) = (epAssembler lineProcessor, [])"
    unfolding lineFields by code_simp
  then have "onState (flushAll Write (\<lambda>s. s) (\<lambda>n. True) CompletionShutdown) (stateAt 2 lineProcessor) = (None, stateAt 2 lineProcessor)"
    by (simp add: onState_def onProcessor_def flushAll_def emit_def stateAt_def)
  moreover have "persistFollow followServices goodPersist True (auditPosition (positionAt 2)) (stateAt 2 lineProcessor) = (None, stateAt 2 lineProcessor)"
    by (simp add: persistFollow_def persist_def writerAt_def endOrder.before_irrefl sameSourcePosition_def)
  ultimately show ?thesis by (simp add: shutdownIteration_def andThen_def)
qed


section \<open>The run\<close>

abbreviation untilShutdown :: "iterationEnv list" where
  "untilShutdown \<equiv> [readIteration False, readIteration True]"

lemma iterations:
  "followIteration followServices followOptions ''/a'' (readIteration False) (stateAt 0 followProcessor) = (GoOn, stateAt 2 lineProcessor)"
  "followIteration followServices followOptions ''/a'' (readIteration True) (stateAt 2 lineProcessor) = (Stop None, stateAt 2 lineProcessor)"
proof -
  have same: "(stateAt n p)\<lparr>fsFollower := followerAt n\<rparr> = stateAt n p" for n and p :: "ndjsonSink eventProcessor"
    by (simp add: stateAt_def)
  show "followIteration followServices followOptions ''/a'' (readIteration False) (stateAt 0 followProcessor) = (GoOn, stateAt 2 lineProcessor)"
    by (simp add: followIteration_def polledLine lineSaved continuing_def)
  show "followIteration followServices followOptions ''/a'' (readIteration True) (stateAt 2 lineProcessor) = (Stop None, stateAt 2 lineProcessor)"
    by (simp add: followIteration_def polledStop stopsSaved stopping_def same)
qed

lemma stopped:
  "followLoop followServices followOptions ''/a'' untilShutdown (stateAt 0 followProcessor) = (Stop None, stateAt 2 lineProcessor)"
  "ftCurrent (loopTrace followServices followOptions ''/a'' untilShutdown (stateAt 0 followProcessor) emptyTrace) = [onlyLine]"
  by (simp_all add: iterations traceStep_def polledLine polledStop emptyTrace_def)

lemma fresh: "freshAssembler (epAssembler followProcessor)"
proof -
  have "NewBoundedAssembler 1000 followLimits = Some (epAssembler followProcessor)"
    by (simp add: NewBoundedAssembler_def followLimits_def)
  then show ?thesis by (auto simp: freshAssembler_def)
qed

lemma settled: "sinkSettled (epSink followProcessor)"
  by (simp add: followProcessor_def opened_settled)

section \<open>The properties at the run\<close>

theorem checkpoint_covers_lines_witness:
  "savedTarget (stateAt 2 lineProcessor) = Bytes ''2'' \<and>
     durableLine sinkDurable followServices lineProcessor onlyLine"
proof -
  have digits: "itoa 0 = ''0''" "itoa 2 = ''2''" by code_simp+
  have targets: "savedTarget (stateAt 0 followProcessor) = Bytes ''0''" "savedTarget (stateAt 2 lineProcessor) = Bytes ''2''"
    by (simp_all add: savedTarget_def digits)
  have "safePosition (stateAt 2 lineProcessor) = auditPosition (positionAt 2)"
    by (simp add: safePosition_def SafeSourcePosition_def lineFields NewAssembler_def considerPosition_def noPosition_def)
  moreover have "cwLast (writerAt 2) = auditPosition (positionAt 2)" by (simp add: writerAt_def)
  moreover have "checkpointBefore (lineSource onlyLine) (auditPosition (positionAt 2))" by code_simp
  ultimately show ?thesis
    using checkpoint_covers_lines [OF serviceFields(1,2) settled begins fresh stopped(1) refl] targets stopped(2)
    by (auto simp: covered_def)
qed

theorem checkpoint_never_regresses_witness:
  "fst (runFollower followServices followOptions followStart untilShutdown followProcessor emptyDirectory emptyDirectory) = Stop None \<and>
   fst (runFollower followServices followOptions followStart untilShutdown followProcessor emptyDirectory emptyDirectory) \<noteq> Stop (Some PositionRegressed)"
  using checkpoint_never_regresses [OF serviceFields(1,2) fresh] stopped(1) begins by (simp add: runFollower_def)

theorem shutdown_reports_every_line_witness:
  "durableLine sinkAccepted followServices lineProcessor onlyLine"
  using shutdown_reports_every_line [OF serviceFields(1,2) begins fresh stopped(1) refl] stopped(2) by simp

end
