(* ===== verification/OutputTheorems.thy ===== *)
theory OutputTheorems
  imports OutputEffects BatchAccounting FollowSamples
begin

text \<open>
  What the command writes: the processor refines an append-only log of specified events, batch mode
  hands it exactly the lines of the input and reports every one it has read, and nothing that was
  written is ever taken back.
\<close>

section \<open>The processor refines a log\<close>

text \<open>The specification: a line takes the assembler on and appends its outputs.\<close>

type_synonym timedLine = "gotime \<times> string \<times> sourcePosition"

fun logLines ::
  "(string \<Rightarrow> string) \<Rightarrow> (nat \<Rightarrow> bool) \<Rightarrow> string \<Rightarrow> bool \<Rightarrow> timedLine list \<Rightarrow> assembler \<times> canonicalEvent list
     \<Rightarrow> assembler \<times> canonicalEvent list" where
  "logLines lo pr host render [] st = st"
| "logLines lo pr host render ((now, line, source) # xs) (a, log) =
     (case lineOutputs lo pr host render now line source a of
        (a', outs) \<Rightarrow> logLines lo pr host render xs (a', log @ outs))"

text \<open>What the log makes of the processor.\<close>

definition logOf :: "ndjsonSink eventProcessor \<Rightarrow> assembler \<times> canonicalEvent list" where
  "logOf p = (epAssembler p, sinkAccepted (epSink p))"

definition addTimedLine ::
  "(string \<Rightarrow> string) \<Rightarrow> (nat \<Rightarrow> bool) \<Rightarrow> timedLine \<Rightarrow> ndjsonSink eventProcessor action" where
  "addTimedLine lo pr x = (case x of (now, line, source) \<Rightarrow> addSourceLine Write lo pr now line source)"

lemma logLines_grows: "prefix log (snd (logLines lo pr host render xs (a, log)))"
proof (induction xs arbitrary: a log)
  case Nil
  then show ?case by simp
next
  case (Cons x xs)
  obtain now line source where x: "x = (now, line, source)" by (cases x)
  obtain a' outs where l: "lineOutputs lo pr host render now line source a = (a', outs)"
    by (cases "lineOutputs lo pr host render now line source a")
  have "prefix log (log @ outs)" by simp
  also have "prefix \<dots> (snd (logLines lo pr host render xs (a', log @ outs)))" by (rule Cons.IH)
  finally show ?case by (simp add: x l)
qed

lemma addTimedLine_log:
  assumes "addTimedLine lo pr x p = (e, p')"
  shows "e = None \<Longrightarrow> logOf p' = logLines lo pr (epHost p) (epRenderMessage p) [x] (logOf p)"
    and "prefix (sinkAccepted (epSink p')) (snd (logLines lo pr (epHost p) (epRenderMessage p) [x] (logOf p)))"
    and "epHost p' = epHost p" and "epRenderMessage p' = epRenderMessage p"
proof -
  obtain now line source where x: "x = (now, line, source)" by (cases x)
  let ?out = "lineOutputs lo pr (epHost p) (epRenderMessage p) now line source (epAssembler p)"
  note w = ndjsonOut.addSourceLine_wrote [OF assms [unfolded addTimedLine_def x prod.case]]
  show "e = None \<Longrightarrow> logOf p' = logLines lo pr (epHost p) (epRenderMessage p) [x] (logOf p)"
    and "prefix (sinkAccepted (epSink p')) (snd (logLines lo pr (epHost p) (epRenderMessage p) [x] (logOf p)))"
    and "epHost p' = epHost p" and "epRenderMessage p' = epRenderMessage p"
    using w by (cases ?out; simp add: x logOf_def wrote_def delivered_def)+
qed

lemma logLines_Cons: "logLines lo pr host render (x # xs) st = logLines lo pr host render xs (logLines lo pr host render [x] st)"
  by (cases x; cases st) (auto split: prod.split)

lemma addTimedLines_log:
  assumes "forEach (addTimedLine lo pr) xs p = (e, p')"
  shows "(e = None \<longrightarrow> logOf p' = logLines lo pr (epHost p) (epRenderMessage p) xs (logOf p)) \<and>
     prefix (sinkAccepted (epSink p')) (snd (logLines lo pr (epHost p) (epRenderMessage p) xs (logOf p)))"
  using assms
proof (induction xs arbitrary: p)
  case Nil
  then show ?case by (simp add: logOf_def)
next
  case (Cons x xs)
  let ?log = "logLines lo pr (epHost p) (epRenderMessage p)"
  obtain f q where q: "addTimedLine lo pr x p = (f, q)" by (cases "addTimedLine lo pr x p")
  note step = addTimedLine_log [OF q]
  show ?case
  proof (cases f)
    case None
    with Cons.prems q have "forEach (addTimedLine lo pr) xs q = (e, p')" by (simp add: andThen_def)
    from Cons.IH [OF this] step None show ?thesis by (simp add: logLines_Cons [of _ _ _ _ x xs])
  next
    case (Some c)
    with Cons.prems q have "e = Some c" "p' = q" by (simp_all add: andThen_def)
    moreover have "prefix (snd (?log [x] (logOf p))) (snd (?log xs (?log [x] (logOf p))))"
      using logLines_grows by (metis prod.collapse)
    ultimately show ?thesis
      using step(2) by (auto simp: logLines_Cons [of _ _ _ _ x xs] elim: prefix_order.trans)
  qed
qed

section \<open>When nothing fails\<close>

text \<open>With no failing call left in the scripts an operation succeeds and leaves none.\<close>

definition faultless :: "ndjsonSink eventProcessor \<Rightarrow> bool" where
  "faultless p \<longleftrightarrow> \<not> snFailed (epSink p) \<and> snCalls (epSink p) = [] \<and> dgOutcomes (epDiagnostics p) = []"

definition succeeds :: "ndjsonSink eventProcessor action \<Rightarrow> bool" where
  "succeeds m \<longleftrightarrow> (\<forall>p. faultless p \<longrightarrow> fst (m p) = None \<and> faultless (snd (m p)))"

lemma Write_faultless:
  "\<not> snFailed s \<Longrightarrow> snCalls s = [] \<Longrightarrow> \<exists>s'. Write e s = (True, s') \<and> \<not> snFailed s' \<and> snCalls s' = []"
  by (auto simp: Write_def nextCalls_def tryWrite_def reopenIfRotated_def encodeEvent_def appendEvent_def syncCurrent_def cleanCalls_def
      split: option.splits)

lemma succeeds_andThen: "succeeds m \<Longrightarrow> succeeds k \<Longrightarrow> succeeds (andThen m k)"
  unfolding succeeds_def andThen_def by (auto split: prod.splits option.splits)

lemma succeeds_forEach: "(\<And>x. succeeds (f x)) \<Longrightarrow> succeeds (forEach f xs)"
proof (induction xs)
  case Nil
  then show ?case by (simp add: succeeds_def)
next
  case (Cons x xs)
  then have "succeeds (andThen (f x) (forEach f xs))" by (intro succeeds_andThen) auto
  then show ?case by (simp add: succeeds_def)
qed

lemma succeeds_tally: "succeeds (tally f)" and succeeds_report: "succeeds (report entry)"
  by (auto simp: succeeds_def faultless_def tally_def update_def count_def report_def logEntry_def)

lemma succeeds_emitCanonical: "succeeds (emitCanonical Write e)"
proof (unfold succeeds_def, intro allI impI)
  fix p :: "ndjsonSink eventProcessor" assume ok: "faultless p"
  then obtain s' where "Write e (epSink p) = (True, s')" "\<not> snFailed s'" "snCalls s' = []"
    using Write_faultless by (auto simp: faultless_def)
  with ok show "fst (emitCanonical Write e p) = None \<and> faultless (snd (emitCanonical Write e p))"
    by (simp add: faultless_def emitCanonical_def tally_def update_def count_def)
qed

lemmas succeeds_intros = succeeds_andThen succeeds_forEach succeeds_tally succeeds_report succeeds_emitCanonical

lemma succeeds_emit: "succeeds (emit Write lo pr es)"
proof -
  have "succeeds (emitEvent Write lo pr e)" for e
    using succeeds_forEach [of "\<lambda>r. emitCanonical Write (BuildAssemblyException r h)" for h] succeeds_emitCanonical
    by (auto simp: succeeds_def emitEvent_def Let_def)
  then show ?thesis unfolding emit_def by (rule succeeds_forEach)
qed

lemma faultless_assembler [simp]: "faultless (p\<lparr>epAssembler := a\<rparr>) = faultless p"
  by (simp add: faultless_def)

lemma succeeds_addSourceLine: "succeeds (addSourceLine Write lo pr now line source)"
proof -
  have expired: "succeeds (emitExpired Write lo pr now)"
    using succeeds_emit by (auto simp: succeeds_def emitExpired_def split: prod.split)
  have canonical: "succeeds (\<lambda>p. emitCanonical Write (ev p) p)" for ev
    using succeeds_emitCanonical by (auto simp: succeeds_def)
  have "succeeds (addMalformed Write lo pr now line err)" for err
    unfolding addMalformed_def
    by (intro succeeds_intros expired canonical)
  moreover have "succeeds (addRecord Write lo pr now source r)" for r
  proof (unfold succeeds_def, intro allI impI)
    fix p :: "ndjsonSink eventProcessor" assume ok: "faultless p"
    obtain a es limit where f: "AddRecovering r now (epAssembler p) = (a, es, limit)"
      by (cases "AddRecovering r now (epAssembler p)")
    have both: "succeeds (andThen (tally g) (andThen (report entry) (emit Write lo pr es)))" for g entry
      by (intro succeeds_intros succeeds_emit)
    show "fst (addRecord Write lo pr now source r p) = None \<and> faultless (snd (addRecord Write lo pr now source r p))"
      using ok succeeds_emit [of lo pr es] both by (cases limit) (auto simp: addRecord_def f succeeds_def)
  qed
  ultimately show ?thesis
    unfolding addSourceLine_def Let_def
    by (intro succeeds_andThen succeeds_tally) (cases "ParseRecord pr line"; simp)
qed

lemma succeeds_lines: "succeeds (forEach (addTimedLine lo pr) xs)"
  by (rule succeeds_forEach) (simp add: addTimedLine_def succeeds_addSourceLine split: prod.split)

lemma succeeds_rejectLine: "succeeds (rejectLine Write lo pr now later pre n source)"
proof -
  have expired: "succeeds (emitExpired Write lo pr now)" for now
    using succeeds_emit by (auto simp: succeeds_def emitExpired_def split: prod.split)
  have pending: "succeeds (rejectPending Write lo pr later pre source)"
    using succeeds_emit by (auto simp: succeeds_def rejectPending_def split: prod.split)
  have canonical: "succeeds (\<lambda>p. emitCanonical Write (ev p) p)" for ev
    using succeeds_emitCanonical by (auto simp: succeeds_def)
  show ?thesis
    unfolding rejectLine_def Let_def
    by (intro succeeds_intros expired pending canonical)
qed

lemma succeeds_rawLine: "svcPut svc = Write \<Longrightarrow> succeeds (rawLine svc limit env x)"
  using succeeds_rejectLine succeeds_addSourceLine
  by (auto simp: rawLine_def batchLine_def addLine_def succeeds_def update_def)

lemma succeeds_batchFlush: "svcPut svc = Write \<Longrightarrow> succeeds (batchFlush svc c)"
  using succeeds_emit by (auto simp: succeeds_def batchFlush_def flushAll_def split: prod.split)

section \<open>Batch mode line by line\<close>

text \<open>What batch mode needs of its environment: the input opens, and nothing interrupts the reading.\<close>

definition readable :: "commandOptions \<Rightarrow> batchEnv \<Rightarrow> bool" where
  "readable op env \<longleftrightarrow>
     (opInputPath op = [] \<or> beOpen env = Some True) \<and> bePollable env \<and> undisturbed env \<and>
     0 < opMaxLineBytes op \<and> int (length (beContent env)) \<le> maxInt"

lemma runBatch_lines:
  assumes "readable op env"
  shows "\<exists>ks. increasing 0 ks \<and> length ks = length (rawLines (beContent env)) \<and>
     (\<forall>p. runBatch svc op env p =
        andThen (forEach (rawLine svc (opMaxLineBytes op) env) (zip ks (rawLines (beContent env))))
          (batchFlush svc CompletionEOF) p)"
  using assms batchLoop_lines [of env "opMaxLineBytes op" "[]" "beContent env" 0 svc]
  by (auto simp: readable_def runBatch_def)

lemma rawLines_nonempty: "raw \<in> set (rawLines s) \<Longrightarrow> raw \<noteq> []"
proof (induction s rule: rawLines.induct)
  case (1 s)
  then show ?case by (cases "indexByte newline s") (auto simp: rawLines.simps [of s] indexByte_Some split: if_splits)
qed

lemma rawAccounted_mono:
  "set outs \<subseteq> set outs' \<Longrightarrow> rawAccounted lo pr limit host render outs raw \<Longrightarrow> rawAccounted lo pr limit host render outs' raw"
  by (auto simp: rawAccounted_def intro: reported_mono split: option.splits)

text \<open>
  The lines of the input that are reported: an initial part of them, all unless an iteration of the
  loop has seen a cancellation, and then those that the iterations before the first such one read.
\<close>

definition inputReported ::
  "'s services \<Rightarrow> int \<Rightarrow> string \<Rightarrow> bool \<Rightarrow> batchEnv \<Rightarrow> canonicalEvent list \<Rightarrow> bool" where
  "inputReported svc limit host render env outs \<longleftrightarrow>
     (\<exists>n. n \<le> length (rawLines (beContent env)) \<and>
        (\<forall>raw \<in> set (take n (rawLines (beContent env))).
           rawAccounted (svcLower svc) (svcPrint svc) limit host render outs raw) \<and>
        (n < length (rawLines (beContent env)) \<longrightarrow>
           (\<exists>m. stopsAt env m \<and> (\<forall>j < m. \<not> stopsAt env j) \<and> n = linesRead m (rawLines (beContent env)))))"

lemma inputReported_all:
  assumes "inputReported svc limit host render env outs" and "\<forall>i. \<not> stopsAt env i"
    and "raw \<in> set (rawLines (beContent env))"
  shows "rawAccounted (svcLower svc) (svcPrint svc) limit host render outs raw"
proof -
  obtain n where n: "n \<le> length (rawLines (beContent env))" "\<not> n < length (rawLines (beContent env))"
      "\<forall>raw \<in> set (take n (rawLines (beContent env))). rawAccounted (svcLower svc) (svcPrint svc) limit host render outs raw"
    using assms(1,2) unfolding inputReported_def by blast
  then have "take n (rawLines (beContent env)) = rawLines (beContent env)" by simp
  with n(3) assms(3) show ?thesis by simp
qed

lemma inputReported_mono:
  "set outs \<subseteq> set outs' \<Longrightarrow> inputReported svc limit host render env outs \<Longrightarrow> inputReported svc limit host render env outs'"
  unfolding inputReported_def by (blast intro: rawAccounted_mono)

lemma runBatch_accounts:
  assumes svc: "svcPut svc = Write" "svcCommit svc = Commit" and limit: "0 < opMaxLineBytes op"
    and fresh: "freshAssembler (epAssembler p)" and run: "runBatch svc op env p = (None, p')"
  shows "inputReported svc (opMaxLineBytes op) (epHost p) (epRenderMessage p) env (sinkAccepted (epSink p'))"
    and "asPending (epAssembler p') = []"
proof -
  let ?lines = "rawLines (beContent env)" and ?limit = "opMaxLineBytes op"
  let ?inv = "batchInv sinkAccepted svc ?limit (epHost p) (epRenderMessage p)"
  have "batchLoop svc ?limit env 0 (beContent env) [] 0 p = (None, p')"
    using run by (auto simp: runBatch_def split: if_splits)
  then have "processedLines svc ?limit env 0 0 ?lines p p'"
    using batchLoop_processed [OF limit, of "[]" 0 svc env 0 "beContent env" p p'] by simp
  then obtain ks n fin q where n: "length ks = n" "n \<le> length ?lines"
      and q: "forEach (rawLine svc ?limit env) (zip ks (take n ?lines)) p = (None, q)" and flush: "batchFlush svc fin q = (None, p')"
      and last: "n < length ?lines \<longrightarrow> (\<exists>m \<ge> 0. stopsAt env m \<and> (\<forall>j. 0 \<le> j \<and> j < m \<longrightarrow> \<not> stopsAt env j) \<and>
         n = linesRead (m - 0 + 0) ?lines)"
    unfolding processedLines_def by blast
  have stop: "n < length ?lines \<longrightarrow> (\<exists>m. stopsAt env m \<and> (\<forall>j < m. \<not> stopsAt env j) \<and> n = linesRead m ?lines)"
    using last by simp
  have nonempty: "\<forall>x \<in> set (zip ks (take n ?lines)). snd x \<noteq> []"
    using rawLines_nonempty by (auto dest!: set_zip_rightD in_set_takeD)
  have start: "?inv [] p" using freshAssembler_inv [OF fresh] by (simp add: batchInv_def)
  note same = ndjsonSvc [OF svc]
  from ndjsonServices.rawLines_inv [of svc, unfolded same, OF start q nonempty limit]
  have "?inv (rev (take n ?lines)) q" using n by simp
  from ndjsonServices.batchFlush_inv [of svc, unfolded same, OF this flush]
  have settled: "?inv (rev (take n ?lines)) p'" "asPending (epAssembler p') = []" by simp_all
  then have "\<forall>raw \<in> set (take n ?lines).
      rawAccounted (svcLower svc) (svcPrint svc) ?limit (epHost p) (epRenderMessage p) (sinkAccepted (epSink p')) raw"
    by (auto simp: batchInv_def rawKept_empty)
  with n(2) stop show "inputReported svc ?limit (epHost p) (epRenderMessage p) env (sinkAccepted (epSink p'))"
    unfolding inputReported_def by blast
  show "asPending (epAssembler p') = []" by (rule settled(2))
qed

lemma runBatch_succeeds:
  assumes "svcPut svc = Write" and "readable op env"
  shows "succeeds (runBatch svc op env)"
proof -
  obtain ks where "runBatch svc op env = andThen (forEach (rawLine svc (opMaxLineBytes op) env) (zip ks (rawLines (beContent env))))
          (batchFlush svc CompletionEOF)"
    using runBatch_lines [OF assms(2), of svc] by blast
  moreover have "succeeds (andThen (forEach (rawLine svc (opMaxLineBytes op) env) (zip ks (rawLines (beContent env))))
          (batchFlush svc CompletionEOF))"
    by (intro succeeds_intros succeeds_rawLine succeeds_batchFlush assms(1))
  ultimately show ?thesis by simp
qed

section \<open>The properties\<close>

text \<open>
  C3: the processor refines an append-only log: after any sequence of lines that succeeds, its
  assembler and the events the sink has accepted are those of the specification; in every case what
  was accepted is an initial part of the specified log; and with no failing call left it succeeds.
\<close>

theorem processor_refines_log:
  assumes "forEach (addTimedLine lo pr) xs p = (e, p')"
  shows "(e = None \<longrightarrow> logOf p' = logLines lo pr (epHost p) (epRenderMessage p) xs (logOf p)) \<and>
     prefix (sinkAccepted (epSink p')) (snd (logLines lo pr (epHost p) (epRenderMessage p) xs (logOf p))) \<and>
     (faultless p \<longrightarrow> e = None \<and> faultless p')"
  using addTimedLines_log [OF assms] succeeds_lines [of lo pr xs] assms by (auto simp: succeeds_def)

text \<open>
  C37: whatever the mode and the environment, a run only appends: what the sink had accepted, what
  was durable and the output files it is done with are initial parts of those at the end. A finished
  output file always ends with a whole line, and the current one does unless a write has failed.
\<close>

theorem output_append_only:
  assumes "svcPut svc = Write" and "svcCommit svc = Commit" and "runMode svc env op p = (res, p')"
  shows "prefix (sinkAccepted (epSink p)) (sinkAccepted (epSink p')) \<and>
     prefix (sinkDurable (epSink p)) (sinkDurable (epSink p')) \<and>
     prefix (snRotated (epSink p)) (snRotated (epSink p')) \<and>
     (wholeOutput (epSink p) \<longrightarrow> wholeOutput (epSink p'))"
proof -
  note svc = ndjsonSvc [OF assms(1,2)]
  note grows = growing.runFollower_step [where svc = svc, unfolded svc] growing.runBatch_step [where svc = svc, unfolded svc]
  note wholes = whole.runFollower_step [where svc = svc, unfolded svc] whole.runBatch_step [where svc = svc, unfolded svc]
  have "outputGrows (epSink p) (epSink p')"
    using assms(3) grows(1) [of p op "ceStart env" "ceIterations env" "ceCheckpoints env" "ceLedgers env"]
      grows(2) [of p op "ceBatch env"]
    by (auto simp: runMode_def sinkStep_def split: if_splits prod.splits followResult.splits)
  moreover have "wholeOutput (epSink p) \<longrightarrow> wholeOutput (epSink p')"
    using assms(3) wholes(1) [of p op "ceStart env" "ceIterations env" "ceCheckpoints env" "ceLedgers env"]
      wholes(2) [of p op "ceBatch env"]
    by (auto simp: runMode_def sinkStep_def split: if_splits prod.splits followResult.splits)
  ultimately show ?thesis by (simp add: outputGrows_def)
qed

text \<open>
  C35: batch mode is the processing of the physical lines of its input, one after the other and each
  in its own iteration, followed by a flush; the size of the buffer, the fragments it cuts the input
  into and the retention of at most the limit's bytes of a line do not show.
\<close>

theorem batch_processes_each_line:
  assumes "readable op env"
  shows "\<exists>ks. increasing 0 ks \<and> length ks = length (rawLines (beContent env)) \<and>
     concat (rawLines (beContent env)) = beContent env \<and>
     runBatch svc op env p =
       andThen (forEach (rawLine svc (opMaxLineBytes op) env) (zip ks (rawLines (beContent env))))
         (batchFlush svc CompletionEOF) p"
  using runBatch_lines [OF assms, of svc] rawLines_concat by metis

text \<open>
  C8: when batch mode ends without an error, an initial part of the physical lines of the input is
  reported, a line over the limit or one that does not parse by its own event, a record by the event
  it was assembled into, and nothing is left pending. The part is the whole input unless a check of
  the context has seen a cancellation; then it is every line that the iterations before the first
  such check have read to its end.
\<close>

theorem batch_reports_every_line:
  assumes "svcPut svc = Write" and "svcCommit svc = Commit" and "0 < opMaxLineBytes op"
    and "freshAssembler (epAssembler p)" and "runBatch svc op env p = (None, p')"
  shows "inputReported svc (opMaxLineBytes op) (epHost p) (epRenderMessage p) env (sinkAccepted (epSink p')) \<and>
     asPending (epAssembler p') = []"
  using runBatch_accounts [OF assms] by blast

text \<open>
  C36: batch mode reads its input to the end and succeeds, whatever the input holds, when no call
  fails and nothing interrupts it.
\<close>

theorem batch_succeeds:
  assumes "svcPut svc = Write" and "readable op env" and "faultless p"
  shows "fst (runBatch svc op env p) = None \<and> faultless (snd (runBatch svc op env p))"
  using runBatch_succeeds [OF assms(1,2)] assms(3) by (simp add: succeeds_def)

section \<open>The properties at a concrete run\<close>

definition batchSample :: batchEnv where
  "batchSample = \<lparr>beOpen = Some True, bePollable = True, beContent = followContent, beFault = False,
     beStopped = (\<lambda>i. False), beStoppedLater = (\<lambda>i. False), beNow = (\<lambda>i. 1), beLater = (\<lambda>i. 1)\<rparr>"

lemma readableSample: "readable followOptions batchSample"
  by (simp add: readable_def batchSample_def undisturbed_def followOptions_def followContent_def maxInt_def)

lemma sampleLines: "rawLines (beContent batchSample) = [''x'' @ [newline]]"
  by (simp add: batchSample_def followContent_def rawLines.simps newline_def)

lemma faultlessSample: "faultless followProcessor"
  by (simp add: faultless_def NewWriterSink_def newOperationalDiagnostics_def)

theorem processor_refines_log_witness:
  "fst (forEach (addTimedLine (\<lambda>s. s) (\<lambda>n. True)) [(1, ''x'', noPosition)] followProcessor) = None \<and>
   sinkAccepted (epSink (snd (forEach (addTimedLine (\<lambda>s. s) (\<lambda>n. True)) [(1, ''x'', noPosition)] followProcessor))) =
     [BuildParseFailureEvent ''x'' lineProblem ''h'']"
proof -
  obtain e p' where run: "forEach (addTimedLine (\<lambda>s. s) (\<lambda>n. True)) [(1, ''x'', noPosition)] followProcessor = (e, p')"
    by (cases "forEach (addTimedLine (\<lambda>s. s) (\<lambda>n. True)) [(1, ''x'', noPosition)] followProcessor")
  have "sinkAccepted (NewWriterSink []) = []" by (simp add: sinkAccepted_def NewWriterSink_def)
  then show ?thesis
    using processor_refines_log [OF run] faultlessSample run
    by (simp add: logOf_def lineOutputs_def parsed nothingExpired eventsOutputs_def lineProblem_def followProcessor_def)
qed

definition optionSample :: optionEnv where
  "optionSample = \<lparr>oeParseInt = (\<lambda>s. None), oeParseDuration = (\<lambda>s. None), oeDecode = (\<lambda>s. None),
     oeRead = (\<lambda>s. None), oeStat = (\<lambda>s. None), oeCwd = None\<rparr>"

definition commandSample :: commandEnv where
  "commandSample = \<lparr>ceCancelled = False, ceOptions = optionSample, ceStarted = 0, ceLog = [], ceDefaultLock = (\<lambda>s. s),
     ceUnlock = True, ceSink = cleanOpen, ceSinkCalls = [], ceStart = followStart, ceIterations = untilShutdown,
     ceBatch = batchSample, ceCheckpoints = emptyDirectory, ceLedgers = emptyDirectory\<rparr>"

theorem output_append_only_witness:
  "emptyEvent \<in> set (sinkAccepted (epSink (snd (runMode followServices commandSample followOptions
     (followProcessor\<lparr>epSink := (NewWriterSink [])\<lparr>snWritten := [emptyEvent]\<rparr>\<rparr>)))))"
proof -
  let ?p = "followProcessor\<lparr>epSink := (NewWriterSink [])\<lparr>snWritten := [emptyEvent]\<rparr>\<rparr>"
  have "sinkAccepted (epSink ?p) = [emptyEvent]" by (simp add: sinkAccepted_def NewWriterSink_def)
  with output_append_only [OF serviceFields(1,2), of commandSample followOptions ?p "fst (runMode followServices commandSample followOptions ?p)"
      "snd (runMode followServices commandSample followOptions ?p)"]
  show ?thesis by (auto dest: set_mono_prefix)
qed

theorem batch_processes_each_line_witness:
  "\<exists>k. runBatch followServices followOptions batchSample followProcessor =
     andThen (rawLine followServices 80 batchSample (k, ''x'' @ [newline])) (batchFlush followServices CompletionEOF) followProcessor"
proof -
  from batch_processes_each_line [OF readableSample] obtain ks where "length ks = 1" and
    lines: "runBatch followServices followOptions batchSample followProcessor =
       andThen (forEach (rawLine followServices (opMaxLineBytes followOptions) batchSample) (zip ks [''x'' @ [newline]]))
         (batchFlush followServices CompletionEOF) followProcessor"
    unfolding sampleLines by auto
  then obtain k where "ks = [k]" by (auto simp: length_Suc_conv)
  moreover have "opMaxLineBytes followOptions = 80" by (simp add: followOptions_def)
  ultimately have "runBatch followServices followOptions batchSample followProcessor =
     andThen (rawLine followServices 80 batchSample (k, ''x'' @ [newline])) (batchFlush followServices CompletionEOF) followProcessor"
    using lines by (simp add: andThen_def split: prod.split option.split)
  then show ?thesis by blast
qed

theorem batch_succeeds_witness:
  "fst (runBatch followServices followOptions batchSample followProcessor) = None"
  using batch_succeeds [OF serviceFields(1) readableSample faultlessSample] by simp

text \<open>A cancelled run of two lines: the first iteration reads one, the second sees the cancellation.\<close>

definition cancelledSample :: batchEnv where
  "cancelledSample = batchSample\<lparr>beContent := followContent @ followContent, beStopped := (\<lambda>i. 1 \<le> i)\<rparr>"

lemma cancelledLines: "rawLines (beContent cancelledSample) = [''x'' @ [newline], ''x'' @ [newline]]"
  by (simp add: cancelledSample_def followContent_def rawLines.simps newline_def)

lemma cancelledReads: "linesRead 1 (rawLines (beContent cancelledSample)) = 1"
  by (simp add: cancelledLines fragmentsOf_def defaultReadBufferBytes_def newline_def)

lemma cancelledRun: "fst (runBatch followServices followOptions cancelledSample followProcessor) = None"
proof -
  have first: "succeeds (batchLine followServices 80 1 1 (''x'' @ [newline]) 2)"
    using succeeds_rawLine [OF serviceFields(1), of 80 cancelledSample "(0, ''x'' @ [newline])"]
    by (simp add: rawLine_def cancelledSample_def batchSample_def numeral_2_eq_2)
  have slice: "readSlice False (followContent @ followContent) = (''x'' @ [newline], ReadLine)"
    "drop (length (''x'' @ [newline])) (followContent @ followContent) = followContent"
    "retainFragment 80 (''x'' @ [newline]) [] = ''x'' @ [newline]" "maxInt - int 0 < int (length (''x'' @ [newline])) \<longleftrightarrow> False"
    by code_simp+
  have fields: "beFault cancelledSample = False" "beStopped cancelledSample 0 = False" "beStopped cancelledSample 1"
    "beStoppedLater cancelledSample 0 = False" "beNow cancelledSample 0 = 1" "beLater cancelledSample 0 = 1"
    "opMaxLineBytes followOptions = 80" "beContent cancelledSample = followContent @ followContent"
    by (simp_all add: cancelledSample_def batchSample_def followOptions_def)
  have stop: "batchLoop followServices 80 cancelledSample (Suc 0) followContent [] 0 u = batchFlush followServices CompletionShutdown u" for u
    using fields(3) by (subst batchLoop.simps) simp
  have len: "0 + length (''x'' @ [newline]) = 2" "(0::nat) + 1 = Suc 0" by simp_all
  have "batchLoop followServices 80 cancelledSample 0 (followContent @ followContent) [] 0 p =
      andThen (batchLine followServices 80 1 1 (''x'' @ [newline]) 2) (batchFlush followServices CompletionShutdown) p" for p
    unfolding batchLoop.simps [of followServices 80 cancelledSample 0 "followContent @ followContent" "[]" 0 p]
      fields slice if_False prod.case Let_def len readStatus.case stop andThen_def
    by (cases "batchLine followServices 80 1 1 (''x'' @ [newline]) 2 p", rename_tac e u, case_tac e) simp_all
  then have "batchLoop followServices 80 cancelledSample 0 (followContent @ followContent) [] 0 =
      andThen (batchLine followServices 80 1 1 (''x'' @ [newline]) 2) (batchFlush followServices CompletionShutdown)" ..
  moreover have "succeeds (andThen (batchLine followServices 80 1 1 (''x'' @ [newline]) 2) (batchFlush followServices CompletionShutdown))"
    by (intro succeeds_andThen first succeeds_batchFlush serviceFields(1))
  moreover have "opInputPath followOptions = [] \<or> beOpen cancelledSample = Some True" "bePollable cancelledSample"
    by (simp_all add: cancelledSample_def batchSample_def)
  ultimately show ?thesis
    using faultlessSample by (auto simp: runBatch_def fields succeeds_def)
qed

theorem batch_reports_every_line_witness:
  "BuildParseFailureEvent ''x'' lineProblem ''h'' \<in>
     set (sinkAccepted (epSink (snd (runBatch followServices followOptions cancelledSample followProcessor))))"
proof -
  have limit: "opMaxLineBytes followOptions = 80" by (simp add: followOptions_def)
  have line: "trimLine (''x'' @ [newline]) = ''x''" by code_simp
  have run: "runBatch followServices followOptions cancelledSample followProcessor =
      (None, snd (runBatch followServices followOptions cancelledSample followProcessor))"
    using cancelledRun by (metis prod.collapse)
  have "0 < opMaxLineBytes followOptions" by (simp add: limit)
  note both = batch_reports_every_line [OF serviceFields(1,2) this fresh run]
  have "epHost followProcessor = ''h''" "epRenderMessage followProcessor = False" "svcLower followServices = (\<lambda>s. s)"
    "svcPrint followServices = (\<lambda>n. True)" "length (rawLines (beContent cancelledSample)) = 2"
    by (simp_all add: followProcessor_def followServices_def cancelledLines)
  note fields = this
  obtain n where n: "\<forall>raw \<in> set (take n (rawLines (beContent cancelledSample))).
        rawAccounted (\<lambda>s. s) (\<lambda>n. True) 80 ''h'' False
          (sinkAccepted (epSink (snd (runBatch followServices followOptions cancelledSample followProcessor)))) raw"
      "n < 2 \<longrightarrow> (\<exists>m. stopsAt cancelledSample m \<and> (\<forall>j < m. \<not> stopsAt cancelledSample j) \<and>
         n = linesRead m (rawLines (beContent cancelledSample)))"
    using both [THEN conjunct1] unfolding inputReported_def limit fields by blast
  have first: "m = 1" if "stopsAt cancelledSample m" "\<forall>j < m. \<not> stopsAt cancelledSample j" for m
  proof -
    have stops: "stopsAt cancelledSample k \<longleftrightarrow> 1 \<le> k" for k
      by (simp add: stopsAt_def cancelledSample_def batchSample_def)
    with that show ?thesis by (metis le_antisym linorder_not_le order_refl)
  qed
  have "0 < n"
  proof (cases "n < 2")
    case True
    then obtain m where "stopsAt cancelledSample m" "\<forall>j < m. \<not> stopsAt cancelledSample j"
        "n = linesRead m (rawLines (beContent cancelledSample))"
      using n(2) by blast
    moreover from this first have "m = 1" by blast
    ultimately have "n = 1" using cancelledReads by metis
    then show ?thesis by simp
  qed simp
  then have "''x'' @ [newline] \<in> set (take n (rawLines (beContent cancelledSample)))"
    by (cases n) (simp_all add: cancelledLines)
  with n(1) have "rawAccounted (\<lambda>s. s) (\<lambda>n. True) 80 ''h'' False
      (sinkAccepted (epSink (snd (runBatch followServices followOptions cancelledSample followProcessor)))) (''x'' @ [newline])"
    by blast
  then show ?thesis
    using line by (simp add: rawAccounted_def rawRecord_def rawEvent_def parsed lineProblem_def)
qed

end
