(* ===== verification/RecoveryTheorems.thy ===== *)
theory RecoveryTheorems
  imports OutputTheorems
begin

text \<open>
  A recovery over a gap can be interrupted anywhere: whatever call fails, and so wherever the
  process dies between two of them, the two state files are such that the next start finds
  either nothing changed, the recorded decision to resume from, or the completed recovery.
\<close>

section \<open>What a start finds in the state files\<close>

definition loadedCheckpoint :: "'s services \<Rightarrow> string \<Rightarrow> string \<Rightarrow> 's recoveryState \<Rightarrow> commandError + checkpoint option" where
  "loadedCheckpoint svc path input s =
     loadConfiguredCheckpoint (svcDecodeCheckpoint svc) path input (sdTarget (rsCheckpoint s))"

definition loadedLedger :: "'s services \<Rightarrow> 's recoveryState \<Rightarrow> ledgerLoadError + gapLedger option" where
  "loadedLedger svc s = LoadGapLedger (svcDecodeLedger svc) (sdTarget (rsLedger s))"

definition finds ::
  "'s services \<Rightarrow> string \<Rightarrow> string \<Rightarrow> checkpoint option \<Rightarrow> gapLedger \<Rightarrow> 's recoveryState \<Rightarrow> bool" where
  "finds svc path input c l s \<longleftrightarrow> loadedCheckpoint svc path input s = Inr c \<and> loadedLedger svc s = Inr (Some l)"

text \<open>The codec's part: a document is read back as it was written.\<close>

definition ledgerReadsBack :: "'s services \<Rightarrow> gapLedger \<Rightarrow> bool" where
  "ledgerReadsBack svc l \<longleftrightarrow>
     svcDecodeLedger svc (svcEncodeLedger svc l) = Some l \<and>
     length (svcEncodeLedger svc l) = length (svcMarshalLedger svc l) + 1"

definition checkpointReadsBack :: "'s services \<Rightarrow> checkpoint \<Rightarrow> bool" where
  "checkpointReadsBack svc c \<longleftrightarrow>
     svcDecodeCheckpoint svc (svcEncodeCheckpoint svc c) = Some c \<and>
     int (length (svcEncodeCheckpoint svc c)) \<le> maxCheckpointBytes"

text \<open>The ledger that \<open>prepare\<close> writes, and the checkpoint that \<open>commit\<close> writes.\<close>

definition preparedLedger ::
  "prepareEnv \<Rightarrow> gapRecovery \<Rightarrow> checkpoint option \<Rightarrow> generationPosition \<Rightarrow> rotationError \<Rightarrow> gapLedger" where
  "preparedLedger env m previous position cause =
     (let l = (case grLedger m of
                 Some l \<Rightarrow> l
               | None \<Rightarrow> \<lparr>glVersion = 1, glInputPath = grInput m, glTotal = 0, glIncidents = []\<rparr>)
      in appendIncident (newIncident env (grInput m) (glTotal l + 1) previous position cause) l)"

definition resumeOf :: "gapLedger \<Rightarrow> checkpoint" where
  "resumeOf l = giResume (last (glIncidents l))"

definition savedResume :: "string \<Rightarrow> gotime \<Rightarrow> gapLedger \<Rightarrow> checkpoint option" where
  "savedResume path stamp l = (if path = [] then None else Some (stampedCheckpoint stamp (resumeOf l)))"

section \<open>The steps\<close>

lemma SaveGapLedger_loaded:
  assumes "SaveGapLedger (svcMarshalLedger svc) (svcEncodeLedger svc) calls l d = (ok, d')" and "ledgerReadsBack svc l"
  shows "sdTarget d' = sdTarget d \<and> \<not> ok \<or> LoadGapLedger (svcDecodeLedger svc) (sdTarget d') = Inr (Some l)"
  using assms saveState_target(1) [of "svcEncodeLedger svc" calls l d ok d']
  by (auto simp: SaveGapLedger_def LoadGapLedger_def ledgerReadsBack_def split: if_splits)

lemma finds_processor: "finds svc path input c l (s\<lparr>rsProcessor := p\<rparr>) = finds svc path input c l s"
  by (simp add: finds_def loadedCheckpoint_def loadedLedger_def)

lemma finds_onProcessor:
  assumes "\<And>s. P s \<Longrightarrow> Q s" and "\<And>s p. P (s\<lparr>rsProcessor := p\<rparr>) = P s"
  shows "triple P (onProcessor m) P (\<lambda>c. Q)"
  using assms by (auto simp: triple_def onProcessor_def split: prod.split option.split)

lemma saveResume_finds:
  assumes "checkpointReadsBack svc (stampedCheckpoint (reStamp env) resume)" and "cpInputPath resume = input"
    and "path \<noteq> [] \<or> c = None"
  shows "triple (\<lambda>s. finds svc path input c l s \<and> grCheckpointPath (rsRecovery s) = path) (saveResume svc env resume)
     (finds svc path input (if path = [] then None else Some (stampedCheckpoint (reStamp env) resume)) l)
     (\<lambda>e s. finds svc path input c l s \<or>
        finds svc path input (if path = [] then None else Some (stampedCheckpoint (reStamp env) resume)) l s)"
proof -
  let ?saved = "stampedCheckpoint (reStamp env) resume"
  have load: "loadConfiguredCheckpoint (svcDecodeCheckpoint svc) path input (Bytes (svcEncodeCheckpoint svc ?saved)) = Inr (Some ?saved)"
    if "checkpointValidate ?saved = None" "path \<noteq> []"
    using that assms(1,2)
    by (simp add: loadConfiguredCheckpoint_def LoadCheckpoint_def checkpointReadsBack_def stampedCheckpoint_def)
  show ?thesis
  proof (unfold triple_def, intro allI impI)
    fix s assume pre: "finds svc path input c l s \<and> grCheckpointPath (rsRecovery s) = path"
    obtain ok d where save: "SaveCheckpoint (svcEncodeCheckpoint svc) (reCheckpointCalls env) (reStamp env) resume (rsCheckpoint s) = (ok, d)"
      by fastforce
    from SaveCheckpoint_target(1) [OF this] load pre save assms(3)
    show "case saveResume svc env resume s of
        (None, s') \<Rightarrow> finds svc path input (if path = [] then None else Some ?saved) l s'
      | (Some e, s') \<Rightarrow> finds svc path input c l s' \<or> finds svc path input (if path = [] then None else Some ?saved) l s'"
      by (cases "path = []") (auto simp: saveResume_def finds_def loadedCheckpoint_def loadedLedger_def split: prod.split)
  qed
qed

lemma completeLedger_finds:
  assumes "ledgerReadsBack svc (completeIncident l)"
  shows "triple (finds svc path input c l) (completeLedger svc env l) (finds svc path input c (completeIncident l))
     (\<lambda>e s. finds svc path input c l s \<or> finds svc path input c (completeIncident l) s)"
proof (unfold triple_def, intro allI impI)
  fix s assume pre: "finds svc path input c l s"
  obtain ok d where save: "SaveGapLedger (svcMarshalLedger svc) (svcEncodeLedger svc) (reLedgerCalls env) (completeIncident l) (rsLedger s) = (ok, d)"
    by fastforce
  from SaveGapLedger_loaded [OF this assms] pre save
  show "case completeLedger svc env l s of (None, s') \<Rightarrow> finds svc path input c (completeIncident l) s'
    | (Some e, s') \<Rightarrow> finds svc path input c l s' \<or> finds svc path input c (completeIncident l) s'"
    by (auto simp: completeLedger_def Let_def finds_def loadedCheckpoint_def loadedLedger_def split: prod.split)
qed

text \<open>Committing, step by step: the decision, the new checkpoint beside it, the completed incident.\<close>

lemma commitRecovery_finds:
  assumes "finds svc path input c l s" and "grLedger (rsRecovery s) = Some l" and "glIncidents l \<noteq> []"
    and "grCheckpointPath (rsRecovery s) = path" and "cpInputPath (resumeOf l) = input" and "path \<noteq> [] \<or> c = None"
    and "checkpointReadsBack svc (stampedCheckpoint (reStamp env) (resumeOf l))"
    and "ledgerReadsBack svc (completeIncident l)"
    and run: "commitRecovery svc env s = (e, s')"
  shows "finds svc path input (savedResume path (reStamp env) l) (completeIncident l) s' \<or>
     e \<noteq> None \<and> (finds svc path input c l s' \<or> finds svc path input (savedResume path (reStamp env) l) l s')"
proof -
  let ?new = "savedResume path (reStamp env) l" and ?g = "last (glIncidents l)" and ?total = "word_of_nat (glTotal l) :: uint64"
  let ?before = "\<lambda>s. finds svc path input c l s \<and> grCheckpointPath (rsRecovery s) = path"
  let ?fail = "\<lambda>e s. finds svc path input c l s \<or> finds svc path input ?new l s \<or> finds svc path input ?new (completeIncident l) s"
  let ?count = "update (\<lambda>p. p\<lparr>epDiagnostics :=
      (count (\<lambda>c. c\<lparr>ocGaps := ocGaps c + 1\<rparr>) (epDiagnostics p))\<lparr>dgPersistentGaps := ?total\<rparr>\<rparr>)"
  have quiet: "triple ?before (onProcessor m) ?before ?fail" for m
    by (rule finds_onProcessor) (simp_all add: finds_processor)
  have save: "triple ?before (saveResume svc env (giResume ?g)) (finds svc path input ?new l) ?fail"
    unfolding resumeOf_def [symmetric] using saveResume_finds [OF assms(7,5,6), of l]
    by (rule triple_conseq) (auto simp: savedResume_def resumeOf_def split: if_splits)
  have complete: "triple (finds svc path input ?new l) (completeLedger svc env l) (finds svc path input ?new (completeIncident l)) ?fail"
    using completeLedger_finds [OF assms(8)] by (rule triple_conseq) auto
  have told: "triple (finds svc path input ?new (completeIncident l)) (onProcessor m) (finds svc path input ?new (completeIncident l)) ?fail" for m
    by (rule finds_onProcessor) (simp_all add: finds_processor)
  have chain: "triple ?before
     (andThen (onProcessor ?count) (andThen (onProcessor (report (GapIncident ?g)))
        (andThen (onProcessor (flushAll (svcPut svc) (svcLower svc) (svcPrint svc) CompletionSourceGap))
           (andThen (onProcessor (commitSink (svcCommit svc)))
              (andThen (saveResume svc env (giResume ?g))
                 (andThen (completeLedger svc env l)
                    (onProcessor (report (ResumedWithGap (giNumber ?g) (giResume ?g) ?total)))))))))
     (finds svc path input ?new (completeIncident l)) ?fail"
    by (intro triple_andThen [OF quiet] triple_andThen [OF save] triple_andThen [OF complete] told)
  have "commitRecovery svc env s = andThen (onProcessor ?count) (andThen (onProcessor (report (GapIncident ?g)))
        (andThen (onProcessor (flushAll (svcPut svc) (svcLower svc) (svcPrint svc) CompletionSourceGap))
           (andThen (onProcessor (commitSink (svcCommit svc)))
              (andThen (saveResume svc env (giResume ?g))
                 (andThen (completeLedger svc env l)
                    (onProcessor (report (ResumedWithGap (giNumber ?g) (giResume ?g) ?total)))))))) s"
    using assms(2,3) by (simp add: commitRecovery_def Let_def)
  with run tripleD [OF chain, of s] assms(1,4) show ?thesis by (cases e) auto
qed

text \<open>Preparing writes the ledger or leaves it as it is, and never touches the checkpoint.\<close>

lemma prepareFollow_result:
  assumes run: "prepareFollow svc env previous pos cause r = (e, r')"
    and reads: "ledgerReadsBack svc (preparedLedger env (rsRecovery r) previous pos cause)"
  shows "rsCheckpoint r' = rsCheckpoint r"
    and "sdTarget (rsLedger r') = sdTarget (rsLedger r) \<and> e \<noteq> None \<or>
      loadedLedger svc r' = Inr (Some (preparedLedger env (rsRecovery r) previous pos cause))"
    and "e = None \<Longrightarrow> rsRecovery r' = (rsRecovery r)\<lparr>grLedger := Some (preparedLedger env (rsRecovery r) previous pos cause)\<rparr>"
proof -
  let ?l = "preparedLedger env (rsRecovery r) previous pos cause"
  obtain ok d where save: "SaveGapLedger (svcMarshalLedger svc) (svcEncodeLedger svc) (prCalls env) ?l (rsLedger r) = (ok, d)"
    by fastforce
  note loaded = SaveGapLedger_loaded [OF save reads]
  show "rsCheckpoint r' = rsCheckpoint r"
    using run by (auto simp: prepareFollow_def split: prod.splits)
  show "sdTarget (rsLedger r') = sdTarget (rsLedger r) \<and> e \<noteq> None \<or> loadedLedger svc r' = Inr (Some ?l)"
    using run save loaded
    by (auto simp: prepareFollow_def prepareRecovery_def preparedLedger_def Let_def loadedLedger_def split: prod.splits if_splits)
  show "e = None \<Longrightarrow> rsRecovery r' = (rsRecovery r)\<lparr>grLedger := Some ?l\<rparr>"
    using run save
    by (auto simp: prepareFollow_def prepareRecovery_def preparedLedger_def Let_def split: prod.splits if_splits)
qed

lemma preparedLedger_last:
  "glIncidents (preparedLedger env m previous pos cause) \<noteq> []"
  "giPrepared (last (glIncidents (preparedLedger env m previous pos cause)))"
  "giPrevious (last (glIncidents (preparedLedger env m previous pos cause))) = previous"
  "cpInputPath (resumeOf (preparedLedger env m previous pos cause)) = grInput m"
  by (simp_all add: preparedLedger_def Let_def newIncident_def resumeOf_def split: prod.split)

lemma sameCheckpoint_refl [simp]: "sameCheckpoint c c"
  by (cases c) (simp_all add: sameCheckpoint_def)

lemma sameCheckpoint_saved: "path \<noteq> [] \<Longrightarrow> sameCheckpoint (savedResume path stamp l) (Some (resumeOf l))"
  by (simp add: savedResume_def sameCheckpoint_def stampedCheckpoint_def)

section \<open>The property\<close>

text \<open>The three outcomes for the next start.\<close>

definition resumesAt :: "'s services \<Rightarrow> string \<Rightarrow> string \<Rightarrow> checkpoint \<Rightarrow> 's recoveryState \<Rightarrow> bool" where
  "resumesAt svc path input resume s \<longleftrightarrow>
     (\<exists>c l. finds svc path input c l s \<and>
        pendingRecovery ((rsRecovery s)\<lparr>grLedger := Some l\<rparr>) c = Inr (Some resume))"

definition recovered :: "'s services \<Rightarrow> string \<Rightarrow> string \<Rightarrow> checkpoint \<Rightarrow> 's recoveryState \<Rightarrow> bool" where
  "recovered svc path input resume s \<longleftrightarrow>
     (\<exists>c l. finds svc path input c l s \<and> pendingRecovery ((rsRecovery s)\<lparr>grLedger := Some l\<rparr>) c = Inr None \<and>
        (path = [] \<or> sameCheckpoint c (Some resume)) \<and> resumeOf l = resume)"

lemma finds_prepared:
  assumes "finds svc path input c l s" and "giPrepared (last (glIncidents l))" and "glIncidents l \<noteq> []"
    and "sameCheckpoint c (giPrevious (last (glIncidents l))) \<or> sameCheckpoint c (Some (resumeOf l))"
  shows "resumesAt svc path input (resumeOf l) s"
  unfolding resumesAt_def
  by (intro exI [of _ c] exI [of _ l]) (use assms in \<open>auto simp: pendingRecovery_def Let_def resumeOf_def\<close>)

lemma finds_completed:
  assumes "finds svc path input (savedResume path stamp l) (completeIncident l) s" and "glIncidents l \<noteq> []"
  shows "recovered svc path input (resumeOf l) s"
  unfolding recovered_def
  by (intro exI [of _ "savedResume path stamp l"] exI [of _ "completeIncident l"])
     (use assms sameCheckpoint_saved in \<open>auto simp: pendingRecovery_def Let_def completeIncident_def onLast_last resumeOf_def\<close>)

text \<open>
  C4: a recovery over a gap can be interrupted anywhere. However far preparing and committing get,
  the next start finds the state files unchanged, or the recorded decision together with a
  checkpoint that it accepts, so that it resumes at the same position, or the completed recovery
  with the checkpoint at that position; and it finds the last if the recovery succeeded.
\<close>

theorem interrupted_recovery_restarts:
  assumes "l = preparedLedger penv (rsRecovery r) previous pos cause"
    and "path = grCheckpointPath (rsRecovery r)" and "input = grInput (rsRecovery r)"
    and "loadedCheckpoint svc path input r = Inr previous"
    and "ledgerReadsBack svc l" and "ledgerReadsBack svc (completeIncident l)"
    and "checkpointReadsBack svc (stampedCheckpoint (reStamp cenv) (resumeOf l))"
    and run: "andThen (prepareFollow svc penv previous pos cause) (commitRecovery svc cenv) r = (e, r')"
  shows "(sdTarget (rsCheckpoint r') = sdTarget (rsCheckpoint r) \<and> sdTarget (rsLedger r') = sdTarget (rsLedger r) \<and> e \<noteq> None) \<or>
     (resumesAt svc path input (resumeOf l) r' \<and> e \<noteq> None) \<or> recovered svc path input (resumeOf l) r'"
proof -
  note last = preparedLedger_last [of penv "rsRecovery r" previous pos cause, folded assms(1)]
  obtain e1 r1 where prep: "prepareFollow svc penv previous pos cause r = (e1, r1)"
    by (cases "prepareFollow svc penv previous pos cause r")
  note result = prepareFollow_result [OF prep, folded assms(1), OF assms(5)]
  have loaded: "loadedCheckpoint svc path input r1 = Inr previous"
    using assms(4) result(1) by (simp add: loadedCheckpoint_def)
  show ?thesis
  proof (cases e1)
    case (Some c)
    with run prep have same: "e = Some c" "r' = r1" by (simp_all add: andThen_def)
    from result(2) show ?thesis
    proof
      assume "loadedLedger svc r1 = Inr (Some l)"
      with loaded have "finds svc path input previous l r1" by (simp add: finds_def)
      from finds_prepared [OF this last(2,1)] last(3) same show ?thesis by simp
    qed (use result(1) same in simp)
  next
    case None
    with run prep have commit: "commitRecovery svc cenv r1 = (e, r')" by (simp add: andThen_def)
    have "finds svc path input previous l r1" using loaded result(2) None by (simp add: finds_def)
    moreover have "path \<noteq> [] \<or> previous = None"
      using assms(4) by (auto simp: loadedCheckpoint_def loadConfiguredCheckpoint_def)
    ultimately have "finds svc path input (savedResume path (reStamp cenv) l) (completeIncident l) r' \<or>
        e \<noteq> None \<and> (finds svc path input previous l r' \<or> finds svc path input (savedResume path (reStamp cenv) l) l r')"
      using commitRecovery_finds [OF _ _ last(1) _ _ _ assms(7,6) commit, of path input previous]
        result(3) None last(4) assms(2,3) by simp
    moreover have "sameCheckpoint (savedResume path (reStamp cenv) l) (giPrevious (last (glIncidents l))) \<or>
        sameCheckpoint (savedResume path (reStamp cenv) l) (Some (resumeOf l))"
      using sameCheckpoint_saved [of path] last(3) \<open>path \<noteq> [] \<or> previous = None\<close>
      by (cases "path = []") (auto simp: savedResume_def)
    ultimately show ?thesis
      using finds_completed [OF _ last(1)] finds_prepared [OF _ last(2,1)] last(3) by (metis sameCheckpoint_refl)
  qed
qed

section \<open>An interrupted recovery\<close>

text \<open>The ledger is written, but syncing its directory fails: the next start resumes.\<close>

definition gapManager :: gapRecovery where
  "gapManager = \<lparr>grPath = ''/c.recovery'', grInput = ''/a'', grCheckpointPath = ''/c'', grLedger = None\<rparr>"

definition gapCause :: rotationError where
  "gapCause = SourceTruncated \<lparr>fiDevice = 1, fiInode = 2\<rparr> 5 0"

definition gapPrepare :: prepareEnv where
  "gapPrepare = \<lparr>prDetected = 1, prStamp = 1, prCalls = goodSave\<lparr>svSyncDirectory := False\<rparr>\<rparr>"

definition gapCommit :: recoveryEnv where
  "gapCommit = \<lparr>reCheckpointCalls = goodSave, reStamp = 1, reLedgerCalls = goodSave\<rparr>"

definition gapDecision :: gapLedger where
  "gapDecision = preparedLedger gapPrepare gapManager None (positionAt 0) gapCause"

definition decisionText :: "gapLedger \<Rightarrow> string" where
  "decisionText l = (if giPrepared (last (glIncidents l)) then ''P'' else ''C'')"

definition gapServices :: "ndjsonSink services" where
  "gapServices = followServices\<lparr>svcEncodeLedger := decisionText,
     svcDecodeLedger := (\<lambda>s. Some (if s = ''P'' then gapDecision else completeIncident gapDecision)),
     svcDecodeCheckpoint := (\<lambda>s. Some (stampedCheckpoint 1 (resumeOf gapDecision)))\<rparr>"

definition gapState :: "ndjsonSink recoveryState" where
  "gapState = \<lparr>rsRecovery = gapManager, rsProcessor = followProcessor, rsCheckpoint = emptyDirectory, rsLedger = emptyDirectory\<rparr>"

lemma gapFields [simp]:
  "rsRecovery gapState = gapManager" "rsCheckpoint gapState = emptyDirectory" "rsLedger gapState = emptyDirectory"
  "grCheckpointPath gapManager = ''/c''" "grInput gapManager = ''/a''" "reStamp gapCommit = 1"
  "sdTarget emptyDirectory = Absent"
  by (simp_all add: gapState_def gapManager_def gapCommit_def emptyDirectory_def)

lemma gapDocuments:
  "giPrepared (last (glIncidents gapDecision))" "glIncidents gapDecision \<noteq> []"
  "\<not> giPrepared (last (glIncidents (completeIncident gapDecision)))"
  by (simp_all add: gapDecision_def preparedLedger_last completeIncident_def onLast_last)

lemma gapReads:
  "ledgerReadsBack gapServices gapDecision" "ledgerReadsBack gapServices (completeIncident gapDecision)"
  by (simp_all add: ledgerReadsBack_def gapServices_def followServices_def decisionText_def gapDocuments)

lemma gapCheckpoint: "checkpointReadsBack gapServices (stampedCheckpoint 1 (resumeOf gapDecision))"
proof -
  have "cpOffset (stampedCheckpoint 1 (resumeOf gapDecision)) = 0" by code_simp
  moreover have "itoa 0 = ''0''" by code_simp
  ultimately show ?thesis
    by (simp add: checkpointReadsBack_def gapServices_def followServices_def maxCheckpointBytes_def)
qed

lemma gapPrepared:
  "prepareFollow gapServices gapPrepare None (positionAt 0) gapCause gapState =
     (Some LedgerNotSaved, gapState\<lparr>rsRecovery := gapManager\<lparr>grLedger := Some gapDecision\<rparr>,
        rsLedger := \<lparr>sdTarget = Bytes ''P'', sdLeftover = False\<rparr>\<rparr>)"
proof -
  have valid: "ledgerValidate gapDecision = None" by code_simp
  have "SaveGapLedger (svcMarshalLedger gapServices) (svcEncodeLedger gapServices) (prCalls gapPrepare) gapDecision emptyDirectory =
      (False, \<lparr>sdTarget = Bytes ''P'', sdLeftover = False\<rparr>)"
    by (simp add: SaveGapLedger_def valid gapServices_def followServices_def maxLedgerBytes_def saveState_def temporary_defs gapPrepare_def
        goodSave_def emptyDirectory_def decisionText_def gapDocuments)
  then show ?thesis
    by (simp add: prepareFollow_def prepareRecovery_def gapDecision_def preparedLedger_def Let_def)
       (simp add: gapManager_def)
qed

theorem interrupted_recovery_restarts_witness:
  "resumesAt gapServices ''/c'' ''/a'' (resumeOf gapDecision)
     (snd (andThen (prepareFollow gapServices gapPrepare None (positionAt 0) gapCause) (commitRecovery gapServices gapCommit) gapState))"
proof -
  let ?final = "gapState\<lparr>rsRecovery := gapManager\<lparr>grLedger := Some gapDecision\<rparr>,
        rsLedger := \<lparr>sdTarget = Bytes ''P'', sdLeftover = False\<rparr>\<rparr>"
  have run: "andThen (prepareFollow gapServices gapPrepare None (positionAt 0) gapCause) (commitRecovery gapServices gapCommit) gapState =
      (Some LedgerNotSaved, ?final)"
    by (simp add: andThen_def gapPrepared)
  have found: "l = gapDecision" if "loadedLedger gapServices ?final = Inr (Some l)" for l
    using that by (simp add: loadedLedger_def LoadGapLedger_def gapServices_def maxLedgerBytes_def split: option.splits)
  have "\<not> recovered gapServices ''/c'' ''/a'' (resumeOf gapDecision) ?final"
    using found gapDocuments by (auto simp: recovered_def finds_def pendingRecovery_def Let_def split: if_splits)
  moreover have "loadedCheckpoint gapServices ''/c'' ''/a'' gapState = Inr None"
    by (simp add: loadedCheckpoint_def loadConfiguredCheckpoint_def LoadCheckpoint_def)
  ultimately show ?thesis
    using interrupted_recovery_restarts [OF gapDecision_def [folded gapFields(1)] refl refl _ gapReads _ run]
      gapCheckpoint by (simp add: run)
qed

end
