(* ===== verification/SecureFileProperties.thy ===== *)
theory SecureFileProperties
  imports SecureFile
begin

text \<open>
  What a successful open guarantees: the file system only grows under it, the path is walked
  without a link, and every directory on the way is trusted.
\<close>

section \<open>Growth of the file system\<close>

definition numbered :: "fileSystem \<Rightarrow> bool" where
  "numbered fs \<longleftrightarrow> (\<forall>n d. nodeAt fs n = Some d \<longrightarrow> n < fsNext fs)"

text \<open>A node keeps its owner and mode; a directory keeps its entries and may gain some.\<close>

definition nodeGrows :: "fileNode \<Rightarrow> fileNode \<Rightarrow> bool" where
  "nodeGrows d d' \<longleftrightarrow>
     fnUid d' = fnUid d \<and> fnPerm d' = fnPerm d \<and> fnSticky d' = fnSticky d \<and>
     (fnKind d' = fnKind d \<or> isDirectory (fnKind d) \<and> isDirectory (fnKind d') \<and>
        (\<forall>c k. map_of (entriesOf (fnKind d)) c = Some k \<longrightarrow> map_of (entriesOf (fnKind d')) c = Some k))"

definition fsGrows :: "fileSystem \<Rightarrow> fileSystem \<Rightarrow> bool" where
  "fsGrows fs fs' \<longleftrightarrow>
     fsEuid fs' = fsEuid fs \<and> fsLocks fs' = fsLocks fs \<and>
     (\<forall>n d. nodeAt fs n = Some d \<longrightarrow> (\<exists>d'. nodeAt fs' n = Some d' \<and> nodeGrows d d'))"

lemma nodeGrows_refl [simp]: "nodeGrows d d"
  by (simp add: nodeGrows_def)

lemma nodeGrows_trans:
  assumes "nodeGrows d e" and "nodeGrows e f"
  shows "nodeGrows d f"
proof -
  note g = assms [unfolded nodeGrows_def]
  consider "fnKind e = fnKind d" | "fnKind f = fnKind e"
    | "isDirectory (fnKind d)" "isDirectory (fnKind e)" "isDirectory (fnKind f)"
    using g by argo
  then show ?thesis
  proof cases
    case 3
    then have "\<forall>c k. map_of (entriesOf (fnKind d)) c = Some k \<longrightarrow> map_of (entriesOf (fnKind f)) c = Some k"
      using g by metis
    with 3 g show ?thesis by (simp add: nodeGrows_def)
  qed (use g in \<open>simp_all add: nodeGrows_def\<close>)
qed

lemma fsGrows_refl [simp]: "fsGrows fs fs"
  by (simp add: fsGrows_def)

lemma fsGrows_trans: "fsGrows fs gs \<Longrightarrow> fsGrows gs hs \<Longrightarrow> fsGrows fs hs"
  unfolding fsGrows_def using nodeGrows_trans by fastforce

text \<open>An operation that grows a numbered file system.\<close>

definition grown :: "fileSystem \<Rightarrow> fileSystem \<Rightarrow> bool" where
  "grown fs fs' \<longleftrightarrow> (numbered fs \<longrightarrow> numbered fs' \<and> fsGrows fs fs')"

lemma grown_refl [simp]: "grown fs fs"
  by (simp add: grown_def)

lemma grown_trans: "grown fs gs \<Longrightarrow> grown gs hs \<Longrightarrow> grown fs hs"
  unfolding grown_def using fsGrows_trans by blast

lemma systemCall_frame:
  assumes "systemCall fs = (ok, fs')"
  shows "nodeAt fs' = nodeAt fs" and "fsEuid fs' = fsEuid fs" and "fsLocks fs' = fsLocks fs" and "grown fs fs'"
  using assms
  by (auto simp: systemCall_def nodeAt_def grown_def numbered_def fsGrows_def split: list.splits)

lemma nodeAt_addNode:
  assumes "numbered fs" and "nodeAt fs parent = Some d" and "isDirectory (fnKind d)"
  shows "nodeAt (addNode parent name kind perm fs) =
     (nodeAt fs)(parent \<mapsto> d\<lparr>fnKind := Directory (entriesOf (fnKind d) @ [(name, fsNext fs)])\<rparr>,
                 fsNext fs \<mapsto> \<lparr>fnKind = kind, fnUid = fsEuid fs, fnPerm = perm, fnSticky = False\<rparr>)"
proof -
  have fresh: "map_of (fsNodes fs) (fsNext fs) = None" and ne: "parent \<noteq> fsNext fs"
    using assms(1,2) by (auto simp: numbered_def nodeAt_def dest: spec)
  show ?thesis
    using assms(2,3) fresh ne
    by (intro ext) (auto simp: addNode_def nodeAt_def Let_def map_add_def update_conv' split: option.splits)
qed

lemma addNode_grown: "grown fs (addNode parent name kind perm fs)"
proof (cases "nodeAt fs parent")
  case None
  then show ?thesis by (simp add: addNode_def)
next
  case (Some d)
  show ?thesis
  proof (cases "isDirectory (fnKind d)")
    case False
    with Some show ?thesis by (simp add: addNode_def)
  next
    case True
    have fields: "fsEuid (addNode parent name kind perm fs) = fsEuid fs"
      "fsLocks (addNode parent name kind perm fs) = fsLocks fs"
      "fsNext (addNode parent name kind perm fs) = fsNext fs + 1"
      using Some True by (simp_all add: addNode_def Let_def)
    {
      assume num: "numbered fs"
      note at = nodeAt_addNode [OF num Some True]
      have fresh: "nodeAt fs (fsNext fs) = None" using num by (metis less_irrefl not_Some_eq numbered_def)
      have "nodeGrows d (d\<lparr>fnKind := Directory (entriesOf (fnKind d) @ [(name, fsNext fs)])\<rparr>)"
        using True by (auto simp: nodeGrows_def map_add_def)
      then have "fsGrows fs (addNode parent name kind perm fs)"
        using Some fresh by (auto simp: fsGrows_def fields at)
      moreover have "numbered (addNode parent name kind perm fs)"
        using num Some by (auto simp: numbered_def fields at less_Suc_eq)
      ultimately have "numbered (addNode parent name kind perm fs) \<and> fsGrows fs (addNode parent name kind perm fs)" by blast
    }
    then show ?thesis by (simp add: grown_def)
  qed
qed

lemma openatDirectory_grown: "openatDirectory parent name fs = (r, fs') \<Longrightarrow> grown fs fs'"
  by (auto simp: openatDirectory_def split: prod.splits bool.splits option.splits if_splits
      dest: systemCall_frame)

lemma createDirectory_grown:
  assumes "createDirectory parent name fs = (r, fs')"
  shows "grown fs fs'"
proof -
  obtain ok fs1 where c: "systemCall fs = (ok, fs1)" by (cases "systemCall fs")
  define fs2 where "fs2 = (if childOf fs1 parent name = None then addNode parent name (Directory []) 448 fs1 else fs1)"
  obtain ok' fs3 where s: "systemCall fs2 = (ok', fs3)" by (cases "systemCall fs2")
  have "grown fs1 fs2" using addNode_grown by (simp add: fs2_def)
  then have "grown fs fs1" "grown fs fs3"
    using systemCall_frame(4) [OF c] systemCall_frame(4) [OF s] grown_trans by blast+
  moreover have "fs' = fs1 \<or> fs' = fs3 \<or> grown fs3 fs'"
    using assms c s openatDirectory_grown
    by (auto simp: createDirectory_def fs2_def [symmetric] split: bool.splits)
  ultimately show ?thesis using grown_trans by blast
qed

section \<open>Trusted walks\<close>

definition trustedDirectory :: "fileSystem \<Rightarrow> nat \<Rightarrow> bool" where
  "trustedDirectory fs n \<longleftrightarrow> validateDirectory n fs = None"

text \<open>From a directory along plain entries, never a link, every directory on the way being trusted.\<close>

fun trustedWalk :: "fileSystem \<Rightarrow> nat \<Rightarrow> string list \<Rightarrow> nat \<Rightarrow> bool" where
  "trustedWalk fs n [] m \<longleftrightarrow> trustedDirectory fs n \<and> n = m"
| "trustedWalk fs n (c # cs) m \<longleftrightarrow>
     trustedDirectory fs n \<and> (case childOf fs n c of None \<Rightarrow> False | Some k \<Rightarrow> trustedWalk fs k cs m)"

lemma trustedDirectory_iff:
  "trustedDirectory fs n \<longleftrightarrow>
     (\<exists>d. nodeAt fs n = Some d \<and> isDirectory (fnKind d) \<and> (fnUid d = fsEuid fs \<or> fnUid d = 0) \<and>
        (writableByOthers (fnPerm d) \<longrightarrow> fnUid d = 0 \<and> fnSticky d))"
  by (auto simp: trustedDirectory_def validateDirectory_def split: option.splits if_splits)

lemma trustedDirectory_grows: "fsGrows fs fs' \<Longrightarrow> trustedDirectory fs n \<Longrightarrow> trustedDirectory fs' n"
  unfolding trustedDirectory_iff fsGrows_def nodeGrows_def by (metis (no_types, lifting))

lemma childOf_grows:
  assumes "fsGrows fs fs'" and "childOf fs n c = Some k"
  shows "childOf fs' n c = Some k"
proof -
  obtain d where d: "nodeAt fs n = Some d" "map_of (entriesOf (fnKind d)) c = Some k"
    using assms(2) by (auto simp: childOf_def bind_eq_Some_conv)
  obtain d' where d': "nodeAt fs' n = Some d'" "nodeGrows d d'"
    using assms(1) d(1) unfolding fsGrows_def by blast
  have "map_of (entriesOf (fnKind d')) c = Some k"
    using d'(2) d(2) unfolding nodeGrows_def by metis
  with d'(1) show ?thesis by (simp add: childOf_def)
qed

lemma trustedWalk_grows: "fsGrows fs fs' \<Longrightarrow> trustedWalk fs n cs m \<Longrightarrow> trustedWalk fs' n cs m"
  by (induction cs arbitrary: n) (auto simp: trustedDirectory_grows childOf_grows split: option.splits)

lemma trustedWalk_end: "trustedWalk fs n cs m \<Longrightarrow> trustedDirectory fs m"
  by (induction cs arbitrary: n) (auto split: option.splits)

lemma openatDirectory_child: "openatDirectory parent name fs = (Inr n, fs') \<Longrightarrow> childOf fs' parent name = Some n"
  by (auto simp: openatDirectory_def split: prod.splits bool.splits option.splits if_splits)

lemma createDirectory_child: "createDirectory parent name fs = (Inr n, fs') \<Longrightarrow> childOf fs' parent name = Some n"
  by (auto simp: createDirectory_def Let_def split: prod.splits bool.splits dest: openatDirectory_child)

lemma openComponent_result:
  assumes "openComponent create parent name fs = (r, fs')"
  shows "grown fs fs'" and "r = Inr n \<Longrightarrow> childOf fs' parent name = Some n \<and> trustedDirectory fs' n"
proof -
  obtain r1 fs1 where o: "openatDirectory parent name fs = (r1, fs1)" by (cases "openatDirectory parent name fs")
  obtain r2 fs2 where c: "createDirectory parent name fs1 = (r2, fs2)" by (cases "createDirectory parent name fs1")
  obtain r3 fs3 where m: "(if r1 = Inl Missing \<and> create then (r2, fs2) else (r1, fs1)) = (r3, fs3)"
    by (cases "if r1 = Inl Missing \<and> create then (r2, fs2) else (r1, fs1)")
  have eq: "(case openatDirectory parent name fs of
              (Inl Missing, fs1) \<Rightarrow> if create then createDirectory parent name fs1 else (Inl Missing, fs1)
            | res \<Rightarrow> res) = (r3, fs3)"
    using o c m by (auto split: sum.splits secureError.splits if_splits)
  obtain ok fs4 where s: "systemCall fs3 = (ok, fs4)" by (cases "systemCall fs3")
  have g3: "grown fs fs3"
    using m openatDirectory_grown [OF o] grown_trans [OF openatDirectory_grown [OF o] createDirectory_grown [OF c]]
    by (simp split: if_split_asm)
  have out: "(r, fs') = (case r3 of Inl e \<Rightarrow> (Inl e, fs3) | Inr n \<Rightarrow>
      (case validateDirectory n fs3 of Some e \<Rightarrow> (Inl e, fs3) | None \<Rightarrow> (if ok then (Inr n, fs4) else (Inl SystemCall, fs4))))"
    using assms s unfolding openComponent_def eq by (auto split: sum.splits option.splits bool.splits)
  show "grown fs fs'"
    using out g3 grown_trans [OF g3 systemCall_frame(4) [OF s]] by (simp split: sum.splits option.splits if_splits)
  show "childOf fs' parent name = Some n \<and> trustedDirectory fs' n" if "r = Inr n"
  proof -
    have n: "r3 = Inr n" "validateDirectory n fs3 = None" "fs' = fs4"
      using out that by (auto split: sum.splits option.splits if_splits)
    then have "childOf fs3 parent name = Some n"
      using m openatDirectory_child o createDirectory_child c by (auto split: if_splits)
    moreover have "trustedDirectory fs3 n" using n(2) by (simp add: trustedDirectory_def)
    ultimately show ?thesis
      using n(3) systemCall_frame(1,2) [OF s] by (simp add: trustedDirectory_iff childOf_def)
  qed
qed

lemma openComponents_result:
  assumes "openComponents create n cs fs = (r, fs')" and "numbered fs" and "trustedDirectory fs n"
    and "[] \<notin> set cs"
  shows "grown fs fs' \<and> (\<forall>m. r = Inr m \<longrightarrow> trustedWalk fs' n cs m)"
  using assms
proof (induction cs arbitrary: n fs)
  case Nil
  then show ?case by auto
next
  case (Cons c cs)
  obtain r1 fs1 where o: "openComponent create n c fs = (r1, fs1)" by (cases "openComponent create n c fs")
  note res = openComponent_result [OF o]
  have g1: "numbered fs1" "fsGrows fs fs1" using res(1) Cons.prems(2) by (auto simp: grown_def)
  show ?case
  proof (cases r1)
    case (Inl e)
    with Cons.prems(1,4) o res(1) show ?thesis by auto
  next
    case (Inr k)
    with Cons.prems(1,4) o have rest: "openComponents create k cs fs1 = (r, fs')" by auto
    have ih: "grown fs1 fs' \<and> (\<forall>m. r = Inr m \<longrightarrow> trustedWalk fs' k cs m)"
      using rest g1(1) res(2) [OF Inr] Cons.prems(4) by (intro Cons.IH) auto
    then have g2: "fsGrows fs1 fs'" using g1(1) by (simp add: grown_def)
    have "trustedDirectory fs' n"
      using trustedDirectory_grows [OF g2] trustedDirectory_grows [OF g1(2)] Cons.prems(3) by blast
    moreover have "childOf fs' n c = Some k" using childOf_grows [OF g2] res(2) [OF Inr] by blast
    moreover have "grown fs fs'" using ih res(1) grown_trans by blast
    ultimately show ?thesis using ih by simp
  qed
qed

text \<open>The components \<open>OpenDirectory\<close> walks are those of the clean absolute path.\<close>

definition walkedComponents :: "string option \<Rightarrow> string \<Rightarrow> string list" where
  "walkedComponents cwd path = (case absPath cwd path of None \<Rightarrow> [] | Some a \<Rightarrow> pathComponents a)"

lemma openComponents_empty: "openComponents create n [[]] fs = (Inr n, fs)"
  by simp

lemma rooted_components:
  assumes "isRooted a"
  shows "splitByte slashChar (trimRoot (cleanPath a)) = (if pathComponents a = [] then [[]] else pathComponents a)"
proof -
  have "\<forall>c \<in> set (pathComponents a). slashChar \<notin> set c"
    using pathComponents_plain [OF assms] by (auto simp: list_all_iff plainComponent_def)
  then show ?thesis
    using assms by (auto simp: trimRoot_def cleanPath_def Let_def isRooted_def splitByte_joinSlash)
qed

text \<open>The working directory is an absolute path.\<close>

definition rootedCwd :: "string option \<Rightarrow> bool" where
  "rootedCwd cwd \<longleftrightarrow> (case cwd of None \<Rightarrow> True | Some wd \<Rightarrow> isRooted wd)"

lemma absPath_rooted:
  assumes "absPath cwd path = Some a" and "rootedCwd cwd"
  shows "isRooted a"
proof (cases "isRooted path")
  case True
  with assms(1) cleanPath_idem(2) show ?thesis by (auto simp: absPath_def)
next
  case False
  with assms(1) obtain wd where wd: "cwd = Some wd" "a = cleanPath (wd @ slashChar # path)"
    by (auto simp: absPath_def)
  then have "isRooted (wd @ slashChar # path)" using assms(2) by (simp add: rootedCwd_def isRooted_def)
  with wd(2) cleanPath_idem(2) show ?thesis by blast
qed

lemma OpenDirectory_result:
  assumes "OpenDirectory cwd path create fs = (r, fs')" and "numbered fs" and "rootedCwd cwd"
  shows "grown fs fs' \<and> (\<forall>n. r = Inr n \<longrightarrow> trustedWalk fs' 0 (walkedComponents cwd path) n)"
proof (cases "absPath cwd path")
  case None
  with assms(1) show ?thesis by (auto simp: OpenDirectory_def)
next
  case (Some a)
  obtain ok fs1 where s: "systemCall fs = (ok, fs1)" by (cases "systemCall fs")
  note g = systemCall_frame(4) [OF s]
  have num: "numbered fs1" using g assms(2) by (simp add: grown_def)
  have rooted: "isRooted a" using Some assms(3) by (rule absPath_rooted)
  have plain: "[] \<notin> set (pathComponents a)"
    using pathComponents_plain [OF rooted] by (auto simp: list_all_iff plainComponent_def)
  show ?thesis
  proof (cases "ok \<and> validateDirectory 0 fs1 = None")
    case False
    with assms(1) Some s g show ?thesis by (auto simp: OpenDirectory_def split: bool.splits option.splits)
  next
    case True
    then have t: "trustedDirectory fs1 0" by (simp add: trustedDirectory_def)
    have "openComponents create 0 (pathComponents a) fs1 = (r, fs')"
      using assms(1) Some s True rooted_components [OF rooted] by (auto simp: OpenDirectory_def split: if_splits)
    then have "grown fs1 fs' \<and> (\<forall>m. r = Inr m \<longrightarrow> trustedWalk fs' 0 (pathComponents a) m)"
      using num t plain by (rule openComponents_result)
    then show ?thesis using g grown_trans Some by (auto simp: walkedComponents_def)
  qed
qed

section \<open>Files and locks\<close>

definition trustedFile :: "bool \<Rightarrow> fileSystem \<Rightarrow> nat \<Rightarrow> bool" where
  "trustedFile allowRootOwner fs n \<longleftrightarrow>
     (case nodeAt fs n of
        None \<Rightarrow> False
      | Some f \<Rightarrow> fnKind f = Regular \<and> (fnUid f = fsEuid fs \<or> allowRootOwner \<and> fnUid f = 0) \<and>
                   \<not> writableByOthers (fnPerm f))"

lemma validateRegularFile_ok: "validateRegularFile allowRootOwner n fs = None \<longleftrightarrow> trustedFile allowRootOwner fs n"
  by (auto simp: validateRegularFile_def trustedFile_def split: option.split)

lemma trustedWalk_unique: "trustedWalk fs n cs m \<Longrightarrow> trustedWalk fs n cs m' \<Longrightarrow> m = m'"
  by (induction cs arbitrary: n) (auto split: option.splits)

lemma openatFile_result:
  assumes "openatFile directory name create mode fs = (r, fs')" and "numbered fs" and "trustedDirectory fs directory"
  shows "grown fs fs'" and "r = Inr n \<Longrightarrow> childOf fs' directory name = Some n"
    and "\<not> create \<Longrightarrow> nodeAt fs' = nodeAt fs"
proof -
  obtain ok fs1 where s: "systemCall fs = (ok, fs1)" by (cases "systemCall fs")
  note fr = systemCall_frame [OF s]
  obtain d where d: "nodeAt fs1 directory = Some d" "isDirectory (fnKind d)"
    using assms(3) unfolding fr(1) trustedDirectory_iff by blast
  have num: "numbered fs1" using fr(4) assms(2) by (simp add: grown_def)
  have new: "childOf (addNode directory name Regular mode fs1) directory name = Some (fsNext fs1)"
    if none: "childOf fs1 directory name = None"
  proof -
    have "directory < fsNext fs1" using num d(1) by (simp add: numbered_def)
    then have "nodeAt (addNode directory name Regular mode fs1) directory =
        Some (d\<lparr>fnKind := Directory (entriesOf (fnKind d) @ [(name, fsNext fs1)])\<rparr>)"
      by (simp add: nodeAt_addNode [OF num d])
    with none d(1) show ?thesis by (simp add: childOf_def map_add_def)
  qed
  consider (none) "r \<noteq> Inr n" "fs' = fs1" | (old) m where "r = Inr m" "fs' = fs1" "childOf fs1 directory name = Some m"
    | (made) "create" "r = Inr (fsNext fs1)" "fs' = addNode directory name Regular mode fs1" "childOf fs1 directory name = None"
  proof (cases "childOf fs1 directory name")
    case None
    note def = assms(1) [unfolded openatFile_def s prod.case None option.case]
    show thesis
    proof (cases "ok \<and> create")
      case True
      with def None show thesis by (intro made) simp_all
    next
      case False
      have "r \<noteq> Inr n" "fs' = fs1" using def False by (cases ok; cases create; force)+
      then show thesis by (rule none)
    qed
  next
    case (Some m)
    note def = assms(1) [unfolded openatFile_def s prod.case Some option.case]
    have "fs' = fs1" and "r = Inr m \<or> r = Inl SystemCall"
      using def by (cases ok; cases "nodeAt fs1 m"; simp split: if_split_asm; blast)+
    with Some show thesis using none old by auto
  qed
  moreover have "grown fs (addNode directory name Regular mode fs1)"
    using grown_trans [OF fr(4) addNode_grown] .
  ultimately have "grown fs fs' \<and> (r = Inr n \<longrightarrow> childOf fs' directory name = Some n) \<and>
      (\<not> create \<longrightarrow> nodeAt fs' = nodeAt fs)"
    using fr(1,4) new by cases simp_all
  then show "grown fs fs'" and "r = Inr n \<Longrightarrow> childOf fs' directory name = Some n"
    and "\<not> create \<Longrightarrow> nodeAt fs' = nodeAt fs" by blast+
qed

lemma OpenRegularAt_result:
  assumes "OpenRegularAt directory name create mode allowRootOwner fs = (r, fs')" and "numbered fs"
    and "trustedDirectory fs directory"
  shows "grown fs fs'" and "r = Inr n \<Longrightarrow> childOf fs' directory name = Some n \<and> trustedFile allowRootOwner fs' n"
    and "r = Inr n \<Longrightarrow> name \<notin> {[], ''.'', ''..''} \<and> baseName name = name"
    and "\<not> create \<Longrightarrow> nodeAt fs' = nodeAt fs"
proof -
  obtain r1 fs1 where o: "openatFile directory name create mode fs = (r1, fs1)"
    by (cases "openatFile directory name create mode fs")
  obtain ok fs2 where s1: "systemCall fs1 = (ok, fs2)" by (cases "systemCall fs1")
  obtain ok' fs3 where s2: "systemCall fs2 = (ok', fs3)" by (cases "systemCall fs2")
  note fr = openatFile_result(1,3) [OF o assms(2,3)] systemCall_frame [OF s1] systemCall_frame [OF s2]
  have opened: "r1 = Inr m \<Longrightarrow> childOf fs1 directory name = Some m" for m
    using openatFile_result(2) [OF o assms(2,3)] .
  have leaf: "trustedFile allowRootOwner fs2 m = trustedFile allowRootOwner fs1 m"
    "trustedFile allowRootOwner fs3 m = trustedFile allowRootOwner fs1 m"
    "childOf fs2 = childOf fs1" "childOf fs3 = childOf fs1" for m
    using fr by (simp_all add: trustedFile_def childOf_def [abs_def] split: option.split)
  have g: "grown fs fs2" "grown fs fs3" using fr grown_trans by blast+
  note def = assms(1) [unfolded OpenRegularAt_def o prod.case]
  consider (bad) "fs' = fs" "\<exists>e. r = Inl e"
    | (err) "fs' \<in> {fs1, fs2, fs3}" "\<exists>e. r = Inl e" "create \<or> fs' = fs1"
    | (good) m where "r = Inr m" "r1 = Inr m" "trustedFile allowRootOwner fs1 m" "if create then fs' = fs3 else fs' = fs1"
      "name \<notin> {[], ''.'', ''..''}" "baseName name = name"
  proof (cases "name = [] \<or> name = ''.'' \<or> name = ''..'' \<or> baseName name \<noteq> name")
    case True
    with def show thesis by (intro bad) auto
  next
    case plain: False
    show thesis
    proof (cases r1)
      case (Inl e)
      with def plain show thesis by (intro err) auto
    next
      case (Inr m)
      note def' = def [unfolded if_not_P [OF plain] Inr sum.case validateRegularFile_ok]
      show thesis
      proof (cases "validateRegularFile allowRootOwner m fs1")
        case None
        then have t: "trustedFile allowRootOwner fs1 m" by (simp add: validateRegularFile_ok)
        from def' None plain Inr t s1 s2 show thesis
          by (cases ok; cases ok'; cases create) (auto intro: err good)
      next
        case (Some e)
        with def' show thesis by (intro err) auto
      qed
    qed
  qed
  then have "grown fs fs' \<and> (r = Inr n \<longrightarrow> childOf fs' directory name = Some n \<and> trustedFile allowRootOwner fs' n) \<and>
      (r = Inr n \<longrightarrow> name \<notin> {[], ''.'', ''..''} \<and> baseName name = name) \<and> (\<not> create \<longrightarrow> nodeAt fs' = nodeAt fs)"
  proof cases
    case (good m)
    with g fr(1,2) leaf opened [OF good(2)] show ?thesis by (auto split: if_splits)
  qed (use g fr(1,2) in auto)
  then show "grown fs fs'" and "r = Inr n \<Longrightarrow> childOf fs' directory name = Some n \<and> trustedFile allowRootOwner fs' n"
    and "r = Inr n \<Longrightarrow> name \<notin> {[], ''.'', ''..''} \<and> baseName name = name"
    and "\<not> create \<Longrightarrow> nodeAt fs' = nodeAt fs" by blast+
qed

lemma openRegular_result:
  assumes "openRegular cwd path create mode allowRootOwner fs = (Inr n, fs')" and "numbered fs" and "rootedCwd cwd"
  shows "fsGrows fs fs' \<and>
     (\<exists>directory. trustedWalk fs' 0 (walkedComponents cwd (dirName path)) directory \<and>
        childOf fs' directory (baseName path) = Some n) \<and>
     trustedFile allowRootOwner fs' n"
proof -
  obtain directory fs1 where o: "OpenDirectory cwd (dirName path) False fs = (Inr directory, fs1)"
    and f: "OpenRegularAt directory (baseName path) create mode allowRootOwner fs1 = (Inr n, fs')"
    using assms(1) by (auto simp: openRegular_def split: if_splits prod.splits sum.splits)
  have d: "grown fs fs1" "trustedWalk fs1 0 (walkedComponents cwd (dirName path)) directory"
    using OpenDirectory_result [OF o assms(2,3)] by simp_all
  have num: "numbered fs1" "fsGrows fs fs1" using d(1) assms(2) by (simp_all add: grown_def)
  note r = OpenRegularAt_result [OF f num(1) trustedWalk_end [OF d(2)]]
  have g: "fsGrows fs1 fs'" using r(1) num(1) by (simp add: grown_def)
  show ?thesis using r(2) [of n] trustedWalk_grows [OF g d(2)] fsGrows_trans [OF num(2) g] by blast
qed

text \<open>What a process that holds a lock, or is told of another holder, has opened.\<close>

lemma openStateDirectory_result:
  assumes "openStateDirectory cwd path create fs = (Inr n, fs')" and "numbered fs" and "rootedCwd cwd"
  shows "grown fs fs'" and "trustedWalk fs' 0 (walkedComponents cwd path) n"
  using assms OpenDirectory_result [of cwd path create fs "Inr n" fs']
  by (auto simp: openStateDirectory_def split: prod.splits sum.splits option.splits if_splits)

lemma writeOwner_frame:
  assumes "writeOwner fs = (ok, fs')"
  shows "fsNodes fs' = fsNodes fs" "fsEuid fs' = fsEuid fs" "fsLocks fs' = fsLocks fs"
  using assms by (auto simp: writeOwner_def systemCall_def split: list.splits prod.splits if_splits)

lemma AcquireFileLock_result:
  assumes "AcquireFileLock cwd path fs = (Inr (Some n), fs')" and "numbered fs" and "rootedCwd cwd"
  shows "\<exists>directory fs1. fsGrows fs fs1 \<and> trustedWalk fs1 0 (walkedComponents cwd (dirName path)) directory \<and>
     childOf fs1 directory (baseName path) = Some n \<and> n \<notin> set (fsLocks fs) \<and>
     nodeAt fs' = nodeAt fs1 \<and> fsEuid fs' = fsEuid fs1 \<and> fsLocks fs' = n # fsLocks fs"
proof -
  obtain directory fs1 where o: "openStateDirectory cwd (dirName path) True fs = (Inr directory, fs1)"
    using assms(1) by (auto simp: AcquireFileLock_def split: prod.splits sum.splits)
  obtain r fs2 where f: "OpenRegularAt directory (baseName path) True 384 False fs1 = (r, fs2)"
    by (cases "OpenRegularAt directory (baseName path) True 384 False fs1")
  obtain ok fs3 where s: "systemCall fs2 = (ok, fs3)" by (cases "systemCall fs2")
  have r: "r = Inr n" "n \<notin> set (fsLocks fs3)" "writeOwner (fs3\<lparr>fsLocks := n # fsLocks fs3\<rparr>) = (True, fs')"
    using assms(1) o f s
    by (auto simp: AcquireFileLock_def split: sum.splits bool.splits if_splits prod.splits)
  note d = openStateDirectory_result [OF o assms(2,3)]
  have num: "numbered fs1" "fsGrows fs fs1" using d(1) assms(2) by (simp_all add: grown_def)
  note leaf = OpenRegularAt_result [OF f num(1) trustedWalk_end [OF d(2)]]
  have g: "fsGrows fs1 fs2" using leaf(1) num(1) by (simp add: grown_def)
  have all: "fsGrows fs fs2" using fsGrows_trans [OF num(2) g] .
  note fr = systemCall_frame [OF s] writeOwner_frame [OF r(3)]
  have "fsLocks fs2 = fsLocks fs" using all by (simp add: fsGrows_def)
  with fr r(2) have "n \<notin> set (fsLocks fs)" "fsLocks fs' = n # fsLocks fs" "nodeAt fs' = nodeAt fs2" "fsEuid fs' = fsEuid fs2"
    by (simp_all add: nodeAt_def [abs_def])
  with all leaf(2) [OF r(1)] trustedWalk_grows [OF g d(2)] show ?thesis by blast
qed

lemma trustedWalk_cong:
  "nodeAt fs' = nodeAt fs \<Longrightarrow> fsEuid fs' = fsEuid fs \<Longrightarrow> trustedWalk fs' n cs m = trustedWalk fs n cs m"
  by (induction cs arbitrary: n) (auto simp: trustedDirectory_iff childOf_def split: option.splits)

lemma lock_exclusive_lemma:
  assumes "AcquireFileLock cwd path fs = (Inr (Some n), fs1)" and "numbered fs" and "rootedCwd cwd"
    and "fsGrows fs1 fs2" and "numbered fs2"
  shows "fst (AcquireFileLock cwd path fs2) \<noteq> Inr (Some m)"
proof
  assume "fst (AcquireFileLock cwd path fs2) = Inr (Some m)"
  then obtain fs3 where "AcquireFileLock cwd path fs2 = (Inr (Some m), fs3)"
    by (cases "AcquireFileLock cwd path fs2") auto
  from AcquireFileLock_result [OF this assms(5,3)] obtain d2 fs4 where
    b: "fsGrows fs2 fs4" "trustedWalk fs4 0 (walkedComponents cwd (dirName path)) d2"
    "childOf fs4 d2 (baseName path) = Some m" "m \<notin> set (fsLocks fs2)" by blast
  from AcquireFileLock_result [OF assms(1-3)] obtain d1 fs0 where
    a: "trustedWalk fs0 0 (walkedComponents cwd (dirName path)) d1" "childOf fs0 d1 (baseName path) = Some n"
    "nodeAt fs1 = nodeAt fs0" "fsEuid fs1 = fsEuid fs0" "fsLocks fs1 = n # fsLocks fs" by blast
  have g: "fsGrows fs1 fs4" using fsGrows_trans [OF assms(4) b(1)] .
  have "trustedWalk fs1 0 (walkedComponents cwd (dirName path)) d1" "childOf fs1 d1 (baseName path) = Some n"
    using a trustedWalk_cong [OF a(3,4)] by (simp_all add: childOf_def)
  then have "trustedWalk fs4 0 (walkedComponents cwd (dirName path)) d1" "childOf fs4 d1 (baseName path) = Some n"
    using trustedWalk_grows [OF g] childOf_grows [OF g] by blast+
  then have "m = n" using trustedWalk_unique b(2,3) by fastforce
  moreover have "n \<in> set (fsLocks fs2)" using assms(4) a(5) by (simp add: fsGrows_def)
  ultimately show False using b(4) by simp
qed

end
