(* ===== verification/CommandTheorems.thy ===== *)
theory CommandTheorems
  imports RecoveryTheorems SecureFileProperties Command
begin

text \<open>
  The command as a whole: what the options it accepts guarantee to the rest of the program, the one
  process that a lock admits, the files it trusts, and batch mode from the arguments to the closed
  sink.
\<close>

section \<open>Accepted options\<close>

definition distinctPaths :: "(string \<Rightarrow> string \<Rightarrow> bool) \<Rightarrow> string list \<Rightarrow> bool" where
  "distinctPaths same paths \<longleftrightarrow> sorted_wrt (\<lambda>l r. l \<noteq> [] \<longrightarrow> r \<noteq> [] \<longrightarrow> \<not> same l r) paths"

definition runnable :: "(string \<Rightarrow> string \<Rightarrow> bool) \<Rightarrow> commandOptions \<Rightarrow> bool" where
  "runnable same op \<longleftrightarrow>
     0 < opPollInterval op \<and> 0 < opEventTimeout op \<and> 0 < opCheckpointInterval op \<and> 0 < opRotationDrain op \<and>
     0 \<le> opHeartbeatInterval op \<and> 0 < opMaxLineBytes op \<and> 0 < opMaxPendingEvents op \<and>
     0 < opMaxRecordsPerEvent op \<and> 0 < opMaxPendingBytes op \<and>
     (opFollow op \<longrightarrow> opInputPath op \<noteq> []) \<and> (\<not> opFollow op \<longrightarrow> opLockPath op = [] \<and> opCheckpointPath op = []) \<and>
     (opSyncOutput op \<longrightarrow> opOutputPath op \<noteq> []) \<and>
     distinctPaths same [opInputPath op, opOutputPath op, opLockPath op, opCheckpointPath op]"

lemma validateOptions_runnable: "validateOptions same op = None \<Longrightarrow> runnable same op"
  by (auto simp: validateOptions_def runnable_def distinctPaths_def split: if_splits)

lemma parseOptions_runnable:
  assumes "parseOptions env args = Inr op"
  shows "runnable (sameConfiguredPath (oeStat env) (oeCwd env)) op"
proof -
  have "validateOptions (sameConfiguredPath (oeStat env) (oeCwd env)) op = None"
    using assms by (auto simp: parseOptions_def Let_def split: sum.splits prod.splits if_splits option.splits)
  then show ?thesis by (rule validateOptions_runnable)
qed

definition optionLimits :: "commandOptions \<Rightarrow> assemblerLimits" where
  "optionLimits op = \<lparr>maxPendingEvents = opMaxPendingEvents op, maxRecordsPerEvent = opMaxRecordsPerEvent op,
     maxPendingBytes = opMaxPendingBytes op\<rparr>"

lemma runnable_assembler: "runnable same op \<Longrightarrow> \<exists>a. NewBoundedAssembler (opEventTimeout op) (optionLimits op) = Some a"
  by (auto simp: runnable_def NewBoundedAssembler_def optionLimits_def)

text \<open>
  C40: options that are accepted are options the program can run with: every interval and limit is
  positive, the paths it will use name different files, state files belong to follow mode, and the
  assembler accepts the limits.
\<close>

theorem accepted_options_run:
  assumes "parseOptions env args = Inr op"
  shows "runnable (sameConfiguredPath (oeStat env) (oeCwd env)) op \<and>
     (\<exists>a. NewBoundedAssembler (opEventTimeout op) (optionLimits op) = Some a)"
  using parseOptions_runnable [OF assms] runnable_assembler by blast

text \<open>
  The search for the configuration stops at the first \<open>--\<close> even where that is the value of a flag;
  the flags after it are parsed. So a configuration can be named, and reported valid, without ever
  being read.
\<close>

lemma unread_configuration_accepted:
  "parseOptions env [''--source-host'', ''--'', ''--config=/c'', ''--check-config''] =
     Inr ((defaultOptions [])\<lparr>opSourceHost := ''--'', opConfigPath := ''/c'', opCheckConfig := True\<rparr>)"
proof -
  have boot: "bootstrapConfigPath [] [''--source-host'', ''--'', ''--config=/c'', ''--check-config''] = Inr []"
    by simp
  have flags: "parseFlags i d [''--source-host'', ''--'', ''--config=/c'', ''--check-config''] op =
      Inr (op\<lparr>opSourceHost := ''--'', opConfigPath := ''/c'', opCheckConfig := True\<rparr>, [])" for i d op
    by (simp add: flagTable_def splitFlag_def parseBool_def Let_def)
  have "validateOptions same ((defaultOptions [])\<lparr>opSourceHost := ''--'', opConfigPath := ''/c'', opCheckConfig := True\<rparr>) = None" for same
    by (simp add: validateOptions_def defaultOptions_def millisecond_def second_def minute_def)
  then show ?thesis
    by (simp only: parseOptions_def boot sum.case configuredOptions_def flags prod.case)
       (simp add: defaultOptions_def)
qed

section \<open>One process per lock\<close>

text \<open>
  C39: what is opened is trusted: every directory on the way to it from the root, none of them a
  link, belongs to the process or to root and is not writable by others unless it is root's and
  sticky, and the file is a regular one of the same owners that others cannot write; and opening
  changes no owner, mode or directory entry that was there.
\<close>

theorem opened_files_trusted:
  assumes "openRegular cwd path create mode allowRootOwner fs = (Inr n, fs')" and "numbered fs" and "rootedCwd cwd"
  shows "fsGrows fs fs' \<and>
     (\<exists>directory. trustedWalk fs' 0 (walkedComponents cwd (dirName path)) directory \<and>
        childOf fs' directory (baseName path) = Some n) \<and>
     trustedFile allowRootOwner fs' n"
  by (rule openRegular_result [OF assms])

text \<open>
  C38: while one process holds the lock of a path, a second command with that lock neither opens the
  output nor runs: it ends with an error, or with the refusal logged.
\<close>

theorem second_command_refused:
  assumes "AcquireFileLock (svcCwd svc) path fs = (Inr (Some n), fs1)" and "numbered fs" and "rootedCwd (svcCwd svc)"
    and "fsGrows fs1 fs2" and "numbered fs2" and "path \<noteq> []" and "opLockPath op = path"
  shows "crSink (runLocked svc env op d fs2) = None \<and> crErrors (runLocked svc env op d fs2) \<noteq> None"
proof -
  obtain r fs3 where acquired: "AcquireFileLock (svcCwd svc) path fs2 = (r, fs3)" by (cases "AcquireFileLock (svcCwd svc) path fs2")
  with lock_exclusive_lemma [OF assms(1-5)] have "r \<noteq> Inr (Some m)" for m by auto
  then consider e where "r = Inl e" | "r = Inr None" by (metis sum.exhaust option.exhaust)
  then show ?thesis
    using acquired assms(6,7) by cases (simp_all add: runLocked_def finished_def split: prod.split)
qed

section \<open>Batch mode from the arguments to the closed sink\<close>

text \<open>What the environment gives batch mode, and a command none of whose calls fails.\<close>

definition inputReady :: "commandOptions \<Rightarrow> batchEnv \<Rightarrow> bool" where
  "inputReady op env \<longleftrightarrow> (opInputPath op = [] \<or> beOpen env = Some True) \<and> bePollable env \<and> undisturbed env \<and>
     int (length (beContent env)) \<le> maxInt"

definition unfailing :: "commandEnv \<Rightarrow> bool" where
  "unfailing env \<longleftrightarrow> \<not> ceCancelled env \<and> ceLog env = [] \<and> ceSinkCalls env = [] \<and> openManagedFile (ceSink env)"

definition batchRun :: "commandOptions \<Rightarrow> bool" where
  "batchRun op \<longleftrightarrow> \<not> opFollow op \<and> \<not> opShowVersion op \<and> \<not> opCheckConfig op"

lemma Close_accepted: "Close s = (b, s') \<Longrightarrow> prefix (sinkAccepted s) (sinkAccepted s')"
  by (auto simp: Close_def sinkAccepted_def nextCalls_def Let_def split: option.splits list.splits prod.splits if_splits)

lemma Close_unfailing: "snCalls s = [] \<Longrightarrow> fst (Close s)"
  by (auto simp: Close_def nextCalls_def cleanCalls_def Let_def split: option.split)

text \<open>A batch command that is accepted is one run of \<open>runWithSink\<close>.\<close>

lemma runContext_batch:
  assumes "parseOptions (ceOptions env) args = Inr op" and "batchRun op" and "\<not> ceCancelled env"
  shows "runContext svc env args fs =
     runUnlocked svc env op (newOperationalDiagnostics (ceStarted env) (opHeartbeatInterval op) (ceLog env)) fs"
  using assms by (simp add: runContext_def batchRun_def Let_def)

definition startedProcessor ::
  "commandOptions \<Rightarrow> assembler \<Rightarrow> ndjsonSink \<Rightarrow> operationalDiagnostics \<Rightarrow> ndjsonSink eventProcessor" where
  "startedProcessor op a sink d =
     \<lparr>epAssembler = a, epSink = sink, epHost = opSourceHost op, epRenderMessage = opRenderMessage op,
      epDiagnostics = d, epReplayWindow = False\<rparr>"

lemma runWithSink_batch:
  assumes ok: "runnable same op" and batch: "batchRun op"
    and svc: "svcPut svc = Write" "svcCommit svc = Commit"
  shows "crErrors (runWithSink svc env op sink d fs) = Some [] \<Longrightarrow>
       \<exists>out. crSink (runWithSink svc env op sink d fs) = Some out \<and>
         inputReported svc (opMaxLineBytes op) (opSourceHost op) (opRenderMessage op) (ceBatch env) (sinkAccepted out)"
    and "inputReady op (ceBatch env) \<Longrightarrow> \<not> snFailed sink \<Longrightarrow> snCalls sink = [] \<Longrightarrow> dgOutcomes d = [] \<Longrightarrow>
       crErrors (runWithSink svc env op sink d fs) = Some []"
proof -
  obtain a where a: "NewBoundedAssembler (opEventTimeout op) (optionLimits op) = Some a"
    using runnable_assembler [OF ok] by blast
  have fresh: "freshAssembler a" using a by (auto simp: freshAssembler_def)
  have limit: "0 < opMaxLineBytes op" using ok by (simp add: runnable_def)
  have follow: "\<not> opFollow op" using batch by (simp add: batchRun_def)
  obtain e1 d1 where log: "logEntry (Started (opFollow op) (opInputPath op) (sinkName op)) d = (e1, d1)" by fastforce
  let ?p = "startedProcessor op a sink d1"
  obtain e p where run: "runBatch svc op (ceBatch env) ?p = (e, p)" by fastforce
  obtain e2 d2 where stop: "logEntry (Stopped (dgCounters (epDiagnostics p))) (epDiagnostics p) = (e2, d2)" by fastforce
  obtain closed out where close: "Close (epSink p) = (closed, out)" by fastforce
  have whole: "runWithSink svc env op sink d fs =
      (finished (logErrors e @ logErrors e2 @ (if closed then [] else [SinkNotClosed])) d2 fs)\<lparr>crSink := Some out\<rparr>"
    if "e1 = None"
    using that a log run follow stop close
    by (simp add: runWithSink_def optionLimits_def runMode_def startedProcessor_def)
  show "\<exists>out. crSink (runWithSink svc env op sink d fs) = Some out \<and>
         inputReported svc (opMaxLineBytes op) (opSourceHost op) (opRenderMessage op) (ceBatch env) (sinkAccepted out)"
    if none: "crErrors (runWithSink svc env op sink d fs) = Some []"
  proof -
    have "e1 = None"
      using none a log by (cases e1) (auto simp: runWithSink_def optionLimits_def finished_def split: prod.splits)
    note whole = whole [OF this]
    have e: "e = None" using none whole by (auto simp: finished_def logErrors_def split: option.splits)
    have "inputReported svc (opMaxLineBytes op) (opSourceHost op) (opRenderMessage op) (ceBatch env) (sinkAccepted (epSink p))"
      using runBatch_accounts(1) [OF svc limit _ run [unfolded e]] fresh by (simp add: startedProcessor_def)
    with set_mono_prefix [OF Close_accepted [OF close]] whole show ?thesis
      by (auto simp: finished_def intro: inputReported_mono)
  qed
  show "crErrors (runWithSink svc env op sink d fs) = Some []"
    if "inputReady op (ceBatch env)" and "\<not> snFailed sink" and "snCalls sink = []" and "dgOutcomes d = []"
  proof -
    have ready: "readable op (ceBatch env)" using that(1) limit by (simp add: readable_def inputReady_def)
    have started: "e1 = None" "dgOutcomes d1 = []" using log that(4) by (auto simp: logEntry_def)
    then have "faultless ?p" using that by (simp add: faultless_def startedProcessor_def)
    then have after: "e = None" "faultless p"
      using runBatch_succeeds [OF svc(1) ready] run unfolding succeeds_def by (metis fst_conv snd_conv)+
    then have "e2 = None" "closed"
      using stop close Close_unfailing [of "epSink p"] by (auto simp: faultless_def logEntry_def)
    with whole [OF started(1)] after show ?thesis by (simp add: finished_def logErrors_def)
  qed
qed

text \<open>
  C7: the batch command, from its arguments to the closed output and the exit code. If it exits with
  0, the physical lines of the input are reported in the output: all of them, unless a cancellation
  was seen while reading, and then those read before. It exits with 0 when the input can be read,
  nothing interrupts the reading and no call fails.
\<close>

theorem batch_command_reports:
  assumes "svcPut svc = Write" and "svcCommit svc = Commit"
    and "parseOptions (ceOptions env) args = Inr op" and "batchRun op"
  shows "(mainExit (runContext svc env args fs) = Some (0, []) \<longrightarrow>
       (\<exists>out. crSink (runContext svc env args fs) = Some out \<and>
          inputReported svc (opMaxLineBytes op) (opSourceHost op) (opRenderMessage op) (ceBatch env) (sinkAccepted out))) \<and>
     (inputReady op (ceBatch env) \<and> unfailing env \<longrightarrow> mainExit (runContext svc env args fs) = Some (0, []))"
proof (cases "ceCancelled env")
  case True
  then show ?thesis by (simp add: runContext_def finished_def unfailing_def mainExit_def)
next
  case False
  note whole = runContext_batch [OF assms(3,4) False, of svc fs]
  note run = runWithSink_batch [OF parseOptions_runnable [OF assms(3)] assms(4,1,2)]
  show ?thesis
  proof (cases "openSink env op")
    case None
    then show ?thesis
      by (auto simp: whole runUnlocked_def finished_def mainExit_def openSink_def unfailing_def OpenFileSink_def split: if_splits)
  next
    case (Some sink)
    have "\<not> snFailed sink \<and> snCalls sink = []" if "unfailing env"
      using Some that
      by (auto simp: openSink_def OpenFileSink_def unfailing_def NewWriterSink_def split: if_splits)
    with run [where sink = sink and env = env and fs = fs] Some show ?thesis
      by (auto simp: whole runUnlocked_def unfailing_def newOperationalDiagnostics_def mainExit_def)
  qed
qed

section \<open>The properties at concrete inputs\<close>

lemma parsedSample: "parseOptions optionSample [] = Inr (defaultOptions [])"
proof -
  have "validateOptions same (defaultOptions []) = None" for same
    by (simp add: validateOptions_def defaultOptions_def millisecond_def second_def minute_def)
  moreover have "(defaultOptions [])\<lparr>opConfigPath := [], opCheckConfig := False, opShowVersion := False\<rparr> = defaultOptions []"
    by (simp add: defaultOptions_def)
  ultimately show ?thesis by (simp add: parseOptions_def configuredOptions_def Let_def)
qed

theorem accepted_options_run_witness:
  "0 < opMaxLineBytes (defaultOptions []) \<and>
     (\<exists>a. NewBoundedAssembler (opEventTimeout (defaultOptions [])) (optionLimits (defaultOptions [])) = Some a)"
  using accepted_options_run [OF parsedSample] by (simp add: runnable_def)

text \<open>A root directory with a file and room for a lock.\<close>

definition sampleFiles :: fileSystem where
  "sampleFiles =
     \<lparr>fsNodes = [(0, \<lparr>fnKind = Directory [(''a'', 1)], fnUid = 0, fnPerm = 493, fnSticky = False\<rparr>),
                (1, \<lparr>fnKind = Regular, fnUid = 7, fnPerm = 420, fnSticky = False\<rparr>)],
      fsNext = 2, fsEuid = 7, fsLocks = [], fsCalls = []\<rparr>"

definition lockedFiles :: fileSystem where
  "lockedFiles =
     \<lparr>fsNodes = [(0, \<lparr>fnKind = Directory [(''a'', 1), (''l'', 2)], fnUid = 0, fnPerm = 493, fnSticky = False\<rparr>),
                (1, \<lparr>fnKind = Regular, fnUid = 7, fnPerm = 420, fnSticky = False\<rparr>),
                (2, \<lparr>fnKind = Regular, fnUid = 7, fnPerm = 384, fnSticky = False\<rparr>)],
      fsNext = 3, fsEuid = 7, fsLocks = [2], fsCalls = []\<rparr>"

lemma numberedSample: "numbered sampleFiles" "numbered lockedFiles" "rootedCwd (Some ''/'')"
proof -
  show "numbered sampleFiles" by (auto simp: numbered_def nodeAt_def sampleFiles_def split: if_splits)
  show "numbered lockedFiles" by (auto simp: numbered_def nodeAt_def lockedFiles_def split: if_splits)
  show "rootedCwd (Some ''/'')" by (simp add: rootedCwd_def) code_simp
qed

lemma openedFile: "openRegular (Some ''/'') ''/a'' False 0 False sampleFiles = (Inr 1, sampleFiles)" by code_simp

lemma lockedFile: "AcquireFileLock (Some ''/'') ''/l'' sampleFiles = (Inr (Some 2), lockedFiles)" by code_simp

theorem opened_files_trusted_witness: "trustedFile False sampleFiles 1"
  using opened_files_trusted [OF openedFile numberedSample(1,3)] by simp

theorem second_command_refused_witness:
  "crSink (runLocked followServices commandSample (followOptions\<lparr>opLockPath := ''/l''\<rparr>) (newOperationalDiagnostics 0 0 []) lockedFiles) = None"
  using second_command_refused [of followServices "''/l''" sampleFiles 2 lockedFiles lockedFiles "followOptions\<lparr>opLockPath := ''/l''\<rparr>"]
    lockedFile numberedSample by simp

theorem batch_command_reports_witness:
  "mainExit (runContext followServices commandSample [] sampleFiles) = Some (0, []) \<and>
   (case crSink (runContext followServices commandSample [] sampleFiles) of
      None \<Rightarrow> False
    | Some out \<Rightarrow> BuildParseFailureEvent ''x'' lineProblem [] \<in> set (sinkAccepted out))"
proof -
  let ?op = "defaultOptions []"
  have fields: "ceOptions commandSample = optionSample" "ceBatch commandSample = batchSample"
    by (simp_all add: commandSample_def)
  have "batchRun ?op" by (simp add: batchRun_def defaultOptions_def)
  moreover have "inputReady ?op (ceBatch commandSample)"
    using readableSample by (simp add: inputReady_def readable_def fields defaultOptions_def)
  moreover have "unfailing commandSample"
    by (simp add: unfailing_def commandSample_def openManagedFile_def cleanOpen_def)
  moreover have parsed': "parseOptions (ceOptions commandSample) [] = Inr ?op" by (simp add: fields parsedSample)
  ultimately obtain out where errors: "mainExit (runContext followServices commandSample [] sampleFiles) = Some (0, [])"
    and out: "crSink (runContext followServices commandSample [] sampleFiles) = Some out"
    and reported: "inputReported followServices (opMaxLineBytes ?op) (opSourceHost ?op) (opRenderMessage ?op) (ceBatch commandSample)
       (sinkAccepted out)"
    using batch_command_reports [OF serviceFields(1,2) parsed', of sampleFiles] by blast
  have "\<forall>i. \<not> stopsAt (ceBatch commandSample) i"
    using readableSample by (auto simp: fields stopsAt_def readable_def undisturbed_def)
  note lines = inputReported_all [OF reported this]
  have line: "trimLine (''x'' @ [newline]) = ''x''" by code_simp
  have "opMaxLineBytes ?op = 1048576" "opSourceHost ?op = []" by (simp_all add: defaultOptions_def)
  with lines line have "BuildParseFailureEvent ''x'' lineProblem [] \<in> set (sinkAccepted out)"
    by (simp add: fields sampleLines rawAccounted_def rawRecord_def rawEvent_def parsed lineProblem_def)
  with errors out show ?thesis by simp
qed

end
