(* ===== verification/Spec2Isabelle.thy ===== *)
theory Spec2Isabelle
  imports Startup RecordTheorems AssemblerTheorems SemanticTheorems CollectorTheorems ResumeTheorems CommandTheorems
begin

text \<open>
  A verification development for ag-audit, the collector that turns the Linux audit log into
  canonical JSON events (cmd/ag-audit, internal/audit, internal/collector, internal/output,
  internal/securefile).

  The program. Batch mode reads an input once, follow mode tails a log file over its rotations. A
  physical line is parsed into a record; records of one audit event are assembled; an assembled
  event becomes a canonical event, which is written as one line to the output. In follow mode a
  checkpoint says from where a restart has to read again, a ledger records every gap of the source,
  and an advisory lock admits one process per input. The promise that ties the parts together is
  that nothing read is lost silently: every line is reported, or it is read again after a restart,
  or its loss is recorded.

  The model, one theory per part, in the order the code calls them.
  \<^item> Shared: Prelude (association lists as Go maps, collections of facts), GoStrings (the string,
    decimal, hexadecimal, quoting and UTF-8 functions used), GoTime, Paths (path/filepath), AuditTypes.
  \<^item> internal/audit, records: RecordParser (the lexer \<open>parseFields\<close>) and RecordEnvelope (\<open>ParseRecord\<close>,
    embedded messages) for parser.go; FamilyTables for the embedded data files, Startup for their checks.
  \<^item> internal/audit, assembly: Assembler for assembler.go, whose record \<open>assembler\<close> has the fields of
    the struct, and Isolation for isolation.go (\<open>RejectPhysicalLine\<close>, \<open>AddRecovering\<close>).
  \<^item> internal/audit, meaning: Decoding (decoding.go, conflicts.go), Arguments (argv.go,
    user_command.go), Results (results.go, login.go), SecurityEvidence (seccomp.go,
    security_evidence.go), Canonical (canonical.go, exception.go), Classification (classify.go),
    Render (render.go).
  \<^item> internal/collector: Checkpoint (checkpoint.go), Follower (follower.go), Discovery and Rotation
    (rotation.go, recovery.go). One call of \<open>NextSource\<close> or \<open>Next\<close> is a function of the follower and of
    what the system calls answer in it.
  \<^item> internal/securefile and lock_linux.go: SecureFile, over a table of file nodes.
  \<^item> internal/output: Sink. The Go interface \<open>Sink\<close> is the locale \<open>event_sink\<close>, \<open>NDJSONSink\<close> a record. A
    file is the sequence of its events, synced or not; \<open>sinkDurable\<close> are the synced ones of the current
    file and of those it was rotated away from; \<open>sinkCommitted\<close> takes the latter as a whole.
  \<^item> cmd/ag-audit: Diagnostics (operations.go), Processor (\<open>eventProcessor\<close> of main.go and line_limit.go),
    CheckpointWriter, Options (main.go, config.go), GapRecovery (gap_recovery.go), FollowLoop
    (\<open>runFollower\<close>), Batch (batch.go), Command (\<open>runContext\<close>, \<open>main\<close>).

  How state and effects correspond. A struct is a record whose fields carry a short prefix, a pointer
  that may be nil is an option, a returned error is a value: the sum types \<open>parseError + auditRecord\<close>,
  \<open>rotationError\<close>, \<open>secureError\<close>, and for the command the actions of Diagnostics, which return
  \<open>commandError option\<close> and the new state and are composed by \<open>andThen\<close> as the code composes them by
  \<open>if err != nil\<close>. A panic the code can reach is the result \<open>Panic\<close> or the error \<open>Panicked\<close>. Integers
  that wrap in the code are words (the counters) or bounded where the code bounds them (the byte
  counter of a line); other \<open>int\<close>s stay far below their range and are unbounded. What the program does
  not decide is an argument: every clock reading, every answer of a system call in the order of
  the calls, the JSON codecs, SHA-256, \<open>strings.ToLower\<close>, \<open>strconv.IsPrint\<close>, the syntax of durations. No
  theorem assumes more of them than its hypotheses say.

  Interfaces. \<open>position_order\<close> (PositionOrder) is interpreted by the comparison of the assembler, by
  that of the command and by the collector's; \<open>event_sink\<close> (Sink) and its extension \<open>canonical_sink\<close>
  (ProcessorProperties) by the NDJSON sink; \<open>effect\<close> (Diagnostics), a relation every composition of
  actions keeps, by the growth of the committed output and, as sublocales of \<open>sink_relation\<close>
  (OutputEffects), by the growth, the wholeness and the syncing of the output files; \<open>follow_services\<close>
  (FollowProcessor), over which the follow loop is verified, by the services with the NDJSON sink.

  What the lemmas show.
  \<^item> RecordTheorems: which lines are accepted and what an accepted record satisfies; the lexer and
    its normal form.
  \<^item> AssemblerInvariant to AssemblerTheorems: in every reachable state (\<open>asmReachable\<close>) the limits hold,
    records are conserved, rejected keys are isolated, nothing overstays, the safe source position
    is a lower bound of what is retained, and the order of a Go map does not show.
  \<^item> DecodingProperties, ArgumentProperties, CanonicalProperties, SemanticTheorems: what the canonical
    event asserts (values, results, the actor, the class of an operation) is evidenced by the records;
    the argument vector is exact; rejected input is kept byte for byte.
  \<^item> FollowerProperties, RotationProperties, RotationStream, CollectorTheorems, ResumeTheorems: the
    generations are read as one stream of lines; a checkpoint resumes at the very byte; the state
    documents are replaced atomically, whatever a failing call leaves in the temporary file; one step
    can panic, and exactly when. RotationWorld has the generations as files on the disk that exist
    without the follower (\<open>worldRun\<close>): the queue made from a listing of them leads to the next one, so
    that none is skipped. It assumes that a file which was rotated away and has kept its size for the
    drain interval is complete, which is what the code relies on.
  \<^item> SecureFileProperties: what a successful open guarantees, and that a lock is exclusive.
  \<^item> ProcessorProperties, Accounting: the processor refines an append-only log; every line is
    accounted for in it or pending.
  \<^item> FollowAligned to FollowTheorems: the checkpoint never runs ahead of the durable output, in any
    run and any failure, by an invariant of the loop over a ghost trace of the lines returned
    (\<open>loopInv\<close>). It speaks of the committed events; that these are synced follows from
    \<open>sinkSettled\<close>, that every file rotated away has been synced, which all operations keep.
    FollowSamples is a concrete run.
  \<^item> OutputEffects, BatchProperties, BatchAccounting, OutputTheorems: the output only grows, in whole lines; batch mode
    is the processing of the physical lines, and reports all of them, or, when it is cancelled, those
    read before (\<open>inputReported\<close>).
  \<^item> RecoveryTheorems: a recovery interrupted anywhere can be restarted. CommandTheorems: accepted
    options, trusted files, one process per lock, and the batch command from its arguments to the
    closed output.

  Bounds and termination. No definition has fuel. The reading loops (\<open>NextSource\<close>, \<open>batchLoop\<close>) end because
  each turn consumes bytes of a finite buffer or input. The loop of follow mode has no end of its own:
  \<open>followLoop\<close> runs over a list of environments, one per iteration, and a result \<open>GoOn\<close> says that it is
  still running; the properties hold for every list, so at every moment of an endless run.

  Not modelled. The text of error messages and the JSON text of events and log entries; the
  installation of the signal handlers, \<open>writeUsage\<close> and the version string; the parsing of the
  embedded JSON files, whose content is data here; the waits between polls; the contents of the lock
  file; the build for other systems than Linux. Between two system calls of one operation of
  SecureFile the file system changes only by that operation. A crash is the end of a run at one of its
  failing calls: what a write leaves in a file system that loses power is covered by the distinction
  of synced and unsynced events only.
\<close>

end
